(* ===== verification/Prelude.thy ===== *)
theory Prelude
  imports Main "HOL-Library.Word" "HOL-Library.Sublist"
begin

unbundle bit_operations_syntax

section \<open>Shared types, results and library interfaces\<close>

text \<open>
  What every component of the development shares:
  \<^item> the machine integers of the Rust sources as words;
  \<^item> \<open>res\<close>, the outcome of a Rust call: a value, an error value, a panic, a spin lock taken
    twice by its holder, or a bounded recursion that has used up its fuel; \<open>and_then\<close> is the
    \<open>?\<close> operator;
  \<^item> the flat order on outcomes used to compare runs with different fuel;
  \<^item> \<open>BTreeMap\<close> as an ordered association list, with its interface stated as a locale;
  \<^item> little-endian conversions of the standard library;
  \<^item> the operations of the third-party crates (\<open>bit_field\<close>, \<open>bitvec\<close>, \<open>byteorder\<close>) as a record
    of functions that the definitions take as an argument, and what the crates document about
    them as locales.
\<close>

type_synonym u8 = "8 word"
type_synonym u16 = "16 word"
type_synonym u32 = "32 word"
type_synonym u64 = "64 word"
type_synonym bytes = "u8 list"

named_theorems res_simps \<open>evaluation of outcomes\<close>
named_theorems flat_intros \<open>monotonicity rules of the flat order\<close>
named_theorems psat_intros \<open>rules of the parser invariants\<close>

subsection \<open>Outcomes\<close>

datatype ('a, 'e) res = Ok 'a | Err 'e | Panic | Deadlock | OutOfFuel

definition and_then :: "('a, 'e) res \<Rightarrow> ('a \<Rightarrow> ('b, 'e) res) \<Rightarrow> ('b, 'e) res" where
  "and_then r f =
     (case r of Ok x \<Rightarrow> f x | Err e \<Rightarrow> Err e | Panic \<Rightarrow> Panic | Deadlock \<Rightarrow> Deadlock
      | OutOfFuel \<Rightarrow> OutOfFuel)"

definition map_err :: "('e \<Rightarrow> 'f) \<Rightarrow> ('a, 'e) res \<Rightarrow> ('a, 'f) res" where
  "map_err f r =
     (case r of Ok x \<Rightarrow> Ok x | Err e \<Rightarrow> Err (f e) | Panic \<Rightarrow> Panic | Deadlock \<Rightarrow> Deadlock
      | OutOfFuel \<Rightarrow> OutOfFuel)"

definition unwrap :: "('a, 'e) res \<Rightarrow> ('a, 'f) res" where
  "unwrap r =
     (case r of Ok x \<Rightarrow> Ok x | Err _ \<Rightarrow> Panic | Panic \<Rightarrow> Panic | Deadlock \<Rightarrow> Deadlock
      | OutOfFuel \<Rightarrow> OutOfFuel)"

definition ok_or :: "'e \<Rightarrow> 'a option \<Rightarrow> ('a, 'e) res" where
  "ok_or e x = (case x of None \<Rightarrow> Err e | Some y \<Rightarrow> Ok y)"

definition unwrap_option :: "'a option \<Rightarrow> ('a, 'e) res" where
  "unwrap_option x = (case x of None \<Rightarrow> Panic | Some y \<Rightarrow> Ok y)"

lemma and_then_simps [simp, res_simps]:
  "and_then (Ok x) f = f x"
  "and_then (Err e) f = Err e"
  "and_then Panic f = Panic"
  "and_then Deadlock f = Deadlock"
  "and_then OutOfFuel f = OutOfFuel"
  by (simp_all add: and_then_def)

lemma map_err_simps [simp, res_simps]:
  "map_err f (Ok x) = Ok x"
  "map_err f (Err e) = Err (f e)"
  "map_err f Panic = Panic"
  "map_err f Deadlock = Deadlock"
  "map_err f OutOfFuel = OutOfFuel"
  by (simp_all add: map_err_def)

lemma unwrap_simps [simp, res_simps]:
  "unwrap (Ok x) = Ok x"
  "unwrap (Err e) = Panic"
  "unwrap Panic = Panic"
  "unwrap Deadlock = Deadlock"
  "unwrap OutOfFuel = OutOfFuel"
  by (simp_all add: unwrap_def)

lemma ok_or_simps [simp, res_simps]:
  "ok_or e None = Err e"
  "ok_or e (Some x) = Ok x"
  by (simp_all add: ok_or_def)

lemma unwrap_option_simps [simp, res_simps]:
  "unwrap_option None = Panic"
  "unwrap_option (Some x) = Ok x"
  by (simp_all add: unwrap_option_def)

lemma and_then_cong [fundef_cong]:
  "r = r' \<Longrightarrow> (\<And>x. r' = Ok x \<Longrightarrow> f x = g x) \<Longrightarrow> and_then r f = and_then r' g"
  by (cases r') simp_all

lemma and_then_eq_Ok:
  "and_then r f = Ok y \<longleftrightarrow> (\<exists>x. r = Ok x \<and> f x = Ok y)"
  by (cases r) simp_all

lemma and_then_eq_Err:
  "and_then r f = Err e \<longleftrightarrow> r = Err e \<or> (\<exists>x. r = Ok x \<and> f x = Err e)"
  by (cases r) simp_all

lemma map_err_eq_Ok: "map_err f r = Ok x \<longleftrightarrow> r = Ok x"
  by (cases r) simp_all

lemma unwrap_eq_Ok: "unwrap r = Ok x \<longleftrightarrow> r = Ok x"
  by (cases r) simp_all

lemma unwrap_not_Err [simp]: "unwrap r \<noteq> Err e"
  by (cases r) simp_all

lemma ok_or_eq_Ok: "ok_or e x = Ok y \<longleftrightarrow> x = Some y"
  by (cases x) simp_all

lemma ok_or_eq_Err: "ok_or e x = Err e' \<longleftrightarrow> x = None \<and> e = e'"
  by (cases x) auto

lemma unwrap_option_eq: "unwrap_option x = Ok y \<longleftrightarrow> x = Some y" "unwrap_option x \<noteq> Err e"
  by (cases x; simp)+

lemmas res_elims = and_then_eq_Ok and_then_eq_Err map_err_eq_Ok unwrap_eq_Ok ok_or_eq_Ok
  ok_or_eq_Err unwrap_option_eq

subsection \<open>The flat order\<close>

text \<open>
  \<open>flat_le r r'\<close>: the run with outcome \<open>r\<close> either used up its fuel or has exactly the
  outcome \<open>r'\<close>.
\<close>

definition flat_le :: "('a, 'e) res \<Rightarrow> ('a, 'e) res \<Rightarrow> bool" where
  "flat_le r r' \<longleftrightarrow> r = OutOfFuel \<or> r = r'"

lemma flat_le_refl [simp, flat_intros]: "flat_le r r"
  by (simp add: flat_le_def)

lemma flat_le_fuel [simp]: "flat_le OutOfFuel r"
  by (simp add: flat_le_def)

lemma flat_le_trans: "flat_le a b \<Longrightarrow> flat_le b c \<Longrightarrow> flat_le a c"
  by (auto simp: flat_le_def)

lemma flat_le_and_then [flat_intros]:
  assumes "flat_le r r'" and "\<And>x. r' = Ok x \<Longrightarrow> flat_le (f x) (g x)"
  shows "flat_le (and_then r f) (and_then r' g)"
  using assms by (cases r) (auto simp: flat_le_def)

lemma flat_le_unwrap [flat_intros]: "flat_le r r' \<Longrightarrow> flat_le (unwrap r) (unwrap r')"
  by (auto simp: flat_le_def)

lemma flat_le_map_err [flat_intros]: "flat_le r r' \<Longrightarrow> flat_le (map_err f r) (map_err f r')"
  by (auto simp: flat_le_def)

lemma flat_le_case [flat_intros]:
  assumes "flat_le r r'"
    and "\<And>x. flat_le (f x) (f' x)" and "\<And>e. flat_le (g e) (g' e)"
  shows "flat_le (case r of Ok x \<Rightarrow> f x | Err e \<Rightarrow> g e | Panic \<Rightarrow> Panic | Deadlock \<Rightarrow> Deadlock
                  | OutOfFuel \<Rightarrow> OutOfFuel)
                 (case r' of Ok x \<Rightarrow> f' x | Err e \<Rightarrow> g' e | Panic \<Rightarrow> Panic | Deadlock \<Rightarrow> Deadlock
                  | OutOfFuel \<Rightarrow> OutOfFuel)"
proof (cases "r = OutOfFuel")
  case False
  with assms(1) have "r = r'" by (simp add: flat_le_def)
  then show ?thesis using assms(2,3) by (cases r') simp_all
qed simp

subsection \<open>Ordered maps (\<open>BTreeMap\<close>)\<close>

fun btree_insert :: "'k::linorder \<Rightarrow> 'v \<Rightarrow> ('k \<times> 'v) list \<Rightarrow> ('k \<times> 'v) list" where
  "btree_insert k v [] = [(k, v)]"
| "btree_insert k v ((a, b) # m) =
     (if k < a then (k, v) # (a, b) # m
      else if k = a then (k, v) # m
      else (a, b) # btree_insert k v m)"

definition btree_remove :: "'k \<Rightarrow> ('k \<times> 'v) list \<Rightarrow> ('k \<times> 'v) list" where
  "btree_remove k m = filter (\<lambda>(a, _). a \<noteq> k) m"

definition btree_ok :: "('k::linorder \<times> 'v) list \<Rightarrow> bool" where
  "btree_ok m \<longleftrightarrow> sorted_wrt (<) (map fst m)"

text \<open>The interface a \<open>BTreeMap\<close> offers, and what clients use of it.\<close>

locale ordered_map =
  fixes get :: "'m \<Rightarrow> 'k \<Rightarrow> 'v option"
    and ins :: "'k \<Rightarrow> 'v \<Rightarrow> 'm \<Rightarrow> 'm"
    and del :: "'k \<Rightarrow> 'm \<Rightarrow> 'm"
    and empty :: 'm
    and inv :: "'m \<Rightarrow> bool"
  assumes get_empty: "get empty k = None"
    and get_ins: "get (ins k v m) = (get m)(k \<mapsto> v)"
    and get_del: "get (del k m) = (get m)(k := None)"
    and inv_empty: "inv empty"
    and inv_ins: "inv m \<Longrightarrow> inv (ins k v m)"
    and inv_del: "inv m \<Longrightarrow> inv (del k m)"
begin

lemma get_ins_same: "get (ins k v m) k = Some v"
  by (simp add: get_ins)

lemma get_ins_other: "k' \<noteq> k \<Longrightarrow> get (ins k v m) k' = get m k'"
  by (simp add: get_ins)

lemma get_del_ins: "get m k = None \<Longrightarrow> get (del k (ins k v m)) = get m"
  by (auto simp: get_ins get_del)

lemma dom_ins: "dom (get (ins k v m)) = insert k (dom (get m))"
  by (simp add: get_ins)

lemma ran_ins: "x \<in> ran (get (ins k v m)) \<Longrightarrow> x = v \<or> x \<in> ran (get m)"
  by (auto simp: get_ins ran_def split: if_splits)

end

lemma map_of_btree_insert: "map_of (btree_insert k v m) = (map_of m)(k \<mapsto> v)"
  by (induction m) (auto simp: fun_eq_iff)

lemma map_of_btree_remove: "map_of (btree_remove k m) = (map_of m)(k := None)"
  by (induction m) (auto simp: btree_remove_def fun_eq_iff)

lemma set_keys_btree_insert: "fst ` set (btree_insert k v m) = insert k (fst ` set m)"
proof (induction m)
  case (Cons p m)
  then show ?case by (cases p) (simp add: insert_commute)
qed simp

lemma btree_ok_insert: "btree_ok m \<Longrightarrow> btree_ok (btree_insert k v m)"
proof (induction m)
  case Nil
  then show ?case by (simp add: btree_ok_def)
next
  case (Cons p m)
  obtain a b where p: "p = (a, b)" by (cases p)
  from Cons have ok: "btree_ok (btree_insert k v m)" and lt: "\<forall>x \<in> fst ` set m. a < x"
    by (auto simp: btree_ok_def p)
  show ?case
  proof (cases "a < k")
    case True
    with lt have "\<forall>x \<in> fst ` set (btree_insert k v m). a < x"
      by (simp only: set_keys_btree_insert) blast
    with ok True show ?thesis
      by (auto simp: btree_ok_def p)
  next
    case False
    with Cons.prems lt show ?thesis
      by (auto simp: btree_ok_def p)
  qed
qed

lemma btree_ok_remove: "btree_ok m \<Longrightarrow> btree_ok (btree_remove k m)"
  by (induction m) (auto simp: btree_ok_def btree_remove_def)

interpretation btm: ordered_map map_of btree_insert btree_remove "[]" btree_ok
  by unfold_locales
    (simp_all add: map_of_btree_insert map_of_btree_remove btree_ok_insert btree_ok_remove
      btree_ok_def[of "[]"])

lemmas btree_simps [simp] = map_of_btree_insert map_of_btree_remove

text \<open>
  Inserting over a present key changes the value in place, so the keys of the map stay as
  they are; removing a key that was not there before an insertion gives the map back.
\<close>

lemma btree_remove_absent: "map_of m k = None \<Longrightarrow> btree_remove k m = m"
  by (induction m) (auto simp: btree_remove_def split: if_splits)

lemma btree_remove_insert:
  "map_of m k = None \<Longrightarrow> btree_remove k (btree_insert k v m) = m"
  by (induction m) (auto simp: btree_remove_def btree_remove_absent[unfolded btree_remove_def]
      split: if_splits)

subsection \<open>Standard-library conversions\<close>

text \<open>\<open>from_le_bytes\<close> and \<open>to_le_bytes\<close>: the value of a little-endian byte string.\<close>

fun le_value :: "bytes \<Rightarrow> nat" where
  "le_value [] = 0"
| "le_value (b # bs) = unat b + 256 * le_value bs"

definition to_le_bytes :: "nat \<Rightarrow> nat \<Rightarrow> bytes" where
  "to_le_bytes n x = map (\<lambda>i. word_of_nat (x div 256 ^ i)) [0..<n]"

lemma length_to_le_bytes [simp]: "length (to_le_bytes n x) = n"
  by (simp add: to_le_bytes_def)

lemma unat_u8_lt [simp]: "unat (b :: u8) < 256"
  using unsigned_less[of b, where 'a=nat] by simp

lemma le_value_bound: "le_value bs < 256 ^ length bs"
proof (induction bs)
  case Nil
  then show ?case by simp
next
  case (Cons b bs)
  define P :: nat where "P = 256 ^ length bs"
  have "unat b < 256" by (rule unat_u8_lt)
  moreover have "le_value bs < P" using Cons.IH by (simp add: P_def)
  moreover have "x + 256 * y < 256 * P" if "x < 256" "y < P" for x y :: nat
    using that by simp
  ultimately have "unat b + 256 * le_value bs < 256 * P" by blast
  then show ?case by (simp add: P_def)
qed

lemma to_le_bytes_Suc:
  "to_le_bytes (Suc n) x = word_of_nat x # to_le_bytes n (x div 256)"
  by (simp add: to_le_bytes_def upt_conv_Cons map_Suc_upt [symmetric] div_mult2_eq
      del: upt_Suc)

lemma unat_of_nat_u8: "unat (word_of_nat x :: u8) = x mod 256"
  by (simp add: unat_of_nat)

lemma le_value_to_le_bytes: "le_value (to_le_bytes n x) = x mod 256 ^ n"
proof (induction n arbitrary: x)
  case 0
  then show ?case by (simp add: to_le_bytes_def)
next
  case (Suc n)
  then show ?case
    by (simp add: to_le_bytes_Suc unat_of_nat_u8 mod_mult2_eq)
qed

lemma to_le_bytes_le_value: "to_le_bytes (length bs) (le_value bs) = bs"
proof (induction bs)
  case Nil
  then show ?case by (simp add: to_le_bytes_def)
next
  case (Cons b bs)
  have b: "unat b < 256" by simp
  have "unat (word_of_nat (unat b + 256 * le_value bs) :: u8) = unat b"
    by (simp only: unat_of_nat_u8) (simp add: b)
  then have "word_of_nat (unat b + 256 * le_value bs) = b" by (simp only: word_unat_eq_iff)
  with b Cons.IH show ?case by (simp add: to_le_bytes_Suc)
qed

text \<open>Rust's \<open>usize\<close> is 64 bits wide; \<open>len() as u32\<close> keeps the low 32 bits of a length.\<close>

definition len_u32 :: "bytes \<Rightarrow> u32" where
  "len_u32 xs = word_of_nat (length xs)"

lemma unat_len_u32: "unat (len_u32 xs) = length xs mod 2 ^ 32"
  by (simp add: len_u32_def unat_of_nat)

lemma unat_len_u32_le: "unat (len_u32 xs) \<le> length xs"
  by (simp add: unat_len_u32)

lemma unat_len_u32_small [simp]: "length xs < 2 ^ 32 \<Longrightarrow> unat (len_u32 xs) = length xs"
  by (simp add: unat_len_u32)

definition checked_sub_u32 :: "u32 \<Rightarrow> u32 \<Rightarrow> u32 option" where
  "checked_sub_u32 a b = (if b \<le> a then Some (a - b) else None)"

lemma checked_sub_u32_Some:
  "checked_sub_u32 a b = Some c \<longleftrightarrow> unat b \<le> unat a \<and> unat c = unat a - unat b"
  by (auto simp: checked_sub_u32_def word_le_nat_alt unat_sub word_unat_eq_iff)

text \<open>Checked \<open>u64\<close> arithmetic: overflow panics.\<close>

definition add_u64 :: "u64 \<Rightarrow> u64 \<Rightarrow> (u64, 'e) res" where
  "add_u64 a b = (if unat a + unat b < 2 ^ 64 then Ok (a + b) else Panic)"

definition mul_u64 :: "u64 \<Rightarrow> u64 \<Rightarrow> (u64, 'e) res" where
  "mul_u64 a b = (if unat a * unat b < 2 ^ 64 then Ok (a * b) else Panic)"

definition sub_u64 :: "u64 \<Rightarrow> u64 \<Rightarrow> (u64, 'e) res" where
  "sub_u64 a b = (if b \<le> a then Ok (a - b) else Panic)"

lemma add_u64_Ok: "add_u64 a b = Ok c \<longleftrightarrow> unat a + unat b < 2 ^ 64 \<and> c = a + b"
  by (auto simp: add_u64_def)

lemma arith_not_Err [simp]:
  "add_u64 a b \<noteq> Err e" "mul_u64 a b \<noteq> Err e" "sub_u64 a b \<noteq> Err e"
  by (simp_all add: add_u64_def mul_u64_def sub_u64_def)

text \<open>\<open>u64::next_power_of_two\<close> (0 and 1 both give 1; overflow panics).\<close>

fun next_pow2_from :: "nat \<Rightarrow> nat \<Rightarrow> nat \<Rightarrow> nat" where
  "next_pow2_from 0 p x = p"
| "next_pow2_from (Suc k) p x = (if x \<le> p then p else next_pow2_from k (2 * p) x)"

definition next_power_of_two_u64 :: "u64 \<Rightarrow> (u64, 'e) res" where
  "next_power_of_two_u64 x =
     (if unat x \<le> 2 ^ 63 then Ok (word_of_nat (next_pow2_from 64 1 (unat x))) else Panic)"

text \<open>\<open>str::from_utf8\<close>: the well-formed byte sequences of the Unicode standard.\<close>

definition is_cont :: "u8 \<Rightarrow> bool" where
  "is_cont b \<longleftrightarrow> 0x80 \<le> b \<and> b \<le> 0xBF"

fun utf8_valid :: "bytes \<Rightarrow> bool" where
  "utf8_valid [] = True"
| "utf8_valid (a # xs) =
     (if a \<le> 0x7F then utf8_valid xs
      else if 0xC2 \<le> a \<and> a \<le> 0xDF then
        (case xs of b # ys \<Rightarrow> is_cont b \<and> utf8_valid ys | _ \<Rightarrow> False)
      else if 0xE0 \<le> a \<and> a \<le> 0xEF then
        (case xs of b # c # ys \<Rightarrow>
           is_cont b \<and> is_cont c \<and> (a = 0xE0 \<longrightarrow> 0xA0 \<le> b) \<and> (a = 0xED \<longrightarrow> b \<le> 0x9F)
           \<and> utf8_valid ys
         | _ \<Rightarrow> False)
      else if 0xF0 \<le> a \<and> a \<le> 0xF4 then
        (case xs of b # c # d # ys \<Rightarrow>
           is_cont b \<and> is_cont c \<and> is_cont d \<and> (a = 0xF0 \<longrightarrow> 0x90 \<le> b)
           \<and> (a = 0xF4 \<longrightarrow> b \<le> 0x8F) \<and> utf8_valid ys
         | _ \<Rightarrow> False)
      else False)"

text \<open>A \<open>String\<close> is its UTF-8 bytes; a \<open>char\<close> of HOL is one byte.\<close>

definition string_of_bytes :: "bytes \<Rightarrow> string" where
  "string_of_bytes bs = map (\<lambda>b. char_of (unat b)) bs"

definition bytes_of_string :: "string \<Rightarrow> bytes" where
  "bytes_of_string s = map (\<lambda>c. word_of_nat (of_char c)) s"

lemma bytes_of_string_of_bytes [simp]: "bytes_of_string (string_of_bytes bs) = bs"
proof -
  have "word_of_nat (of_char (char_of (unat b) :: char)) = b" for b :: u8
    using unat_u8_lt[of b] by (simp add: of_char_of)
  then show ?thesis by (simp add: bytes_of_string_def string_of_bytes_def map_idI)
qed

lemma string_of_bytes_of_string [simp]: "string_of_bytes (bytes_of_string s) = s"
proof -
  have "char_of (unat (word_of_nat (of_char c) :: u8)) = c" for c :: char
    by (simp add: unat_of_nat)
  then show ?thesis by (simp add: bytes_of_string_def string_of_bytes_def map_idI)
qed

lemma length_bytes_of_string [simp]: "length (bytes_of_string s) = length s"
  by (simp add: bytes_of_string_def)

lemma length_string_of_bytes [simp]: "length (string_of_bytes s) = length s"
  by (simp add: string_of_bytes_def)

subsection \<open>Third-party crates\<close>

text \<open>
  The sources call three crates whose code is not part of the repository. Their operations
  are the fields of a record; the definitions that use them take the record as an argument.
  Ranges \<open>a..b\<close> are given by their two ends; \<open>None\<close> stands for a panic of the crate.
\<close>

record crates =
  get_bit_u8 :: "u8 \<Rightarrow> nat \<Rightarrow> bool"
  get_bits_u8 :: "u8 \<Rightarrow> nat \<Rightarrow> nat \<Rightarrow> u8"
  set_bit_u8 :: "u8 \<Rightarrow> nat \<Rightarrow> bool \<Rightarrow> u8"
  set_bits_u8 :: "u8 \<Rightarrow> nat \<Rightarrow> nat \<Rightarrow> u8 \<Rightarrow> u8"
  get_bit_u64 :: "u64 \<Rightarrow> nat \<Rightarrow> bool"
  get_bits_u64 :: "u64 \<Rightarrow> nat \<Rightarrow> nat \<Rightarrow> u64 option"
  set_bits_u64 :: "u64 \<Rightarrow> nat \<Rightarrow> nat \<Rightarrow> u64 \<Rightarrow> u64 option"
  view_bits :: "bytes \<Rightarrow> bool list"
  bits_into_vec :: "bool list \<Rightarrow> bytes"
  le_read_u16 :: "bytes \<Rightarrow> u16 option"
  le_read_u32 :: "bytes \<Rightarrow> u32 option"
  le_read_uint :: "bytes \<Rightarrow> nat \<Rightarrow> u64 option"

text \<open>
  \<open>bit_field\<close>: index 0 is the least significant bit; \<open>get_bits\<close> obtains the bits of a
  non-empty range that lies within the width; \<open>set_bits\<close> replaces them, and panics when the
  value has a bit set outside the low bits of the range.
\<close>

locale bit_field_crate =
  fixes K :: "'z crates_scheme"
  assumes get_bit_u8: "i < 8 \<Longrightarrow> get_bit_u8 K x i = bit x i"
    and get_bits_u8: "a < b \<Longrightarrow> b \<le> 8 \<Longrightarrow> get_bits_u8 K x a b = take_bit (b - a) (drop_bit a x)"
    and set_bit_u8: "i < 8 \<Longrightarrow> bit (set_bit_u8 K x i v) j = (if j = i then v else bit x j)"
    and set_bits_u8: "a < b \<Longrightarrow> b \<le> 8 \<Longrightarrow> take_bit (b - a) y = y \<Longrightarrow>
          bit (set_bits_u8 K x a b y) j = (if a \<le> j \<and> j < b then bit y (j - a) else bit x j)"
    and get_bit_u64: "i < 64 \<Longrightarrow> get_bit_u64 K w i = bit w i"
    and get_bits_u64: "a < b \<Longrightarrow> b \<le> 64 \<Longrightarrow>
          get_bits_u64 K w a b = Some (take_bit (b - a) (drop_bit a w))"
    and get_bits_u64_range: "64 < b \<Longrightarrow> get_bits_u64 K w a b = None"
    and set_bits_u64: "a < b \<Longrightarrow> b \<le> 64 \<Longrightarrow> take_bit (b - a) u = u \<Longrightarrow>
          \<exists>r. set_bits_u64 K w a b u = Some r \<and>
              (\<forall>j. bit r j = (if a \<le> j \<and> j < b then bit u (j - a) else bit w j))"
    and set_bits_u64_large: "a < b \<Longrightarrow> b \<le> 64 \<Longrightarrow> take_bit (b - a) u \<noteq> u \<Longrightarrow>
          set_bits_u64 K w a b u = None"

text \<open>
  \<open>bitvec\<close> with \<open>Lsb0\<close> order: bit \<open>i\<close> of the view of a byte slice is bit \<open>i mod 8\<close> of byte
  \<open>i div 8\<close>; a bit vector is turned into whole bytes, the unused bits of the last one being
  the ones \<open>set_uninitialized(false)\<close> has cleared.
\<close>

locale bitvec_crate =
  fixes K :: "'z crates_scheme"
  assumes length_view_bits: "length (view_bits K bs) = 8 * length bs"
    and view_bits_nth: "i < 8 * length bs \<Longrightarrow> view_bits K bs ! i = bit (bs ! (i div 8)) (i mod 8)"
    and length_bits_into_vec: "length (bits_into_vec K xs) = (length xs + 7) div 8"
    and bits_into_vec_nth: "i < 8 * length (bits_into_vec K xs) \<Longrightarrow>
          bit (bits_into_vec K xs ! (i div 8)) (i mod 8) = (i < length xs \<and> xs ! i)"

text \<open>
  \<open>byteorder\<close> with \<open>LittleEndian\<close>: \<open>read_u16\<close> and \<open>read_u32\<close> read a number from the front of a slice,
  \<open>read_uint\<close> one of the given number of bytes, from one to eight; a slice that is too short panics.
\<close>

locale byteorder_crate =
  fixes K :: "'z crates_scheme"
  assumes le_read_u16: "2 \<le> length bs \<Longrightarrow> le_read_u16 K bs = Some (word_of_nat (le_value (take 2 bs)))"
    and le_read_u16_short: "length bs < 2 \<Longrightarrow> le_read_u16 K bs = None"
    and le_read_u32: "4 \<le> length bs \<Longrightarrow> le_read_u32 K bs = Some (word_of_nat (le_value (take 4 bs)))"
    and le_read_u32_short: "length bs < 4 \<Longrightarrow> le_read_u32 K bs = None"
    and le_read_uint: "1 \<le> n \<Longrightarrow> n \<le> 8 \<Longrightarrow> n \<le> length bs \<Longrightarrow>
          le_read_uint K bs n = Some (word_of_nat (le_value (take n bs)))"
    and le_read_uint_short: "n < 1 \<or> 8 < n \<or> length bs < n \<Longrightarrow> le_read_uint K bs n = None"

text \<open>A reference instance of the crates, bit by bit and byte by byte.\<close>

definition set_range :: "'a::len word \<Rightarrow> nat \<Rightarrow> nat \<Rightarrow> 'a word \<Rightarrow> 'a word" where
  "set_range w a b v = (w AND NOT (push_bit a (mask (b - a)))) OR push_bit a (take_bit (b - a) v)"

definition byte_of_bits :: "bool list \<Rightarrow> u8" where
  "byte_of_bits xs = horner_sum of_bool 2 (take 8 xs)"

fun bytes_of_bits :: "nat \<Rightarrow> bool list \<Rightarrow> bytes" where
  "bytes_of_bits 0 xs = []"
| "bytes_of_bits (Suc n) xs = byte_of_bits xs # bytes_of_bits n (drop 8 xs)"

definition std_crates :: crates where
  "std_crates = \<lparr>
     get_bit_u8 = (\<lambda>x i. bit x i),
     get_bits_u8 = (\<lambda>x a b. take_bit (b - a) (drop_bit a x)),
     set_bit_u8 = (\<lambda>x i v. set_range x i (Suc i) (of_bool v)),
     set_bits_u8 = (\<lambda>x a b y. set_range x a b y),
     get_bit_u64 = (\<lambda>x i. bit x i),
     get_bits_u64 = (\<lambda>w a b. if a < b \<and> b \<le> 64 then Some (take_bit (b - a) (drop_bit a w)) else None),
     set_bits_u64 = (\<lambda>w a b v. if a < b \<and> b \<le> 64 \<and> take_bit (b - a) v = v
                               then Some (set_range w a b v) else None),
     view_bits = (\<lambda>bs. concat (map (\<lambda>b. map (bit b) [0..<8]) bs)),
     bits_into_vec = (\<lambda>xs. bytes_of_bits ((length xs + 7) div 8) xs),
     le_read_u16 = (\<lambda>bs. if 2 \<le> length bs then Some (word_of_nat (le_value (take 2 bs))) else None),
     le_read_u32 = (\<lambda>bs. if 4 \<le> length bs then Some (word_of_nat (le_value (take 4 bs))) else None),
     le_read_uint = (\<lambda>bs n. if 1 \<le> n \<and> n \<le> 8 \<and> n \<le> length bs
                             then Some (word_of_nat (le_value (take n bs))) else None) \<rparr>"

lemma bit_set_range:
  fixes w v :: "'a::len word"
  assumes "b \<le> LENGTH('a)"
  shows "bit (set_range w a b v) j = (if a \<le> j \<and> j < b then bit v (j - a) else bit w j)"
proof (cases "j < LENGTH('a)")
  case True
  then show ?thesis
    using assms
    by (auto simp: set_range_def bit_simps)
next
  case False
  then have "\<not> bit (set_range w a b v) j" "\<not> bit w j"
    by (auto dest: bit_imp_le_length)
  with False assms show ?thesis by auto
qed

lemma bit_byte_of_bits: "j < 8 \<Longrightarrow> bit (byte_of_bits xs) j = (j < length xs \<and> xs ! j)"
  by (auto simp: byte_of_bits_def bit_horner_sum_bit_word_iff)

lemma bytes_of_bits_nth:
  "i < n \<Longrightarrow> bytes_of_bits n xs ! i = byte_of_bits (drop (8 * i) xs)"
proof (induction n arbitrary: i xs)
  case 0
  then show ?case by simp
next
  case (Suc n)
  then show ?case by (cases i) (simp_all add: algebra_simps)
qed

lemma length_bytes_of_bits [simp]: "length (bytes_of_bits n xs) = n"
  by (induction n arbitrary: xs) simp_all

lemma concat_bits_nth:
  "i < 8 * length bs \<Longrightarrow>
   concat (map (\<lambda>b :: u8. map (bit b) [0..<8]) bs) ! i = bit (bs ! (i div 8)) (i mod 8)"
proof (induction bs arbitrary: i)
  case Nil
  then show ?case by simp
next
  case (Cons b bs)
  show ?case
  proof (cases "i < 8")
    case True
    then show ?thesis by (simp add: nth_append)
  next
    case False
    then have "i = 8 + (i - 8)" by simp
    then obtain j where j: "i = 8 + j" by blast
    have "(8 + j) div 8 = Suc (j div 8)" by simp
    with j Cons.prems Cons.IH[of j] show ?thesis by (simp add: nth_append)
  qed
qed

interpretation std_bf: bit_field_crate std_crates
  by unfold_locales (auto simp: std_crates_def bit_set_range)

interpretation std_bo: byteorder_crate std_crates
  by unfold_locales (auto simp: std_crates_def)

interpretation std_bv: bitvec_crate std_crates
proof (unfold_locales, goal_cases)
  case (1 bs)
  then show ?case by (induction bs) (simp_all add: std_crates_def)
next
  case (2 i bs)
  then show ?case by (simp add: std_crates_def concat_bits_nth)
next
  case (3 xs)
  then show ?case by (simp add: std_crates_def)
next
  case (4 i xs)
  have i: "8 * (i div 8) + i mod 8 = i" by simp
  have lt: "i mod 8 < length xs - 8 * (i div 8) \<longleftrightarrow> i < length xs" using i by linarith
  have nth: "drop (8 * (i div 8)) xs ! (i mod 8) = xs ! i" if "i < length xs"
    using that i by (subst nth_drop) simp_all
  from 4 show ?case
    using lt nth by (auto simp: std_crates_def bytes_of_bits_nth bit_byte_of_bits)
qed

end
