(* ===== verification/Aml_Types.thy ===== *)
theory Aml_Types
  imports Prelude
begin

section \<open>Data of the AML interpreter\<close>

text \<open>
  The data types of the \<open>aml\<close> crate: names (\<open>name_object.rs\<close>, \<open>namespace.rs\<close>), object
  types and values (\<open>value.rs\<close>), errors (\<open>lib.rs\<close>) and the values that propagate out of a
  parser (\<open>parser.rs\<close>). A \<open>Vec<u8>\<close> behind \<open>Arc<Spinlock<..>>\<close> is shared between the values
  that hold it; a value holds a reference (\<open>buf_ref\<close>) into the heap of such buffers that the
  context keeps. Constructors that two enumerations of the sources share carry a suffix here.
\<close>

subsection \<open>Names\<close>

datatype name_seg = NameSeg u8 u8 u8 u8

fun seg_bytes :: "name_seg \<Rightarrow> bytes" where
  "seg_bytes (NameSeg a b c d) = [a, b, c, d]"

instantiation name_seg :: linorder
begin

fun less_name_seg :: "name_seg \<Rightarrow> name_seg \<Rightarrow> bool" where
  "less_name_seg (NameSeg a b c d) (NameSeg a' b' c' d') \<longleftrightarrow>
     a < a' \<or> a = a' \<and> (b < b' \<or> b = b' \<and> (c < c' \<or> c = c' \<and> d < d'))"

definition less_eq_name_seg :: "name_seg \<Rightarrow> name_seg \<Rightarrow> bool" where
  "less_eq_name_seg x y \<longleftrightarrow> x < y \<or> x = y"

instance
proof
  fix x y z :: name_seg
  show "x < y \<longleftrightarrow> x \<le> y \<and> \<not> y \<le> x"
    by (cases x; cases y) (auto simp: less_eq_name_seg_def)
  show "x \<le> x" by (simp add: less_eq_name_seg_def)
  show "x \<le> y \<Longrightarrow> y \<le> z \<Longrightarrow> x \<le> z"
    by (cases x; cases y; cases z) (auto simp: less_eq_name_seg_def)
  show "x \<le> y \<Longrightarrow> y \<le> x \<Longrightarrow> x = y"
    by (cases x; cases y) (auto simp: less_eq_name_seg_def)
  show "x \<le> y \<or> y \<le> x"
    by (cases x; cases y) (auto simp: less_eq_name_seg_def)
qed

end

datatype name_component = Root | Prefix | Segment name_seg

type_synonym aml_name = "name_component list"

subsection \<open>Object types and errors\<close>

datatype aml_type =
    UninitializedType | BufferType | BufferFieldType | DdbHandleType | DebugObjectType
  | EventType | FieldUnitType | DeviceType | IntegerType | MethodType | MutexType
  | ObjReferenceType | OpRegionType | PackageType | PowerResourceType | ProcessorType
  | RawDataBufferType | StringType | ThermalZoneType

type_synonym arg_num = u8
type_synonym local_num = u8

datatype aml_error =
    UnexpectedEndOfStream | UnexpectedByte u8 | MalformedStream | InvalidNameSeg
  | InvalidPkgLength | InvalidFieldFlags | UnterminatedStringConstant | InvalidStringConstant
  | InvalidRegionSpace u8 | MalformedPackage | MalformedBuffer | WrongParser | FatalError
  | EmptyNamesAreInvalid | InvalidNormalizedName aml_name | RootHasNoParent
  | LevelDoesNotExist aml_name | ValueDoesNotExist aml_name | NameCollision aml_name
  | TriedToRemoveRootNamespace
  | NotExecutingControlMethod | InvalidArgAccess arg_num | InvalidLocalAccess local_num
  | TooManyArgs | BreakInInvalidPosition | ContinueInInvalidPosition
  | PrtInvalidAddress | PrtInvalidPin | PrtInvalidSource | PrtInvalidGsi | PrtNoEntry
  | ReservedResourceType | ResourceDescriptorTooShort | ResourceDescriptorTooLong
  | UnexpectedResourceType
  | IncompatibleValueConversion aml_type aml_type \<comment> \<open>current, target\<close>
  | InvalidStatusObject | InvalidShiftLeft | InvalidShiftRight | FieldRegionIsNotOpRegion
  | FieldInvalidAddress | FieldInvalidAccessSize | TypeCannotBeCompared aml_type
  | TypeCannotBeSliced aml_type | TypeCannotBeWrittenToBufferField aml_type
  | BufferFieldIndexesOutOfBounds

subsection \<open>Values\<close>

datatype region_space =
    SystemMemory | SystemIo | PciConfig | EmbeddedControl | SMBus | SystemCmos | PciBarTarget
  | IPMI | GeneralPurposeIo | GenericSerialBus | OemDefined u8

datatype field_access_type =
  AnyAccess | ByteAccess | WordAccess | DWordAccess | QWordAccess | BufferAccess

datatype field_update_rule = Preserve | WriteAsOnes | WriteAsZeros

datatype field_flags = FieldFlags u8

datatype method_flags = MethodFlags u8

type_synonym aml_handle = u32
type_synonym buf_ref = nat

text \<open>
  A native method is a closure. The sources define one, the \<open>_OSI\<close> method; every other one
  comes from the user of the library and is named by a number that the environment interprets.
\<close>

datatype native_method = OsiMethod | HostNative nat

datatype method_code = Aml bytes | Native native_method

datatype aml_value =
    Boolean bool
  | Integer u64
  | String string
  | OpRegion region_space u64 u64 "aml_name option" \<comment> \<open>region, offset, length, parent device\<close>
  | Field aml_handle field_flags u64 u64 \<comment> \<open>region, flags, offset, length\<close>
  | Device
  | Method method_flags method_code
  | Buffer buf_ref
  | BufferField buf_ref u64 u64 \<comment> \<open>buffer data, offset and length in bits\<close>
  | Processor u8 u32 u8 \<comment> \<open>id, pblk address, pblk length\<close>
  | Mutex u8
  | Package "aml_value list"
  | PowerResource u8 u16 \<comment> \<open>system level, resource order\<close>
  | ThermalZone

record status_object =
  present :: bool
  enabled :: bool
  show_in_ui :: bool
  functional :: bool
  battery_present :: bool

datatype level_type =
  ScopeLevel | DeviceLevel | ProcessorLevel | PowerResourceLevel | ThermalZoneLevel | MethodLocals

datatype propagate = PErr aml_error | PReturn aml_value | PBreak | PContinue

datatype debug_verbosity = NoVerbosity | Scopes | AllScopes | AllVerbosity

fun verbosity_rank :: "debug_verbosity \<Rightarrow> nat" where
  "verbosity_rank NoVerbosity = 0"
| "verbosity_rank Scopes = 1"
| "verbosity_rank AllScopes = 2"
| "verbosity_rank AllVerbosity = 3"

end
