(* ===== verification/Aml_Name.thy ===== *)
theory Aml_Name
  imports Aml_Types
begin

section \<open>AML names\<close>

text \<open>
  \<open>AmlName\<close> (\<open>namespace.rs\<close>) and \<open>NameSeg\<close> (\<open>name_object.rs\<close>): conversion from and to
  strings, normalisation of prefix characters, parents and resolution against a scope. The
  lemmas relate the string conversions to each other and give normalisation its meaning: a
  walk through a tree of directories in which \<open>^\<close> leaves a directory.
\<close>

subsection \<open>Name segments\<close>

definition is_lead_name_char :: "u8 \<Rightarrow> bool" where
  "is_lead_name_char byte \<longleftrightarrow> (byte \<ge> 0x41 \<and> byte \<le> 0x5A) \<or> byte = 0x5F"

definition is_digit_char :: "u8 \<Rightarrow> bool" where
  "is_digit_char byte \<longleftrightarrow> byte \<ge> 0x30 \<and> byte \<le> 0x39"

definition is_name_char :: "u8 \<Rightarrow> bool" where
  "is_name_char byte \<longleftrightarrow> is_lead_name_char byte \<or> is_digit_char byte"

definition seg_of_bytes :: "bytes \<Rightarrow> name_seg" where
  "seg_of_bytes bs = NameSeg (bs ! 0) (bs ! 1) (bs ! 2) (bs ! 3)"

fun name_seg_copy :: "bytes \<Rightarrow> nat list \<Rightarrow> bytes \<Rightarrow> (bytes, aml_error) res" where
  "name_seg_copy bs [] seg = Ok seg"
| "name_seg_copy bs (i # js) seg =
     (if \<not> is_name_char (bs ! i) then Err InvalidNameSeg
      else name_seg_copy bs js (seg[i := bs ! i]))"

definition name_seg_from_str :: "string \<Rightarrow> (name_seg, aml_error) res" where
  "name_seg_from_str s =
     (if length s < 1 \<or> length s > 4 then Err InvalidNameSeg
      else
        let seg = [0x5F, 0x5F, 0x5F, 0x5F]; bs = bytes_of_string s in
        if \<not> is_lead_name_char (bs ! 0) then Err InvalidNameSeg
        else and_then (name_seg_copy bs [1..<length bs] (seg[0 := bs ! 0]))
               (\<lambda>seg. Ok (seg_of_bytes seg)))"

definition name_seg_as_str :: "name_seg \<Rightarrow> string" where
  "name_seg_as_str seg = string_of_bytes (seg_bytes seg)"

subsection \<open>Names\<close>

definition root_name :: aml_name where
  "root_name = [Root]"

definition from_name_seg :: "name_seg \<Rightarrow> aml_name" where
  "from_name_seg seg = [Segment seg]"

definition from_components :: "name_component list \<Rightarrow> (aml_name, 'e) res" where
  "from_components cs = (if length cs > 0 then Ok cs else Panic)"

text \<open>\<open>str::split('.')\<close>, and the loop that takes the prefix characters off a part.\<close>

fun split_dots :: "string \<Rightarrow> string list" where
  "split_dots [] = [[]]"
| "split_dots (c # cs) =
     (if c = CHR ''.'' then [] # split_dots cs
      else (case split_dots cs of [] \<Rightarrow> [[c]] | p # ps \<Rightarrow> (c # p) # ps))"

fun strip_prefixes :: "string \<Rightarrow> nat \<times> string" where
  "strip_prefixes [] = (0, [])"
| "strip_prefixes (c # cs) =
     (if c = CHR ''^'' then (let (n, r) = strip_prefixes cs in (Suc n, r)) else (0, c # cs))"

fun from_str_parts :: "string list \<Rightarrow> name_component list \<Rightarrow> (aml_name, aml_error) res" where
  "from_str_parts [] components = Ok components"
| "from_str_parts (part # parts) components =
     (let (n, part') = strip_prefixes part in
      and_then (name_seg_from_str part')
        (\<lambda>seg. from_str_parts parts (components @ replicate n Prefix @ [Segment seg])))"

definition from_str :: "string \<Rightarrow> (aml_name, aml_error) res" where
  "from_str s =
     (if length s = 0 then Err EmptyNamesAreInvalid
      else
        let absolute = (hd s = CHR 0x5C);
            components = (if absolute then [Root] else []);
            s' = (if absolute then tl s else s)
        in if length s' > 0 then from_str_parts (split_dots s') components else Ok components)"

fun component_string :: "name_component \<Rightarrow> string" where
  "component_string Root = [CHR 0x5C]"
| "component_string Prefix = ''^''"
| "component_string (Segment seg) = name_seg_as_str seg @ ''.''"

definition trim_end_dots :: "string \<Rightarrow> string" where
  "trim_end_dots s = rev (dropWhile (\<lambda>c. c = CHR ''.'') (rev s))"

definition as_string :: "aml_name \<Rightarrow> string" where
  "as_string name =
     trim_end_dots (fold (\<lambda>component name. name @ component_string component) name [])"

definition is_normal :: "aml_name \<Rightarrow> bool" where
  "is_normal name \<longleftrightarrow> \<not> List.member name Prefix"

fun is_absolute :: "aml_name \<Rightarrow> bool" where
  "is_absolute (Root # _) = True"
| "is_absolute _ = False"

lemma is_absolute_Cons [simp]: "is_absolute (c # cs) \<longleftrightarrow> c = Root"
  by (cases c) simp_all

fun search_rules_apply :: "aml_name \<Rightarrow> bool" where
  "search_rules_apply [Segment _] = True"
| "search_rules_apply _ = False"

fun as_segment :: "name_component \<Rightarrow> name_seg option" where
  "as_segment (Segment seg) = Some seg"
| "as_segment _ = None"

fun normalize_fold :: "aml_name \<Rightarrow> name_component list \<Rightarrow> name_component list
    \<Rightarrow> (aml_name, aml_error) res" where
  "normalize_fold self name [] = Ok name"
| "normalize_fold self name (Segment seg # cs) = normalize_fold self (name @ [Segment seg]) cs"
| "normalize_fold self name (Root # cs) = normalize_fold self (name @ [Root]) cs"
| "normalize_fold self name (Prefix # cs) =
     (case rev name of
        Segment _ # _ \<Rightarrow> normalize_fold self (butlast name) cs
      | _ \<Rightarrow> Err (InvalidNormalizedName self))"

definition normalize_name :: "aml_name \<Rightarrow> (aml_name, aml_error) res" where
  "normalize_name self = (if is_normal self then Ok self else normalize_fold self [] self)"

definition parent :: "aml_name \<Rightarrow> (aml_name, aml_error) res" where
  "parent self =
     and_then (normalize_name self) (\<lambda>name.
       case rev name of
         [] \<Rightarrow> Err RootHasNoParent
       | Root # _ \<Rightarrow> Err RootHasNoParent
       | Segment _ # _ \<Rightarrow> Ok (butlast name)
       | Prefix # _ \<Rightarrow> Panic)"

definition resolve :: "aml_name \<Rightarrow> aml_name \<Rightarrow> (aml_name, aml_error) res" where
  "resolve self scope =
     (if \<not> is_absolute scope then Panic
      else if is_absolute self then Ok self
      else normalize_name (scope @ self))"

subsection \<open>Well-formed names and the string round trip\<close>

fun valid_seg :: "name_seg \<Rightarrow> bool" where
  "valid_seg (NameSeg a b c d) \<longleftrightarrow>
     is_lead_name_char a \<and> is_name_char b \<and> is_name_char c \<and> is_name_char d"

fun valid_component :: "name_component \<Rightarrow> bool" where
  "valid_component (Segment seg) = valid_seg seg"
| "valid_component _ = True"

fun is_segment :: "name_component \<Rightarrow> bool" where
  "is_segment (Segment _) = True"
| "is_segment _ = False"

text \<open>
  The names that have a string form: valid segments, \<open>\\<close> at the front only, and a segment at
  the end unless the name is the root.
\<close>

definition wf_name :: "aml_name \<Rightarrow> bool" where
  "wf_name n \<longleftrightarrow>
     n \<noteq> [] \<and> \<not> List.member (tl n) Root \<and> (n = [Root] \<or> is_segment (last n))
     \<and> list_all valid_component n"

lemma char_of_byte_eq: "char_of (unat b) = c \<longleftrightarrow> (b :: u8) = word_of_nat (of_char c)"
proof
  assume "char_of (unat b) = c"
  then have "of_char c = unat b" using unat_u8_lt[of b] by (auto simp: of_char_of)
  then show "b = word_of_nat (of_char c)" by simp
qed (simp add: unat_of_nat)

lemma name_char_not_special:
  assumes "is_name_char b"
  shows "b \<noteq> 0x2E" "b \<noteq> 0x5E" "b \<noteq> 0x5C"
  using assms by (auto simp: is_name_char_def is_lead_name_char_def is_digit_char_def)

lemma lead_is_name_char: "is_lead_name_char b \<Longrightarrow> is_name_char b"
  by (simp add: is_name_char_def)

lemma valid_seg_chars:
  assumes "valid_seg seg" and "c \<in> set (name_seg_as_str seg)"
  shows "c \<noteq> CHR ''.''" "c \<noteq> CHR ''^''" "c \<noteq> CHR 0x5C"
proof -
  obtain w x y z where seg: "seg = NameSeg w x y z" by (cases seg)
  with assms obtain b where b: "is_name_char b" and c: "c = char_of (unat b)"
    by (auto simp: name_seg_as_str_def string_of_bytes_def dest: lead_is_name_char)
  show "c \<noteq> CHR ''.''" "c \<noteq> CHR ''^''" "c \<noteq> CHR 0x5C"
    using name_char_not_special[OF b] by (auto simp: c char_of_byte_eq)
qed

lemma name_seg_as_str_Cons:
  "\<exists>c cs. name_seg_as_str seg = c # cs"
  by (cases seg) (simp add: name_seg_as_str_def string_of_bytes_def)

lemma name_seg_from_as_str:
  "valid_seg seg \<Longrightarrow> name_seg_from_str (name_seg_as_str seg) = Ok seg"
  by (cases seg)
    (simp add: name_seg_from_str_def name_seg_as_str_def seg_of_bytes_def Let_def upt_rec)

lemma name_seg_copy_Ok:
  "name_seg_copy bs js seg = Ok seg' \<Longrightarrow> \<forall>i \<in> set js. i < length bs \<longrightarrow> is_name_char (bs ! i)"
  by (induction bs js seg rule: name_seg_copy.induct) (auto split: if_splits)

lemma name_seg_copy_nth:
  "name_seg_copy bs js seg = Ok seg' \<Longrightarrow> length seg = 4 \<Longrightarrow> (\<forall>i \<in> set js. i < 4) \<Longrightarrow>
   length seg' = 4 \<and> (\<forall>k < 4. seg' ! k = (if k \<in> set js then bs ! k else seg ! k))"
proof (induction bs js seg rule: name_seg_copy.induct)
  case (2 bs i js seg)
  then show ?case by (auto split: if_splits simp: nth_list_update)
qed auto

lemma name_seg_from_str_valid:
  assumes "name_seg_from_str s = Ok seg"
  shows "valid_seg seg"
proof -
  let ?bs = "bytes_of_string s"
  from assms have len: "1 \<le> length s" "length s \<le> 4" and lead: "is_lead_name_char (?bs ! 0)"
    by (auto simp: name_seg_from_str_def Let_def Suc_le_eq split: if_splits)
  from assms len lead obtain seg' where
    copy: "name_seg_copy ?bs [1..<length ?bs] ([0x5F, 0x5F, 0x5F, 0x5F][0 := ?bs ! 0]) = Ok seg'"
    and seg: "seg = seg_of_bytes seg'"
    by (auto simp: name_seg_from_str_def Let_def res_elims split: if_splits)
  from name_seg_copy_Ok[OF copy]
  have chars: "\<And>i. 1 \<le> i \<Longrightarrow> i < length s \<Longrightarrow> is_name_char (?bs ! i)" by auto
  have under: "is_name_char 0x5F" by (simp add: is_name_char_def is_lead_name_char_def)
  from name_seg_copy_nth[OF copy] len
  have nth: "\<And>k. k < 4 \<Longrightarrow> seg' ! k =
      (if 1 \<le> k \<and> k < length s then ?bs ! k
       else [?bs ! 0, 0x5F, 0x5F, 0x5F] ! k)" by auto
  have n: "is_name_char (seg' ! k)" if "k \<in> {1, 2, 3}" for k
    using that nth[of k] chars[of k] under by (auto split: if_splits)
  have "is_lead_name_char (seg' ! 0)" using nth[of 0] lead by simp
  with n show ?thesis by (simp add: seg seg_of_bytes_def)
qed

text \<open>The string of a name without the final dot.\<close>

fun path_string :: "name_component list \<Rightarrow> string" where
  "path_string [] = []"
| "path_string (Root # cs) = CHR 0x5C # path_string cs"
| "path_string (Prefix # cs) = CHR ''^'' # path_string cs"
| "path_string (Segment seg # cs) =
     name_seg_as_str seg @ (if cs = [] then [] else CHR ''.'' # path_string cs)"

lemma fold_component_string:
  "fold (\<lambda>component name. name @ component_string component) cs acc
     = acc @ concat (map component_string cs)"
  by (induction cs arbitrary: acc) auto

lemma concat_component_string:
  "cs \<noteq> [] \<Longrightarrow> is_segment (last cs) \<Longrightarrow>
   concat (map component_string cs) = path_string cs @ ''.''"
  by (induction cs rule: path_string.induct) (auto split: if_splits)

lemma path_string_last:
  "cs \<noteq> [] \<Longrightarrow> is_segment (last cs) \<Longrightarrow> list_all valid_component cs \<Longrightarrow>
   path_string cs \<noteq> [] \<and> last (path_string cs) \<noteq> CHR ''.''"
proof (induction cs rule: path_string.induct)
  case (4 seg cs)
  then have v: "valid_seg seg" by simp
  obtain d ds where seg: "name_seg_as_str seg = d # ds" using name_seg_as_str_Cons by blast
  then have "last (name_seg_as_str seg) \<in> set (name_seg_as_str seg)" by simp
  with valid_seg_chars(1)[OF v this] 4 seg show ?case by (cases "cs = []") simp_all
qed (auto split: if_splits)

lemma trim_end_dots_append:
  "s \<noteq> [] \<Longrightarrow> last s \<noteq> CHR ''.'' \<Longrightarrow> trim_end_dots (s @ ''.'') = s"
  by (cases s rule: rev_cases) (auto simp: trim_end_dots_def)

lemma as_string_eq:
  assumes "cs \<noteq> []" "is_segment (last cs)" "list_all valid_component cs"
  shows "as_string cs = path_string cs"
  using path_string_last[OF assms] assms
  by (simp add: as_string_def fold_component_string concat_component_string trim_end_dots_append)

lemma split_dots_no_dot:
  "CHR ''.'' \<notin> set u \<Longrightarrow> split_dots u = [u]"
  by (induction u) auto

lemma split_dots_append:
  "CHR ''.'' \<notin> set u \<Longrightarrow> split_dots (u @ CHR ''.'' # v) = u # split_dots v"
  by (induction u) auto

lemma strip_prefixes_replicate:
  "u = c # cs \<Longrightarrow> c \<noteq> CHR ''^'' \<Longrightarrow> strip_prefixes (replicate j (CHR ''^'') @ u) = (j, u)"
  by (induction j) auto

lemma strip_prefixes_seg:
  assumes "valid_seg seg"
  shows "strip_prefixes (replicate j (CHR ''^'') @ name_seg_as_str seg) = (j, name_seg_as_str seg)"
proof -
  obtain c cs where "name_seg_as_str seg = c # cs" using name_seg_as_str_Cons by blast
  with valid_seg_chars(2)[OF assms, of c] show ?thesis
    using strip_prefixes_replicate by simp
qed

lemma from_str_parts_path_string:
  "cs \<noteq> [] \<Longrightarrow> is_segment (last cs) \<Longrightarrow> list_all valid_component cs \<Longrightarrow> Root \<notin> set cs \<Longrightarrow>
   from_str_parts (split_dots (replicate j (CHR ''^'') @ path_string cs)) acc
     = Ok (acc @ replicate j Prefix @ cs)"
proof (induction cs arbitrary: j acc rule: path_string.induct)
  case (3 cs)
  then have cs: "cs \<noteq> []" "is_segment (last cs)" "list_all valid_component cs" "Root \<notin> set cs"
    by (auto split: if_splits)
  have "replicate j (CHR ''^'') @ path_string (Prefix # cs)
      = replicate (Suc j) (CHR ''^'') @ path_string cs"
    by (simp add: replicate_app_Cons_same)
  with "3.IH"[OF cs, of "Suc j"] show ?case
    by (simp only: replicate_Suc append_Cons replicate_app_Cons_same)
next
  case (4 seg cs)
  then have v: "valid_seg seg" by simp
  then have nodot: "CHR ''.'' \<notin> set (replicate j (CHR ''^'') @ name_seg_as_str seg)"
    using valid_seg_chars(1) by auto
  show ?case
  proof (cases "cs = []")
    case True
    with v nodot show ?thesis
      by (simp add: split_dots_no_dot strip_prefixes_seg name_seg_from_as_str)
  next
    case False
    from split_dots_append[OF nodot, of "path_string cs"] False
    have "split_dots (replicate j (CHR ''^'') @ path_string (Segment seg # cs))
        = (replicate j (CHR ''^'') @ name_seg_as_str seg) # split_dots (path_string cs)"
      by simp
    with 4 v False show ?thesis
      using "4.IH"[of 0] by (simp add: strip_prefixes_seg name_seg_from_as_str)
  qed
qed auto

lemma path_string_hd:
  "cs \<noteq> [] \<Longrightarrow> is_segment (last cs) \<Longrightarrow> list_all valid_component cs \<Longrightarrow> Root \<notin> set cs \<Longrightarrow>
   hd (path_string cs) \<noteq> CHR 0x5C"
proof (induction cs rule: path_string.induct)
  case (4 seg cs)
  obtain d ds where "name_seg_as_str seg = d # ds" using name_seg_as_str_Cons by blast
  with 4 valid_seg_chars(3)[of seg d] show ?case by auto
qed auto

lemma from_str_as_string:
  assumes "wf_name n"
  shows "from_str (as_string n) = Ok n"
proof (cases "n = [Root]")
  case True
  then show ?thesis by (simp add: from_str_def as_string_def trim_end_dots_def)
next
  case False
  with assms have seg: "n \<noteq> []" "is_segment (last n)" and v: "list_all valid_component n"
    and tl: "Root \<notin> set (tl n)" by (auto simp: wf_name_def)
  have s: "as_string n = path_string n" by (rule as_string_eq[OF seg v])
  show ?thesis
  proof (cases "hd n = Root")
    case True
    with seg False obtain cs where n: "n = Root # cs" "cs \<noteq> []" by (cases n) auto
    with seg v tl have cs: "is_segment (last cs)" "list_all valid_component cs" "Root \<notin> set cs"
      by auto
    from from_str_parts_path_string[OF n(2) cs, of 0 "[Root]"]
      path_string_last[OF n(2) cs(1,2)] n
    show ?thesis using s by (simp add: from_str_def)
  next
    case False
    with seg tl have r: "Root \<notin> set n" by (cases n) auto
    from from_str_parts_path_string[OF seg v r, of 0 "[]"] path_string_last[OF seg v]
      path_string_hd[OF seg v r]
    show ?thesis by (simp add: s from_str_def)
  qed
qed

lemma from_str_parts_wf:
  "from_str_parts parts acc = Ok n \<Longrightarrow> list_all valid_component acc \<Longrightarrow>
   \<exists>cs. n = acc @ cs \<and> Root \<notin> set cs \<and> list_all valid_component cs
     \<and> (cs = [] \<longleftrightarrow> parts = []) \<and> (cs \<noteq> [] \<longrightarrow> is_segment (last cs))"
proof (induction parts acc rule: from_str_parts.induct)
  case (2 part parts components)
  obtain k part' where p: "strip_prefixes part = (k, part')" by (cases "strip_prefixes part")
  with 2 obtain seg where seg: "name_seg_from_str part' = Ok seg"
    and rest: "from_str_parts parts (components @ replicate k Prefix @ [Segment seg]) = Ok n"
    by (auto simp: res_elims)
  from seg have "valid_seg seg" by (rule name_seg_from_str_valid)
  then have "list_all valid_component (replicate k Prefix @ [Segment seg])"
    by (simp add: list_all_iff)
  with "2.IH"[OF p[symmetric] refl seg rest] "2.prems"(2)
  obtain cs where "n = (components @ replicate k Prefix @ [Segment seg]) @ cs" "Root \<notin> set cs"
    "list_all valid_component cs" "cs \<noteq> [] \<longrightarrow> is_segment (last cs)"
    by auto
  with \<open>list_all valid_component (replicate k Prefix @ [Segment seg])\<close> show ?case
    by (intro exI[of _ "replicate k Prefix @ [Segment seg] @ cs"])
      (cases parts; auto simp: list_all_iff)
qed auto

lemma split_dots_not_Nil: "split_dots s \<noteq> []"
  by (induction s) (auto split: list.splits)

lemma from_str_wf:
  assumes "from_str s = Ok n"
  shows "wf_name n"
proof (cases "length s = 0 \<or> s = [CHR 0x5C]")
  case True
  with assms show ?thesis by (auto simp: from_str_def wf_name_def)
next
  case False
  define acc s' where "acc = (if hd s = CHR 0x5C then [Root] else [])"
    and "s' = (if hd s = CHR 0x5C then tl s else s)"
  from False have "s' \<noteq> []" by (cases s) (auto simp: s'_def)
  with assms have "from_str_parts (split_dots s') acc = Ok n"
    by (auto simp: from_str_def acc_def s'_def Let_def split: if_splits)
  moreover have "list_all valid_component acc" by (simp add: acc_def)
  ultimately obtain cs where "n = acc @ cs" "Root \<notin> set cs" "list_all valid_component cs"
    "cs \<noteq> []" "is_segment (last cs)"
    using from_str_parts_wf split_dots_not_Nil by blast
  then show ?thesis
    by (auto simp: acc_def wf_name_def dest: list.set_sel(2))
qed

subsection \<open>Normalisation as a walk\<close>

definition abs_path :: "name_seg list \<Rightarrow> aml_name" where
  "abs_path segs = Root # map Segment segs"

text \<open>
  The meaning of a relative path: where a walk that starts in the directory \<open>dir\<close> ends;
  \<open>None\<close> if it leaves the tree.
\<close>

fun path_walk :: "name_seg list \<Rightarrow> name_component list \<Rightarrow> name_seg list option" where
  "path_walk dir [] = Some dir"
| "path_walk dir (Segment seg # cs) = path_walk (dir @ [seg]) cs"
| "path_walk dir (Prefix # cs) = (if dir = [] then None else path_walk (butlast dir) cs)"
| "path_walk dir (Root # cs) = None"

lemma abs_path_props [simp]:
  "is_absolute (abs_path segs)" "is_normal (abs_path segs)" "Prefix \<notin> set (abs_path segs)"
  "abs_path a = abs_path b \<longleftrightarrow> a = b" "abs_path segs \<noteq> []"
  "abs_path segs = root_name \<longleftrightarrow> segs = []"
  by (auto simp: abs_path_def is_normal_def root_name_def inj_map_eq_map inj_on_def)

lemma normalize_fold_walk:
  "Root \<notin> set cs \<Longrightarrow>
   normalize_fold self (abs_path dir) cs =
     (case path_walk dir cs of
        Some dir' \<Rightarrow> Ok (abs_path dir')
      | None \<Rightarrow> Err (InvalidNormalizedName self))"
proof (induction dir cs rule: path_walk.induct)
  case (3 dir cs)
  show ?case
  proof (cases dir rule: rev_cases)
    case Nil
    then show ?thesis by (simp add: abs_path_def)
  next
    case (snoc ss x)
    then have "rev (abs_path dir) = Segment x # rev (abs_path ss)"
      "butlast (abs_path dir) = abs_path (butlast dir)"
      by (simp_all add: abs_path_def butlast_append)
    with snoc 3 show ?thesis by simp
  qed
qed (simp_all add: abs_path_def)

lemma path_walk_normal:
  "Root \<notin> set cs \<Longrightarrow> Prefix \<notin> set cs \<Longrightarrow>
   \<exists>segs. cs = map Segment segs \<and> path_walk dir cs = Some (dir @ segs)"
proof (induction dir cs rule: path_walk.induct)
  case (2 dir seg cs)
  then obtain segs where "cs = map Segment segs" "path_walk (dir @ [seg]) cs = Some (dir @ seg # segs)"
    by auto
  then show ?case by (intro exI[of _ "seg # segs"]) simp
qed auto

lemma path_walk_segments [simp]: "path_walk dir (map Segment segs) = Some (dir @ segs)"
  by (induction segs arbitrary: dir) simp_all

lemma path_walk_append:
  "path_walk dir (as @ bs) = Option.bind (path_walk dir as) (\<lambda>dir'. path_walk dir' bs)"
  by (induction dir as rule: path_walk.induct) simp_all

lemma normalize_abs:
  assumes "Root \<notin> set cs"
  shows "normalize_name (Root # cs) =
     (case path_walk [] cs of
        Some dir \<Rightarrow> Ok (abs_path dir)
      | None \<Rightarrow> Err (InvalidNormalizedName (Root # cs)))"
proof (cases "Prefix \<in> set cs")
  case True
  then have "\<not> is_normal (Root # cs)" by (simp add: is_normal_def)
  then have "normalize_name (Root # cs) = normalize_fold (Root # cs) (abs_path []) cs"
    by (simp add: normalize_name_def abs_path_def)
  with normalize_fold_walk[OF assms] show ?thesis by metis
next
  case False
  from path_walk_normal[OF assms False, of "[]"] obtain segs
    where "cs = map Segment segs" "path_walk [] cs = Some segs" by auto
  with False show ?thesis by (simp add: normalize_name_def is_normal_def abs_path_def)
qed

lemma normalize_abs_path [simp]: "normalize_name (abs_path dir) = Ok (abs_path dir)"
  by (simp add: normalize_name_def)

lemma resolve_relative:
  assumes "Root \<notin> set p"
  shows "resolve p (abs_path dir) =
     (case path_walk dir p of
        Some dir' \<Rightarrow> Ok (abs_path dir')
      | None \<Rightarrow> Err (InvalidNormalizedName (abs_path dir @ p)))"
proof -
  from assms have "\<not> is_absolute p" by (cases p) auto
  then have "resolve p (abs_path dir) = normalize_name (Root # (map Segment dir @ p))"
    by (simp add: resolve_def abs_path_def)
  moreover have "Root \<notin> set (map Segment dir @ p)" using assms by auto
  ultimately show ?thesis
    using normalize_abs[of "map Segment dir @ p"] by (simp add: path_walk_append abs_path_def split: option.split)
qed

lemma resolve_absolute [simp]: "is_absolute p \<Longrightarrow> is_absolute scope \<Longrightarrow> resolve p scope = Ok p"
  by (simp add: resolve_def)

lemma resolve_seg [simp]: "resolve [Segment seg] (abs_path dir) = Ok (abs_path (dir @ [seg]))"
  by (simp add: resolve_relative)

lemma parent_abs_path:
  "parent (abs_path dir) = (if dir = [] then Err RootHasNoParent else Ok (abs_path (butlast dir)))"
proof (cases dir rule: rev_cases)
  case Nil
  then show ?thesis by (simp add: parent_def abs_path_def normalize_name_def is_normal_def)
next
  case (snoc ss x)
  have "Prefix \<notin> set (map Segment ss)" by auto
  with snoc show ?thesis
    by (simp add: parent_def abs_path_def normalize_name_def is_normal_def butlast_append)
qed

text \<open>What is absolute and normal, and has \<open>\\<close> at the front only, is an absolute path.\<close>

lemma abs_path_ex:
  "is_absolute n \<Longrightarrow> is_normal n \<Longrightarrow> Root \<notin> set (tl n) \<Longrightarrow> \<exists>dir. n = abs_path dir"
proof (cases n)
  case (Cons c cs)
  assume "is_absolute n" "is_normal n" "Root \<notin> set (tl n)"
  with Cons have "c = Root" "Root \<notin> set cs" "Prefix \<notin> set cs"
    by (cases c; simp add: is_normal_def)+
  with path_walk_normal[of cs "[]"] Cons show ?thesis by (auto simp: abs_path_def)
qed simp

end
