(* ===== verification/Namespace.thy ===== *)
theory Namespace
  imports Aml_Name
begin

section \<open>The namespace\<close>

text \<open>
  \<open>Namespace\<close> of \<open>namespace.rs\<close>: a tree of levels, each with the sub-levels and the handles
  of the values it holds, and a map from handles to values. A \<open>&mut NamespaceLevel\<close> is the
  path of the level, which \<open>write_level\<close> writes back to. Operations that change the namespace
  return it with their result, also when the result is an error.
\<close>

datatype namespace_level = NamespaceLevel
  (level_typ: level_type)
  (children: "(name_seg \<times> namespace_level) list")
  (level_values: "(name_seg \<times> aml_handle) list")

record namespace =
  next_handle :: aml_handle
  object_map :: "(aml_handle \<times> aml_value) list"
  root_level :: namespace_level

subsection \<open>Operations\<close>

definition handle_increment :: "aml_handle \<Rightarrow> (aml_handle, 'e) res" where
  "handle_increment h = (if h = - 1 then Panic else Ok (h + 1))"

definition level_new :: "level_type \<Rightarrow> namespace_level" where
  "level_new typ = NamespaceLevel typ [] []"

definition namespace_new :: namespace where
  "namespace_new = \<lparr>next_handle = 0, object_map = [], root_level = level_new ScopeLevel\<rparr>"

fun walk_levels :: "namespace_level \<Rightarrow> aml_name \<Rightarrow> name_component list
    \<Rightarrow> (namespace_level, aml_error) res" where
  "walk_levels current traversed [] = Ok current"
| "walk_levels current traversed (level # levels) =
     (case as_segment level of
        None \<Rightarrow> Panic
      | Some seg \<Rightarrow>
          and_then (ok_or (LevelDoesNotExist (traversed @ [level])) (map_of (children current) seg))
            (\<lambda>child. walk_levels child (traversed @ [level]) levels))"

definition split_path :: "aml_name \<Rightarrow> (name_component list \<times> name_seg, 'e) res" where
  "split_path path =
     (if path = root_name then Panic
      else
        case path of
          [] \<Rightarrow> Panic
        | _ # rest \<Rightarrow>
            (case rev rest of
               [] \<Rightarrow> Panic
             | last_seg # _ \<Rightarrow>
                 (case as_segment last_seg of None \<Rightarrow> Panic | Some seg \<Rightarrow> Ok (butlast rest, seg))))"

definition get_level_for_path :: "namespace \<Rightarrow> aml_name
    \<Rightarrow> (namespace_level \<times> name_seg, aml_error) res" where
  "get_level_for_path ns path =
     and_then (split_path path) (\<lambda>(levels, last_seg).
       and_then (walk_levels (root_level ns) root_name levels) (\<lambda>level. Ok (level, last_seg)))"

text \<open>
  The mutable variant also returns the path of the level, through which it is written.
\<close>

definition get_level_for_path_mut :: "namespace \<Rightarrow> aml_name
    \<Rightarrow> (name_seg list \<times> namespace_level \<times> name_seg, aml_error) res" where
  "get_level_for_path_mut ns path =
     and_then (split_path path) (\<lambda>(levels, last_seg).
       and_then (walk_levels (root_level ns) root_name levels)
         (\<lambda>level. Ok (List.map_filter as_segment levels, level, last_seg)))"

fun update_level :: "(namespace_level \<Rightarrow> namespace_level) \<Rightarrow> name_seg list \<Rightarrow> namespace_level
    \<Rightarrow> namespace_level" where
  "update_level f [] level = f level"
| "update_level f (seg # segs) level =
     (case map_of (children level) seg of
        None \<Rightarrow> level
      | Some child \<Rightarrow>
          NamespaceLevel (level_typ level)
            (btree_insert seg (update_level f segs child) (children level))
            (level_values level))"

definition write_level :: "namespace \<Rightarrow> name_seg list \<Rightarrow> namespace_level \<Rightarrow> namespace" where
  "write_level ns pos level = ns\<lparr>root_level := update_level (\<lambda>_. level) pos (root_level ns)\<rparr>"

definition with_children :: "namespace_level \<Rightarrow> (name_seg \<times> namespace_level) list
    \<Rightarrow> namespace_level" where
  "with_children level cs = NamespaceLevel (level_typ level) cs (level_values level)"

definition with_values :: "namespace_level \<Rightarrow> (name_seg \<times> aml_handle) list \<Rightarrow> namespace_level" where
  "with_values level vs = NamespaceLevel (level_typ level) (children level) vs"

definition add_level :: "namespace \<Rightarrow> aml_name \<Rightarrow> level_type
    \<Rightarrow> (unit \<times> namespace, aml_error \<times> namespace) res" where
  "add_level ns path typ =
     (if \<not> is_absolute path then Panic
      else and_then (map_err (\<lambda>e. (e, ns)) (normalize_name path)) (\<lambda>path.
        if path \<noteq> root_name then
          and_then (map_err (\<lambda>e. (e, ns)) (get_level_for_path_mut ns path))
            (\<lambda>(pos, level, last_seg).
               if map_of (children level) last_seg = None then
                 Ok ((), write_level ns pos
                       (with_children level (btree_insert last_seg (level_new typ) (children level))))
               else Ok ((), ns))
        else Ok ((), ns)))"

definition remove_level :: "namespace \<Rightarrow> aml_name
    \<Rightarrow> (unit \<times> namespace, aml_error \<times> namespace) res" where
  "remove_level ns path =
     (if \<not> is_absolute path then Panic
      else and_then (map_err (\<lambda>e. (e, ns)) (normalize_name path)) (\<lambda>path.
        if path \<noteq> root_name then
          and_then (map_err (\<lambda>e. (e, ns)) (get_level_for_path_mut ns path))
            (\<lambda>(pos, level, last_seg).
               case map_of (children level) last_seg of
                 Some _ \<Rightarrow> Ok ((), write_level ns pos
                       (with_children level (btree_remove last_seg (children level))))
               | None \<Rightarrow> Err (LevelDoesNotExist path, ns))
        else Err (TriedToRemoveRootNamespace, ns)))"

definition add_value :: "namespace \<Rightarrow> aml_name \<Rightarrow> aml_value
    \<Rightarrow> (aml_handle \<times> namespace, aml_error \<times> namespace) res" where
  "add_value ns path value =
     (if \<not> is_absolute path then Panic
      else and_then (map_err (\<lambda>e. (e, ns)) (normalize_name path)) (\<lambda>path.
        let handle = next_handle ns in
        and_then (handle_increment handle) (\<lambda>next.
          let ns = ns\<lparr>next_handle := next, object_map := btree_insert handle value (object_map ns)\<rparr>
          in and_then (map_err (\<lambda>e. (e, ns)) (get_level_for_path_mut ns path))
               (\<lambda>(pos, level, last_seg).
                  let ns' = write_level ns pos
                              (with_values level (btree_insert last_seg handle (level_values level)))
                  in case map_of (level_values level) last_seg of
                       None \<Rightarrow> Ok (handle, ns')
                     | Some _ \<Rightarrow> Err (NameCollision path, ns')))))"

definition add_value_at_resolved_path :: "namespace \<Rightarrow> aml_name \<Rightarrow> aml_name \<Rightarrow> aml_value
    \<Rightarrow> (aml_handle \<times> namespace, aml_error \<times> namespace) res" where
  "add_value_at_resolved_path ns path scope value =
     and_then (map_err (\<lambda>e. (e, ns)) (resolve path scope)) (\<lambda>name. add_value ns name value)"

definition ns_get :: "namespace \<Rightarrow> aml_handle \<Rightarrow> (aml_value, aml_error) res" where
  "ns_get ns handle = unwrap_option (map_of (object_map ns) handle)"

text \<open>\<open>get_mut\<close> followed by an assignment to what it returns.\<close>

definition ns_get_mut :: "namespace \<Rightarrow> aml_handle \<Rightarrow> aml_value \<Rightarrow> (namespace, aml_error) res" where
  "ns_get_mut ns handle value =
     and_then (unwrap_option (map_of (object_map ns) handle))
       (\<lambda>_. Ok (ns\<lparr>object_map := btree_insert handle value (object_map ns)\<rparr>))"

definition get_handle :: "namespace \<Rightarrow> aml_name \<Rightarrow> (aml_handle, aml_error) res" where
  "get_handle ns path =
     and_then (get_level_for_path ns path) (\<lambda>(level, last_seg).
       ok_or (ValueDoesNotExist path) (map_of (level_values level) last_seg))"

definition get_by_path :: "namespace \<Rightarrow> aml_name \<Rightarrow> (aml_value, aml_error) res" where
  "get_by_path ns path = and_then (get_handle ns path) (\<lambda>handle. unwrap (ns_get ns handle))"

definition get_by_path_mut :: "namespace \<Rightarrow> aml_name \<Rightarrow> aml_value \<Rightarrow> (namespace, aml_error) res" where
  "get_by_path_mut ns path value =
     and_then (get_handle ns path) (\<lambda>handle. unwrap (ns_get_mut ns handle value))"

subsection \<open>Searches\<close>

lemma normalize_fold_length:
  "normalize_fold self name cs = Ok n \<Longrightarrow> length n \<le> length name + length cs"
proof (induction self name cs rule: normalize_fold.induct)
  case (4 self name cs)
  then show ?case
    by (auto split: list.splits name_component.splits dest!: arg_cong[where f = length])
qed auto

lemma parent_length:
  assumes "parent n = Ok p"
  shows "length p < length n"
proof -
  from assms obtain m where m: "normalize_name n = Ok m"
    and p: "(case rev m of [] \<Rightarrow> Err RootHasNoParent | Root # _ \<Rightarrow> Err RootHasNoParent
             | Segment _ # _ \<Rightarrow> Ok (butlast m) | Prefix # _ \<Rightarrow> Panic) = Ok p"
    by (auto simp: parent_def res_elims)
  from p have "m \<noteq> []" "p = butlast m"
    by (auto split: list.split_asm name_component.split_asm)
  moreover from m have "length m \<le> length n"
    by (auto simp: normalize_name_def dest: normalize_fold_length split: if_splits)
  ultimately show ?thesis by (cases m) auto
qed

text \<open>
  What one round of the search loop finds at a scope: a missing level is not an error there.
\<close>

definition search_here :: "namespace \<Rightarrow> aml_name \<Rightarrow> aml_name
    \<Rightarrow> ((aml_name \<times> aml_handle) option, aml_error) res" where
  "search_here ns path scope =
     and_then (resolve path scope) (\<lambda>name.
       case get_level_for_path ns name of
         Ok (level, last_seg) \<Rightarrow>
           Ok (map_option (\<lambda>handle. (name, handle)) (map_of (level_values level) last_seg))
       | Err (LevelDoesNotExist _) \<Rightarrow> Ok None
       | Err e \<Rightarrow> Err e
       | Panic \<Rightarrow> Panic | Deadlock \<Rightarrow> Deadlock | OutOfFuel \<Rightarrow> OutOfFuel)"

function search_up :: "namespace \<Rightarrow> aml_name \<Rightarrow> aml_name
    \<Rightarrow> (aml_name \<times> aml_handle, aml_error) res" where
  "search_up ns path scope =
     and_then (search_here ns path scope) (\<lambda>found.
       case found of
         Some result \<Rightarrow> Ok result
       | None \<Rightarrow>
           (case parent scope of
              Ok p \<Rightarrow> search_up ns path p
            | Err RootHasNoParent \<Rightarrow> Err (ValueDoesNotExist path)
            | Err e \<Rightarrow> Err e
            | Panic \<Rightarrow> Panic | Deadlock \<Rightarrow> Deadlock | OutOfFuel \<Rightarrow> OutOfFuel))"
  by pat_completeness auto
termination
  by (relation "measure (\<lambda>(_, _, scope). length scope)") (auto dest: parent_length)

declare search_up.simps [simp del]

definition search :: "namespace \<Rightarrow> aml_name \<Rightarrow> aml_name
    \<Rightarrow> (aml_name \<times> aml_handle, aml_error) res" where
  "search ns path starting_scope =
     (if search_rules_apply path then
        if \<not> is_absolute starting_scope then Panic else search_up ns path starting_scope
      else
        and_then (resolve path starting_scope) (\<lambda>name.
        and_then (resolve path starting_scope) (\<lambda>name'.
        and_then (get_level_for_path ns name') (\<lambda>(level, last_seg).
          ok_or (ValueDoesNotExist path)
            (map_option (\<lambda>handle. (name, handle)) (map_of (level_values level) last_seg))))))"

function search_level_up :: "namespace \<Rightarrow> aml_name \<Rightarrow> aml_name \<Rightarrow> (aml_name, aml_error) res" where
  "search_level_up ns level_name scope =
     and_then (resolve level_name scope) (\<lambda>name.
       let found = (case get_level_for_path ns name of
                      Ok (level, last_seg) \<Rightarrow> Ok (map_of (children level) last_seg \<noteq> None)
                    | Err _ \<Rightarrow> Ok False
                    | Panic \<Rightarrow> Panic | Deadlock \<Rightarrow> Deadlock | OutOfFuel \<Rightarrow> OutOfFuel)
       in and_then found (\<lambda>b.
         if b then Ok name
         else
           (case parent scope of
              Ok p \<Rightarrow> search_level_up ns level_name p
            | Err RootHasNoParent \<Rightarrow> Err (LevelDoesNotExist level_name)
            | Err e \<Rightarrow> Err e
            | Panic \<Rightarrow> Panic | Deadlock \<Rightarrow> Deadlock | OutOfFuel \<Rightarrow> OutOfFuel)))"
  by pat_completeness auto
termination
  by (relation "measure (\<lambda>(_, _, scope). length scope)") (auto dest: parent_length)

declare search_level_up.simps [simp del]

definition search_for_level :: "namespace \<Rightarrow> aml_name \<Rightarrow> aml_name \<Rightarrow> (aml_name, aml_error) res" where
  "search_for_level ns level_name starting_scope =
     (if search_rules_apply level_name then
        and_then (normalize_name starting_scope) (\<lambda>scope.
          if \<not> is_absolute scope then Panic else search_level_up ns level_name scope)
      else Ok level_name)"

subsection \<open>Traversal\<close>

text \<open>
  The closure passed to \<open>traverse\<close> may change what it captures: it is a function that takes
  and returns that state.
\<close>

type_synonym 's visitor =
  "aml_name \<Rightarrow> namespace_level \<Rightarrow> 's \<Rightarrow> (bool \<times> 's, aml_error \<times> 's) res"

function traverse_level :: "'s visitor \<Rightarrow> (name_seg \<times> namespace_level) list \<Rightarrow> aml_name \<Rightarrow> 's
    \<Rightarrow> (unit \<times> 's, aml_error \<times> 's) res" where
  "traverse_level f [] scope st = Ok ((), st)"
| "traverse_level f ((seg, child) # siblings) scope st =
     and_then (map_err (\<lambda>e. (e, st)) (resolve (from_name_seg seg) scope)) (\<lambda>name.
     and_then (f name child st) (\<lambda>(go, st).
     and_then (if go then traverse_level f (children child) name st else Ok ((), st)) (\<lambda>(_, st).
       traverse_level f siblings scope st)))"
  by pat_completeness auto
termination
proof (relation "measure (\<lambda>(_, cs, _). size_list (size_prod (\<lambda>_. 0) size) cs)", goal_cases)
  case 1
  then show ?case by simp
next
  case (2 f seg child siblings scope st x xa xb y)
  then show ?case by (cases child) simp
next
  case 3
  then show ?case by simp
qed

definition traverse :: "namespace \<Rightarrow> 's visitor \<Rightarrow> 's \<Rightarrow> (unit \<times> 's, aml_error \<times> 's) res" where
  "traverse ns f st =
     and_then (f root_name (root_level ns) st) (\<lambda>(go, st).
       if go then traverse_level f (children (root_level ns)) root_name st else Ok ((), st))"

end
