(* ===== verification/Namespace_Props.thy ===== *)
theory Namespace_Props
  imports Namespace
begin

section \<open>Correctness of the namespace\<close>

text \<open>
  The namespace seen from outside: \<open>level_at\<close> gives the level at a path of segments and
  \<open>handle_at\<close> the handle stored under a name in it. Every operation is described by what it
  does to these two; from this follow the well-formedness invariant (no dangling handle, no
  handle at or above the counter, ordered maps), the freshness of handles and the meaning of
  the searches.
\<close>

fun lookup_level :: "namespace_level \<Rightarrow> name_seg list \<Rightarrow> namespace_level option" where
  "lookup_level level [] = Some level"
| "lookup_level level (seg # segs) =
     (case map_of (children level) seg of None \<Rightarrow> None | Some child \<Rightarrow> lookup_level child segs)"

fun missing_prefix :: "namespace_level \<Rightarrow> name_seg list \<Rightarrow> name_seg list" where
  "missing_prefix level [] = []"
| "missing_prefix level (seg # segs) =
     (case map_of (children level) seg of
        None \<Rightarrow> [seg] | Some child \<Rightarrow> seg # missing_prefix child segs)"

abbreviation level_at :: "namespace \<Rightarrow> name_seg list \<Rightarrow> namespace_level option" where
  "level_at ns dir \<equiv> lookup_level (root_level ns) dir"

definition handle_at :: "namespace \<Rightarrow> name_seg list \<Rightarrow> name_seg \<Rightarrow> aml_handle option" where
  "handle_at ns dir seg =
     (case level_at ns dir of None \<Rightarrow> None | Some level \<Rightarrow> map_of (level_values level) seg)"

abbreviation object_at :: "namespace \<Rightarrow> aml_handle \<Rightarrow> aml_value option" where
  "object_at ns \<equiv> map_of (object_map ns)"

subsection \<open>Walking the tree\<close>

lemma lookup_level_append:
  "lookup_level l (p @ q) = Option.bind (lookup_level l p) (\<lambda>x. lookup_level x q)"
  by (induction l p rule: lookup_level.induct) (auto split: option.splits)

lemma root_name_abs: "root_name = abs_path []"
  by (simp add: root_name_def abs_path_def)

lemma abs_path_snoc: "abs_path (dir @ [seg]) = abs_path dir @ [Segment seg]"
  by (simp add: abs_path_def)

lemma walk_levels_abs:
  "walk_levels l (abs_path pre) (map Segment dir) =
     (case lookup_level l dir of
        Some x \<Rightarrow> Ok x
      | None \<Rightarrow> Err (LevelDoesNotExist (abs_path (pre @ missing_prefix l dir))))"
proof (induction dir arbitrary: l pre)
  case Nil
  then show ?case by simp
next
  case (Cons seg dir)
  from Cons.IH[of _ "pre @ [seg]"] show ?case
    by (auto simp: abs_path_snoc[symmetric] split: option.splits)
qed

lemma walk_levels_Ok:
  "walk_levels l traversed cs = Ok x \<Longrightarrow> \<exists>dir. cs = map Segment dir \<and> lookup_level l dir = Some x"
proof (induction l traversed cs rule: walk_levels.induct)
  case (2 current traversed level levels)
  then obtain seg child where "as_segment level = Some seg" "map_of (children current) seg = Some child"
    and rest: "walk_levels child (traversed @ [level]) levels = Ok x"
    by (auto simp: res_elims split: option.splits)
  moreover from 2 calculation obtain dir where "levels = map Segment dir"
    "lookup_level child dir = Some x" by fastforce
  moreover from \<open>as_segment level = Some seg\<close> have "level = Segment seg"
    by (cases level) auto
  ultimately show ?case by (intro exI[of _ "seg # dir"]) simp
qed auto

lemma split_path_abs [simp]: "split_path (abs_path (dir @ [seg])) = Ok (map Segment dir, seg)"
  by (simp add: split_path_def abs_path_def root_name_def)

lemma split_path_root [simp]: "split_path (abs_path []) = Panic"
  by (simp add: split_path_def root_name_abs)

lemma split_path_Ok:
  assumes "split_path path = Ok (levels, seg)" "is_absolute path"
  shows "path = Root # levels @ [Segment seg]"
proof -
  from assms(2) obtain rest where path: "path = Root # rest" by (cases path) auto
  from assms(1) obtain c cs where rev: "rev rest = c # cs" and c: "as_segment c = Some seg"
    and levels: "levels = butlast rest"
    by (auto simp: split_path_def path split: if_splits list.splits option.splits)
  from c have "c = Segment seg" by (cases c) auto
  moreover from rev have "rest = rev cs @ [c]" by (simp add: rev_eq_Cons_iff)
  ultimately show ?thesis using path levels by simp
qed

lemma get_level_abs:
  "get_level_for_path ns (abs_path (dir @ [seg])) =
     (case level_at ns dir of
        Some level \<Rightarrow> Ok (level, seg)
      | None \<Rightarrow> Err (LevelDoesNotExist (abs_path (missing_prefix (root_level ns) dir))))"
  using walk_levels_abs[of "root_level ns" "[]" dir]
  by (simp add: get_level_for_path_def root_name_abs split: option.splits)

lemma get_level_root [simp]: "get_level_for_path ns (abs_path []) = Panic"
  by (simp add: get_level_for_path_def)

lemma map_filter_as_segment [simp]: "List.map_filter as_segment (map Segment dir) = dir"
  by (induction dir) (simp_all add: List.map_filter_def)

lemma get_level_mut_abs:
  "get_level_for_path_mut ns (abs_path (dir @ [seg])) =
     (case level_at ns dir of
        Some level \<Rightarrow> Ok (dir, level, seg)
      | None \<Rightarrow> Err (LevelDoesNotExist (abs_path (missing_prefix (root_level ns) dir))))"
  using walk_levels_abs[of "root_level ns" "[]" dir]
  by (simp add: get_level_for_path_mut_def root_name_abs split: option.splits)

lemma get_level_mut_Ok:
  assumes "get_level_for_path_mut ns path = Ok (pos, level, seg)"
  shows "level_at ns pos = Some level"
  using assms
  by (auto simp: get_level_for_path_mut_def res_elims dest: walk_levels_Ok)

lemma handle_at_get_handle:
  "get_handle ns (abs_path (dir @ [seg])) =
     (case level_at ns dir of
        None \<Rightarrow> Err (LevelDoesNotExist (abs_path (missing_prefix (root_level ns) dir)))
      | Some _ \<Rightarrow>
          (case handle_at ns dir seg of
             None \<Rightarrow> Err (ValueDoesNotExist (abs_path (dir @ [seg])))
           | Some h \<Rightarrow> Ok h))"
  by (simp add: get_handle_def get_level_abs handle_at_def split: option.splits)

lemma get_handle_at:
  assumes "get_handle ns path = Ok h"
  shows "\<exists>dir seg. handle_at ns dir seg = Some h"
proof -
  from assms obtain levels seg level where
    "walk_levels (root_level ns) root_name levels = Ok level"
    "map_of (level_values level) seg = Some h"
    by (auto simp: get_handle_def get_level_for_path_def res_elims)
  moreover from calculation obtain dir where "level_at ns dir = Some level"
    using walk_levels_Ok by blast
  ultimately have "handle_at ns dir seg = Some h" by (simp add: handle_at_def)
  then show ?thesis by blast
qed

subsection \<open>Writing to a level\<close>

lemma lookup_update_below:
  "lookup_level l pos = Some x \<Longrightarrow>
   lookup_level (update_level f pos l) (pos @ r) = lookup_level (f x) r"
  by (induction f pos l rule: update_level.induct) (auto split: option.splits)

lemma lookup_update_aside:
  "\<not> prefix pos q \<Longrightarrow>
   map_option level_values (lookup_level (update_level f pos l) q)
     = map_option level_values (lookup_level l q)"
proof (induction f pos l arbitrary: q rule: update_level.induct)
  case (2 f seg segs level)
  show ?case
  proof (cases q)
    case (Cons t q')
    with 2 show ?thesis by (auto split: option.splits)
  qed (auto split: option.splits)
qed simp

lemma lookup_update_aside_None:
  "\<not> prefix pos q \<Longrightarrow>
   lookup_level (update_level f pos l) q = None \<longleftrightarrow> lookup_level l q = None"
  using lookup_update_aside[of pos q f l]
  by (cases "lookup_level l q"; cases "lookup_level (update_level f pos l) q") auto

lemma handle_at_map: "handle_at ns dir seg =
    Option.bind (map_option level_values (level_at ns dir)) (\<lambda>vs. map_of vs seg)"
  by (simp add: handle_at_def split: option.splits)

lemma write_level_simps [simp]:
  "next_handle (write_level ns pos l) = next_handle ns"
  "object_map (write_level ns pos l) = object_map ns"
  by (simp_all add: write_level_def)

lemma handle_at_aside:
  assumes "\<not> prefix pos dir"
  shows "handle_at (write_level ns pos l) dir seg = handle_at ns dir seg"
  using lookup_update_aside[OF assms, of "\<lambda>_. l" "root_level ns"]
  by (simp add: handle_at_map write_level_def)

lemma level_at_write_below:
  "level_at ns pos = Some level \<Longrightarrow> level_at (write_level ns pos l) (pos @ r) = lookup_level l r"
  by (simp add: write_level_def lookup_update_below)

lemma handle_at_write_values:
  assumes "level_at ns pos = Some level"
  shows "handle_at (write_level ns pos (with_values level vs)) dir seg =
           (if dir = pos then map_of vs seg else handle_at ns dir seg)"
proof (cases "prefix pos dir")
  case True
  then obtain r where dir: "dir = pos @ r" by (auto simp: prefix_def)
  show ?thesis
  proof (cases r)
    case Nil
    with dir show ?thesis
      using level_at_write_below[OF assms, of _ "[]"]
      by (simp add: handle_at_def with_values_def)
  next
    case (Cons s r')
    then have "lookup_level (with_values level vs) r = lookup_level level r"
      by (simp add: with_values_def)
    with dir have "level_at (write_level ns pos (with_values level vs)) dir = lookup_level level r"
      using level_at_write_below[OF assms] by simp
    moreover have "level_at ns dir = lookup_level level r"
      using assms by (simp add: dir lookup_level_append)
    ultimately show ?thesis using dir Cons by (simp add: handle_at_def)
  qed
next
  case False
  then have "dir \<noteq> pos" by auto
  with False show ?thesis by (simp add: handle_at_aside)
qed

lemma level_at_write_values:
  assumes "level_at ns pos = Some level"
  shows "level_at (write_level ns pos (with_values level vs)) dir = None \<longleftrightarrow> level_at ns dir = None"
proof (cases "prefix pos dir")
  case True
  then obtain r where dir: "dir = pos @ r" by (auto simp: prefix_def)
  have "lookup_level (with_values level vs) r = None \<longleftrightarrow> lookup_level level r = None"
    by (cases r) (simp_all add: with_values_def)
  moreover have "level_at (write_level ns pos (with_values level vs)) dir
      = lookup_level (with_values level vs) r"
    using level_at_write_below[OF assms] dir by simp
  moreover have "level_at ns dir = lookup_level level r"
    using assms by (simp add: dir lookup_level_append)
  ultimately show ?thesis by simp
next
  case False
  then show ?thesis by (simp add: write_level_def lookup_update_aside_None)
qed

lemma level_at_write_children:
  assumes "level_at ns pos = Some level"
  shows "level_at (write_level ns pos (with_children level cs)) (pos @ s # r) =
           (case map_of cs s of None \<Rightarrow> None | Some c \<Rightarrow> lookup_level c r)"
  using level_at_write_below[OF assms, of "with_children level cs" "s # r"]
  by (simp add: with_children_def)

lemma handle_at_write_children:
  assumes "level_at ns pos = Some level"
  shows "handle_at (write_level ns pos (with_children level cs)) dir seg =
     (if strict_prefix pos dir then
        (let r = drop (length pos) dir in
         case map_of cs (hd r) of
           None \<Rightarrow> None
         | Some c \<Rightarrow> Option.bind (lookup_level c (tl r)) (\<lambda>l. map_of (level_values l) seg))
      else handle_at ns dir seg)"
proof (cases "prefix pos dir")
  case True
  then obtain r where dir: "dir = pos @ r" by (auto simp: prefix_def)
  show ?thesis
  proof (cases r)
    case Nil
    with dir show ?thesis
      using level_at_write_below[OF assms, of "with_children level cs" "[]"] assms
      by (simp add: handle_at_def with_children_def)
  next
    case (Cons s r')
    then have "strict_prefix pos dir" by (simp add: dir strict_prefix_def)
    with dir Cons show ?thesis
      by (simp add: handle_at_def level_at_write_children[OF assms] split: option.splits)
  qed
next
  case False
  then have "\<not> strict_prefix pos dir" by auto
  with False show ?thesis by (simp add: handle_at_aside)
qed

lemma handle_at_new_child:
  assumes "level_at ns pos = Some level" "map_of (children level) seg = None"
  shows "handle_at (write_level ns pos
           (with_children level (btree_insert seg (level_new typ) (children level)))) = handle_at ns"
proof (intro ext)
  fix dir s
  let ?ns' = "write_level ns pos
    (with_children level (btree_insert seg (level_new typ) (children level)))"
  show "handle_at ?ns' dir s = handle_at ns dir s"
  proof (cases "strict_prefix pos dir")
    case True
    then obtain t r where dir: "dir = pos @ t # r"
      by (rule strict_prefixE')
    have "level_at ns dir = (case map_of (children level) t of
        None \<Rightarrow> None | Some c \<Rightarrow> lookup_level c r)"
      using assms(1) by (simp add: dir lookup_level_append)
    moreover have "level_at ?ns' dir = (case map_of (btree_insert seg (level_new typ) (children level)) t of
        None \<Rightarrow> None | Some c \<Rightarrow> lookup_level c r)"
      by (simp only: dir level_at_write_children[OF assms(1)])
    ultimately show ?thesis
      using assms(2)
      by (cases r) (auto simp: handle_at_def level_new_def btree_simps split: option.splits)
  next
    case False
    then show ?thesis by (simp add: handle_at_write_children[OF assms(1)])
  qed
qed

lemma handle_at_removed_child:
  assumes "level_at ns pos = Some level"
  shows "handle_at (write_level ns pos (with_children level (btree_remove seg (children level)))) dir s
     = (if prefix (pos @ [seg]) dir then None else handle_at ns dir s)"
proof (cases "strict_prefix pos dir")
  case True
  then obtain t r where dir: "dir = pos @ t # r"
    by (rule strict_prefixE')
  have "level_at ns dir = (case map_of (children level) t of
      None \<Rightarrow> None | Some c \<Rightarrow> lookup_level c r)"
    using assms by (simp add: dir lookup_level_append)
  moreover have "level_at (write_level ns pos (with_children level (btree_remove seg (children level)))) dir
      = (case map_of (btree_remove seg (children level)) t of
           None \<Rightarrow> None | Some c \<Rightarrow> lookup_level c r)"
    by (simp only: dir level_at_write_children[OF assms])
  ultimately show ?thesis
    by (simp add: dir handle_at_def btree_simps split: option.splits)
next
  case False
  then have "\<not> prefix (pos @ [seg]) dir" by (auto simp: prefix_def strict_prefix_def)
  with False show ?thesis by (simp add: handle_at_write_children[OF assms])
qed

end
