(* ===== verification/Namespace_Inv.thy ===== *)
theory Namespace_Inv
  imports Namespace_Props
begin

section \<open>The invariant of the namespace\<close>

text \<open>
  \<open>ns_wf\<close>: every name refers to an object that exists, every handle in use lies below the
  counter, and the maps of every level are ordered. Every operation keeps it on every branch,
  error branches included, and no operation ever takes an object or a handle away
  (\<open>ns_grows\<close>). The interpreter relies on the namespace through this contract, the locale
  \<open>object_store\<close>.
\<close>

primrec level_ok :: "namespace_level \<Rightarrow> bool" where
  "level_ok (NamespaceLevel typ cs vs) \<longleftrightarrow>
     btree_ok cs \<and> btree_ok vs \<and> list_all snd (map (map_prod id level_ok) cs)"

lemma level_ok_iff:
  "level_ok level \<longleftrightarrow>
     btree_ok (children level) \<and> btree_ok (level_values level)
     \<and> (\<forall>(_, c) \<in> set (children level). level_ok c)"
  by (cases level) (auto simp: list_all_iff)

declare level_ok.simps [simp del]

lemma level_ok_NamespaceLevel [simp]:
  "level_ok (NamespaceLevel typ cs vs) \<longleftrightarrow>
     btree_ok cs \<and> btree_ok vs \<and> (\<forall>(_, c) \<in> set cs. level_ok c)"
  by (simp add: level_ok_iff[of "NamespaceLevel typ cs vs"])

definition ns_wf :: "namespace \<Rightarrow> bool" where
  "ns_wf ns \<longleftrightarrow>
     (\<forall>dir seg h. handle_at ns dir seg = Some h \<longrightarrow> object_at ns h \<noteq> None)
     \<and> (\<forall>h. object_at ns h \<noteq> None \<longrightarrow> h < next_handle ns)
     \<and> level_ok (root_level ns)"

definition ns_grows :: "namespace \<Rightarrow> namespace \<Rightarrow> bool" where
  "ns_grows ns ns' \<longleftrightarrow>
     next_handle ns \<le> next_handle ns' \<and> dom (object_at ns) \<subseteq> dom (object_at ns')"

text \<open>What holds of the namespace an operation leaves, whether it succeeds or fails.\<close>

definition post_state :: "('s \<Rightarrow> bool) \<Rightarrow> ('a \<times> 's, 'e \<times> 's) res \<Rightarrow> bool" where
  "post_state P r \<longleftrightarrow> (\<forall>x s. r = Ok (x, s) \<longrightarrow> P s) \<and> (\<forall>e s. r = Err (e, s) \<longrightarrow> P s)"

lemma post_state_simps [simp]:
  "post_state P (Ok (x, s)) = P s" "post_state P (Err (e, s)) = P s"
  "post_state P Panic" "post_state P Deadlock" "post_state P OutOfFuel"
  by (auto simp: post_state_def)

lemma post_state_map_err:
  assumes "\<And>e. P s" and "\<And>x. r = Ok x \<Longrightarrow> post_state P (f x)"
  shows "post_state P (and_then (map_err (\<lambda>e. (e, s)) r) f)"
  using assms by (cases r) auto

subsection \<open>Ordered levels\<close>

lemma level_ok_new [simp]: "level_ok (level_new typ)"
  by (simp add: level_new_def btree_ok_def)

lemma set_btree_insert:
  "set (btree_insert k v m) \<subseteq> insert (k, v) (set m)"
  by (induction k v m rule: btree_insert.induct) auto

lemma set_btree_remove: "set (btree_remove k m) \<subseteq> set m"
  by (auto simp: btree_remove_def)

lemma level_ok_with_values:
  "level_ok level \<Longrightarrow> btree_ok vs \<Longrightarrow> level_ok (with_values level vs)"
  by (simp add: level_ok_iff[of level] with_values_def)

lemma level_ok_insert_child:
  assumes "level_ok level" "level_ok child"
  shows "level_ok (with_children level (btree_insert seg child (children level)))"
  using assms set_btree_insert[of seg child "children level"]
  by (fastforce simp: level_ok_iff[of level] with_children_def
      btree_ok_insert)

lemma level_ok_remove_child:
  assumes "level_ok level"
  shows "level_ok (with_children level (btree_remove seg (children level)))"
  using assms set_btree_remove[of seg "children level"]
  by (auto simp: level_ok_iff[of level] with_children_def
      btree_ok_remove)

lemma level_ok_child:
  "level_ok level \<Longrightarrow> map_of (children level) seg = Some child \<Longrightarrow> level_ok child"
  by (auto simp: level_ok_iff[of level] dest: map_of_SomeD)

lemma level_ok_lookup: "level_ok level \<Longrightarrow> lookup_level level dir = Some x \<Longrightarrow> level_ok x"
  by (induction level dir rule: lookup_level.induct)
    (auto split: option.split_asm dest: level_ok_child)

lemma level_ok_update:
  assumes "level_ok (f (the (lookup_level level pos)))"
  shows "level_ok level \<Longrightarrow> level_ok (update_level f pos level)"
  using assms
proof (induction f pos level rule: update_level.induct)
  case (2 f seg segs level)
  show ?case
  proof (cases "map_of (children level) seg")
    case (Some child)
    with 2 have "level_ok (update_level f segs child)" by (auto dest: level_ok_child)
    from level_ok_insert_child[OF 2(2) this, of seg] Some show ?thesis
      by (simp add: with_children_def)
  qed (use 2 in simp)
qed simp

lemma level_ok_write:
  "ns_wf ns \<Longrightarrow> level_ok l \<Longrightarrow> level_ok (root_level (write_level ns pos l))"
  by (simp add: write_level_def ns_wf_def level_ok_update)

subsection \<open>Every operation keeps the invariant\<close>

lemma ns_wf_new [simp]: "ns_wf namespace_new"
  by (auto simp: ns_wf_def namespace_new_def handle_at_def level_new_def btree_ok_def
      split: option.splits elim: lookup_level.elims)

lemma ns_grows_refl [simp]: "ns_grows ns ns"
  by (simp add: ns_grows_def)

lemma ns_grows_trans: "ns_grows a b \<Longrightarrow> ns_grows b c \<Longrightarrow> ns_grows a c"
  by (auto simp: ns_grows_def)

lemma ns_grows_write [simp]: "ns_grows ns (write_level ns pos l)"
  by (simp add: ns_grows_def)

lemma add_level_wf:
  assumes "ns_wf ns"
  shows "post_state (\<lambda>ns'. ns_wf ns' \<and> ns_grows ns ns') (add_level ns path typ)"
proof -
  have *: "ns_wf (write_level ns pos (with_children level (btree_insert seg (level_new typ)
      (children level))))"
    if "get_level_for_path_mut ns p = Ok (pos, level, seg)" "map_of (children level) seg = None"
    for p pos level seg
  proof -
    from that(1) have at: "level_at ns pos = Some level" by (rule get_level_mut_Ok)
    with assms have "level_ok level" by (auto simp: ns_wf_def dest: level_ok_lookup)
    then show ?thesis
      using assms level_ok_write[OF assms level_ok_insert_child]
      by (simp add: ns_wf_def handle_at_new_child[OF at that(2)])
  qed
  show ?thesis
    unfolding add_level_def
    by (auto intro!: post_state_map_err simp: assms * split: option.splits)
qed

lemma remove_level_wf:
  assumes "ns_wf ns"
  shows "post_state (\<lambda>ns'. ns_wf ns' \<and> ns_grows ns ns') (remove_level ns path)"
proof -
  have *: "ns_wf (write_level ns pos (with_children level (btree_remove seg (children level))))"
    if "get_level_for_path_mut ns p = Ok (pos, level, seg)" for p pos level seg
  proof -
    from that(1) have at: "level_at ns pos = Some level" by (rule get_level_mut_Ok)
    with assms have "level_ok level" by (auto simp: ns_wf_def dest: level_ok_lookup)
    then show ?thesis
      using assms level_ok_write[OF assms level_ok_remove_child]
      by (simp add: ns_wf_def handle_at_removed_child[OF at])
  qed
  show ?thesis
    unfolding remove_level_def
    by (auto intro!: post_state_map_err simp: assms * split: option.splits)
qed

lemma handle_increment_Ok:
  "handle_increment h = Ok h' \<longleftrightarrow> h \<noteq> - 1 \<and> h' = h + 1"
  by (auto simp: handle_increment_def)

lemma handle_increment_not_Err: "handle_increment h = Err e \<Longrightarrow> P"
  by (simp add: handle_increment_def split: if_splits)

lemma unat_minus_one_word_u32: "unat (- 1 :: u32) = 2 ^ 32 - 1"
  by (simp add: unsigned_minus_1_eq_mask mask_eq_exp_minus_1)

lemma handle_less_increment:
  fixes h :: aml_handle
  assumes "h \<noteq> - 1"
  shows "h < h + 1"
proof -
  have "unat h \<noteq> 2 ^ 32 - 1"
    using assms by (auto simp: word_unat_eq_iff unat_minus_one_word_u32)
  moreover have "unat h < 2 ^ 32" using unsigned_less[of h, where 'a = nat] by simp
  ultimately have "unat (h + 1) = unat h + 1" by (simp add: unat_word_ariths)
  then show ?thesis by (simp add: word_less_nat_alt)
qed

lemma ns_wf_insert_object:
  assumes "ns_wf ns" "handle_increment (next_handle ns) = Ok next"
  shows "ns_wf (ns\<lparr>next_handle := next, object_map := btree_insert (next_handle ns) v (object_map ns)\<rparr>)"
  using assms handle_less_increment[of "next_handle ns"]
  by (auto simp: ns_wf_def handle_at_def handle_increment_Ok split: option.splits
      intro: less_trans)

lemma ns_grows_insert_object:
  assumes "handle_increment (next_handle ns) = Ok next"
  shows "ns_grows ns (ns\<lparr>next_handle := next, object_map := btree_insert (next_handle ns) v (object_map ns)\<rparr>)"
  using assms handle_less_increment[of "next_handle ns"]
  by (auto simp: ns_grows_def handle_increment_Ok)

lemma ns_wf_write_value:
  assumes "ns_wf ns" "level_at ns pos = Some level" "object_at ns h \<noteq> None"
  shows "ns_wf (write_level ns pos (with_values level (btree_insert seg h (level_values level))))"
proof -
  from assms have "level_ok level" by (auto simp: ns_wf_def dest: level_ok_lookup)
  then have "level_ok (with_values level (btree_insert seg h (level_values level)))"
    by (simp add: level_ok_with_values level_ok_iff[of level] btree_ok_insert)
  moreover have "map_of (level_values level) s = Some x \<Longrightarrow> object_at ns x \<noteq> None" for s x
  proof -
    assume "map_of (level_values level) s = Some x"
    with assms(2) have "handle_at ns pos s = Some x" by (simp add: handle_at_def)
    with assms(1) show "object_at ns x \<noteq> None" by (simp add: ns_wf_def)
  qed
  ultimately show ?thesis
    using assms level_ok_write[OF assms(1)]
    by (auto simp: ns_wf_def handle_at_write_values[OF assms(2)] split: if_splits)
qed

lemma add_value_wf:
  assumes "ns_wf ns"
  shows "post_state (\<lambda>ns'. ns_wf ns' \<and> ns_grows ns ns') (add_value ns path value)"
proof -
  have *: "post_state (\<lambda>ns'. ns_wf ns' \<and> ns_grows ns ns')
      (and_then (map_err (\<lambda>e. (e, ns1)) (get_level_for_path_mut ns1 p))
         (\<lambda>(pos, level, seg).
            let ns' = write_level ns1 pos
                  (with_values level (btree_insert seg (next_handle ns) (level_values level)))
            in case map_of (level_values level) seg of
                 None \<Rightarrow> Ok (next_handle ns, ns') | Some _ \<Rightarrow> Err (NameCollision p, ns')))"
    if "handle_increment (next_handle ns) = (Ok next :: (aml_handle, aml_error \<times> namespace) res)"
      "ns1 = ns\<lparr>next_handle := next, object_map := btree_insert (next_handle ns) value (object_map ns)\<rparr>"
    for p ns1 "next"
  proof -
    have wf: "ns_wf ns1" and grows: "ns_grows ns ns1"
      using ns_wf_insert_object[OF assms that(1)] ns_grows_insert_object[OF that(1)] that(2) by simp_all
    have "ns_wf (write_level ns1 pos (with_values level (btree_insert seg (next_handle ns)
          (level_values level))))"
      if "get_level_for_path_mut ns1 p = Ok (pos, level, seg)" for pos level seg
      using get_level_mut_Ok[OF that] wf \<open>ns1 = _\<close> by (intro ns_wf_write_value) auto
    then show ?thesis
      using wf grows by (auto intro!: post_state_map_err ns_grows_trans[OF grows]
          simp: Let_def split: option.splits)
  qed
  then show ?thesis
    by (cases "handle_increment (next_handle ns) :: (aml_handle, aml_error \<times> namespace) res")
      (auto simp: add_value_def assms Let_def intro!: post_state_map_err[of _ ns]
        dest: handle_increment_not_Err)
qed

lemma add_value_at_resolved_path_wf:
  assumes "ns_wf ns"
  shows "post_state (\<lambda>ns'. ns_wf ns' \<and> ns_grows ns ns') (add_value_at_resolved_path ns path scope value)"
  unfolding add_value_at_resolved_path_def
  by (auto intro!: post_state_map_err add_value_wf simp: assms)

lemma ns_get_mut_wf:
  assumes "ns_wf ns" "ns_get_mut ns h v = Ok ns'"
  shows "ns_wf ns'" "ns_grows ns ns'"
  using assms
  by (auto simp: ns_get_mut_def ns_wf_def ns_grows_def handle_at_def res_elims
      split: option.splits if_splits)

subsection \<open>Sequences of operations\<close>

text \<open>
  A component whose operations return the state they leave, also with an error: its clients
  go on from there. The contract has an invariant and a preorder that every operation keeps;
  whatever sequence of operations runs, both hold of the states it reaches.
\<close>

locale stateful_ops =
  fixes op :: "'c \<Rightarrow> 's \<Rightarrow> ('a \<times> 's, 'e \<times> 's) res"
    and inv :: "'s \<Rightarrow> bool"
    and grows :: "'s \<Rightarrow> 's \<Rightarrow> bool"
  assumes op_keeps: "inv s \<Longrightarrow> post_state (\<lambda>s'. inv s' \<and> grows s s') (op c s)"
    and grows_refl: "grows s s"
    and grows_trans: "grows s t \<Longrightarrow> grows t u \<Longrightarrow> grows s u"
begin

inductive reach :: "'s \<Rightarrow> 's \<Rightarrow> bool" for s where
  reach_start: "reach s s"
| reach_ok: "reach s t \<Longrightarrow> op c t = Ok (x, u) \<Longrightarrow> reach s u"
| reach_err: "reach s t \<Longrightarrow> op c t = Err (e, u) \<Longrightarrow> reach s u"

lemma reach_keeps:
  assumes "reach s t" "inv s"
  shows "inv t \<and> grows s t"
  using assms
proof (induction rule: reach.induct)
  case reach_start
  then show ?case by (simp add: grows_refl)
next
  case (reach_ok t c x u)
  then show ?case using op_keeps[of t c] by (auto intro: grows_trans)
next
  case (reach_err t c e u)
  then show ?case using op_keeps[of t c] by (auto intro: grows_trans)
qed

end

text \<open>The operations of the namespace that change it, as commands.\<close>

datatype ns_op =
    AddLevel aml_name level_type
  | RemoveLevel aml_name
  | AddValue aml_name aml_value
  | AddValueAtResolvedPath aml_name aml_name aml_value
  | SetObject aml_handle aml_value
  | SetByPath aml_name aml_value

definition in_state :: "'s \<Rightarrow> ('s, 'e) res \<Rightarrow> (unit \<times> 's, 'e \<times> 's) res" where
  "in_state s r = and_then (map_err (\<lambda>e. (e, s)) r) (\<lambda>s'. Ok ((), s'))"

definition forget :: "('a \<times> 's, 'e) res \<Rightarrow> (unit \<times> 's, 'e) res" where
  "forget r = and_then r (\<lambda>(_, s'). Ok ((), s'))"

fun ns_exec :: "ns_op \<Rightarrow> namespace \<Rightarrow> (unit \<times> namespace, aml_error \<times> namespace) res" where
  "ns_exec (AddLevel path typ) ns = add_level ns path typ"
| "ns_exec (RemoveLevel path) ns = remove_level ns path"
| "ns_exec (AddValue path value) ns = forget (add_value ns path value)"
| "ns_exec (AddValueAtResolvedPath path scope value) ns =
     forget (add_value_at_resolved_path ns path scope value)"
| "ns_exec (SetObject handle value) ns = in_state ns (ns_get_mut ns handle value)"
| "ns_exec (SetByPath path value) ns = in_state ns (get_by_path_mut ns path value)"

lemma post_state_forget: "post_state P r \<Longrightarrow> post_state P (forget r)"
  by (cases r) (auto simp: forget_def)

lemma post_state_in_state: "P s \<Longrightarrow> (\<And>s'. r = Ok s' \<Longrightarrow> P s') \<Longrightarrow> post_state P (in_state s r)"
  by (cases r) (auto simp: in_state_def)

lemma ns_exec_wf:
  "ns_wf ns \<Longrightarrow> post_state (\<lambda>ns'. ns_wf ns' \<and> ns_grows ns ns') (ns_exec c ns)"
  by (cases c)
    (auto intro!: post_state_forget post_state_in_state add_level_wf remove_level_wf add_value_wf
      add_value_at_resolved_path_wf simp: get_by_path_mut_def res_elims dest: ns_get_mut_wf)

interpretation ns_ops: stateful_ops ns_exec ns_wf ns_grows
  by unfold_locales (auto intro: ns_exec_wf ns_grows_trans)

subsection \<open>What the operations do at an absolute path\<close>

lemma add_level_root [simp]: "add_level ns (abs_path []) typ = Ok ((), ns)"
  by (simp add: add_level_def)

lemma add_level_abs:
  "add_level ns (abs_path (dir @ [seg])) typ =
     (case level_at ns dir of
        None \<Rightarrow> Err (LevelDoesNotExist (abs_path (missing_prefix (root_level ns) dir)), ns)
      | Some level \<Rightarrow>
          Ok ((), if map_of (children level) seg = None
                  then write_level ns dir (with_children level
                         (btree_insert seg (level_new typ) (children level)))
                  else ns))"
  by (simp add: add_level_def get_level_mut_abs split: option.splits)

lemma remove_level_abs:
  "remove_level ns (abs_path (dir @ [seg])) =
     (case level_at ns dir of
        None \<Rightarrow> Err (LevelDoesNotExist (abs_path (missing_prefix (root_level ns) dir)), ns)
      | Some level \<Rightarrow>
          (case map_of (children level) seg of
             None \<Rightarrow> Err (LevelDoesNotExist (abs_path (dir @ [seg])), ns)
           | Some _ \<Rightarrow> Ok ((), write_level ns dir
                 (with_children level (btree_remove seg (children level))))))"
  by (simp add: remove_level_def get_level_mut_abs split: option.splits)

lemma add_value_abs:
  assumes "next_handle ns \<noteq> - 1"
    and ns1_def: "ns1 = ns\<lparr>next_handle := next_handle ns + 1,
                     object_map := btree_insert (next_handle ns) value (object_map ns)\<rparr>"
  shows "add_value ns (abs_path (dir @ [seg])) value =
     (case level_at ns dir of
        None \<Rightarrow> Err (LevelDoesNotExist (abs_path (missing_prefix (root_level ns) dir)), ns1)
      | Some level \<Rightarrow>
          (let ns2 = write_level ns1 dir
                 (with_values level (btree_insert seg (next_handle ns) (level_values level)))
           in case handle_at ns dir seg of
                None \<Rightarrow> Ok (next_handle ns, ns2)
              | Some _ \<Rightarrow> Err (NameCollision (abs_path (dir @ [seg])), ns2)))"
  using assms(1)
  by (simp add: add_value_def get_level_mut_abs ns1_def handle_increment_def Let_def handle_at_def
      split: option.splits)

text \<open>
  A successful \<open>add_value\<close>: the handle is fresh, the name leads to the value, and no other
  name and no other object changes.
\<close>

lemma add_value_success:
  assumes "ns_wf ns" "add_value ns (abs_path (dir @ [seg])) value = Ok (h, ns')"
  shows "handle_at ns dir seg = None" "object_at ns h = None"
    "handle_at ns' = (\<lambda>d s. if d = dir \<and> s = seg then Some h else handle_at ns d s)"
    "object_at ns' = (object_at ns)(h \<mapsto> value)"
    "get_by_path ns' (abs_path (dir @ [seg])) = Ok value"
proof -
  let ?ns1 = "ns\<lparr>next_handle := next_handle ns + 1,
                 object_map := btree_insert (next_handle ns) value (object_map ns)\<rparr>"
  have nh: "next_handle ns \<noteq> - 1"
    using assms(2) by (auto simp: add_value_def handle_increment_def Let_def)
  from assms(2) obtain level where level: "level_at ns dir = Some level"
    and none: "handle_at ns dir seg = None" and h: "h = next_handle ns"
    and ns': "ns' = write_level ?ns1 dir
                 (with_values level (btree_insert seg (next_handle ns) (level_values level)))"
    by (auto simp: add_value_abs[OF nh refl] Let_def split: option.split_asm)
  from level have level1: "level_at ?ns1 dir = Some level" by simp
  have same: "handle_at ?ns1 d s = handle_at ns d s" for d s by (simp add: handle_at_def)
  have at_dir: "handle_at ns dir s = map_of (level_values level) s" for s
    using level by (simp add: handle_at_def)
  show "handle_at ns dir seg = None" by (rule none)
  show "object_at ns h = None"
    using assms(1) h by (auto simp: ns_wf_def)
  show at: "handle_at ns' = (\<lambda>d s. if d = dir \<and> s = seg then Some h else handle_at ns d s)"
    using level by (auto simp: fun_eq_iff ns' h handle_at_write_values[OF level1] same at_dir)
  show obj: "object_at ns' = (object_at ns)(h \<mapsto> value)"
    by (simp add: ns' h)
  have "level_at ns' dir \<noteq> None"
    using level_at_write_values[OF level1] level by (simp add: ns')
  then show "get_by_path ns' (abs_path (dir @ [seg])) = Ok value"
    using at obj by (auto simp: get_by_path_def handle_at_get_handle ns_get_def)
qed

text \<open>Removing a level that was just added gives the namespace back.\<close>

lemma btree_insert_same:
  "btree_ok m \<Longrightarrow> map_of m k = Some v \<Longrightarrow> btree_insert k v m = m"
proof (induction k v m rule: btree_insert.induct)
  case (2 k v a b m)
  then have "btree_ok m" "\<forall>x \<in> fst ` set m. a < x" by (auto simp: btree_ok_def)
  with 2 show ?case by (force split: if_splits dest: map_of_SomeD)
qed simp

lemma btree_insert_insert [simp]: "btree_insert k v (btree_insert k w m) = btree_insert k v m"
  by (induction k w m rule: btree_insert.induct) auto

lemma update_level_update:
  "update_level f pos (update_level g pos level) = update_level (f \<circ> g) pos level"
  by (induction g pos level rule: update_level.induct) (auto split: option.splits)

lemma update_level_same:
  "level_ok level \<Longrightarrow> lookup_level level pos = Some x \<Longrightarrow> f x = x \<Longrightarrow> update_level f pos level = level"
proof (induction f pos level rule: update_level.induct)
  case (2 f seg segs level)
  then obtain child where child: "map_of (children level) seg = Some child"
    by (auto split: option.split_asm)
  with 2 have "update_level f segs child = child" by (auto dest: level_ok_child)
  moreover from 2 have "btree_ok (children level)" by (simp add: level_ok_iff[of level])
  ultimately show ?case using child by (simp add: btree_insert_same)
qed simp

lemma remove_added_level:
  assumes "ns_wf ns" "level_at ns (dir @ [seg]) = None" "level_at ns dir \<noteq> None"
    "add_level ns (abs_path (dir @ [seg])) typ = Ok ((), ns')"
  shows "remove_level ns' (abs_path (dir @ [seg])) = Ok ((), ns)"
proof -
  from assms obtain level where level: "level_at ns dir = Some level"
    and none: "map_of (children level) seg = None"
    by (auto simp: lookup_level_append split: option.split_asm)
  let ?cs = "btree_insert seg (level_new typ) (children level)"
  from assms(4) level none have ns': "ns' = write_level ns dir (with_children level ?cs)"
    by (simp add: add_level_abs)
  have at: "level_at ns' dir = Some (with_children level ?cs)"
    using level_at_write_below[OF level, of _ "[]"] by (simp add: ns')
  have "with_children level (children level) = level"
    by (cases level) (simp add: with_children_def)
  moreover have "level_ok (root_level ns)" using assms(1) by (simp add: ns_wf_def)
  ultimately have "write_level ns' dir (with_children (with_children level ?cs)
        (btree_remove seg ?cs)) = ns"
    using level none
    by (simp add: ns' write_level_def update_level_update btree_remove_insert comp_def
        update_level_same with_children_def)
  then show ?thesis using at by (simp add: remove_level_abs) (simp add: with_children_def)
qed

end
