(* ===== verification/Namespace_Search.thy ===== *)
theory Namespace_Search
  imports Namespace_Inv
begin

section \<open>Name search and traversal\<close>

text \<open>
  The search rules: a name of one segment is looked for in the scope, then in its parent, and
  so on up to the root. The searches return the hit of the nearest enclosing scope
  (\<open>find\<close> over \<open>ancestors\<close>), and always return. A traversal in which the visitor always
  goes on visits every level once, a level before its sub-levels.
\<close>

fun ancestors :: "name_seg list \<Rightarrow> name_seg list list" where
  "ancestors [] = [[]]"
| "ancestors (s # ss) = map ((#) s) (ancestors ss) @ [[]]"

lemma ancestors_snoc: "ancestors (dir @ [s]) = (dir @ [s]) # ancestors dir"
  by (induction dir) auto

lemma ancestors_iff: "d \<in> set (ancestors dir) \<longleftrightarrow> prefix d dir"
  by (induction dir arbitrary: d) (auto simp: prefix_Cons)

lemma search_here_seg:
  "search_here ns [Segment s] (abs_path dir) =
     Ok (map_option (\<lambda>h. (abs_path (dir @ [s]), h)) (handle_at ns dir s))"
  by (simp add: search_here_def get_level_abs handle_at_def split: option.splits)

lemma search_up_seg:
  "search_up ns [Segment s] (abs_path dir) =
     (case find (\<lambda>d. handle_at ns d s \<noteq> None) (ancestors dir) of
        Some d \<Rightarrow> Ok (abs_path (d @ [s]), the (handle_at ns d s))
      | None \<Rightarrow> Err (ValueDoesNotExist [Segment s]))"
proof (induction dir rule: rev_induct)
  case Nil
  then show ?case
    by (subst search_up.simps) (auto simp: search_here_seg parent_abs_path split: option.splits)
next
  case (snoc t dir)
  then show ?case
    by (subst search_up.simps)
      (auto simp: search_here_seg parent_abs_path ancestors_snoc split: option.splits)
qed

lemma search_seg:
  "search ns [Segment s] (abs_path dir) =
     (case find (\<lambda>d. handle_at ns d s \<noteq> None) (ancestors dir) of
        Some d \<Rightarrow> Ok (abs_path (d @ [s]), the (handle_at ns d s))
      | None \<Rightarrow> Err (ValueDoesNotExist [Segment s]))"
  by (simp add: search_def search_up_seg)

lemma level_at_snoc:
  "level_at ns (dir @ [s]) = Option.bind (level_at ns dir) (\<lambda>l. map_of (children l) s)"
  by (auto simp: lookup_level_append split: option.splits intro!: bind_option_cong)

lemma search_level_up_step:
  "search_level_up ns [Segment s] (abs_path dir) =
     (if level_at ns (dir @ [s]) \<noteq> None then Ok (abs_path (dir @ [s]))
      else if dir = [] then Err (LevelDoesNotExist [Segment s])
      else search_level_up ns [Segment s] (abs_path (butlast dir)))"
  by (subst search_level_up.simps)
    (auto simp: get_level_abs parent_abs_path level_at_snoc split: option.splits)

lemma search_level_up_seg:
  "search_level_up ns [Segment s] (abs_path dir) =
     (case find (\<lambda>d. level_at ns (d @ [s]) \<noteq> None) (ancestors dir) of
        Some d \<Rightarrow> Ok (abs_path (d @ [s]))
      | None \<Rightarrow> Err (LevelDoesNotExist [Segment s]))"
proof (induction dir rule: rev_induct)
  case Nil
  then show ?case by (subst search_level_up_step) (simp del: lookup_level.simps)
next
  case (snoc t dir)
  then show ?case
    by (subst search_level_up_step) (simp add: ancestors_snoc del: lookup_level.simps)
qed

lemma search_for_level_seg:
  "search_for_level ns [Segment s] (abs_path dir) =
     (case find (\<lambda>d. level_at ns (d @ [s]) \<noteq> None) (ancestors dir) of
        Some d \<Rightarrow> Ok (abs_path (d @ [s]))
      | None \<Rightarrow> Err (LevelDoesNotExist [Segment s]))"
  by (simp add: search_for_level_def search_level_up_seg)

subsection \<open>Traversal\<close>

text \<open>The levels below a list of siblings, parents first.\<close>

function tree_list :: "(name_seg \<times> namespace_level) list \<Rightarrow> name_seg list
    \<Rightarrow> (name_seg list \<times> namespace_level) list" where
  "tree_list [] dir = []"
| "tree_list ((seg, child) # siblings) dir =
     (dir @ [seg], child) # tree_list (children child) (dir @ [seg]) @ tree_list siblings dir"
  by pat_completeness auto
termination
proof (relation "measure (\<lambda>(cs, _). size_list (size_prod (\<lambda>_. 0) size) cs)", goal_cases)
  case (2 seg child siblings dir)
  then show ?case by (cases child) simp
qed simp_all

definition collect :: "(aml_name \<times> namespace_level) list visitor" where
  "collect name level st = Ok (True, st @ [(name, level)])"

lemma traverse_level_collect:
  "traverse_level collect cs (abs_path dir) st
     = Ok ((), st @ map (map_prod abs_path id) (tree_list cs dir))"
  by (induction cs dir arbitrary: st rule: tree_list.induct)
    (simp_all add: from_name_seg_def collect_def)

lemma traverse_collect:
  "traverse ns collect [] =
     Ok ((), map (map_prod abs_path id) (([], root_level ns) # tree_list (children (root_level ns)) []))"
  using traverse_level_collect[of "children (root_level ns)" "[]"]
  by (simp add: traverse_def collect_def root_name_abs)

lemma btree_ok_fresh: "btree_ok ((k, v) # m) \<Longrightarrow> map_of m k = None"
  by (auto simp: btree_ok_def map_of_eq_None_iff)

lemma tree_list_set:
  "btree_ok cs \<Longrightarrow> \<forall>(_, c) \<in> set cs. level_ok c \<Longrightarrow>
   (d, l) \<in> set (tree_list cs dir) \<longleftrightarrow>
     (\<exists>seg rest c. d = dir @ seg # rest \<and> map_of cs seg = Some c \<and> lookup_level c rest = Some l)"
proof (induction cs dir arbitrary: d l rule: tree_list.induct)
  case (2 seg child siblings dir)
  have notin: "map_of siblings seg = None"
    using 2(3) by (rule btree_ok_fresh)
  have ok: "btree_ok siblings" using 2(3) by (simp add: btree_ok_def)
  have child: "btree_ok (children child)" "\<forall>(_, c) \<in> set (children child). level_ok c"
    using 2(4) by (auto simp: level_ok_iff[of child])
  have below: "(\<exists>rest. d = dir @ seg # rest \<and> lookup_level child rest = Some l) \<longleftrightarrow>
      (d, l) = (dir @ [seg], child) \<or>
      (\<exists>s rest c. d = (dir @ [seg]) @ s # rest \<and> map_of (children child) s = Some c
                  \<and> lookup_level c rest = Some l)"
    (is "?L \<longleftrightarrow> ?R")
  proof
    assume ?L
    then obtain rest where d: "d = dir @ seg # rest" and l: "lookup_level child rest = Some l" by blast
    then show ?R by (cases rest) (auto split: option.split_asm)
  next
    assume ?R
    then show ?L by (auto split: option.splits)
  qed
  have split: "map_of ((seg, child) # siblings) s = Some c \<longleftrightarrow>
      s = seg \<and> c = child \<or> map_of siblings s = Some c" for s c
    using notin by auto
  show ?case
    unfolding tree_list.simps split
    using 2(1)[OF child, of d l] 2(2)[OF ok, of d l] 2(4) below by auto
qed simp

lemma tree_list_distinct:
  "btree_ok cs \<Longrightarrow> \<forall>(_, c) \<in> set cs. level_ok c \<Longrightarrow> distinct (map fst (tree_list cs dir))"
proof (induction cs dir rule: tree_list.induct)
  case (2 seg child siblings dir)
  have notin: "map_of siblings seg = None"
    using 2(3) by (rule btree_ok_fresh)
  have ok: "btree_ok siblings" "\<forall>(_, c) \<in> set siblings. level_ok c"
    using 2(3,4) by (auto simp: btree_ok_def)
  have child: "btree_ok (children child)" "\<forall>(_, c) \<in> set (children child). level_ok c"
    using 2(4) by (auto simp: level_ok_iff[of child])
  show ?case
    using 2(1)[OF child] 2(2)[OF ok] notin
    by (auto simp: tree_list_set[OF child] tree_list_set[OF ok] split_paired_all image_iff)
qed simp

end
