(* ===== verification/Aml_Context.thy ===== *)
theory Aml_Context
  imports Namespace_Search
begin

section \<open>The interpreter's context\<close>

text \<open>
  \<open>AmlContext\<close> of \<open>lib.rs\<close>. Besides the fields of the struct, the record keeps what the
  sources leave to the machine: the heap of the buffers that values share (\<open>buffers\<close>), the
  spin locks held at the moment (\<open>locked\<close>), and the accesses the \<open>Handler\<close> has served
  (\<open>io_log\<close>), on which its answers, and whether it panics, may depend. The handler and the native methods of the
  library's user are fields of the environment \<open>aml_env\<close>, which extends the record of the
  third-party crates.
\<close>

datatype target = NullTarget | NameTarget aml_name | DebugTarget | ArgTarget arg_num
  | LocalTarget local_num

text \<open>\<open>Args\<close> holds seven optional values, the locals are eight.\<close>

type_synonym args = "aml_value option list"

record method_context =
  locals :: "aml_value option list"
  margs :: args

datatype io_event =
    MemRead nat u64
  | MemWrite nat u64 u64
  | IoRead nat u16
  | IoWrite nat u16 u64
  | PciRead nat u16 u8 u8 u8 u16
  | PciWrite nat u16 u8 u8 u8 u16 u64
  | FatalEvent u8 u32 u64

record aml_context =
  ns :: namespace
  method_ctx :: "method_context option"
  current_scope :: aml_name
  scope_indent :: nat
  verbosity :: debug_verbosity
  buffers :: "bytes list"
  locked :: "buf_ref list"
  io_log :: "io_event list"

type_synonym ('a, 'e) eact = "aml_context \<Rightarrow> ('a \<times> aml_context, 'e \<times> aml_context) res"
type_synonym 'a act = "('a, aml_error) eact"

record aml_env = crates +
  h_read_u8 :: "io_event list \<Rightarrow> u64 \<Rightarrow> u8"
  h_read_u16 :: "io_event list \<Rightarrow> u64 \<Rightarrow> u16"
  h_read_u32 :: "io_event list \<Rightarrow> u64 \<Rightarrow> u32"
  h_read_u64 :: "io_event list \<Rightarrow> u64 \<Rightarrow> u64"
  h_read_io_u8 :: "io_event list \<Rightarrow> u16 \<Rightarrow> u8"
  h_read_io_u16 :: "io_event list \<Rightarrow> u16 \<Rightarrow> u16"
  h_read_io_u32 :: "io_event list \<Rightarrow> u16 \<Rightarrow> u32"
  h_read_pci_u8 :: "io_event list \<Rightarrow> u16 \<Rightarrow> u8 \<Rightarrow> u8 \<Rightarrow> u8 \<Rightarrow> u16 \<Rightarrow> u8"
  h_read_pci_u16 :: "io_event list \<Rightarrow> u16 \<Rightarrow> u8 \<Rightarrow> u8 \<Rightarrow> u8 \<Rightarrow> u16 \<Rightarrow> u16"
  h_read_pci_u32 :: "io_event list \<Rightarrow> u16 \<Rightarrow> u8 \<Rightarrow> u8 \<Rightarrow> u8 \<Rightarrow> u16 \<Rightarrow> u32"
  h_returns :: "io_event list \<Rightarrow> io_event \<Rightarrow> bool"
  host_native :: "nat \<Rightarrow> aml_value act"

subsection \<open>Actions\<close>

definition ret :: "'a \<Rightarrow> ('a, 'e) eact" where
  "ret x c = Ok (x, c)"

definition fail :: "'e \<Rightarrow> ('a, 'e) eact" where
  "fail e c = Err (e, c)"

definition act_bind :: "('a, 'e) eact \<Rightarrow> ('a \<Rightarrow> ('b, 'e) eact) \<Rightarrow> ('b, 'e) eact" where
  "act_bind m f c = and_then (m c) (\<lambda>(x, c'). f x c')"

text \<open>A computation that only reads the context.\<close>

definition reads :: "(aml_context \<Rightarrow> ('a, 'e) res) \<Rightarrow> ('a, 'e) eact" where
  "reads f c = and_then (map_err (\<lambda>e. (e, c)) (f c)) (\<lambda>x. Ok (x, c))"

abbreviation pure_res :: "('a, 'e) res \<Rightarrow> ('a, 'e) eact" where
  "pure_res r \<equiv> reads (\<lambda>_. r)"

text \<open>An operation of the namespace, run on the namespace of the context.\<close>

definition on_ns :: "(namespace \<Rightarrow> ('a \<times> namespace, aml_error \<times> namespace) res) \<Rightarrow> 'a act" where
  "on_ns f c = and_then (map_err (\<lambda>(e, n). (e, c\<lparr>ns := n\<rparr>)) (f (ns c)))
                 (\<lambda>(x, n). Ok (x, c\<lparr>ns := n\<rparr>))"

text \<open>The heap of shared buffers, each behind a spin lock.\<close>

definition alloc_buffer :: "bytes \<Rightarrow> (buf_ref, 'e) eact" where
  "alloc_buffer bs c = Ok (length (buffers c), c\<lparr>buffers := buffers c @ [bs]\<rparr>)"

definition buffer_data :: "aml_context \<Rightarrow> buf_ref \<Rightarrow> bytes" where
  "buffer_data c r = (if r < length (buffers c) then buffers c ! r else [])"

definition write_buffer :: "buf_ref \<Rightarrow> bytes \<Rightarrow> (unit, 'e) eact" where
  "write_buffer r bs c = Ok ((), c\<lparr>buffers := (buffers c)[r := bs]\<rparr>)"

definition unlock :: "buf_ref \<Rightarrow> aml_context \<Rightarrow> aml_context" where
  "unlock r c = c\<lparr>locked := remove1 r (locked c)\<rparr>"

definition with_lock :: "buf_ref \<Rightarrow> (bytes \<Rightarrow> ('a, 'e) eact) \<Rightarrow> ('a, 'e) eact" where
  "with_lock r f c =
     (if r \<in> set (locked c) then Deadlock
      else
        case f (buffer_data c r) (c\<lparr>locked := r # locked c\<rparr>) of
          Ok (x, c') \<Rightarrow> Ok (x, unlock r c')
        | Err (e, c') \<Rightarrow> Err (e, unlock r c')
        | Panic \<Rightarrow> Panic
        | Deadlock \<Rightarrow> Deadlock
        | OutOfFuel \<Rightarrow> OutOfFuel)"

text \<open>A call of the handler: it returns, or it panics.\<close>

definition log_io :: "aml_env \<Rightarrow> io_event \<Rightarrow> (unit, 'e) eact" where
  "log_io E ev c = (if h_returns E (io_log c) ev then Ok ((), c\<lparr>io_log := io_log c @ [ev]\<rparr>) else Panic)"

text \<open>A read that the handler answers from what happened so far.\<close>

definition handler_read :: "aml_env \<Rightarrow> (io_event list \<Rightarrow> u64) \<Rightarrow> io_event \<Rightarrow> u64 act" where
  "handler_read E f ev c =
     (if h_returns E (io_log c) ev then Ok (f (io_log c), c\<lparr>io_log := io_log c @ [ev]\<rparr>) else Panic)"

subsection \<open>Arguments and locals\<close>

definition method_context_new :: "args \<Rightarrow> method_context" where
  "method_context_new a = \<lparr>locals = replicate 8 None, margs = a\<rparr>"

definition args_empty :: args where
  "args_empty = replicate 7 None"

definition args_from_list :: "aml_value list \<Rightarrow> (args, aml_error) res" where
  "args_from_list list =
     (if length list > 7 then Err TooManyArgs
      else
        let args = map Some list; args = args @ replicate (7 - length args) None
        in if length args = 7 then Ok args else Panic)"

definition args_arg :: "args \<Rightarrow> arg_num \<Rightarrow> (aml_value, aml_error) res" where
  "args_arg a n =
     (if n > 6 then Err (InvalidArgAccess n)
      else if unat n < length a then ok_or (InvalidArgAccess n) (a ! unat n) else Panic)"

definition args_store_arg :: "args \<Rightarrow> arg_num \<Rightarrow> aml_value \<Rightarrow> (args, aml_error) res" where
  "args_store_arg a n value =
     (if n > 6 then Err (InvalidArgAccess n)
      else if unat n < length a then Ok (a[unat n := Some value]) else Panic)"

definition current_arg :: "arg_num \<Rightarrow> aml_value act" where
  "current_arg n = reads (\<lambda>c.
     and_then (ok_or NotExecutingControlMethod (method_ctx c)) (\<lambda>mc. args_arg (margs mc) n))"

definition local :: "local_num \<Rightarrow> aml_value act" where
  "local n = reads (\<lambda>c.
     case method_ctx c of
       None \<Rightarrow> Err NotExecutingControlMethod
     | Some mc \<Rightarrow>
         if n > 7 then Err (InvalidLocalAccess n)
         else if unat n < length (locals mc) then
           ok_or (InvalidLocalAccess n) (locals mc ! unat n)
         else Panic)"

subsection \<open>Lemmas on actions\<close>

lemma ret_apply [simp]: "ret x c = Ok (x, c)"
  by (simp add: ret_def)

lemma fail_apply [simp]: "fail e c = Err (e, c)"
  by (simp add: fail_def)

lemma act_bind_ret [simp]: "act_bind (ret x) f = f x"
  by (simp add: act_bind_def fun_eq_iff)

lemma act_bind_fail [simp]: "act_bind (fail e) f = fail e"
  by (simp add: act_bind_def fun_eq_iff)

lemma act_bind_assoc: "act_bind (act_bind m f) g = act_bind m (\<lambda>x. act_bind (f x) g)"
proof
  fix c
  show "act_bind (act_bind m f) g c = act_bind m (\<lambda>x. act_bind (f x) g) c"
    by (cases "m c") (auto simp: act_bind_def split: prod.splits)
qed

lemma reads_simps:
  "f c = Ok x \<Longrightarrow> reads f c = Ok (x, c)"
  "f c = Err e \<Longrightarrow> reads f c = Err (e, c)"
  by (simp_all add: reads_def)

lemma flat_le_act_bind [flat_intros]:
  "flat_le (m c) (m' c) \<Longrightarrow> (\<And>x c'. flat_le (f x c') (g x c')) \<Longrightarrow>
   flat_le (act_bind m f c) (act_bind m' g c)"
  unfolding act_bind_def by (rule flat_le_and_then) auto

lemma flat_le_with_lock [flat_intros]:
  assumes "\<And>bs c'. flat_le (f bs c') (g bs c')"
  shows "flat_le (with_lock r f c) (with_lock r g c)"
proof (cases "r \<in> set (locked c)")
  case False
  have "flat_le (f (buffer_data c r) (c\<lparr>locked := r # locked c\<rparr>))
                (g (buffer_data c r) (c\<lparr>locked := r # locked c\<rparr>))" by (rule assms)
  then show ?thesis using False by (auto simp: with_lock_def flat_le_def)
qed (simp add: with_lock_def)

end
