(* ===== verification/Aml_Value.thy ===== *)
theory Aml_Value
  imports Aml_Context
begin

section \<open>Values\<close>

text \<open>
  \<open>value.rs\<close>, and the accesses to operation regions and targets of \<open>lib.rs\<close> on which it
  depends. Converting a value to an integer may read a field, reading a field of a PCI region
  converts the objects \<open>_SEG\<close>, \<open>_BBN\<close> and \<open>_ADR\<close> to integers, and these may be fields again: the
  recursion of \<open>as_integer\<close> need not end and is bounded by fuel. The functions below it take
  the conversion as their argument \<open>asint\<close>.
\<close>

subsection \<open>Flags\<close>

definition field_flags_new :: "u8 \<Rightarrow> field_flags" where
  "field_flags_new value = FieldFlags value"

fun access_type :: "'z crates_scheme \<Rightarrow> field_flags \<Rightarrow> (field_access_type, aml_error) res" where
  "access_type K (FieldFlags f) =
     (let b = get_bits_u8 K f 0 4 in
      if b = 0 then Ok AnyAccess
      else if b = 1 then Ok ByteAccess
      else if b = 2 then Ok WordAccess
      else if b = 3 then Ok DWordAccess
      else if b = 4 then Ok QWordAccess
      else if b = 5 then Ok BufferAccess
      else Err InvalidFieldFlags)"

fun lock_rule :: "'z crates_scheme \<Rightarrow> field_flags \<Rightarrow> bool" where
  "lock_rule K (FieldFlags f) = get_bit_u8 K f 4"

fun field_update_rule :: "'z crates_scheme \<Rightarrow> field_flags \<Rightarrow> (field_update_rule, aml_error) res" where
  "field_update_rule K (FieldFlags f) =
     (let b = get_bits_u8 K f 5 7 in
      if b = 0 then Ok Preserve
      else if b = 1 then Ok WriteAsOnes
      else if b = 2 then Ok WriteAsZeros
      else Err InvalidFieldFlags)"

definition method_flags_new :: "'z crates_scheme \<Rightarrow> u8 \<Rightarrow> bool \<Rightarrow> u8 \<Rightarrow> (method_flags, 'e) res" where
  "method_flags_new K count serial level =
     (if \<not> count \<le> 7 then Panic
      else if \<not> level \<le> 15 then Panic
      else
        let value = 0;
            value = set_bits_u8 K value 0 3 count;
            value = set_bit_u8 K value 3 serial;
            value = set_bits_u8 K value 4 8 level
        in Ok (MethodFlags value))"

definition method_flags_from :: "u8 \<Rightarrow> method_flags" where
  "method_flags_from value = MethodFlags value"

fun arg_count :: "'z crates_scheme \<Rightarrow> method_flags \<Rightarrow> u8" where
  "arg_count K (MethodFlags f) = get_bits_u8 K f 0 3"

fun serialize :: "'z crates_scheme \<Rightarrow> method_flags \<Rightarrow> bool" where
  "serialize K (MethodFlags f) = get_bit_u8 K f 3"

fun sync_level :: "'z crates_scheme \<Rightarrow> method_flags \<Rightarrow> u8" where
  "sync_level K (MethodFlags f) = get_bits_u8 K f 4 8"

definition status_object_default :: status_object where
  "status_object_default =
     \<lparr>present = True, enabled = True, show_in_ui = True, functional = True, battery_present = True\<rparr>"

subsection \<open>Types and simple conversions\<close>

definition zero :: aml_value where "zero = Integer 0"
definition one :: aml_value where "one = Integer 1"
definition ones :: aml_value where "ones = Integer (- 1)"

definition native_method_value :: "'z crates_scheme \<Rightarrow> u8 \<Rightarrow> bool \<Rightarrow> u8 \<Rightarrow> native_method
    \<Rightarrow> (aml_value, 'e) res" where
  "native_method_value K count serial level f =
     and_then (method_flags_new K count serial level)
       (\<lambda>flags. Ok (Method flags (Native f)))"

fun type_of :: "aml_value \<Rightarrow> aml_type" where
  "type_of (Boolean _) = IntegerType"
| "type_of (Integer _) = IntegerType"
| "type_of (String _) = StringType"
| "type_of (OpRegion _ _ _ _) = OpRegionType"
| "type_of (Field _ _ _ _) = FieldUnitType"
| "type_of Device = DeviceType"
| "type_of (Method _ _) = MethodType"
| "type_of (Buffer _) = BufferType"
| "type_of (BufferField _ _ _) = BufferFieldType"
| "type_of (Processor _ _ _) = ProcessorType"
| "type_of (Mutex _) = MutexType"
| "type_of (Package _) = PackageType"
| "type_of (PowerResource _ _) = PowerResourceType"
| "type_of ThermalZone = ThermalZoneType"

fun as_bool :: "aml_value \<Rightarrow> (bool, aml_error) res" where
  "as_bool (Boolean value) = Ok value"
| "as_bool (Integer value) = Ok (value \<noteq> 0)"
| "as_bool v = Err (IncompatibleValueConversion (type_of v) IntegerType)"

definition as_concat_type :: "aml_value \<Rightarrow> aml_value" where
  "as_concat_type v =
     (case type_of v of
        IntegerType \<Rightarrow> v
      | StringType \<Rightarrow> v
      | BufferType \<Rightarrow> v
      | UninitializedType \<Rightarrow> String ''[Uninitialized]''
      | BufferFieldType \<Rightarrow> String ''[Buffer Field]''
      | DdbHandleType \<Rightarrow> String ''[Ddb Handle]''
      | DebugObjectType \<Rightarrow> String ''[Debug Object]''
      | EventType \<Rightarrow> String ''[Event]''
      | FieldUnitType \<Rightarrow> String ''[Field]''
      | DeviceType \<Rightarrow> String ''[Device]''
      | MethodType \<Rightarrow> String ''[Control Method]''
      | MutexType \<Rightarrow> String ''[Mutex]''
      | ObjReferenceType \<Rightarrow> String ''[Obj Reference]''
      | OpRegionType \<Rightarrow> String ''[Operation Region]''
      | PackageType \<Rightarrow> String ''[Package]''
      | ProcessorType \<Rightarrow> String ''[Processor]''
      | PowerResourceType \<Rightarrow> String ''[Power Resource]''
      | RawDataBufferType \<Rightarrow> String ''[Raw Data Buffer]''
      | ThermalZoneType \<Rightarrow> String ''[Thermal Zone]'')"

definition as_status :: "'z crates_scheme \<Rightarrow> aml_value \<Rightarrow> (status_object, aml_error) res" where
  "as_status K v =
     (case v of
        Integer value \<Rightarrow>
          and_then (unwrap_option (get_bits_u64 K value 5 64)) (\<lambda>reserved.
            if reserved \<noteq> 0 then Err InvalidStatusObject
            else Ok \<lparr>present = get_bit_u64 K value 0, enabled = get_bit_u64 K value 1,
                     show_in_ui = get_bit_u64 K value 2, functional = get_bit_u64 K value 3,
                     battery_present = get_bit_u64 K value 4\<rparr>)
      | _ \<Rightarrow> Err InvalidStatusObject)"

subsection \<open>Operation regions\<close>

definition try_u16 :: "u64 \<Rightarrow> (u16, aml_error) res" where
  "try_u16 x = (if unat x < 2 ^ 16 then Ok (ucast x) else Err FieldInvalidAddress)"

definition try_u8 :: "u64 \<Rightarrow> (u8, aml_error) res" where
  "try_u8 x = (if unat x < 2 ^ 8 then Ok (ucast x) else Err FieldInvalidAddress)"

text \<open>
  The optional objects \<open>_SEG\<close> and \<open>_BBN\<close> default to zero; \<open>conv\<close> is the \<open>try_into\<close> of the
  field they end up in.
\<close>

definition pci_optional :: "(aml_value \<Rightarrow> u64 act) \<Rightarrow> (u64 \<Rightarrow> ('w::len word, aml_error) res)
    \<Rightarrow> string \<Rightarrow> aml_name \<Rightarrow> 'w word act" where
  "pci_optional asint conv name parent_device =
     act_bind (pure_res (unwrap (from_str name))) (\<lambda>n c.
       case search (ns c) n parent_device of
         Ok (_, handle) \<Rightarrow>
           act_bind (reads (\<lambda>c. ns_get (ns c) handle)) (\<lambda>v.
           act_bind (asint v) (\<lambda>i. pure_res (conv i))) c
       | Err (ValueDoesNotExist _) \<Rightarrow> Ok (0, c)
       | Err e \<Rightarrow> Err (e, c)
       | Panic \<Rightarrow> Panic
       | Deadlock \<Rightarrow> Deadlock
       | OutOfFuel \<Rightarrow> OutOfFuel)"

text \<open>
  The segment, bus, device, function and offset of an access to PCI configuration space, as
  both \<open>read_region\<close> and \<open>write_region\<close> compute them.
\<close>

definition pci_address :: "aml_env \<Rightarrow> (aml_value \<Rightarrow> u64 act) \<Rightarrow> aml_name option \<Rightarrow> u64 \<Rightarrow> u64
    \<Rightarrow> (u16 \<times> u8 \<times> u8 \<times> u8 \<times> u16) act" where
  "pci_address E asint parent_device region_base offset =
     act_bind (pure_res (unwrap_option parent_device)) (\<lambda>parent_device.
     act_bind (pci_optional asint try_u16 ''_SEG'' parent_device) (\<lambda>seg.
     act_bind (pci_optional asint try_u8 ''_BBN'' parent_device) (\<lambda>bbn.
     act_bind (pure_res (unwrap (from_str ''_ADR''))) (\<lambda>n.
     act_bind (reads (\<lambda>c. and_then (search (ns c) n parent_device)
                            (\<lambda>(_, handle). ns_get (ns c) handle))) (\<lambda>v.
     act_bind (asint v) (\<lambda>adr.
     act_bind (pure_res (unwrap_option (get_bits_u64 E adr 16 24))) (\<lambda>device.
     act_bind (pure_res (unwrap_option (get_bits_u64 E adr 0 8))) (\<lambda>function.
     act_bind (pure_res (and_then (add_u64 region_base offset) try_u16)) (\<lambda>off.
       ret (seg, bbn, ucast device, ucast function, off))))))))))"

definition read_region :: "aml_env \<Rightarrow> (aml_value \<Rightarrow> u64 act) \<Rightarrow> aml_handle \<Rightarrow> u64 \<Rightarrow> u64
    \<Rightarrow> u64 act" where
  "read_region E asint region_handle offset len =
     act_bind (reads (\<lambda>c. ns_get (ns c) region_handle)) (\<lambda>region.
       case region of
         OpRegion SystemMemory region_base _ _ \<Rightarrow>
           act_bind (pure_res (add_u64 region_base offset)) (\<lambda>address.
             if len = 8 then handler_read E (\<lambda>h. ucast (h_read_u8 E h address)) (MemRead 8 address)
             else if len = 16 then handler_read E (\<lambda>h. ucast (h_read_u16 E h address)) (MemRead 16 address)
             else if len = 32 then handler_read E (\<lambda>h. ucast (h_read_u32 E h address)) (MemRead 32 address)
             else if len = 64 then handler_read E (\<lambda>h. h_read_u64 E h address) (MemRead 64 address)
             else fail FieldInvalidAccessSize)
       | OpRegion SystemIo region_base _ _ \<Rightarrow>
           act_bind (pure_res (and_then (add_u64 region_base offset) try_u16)) (\<lambda>port.
             if len = 8 then handler_read E (\<lambda>h. ucast (h_read_io_u8 E h port)) (IoRead 8 port)
             else if len = 16 then handler_read E (\<lambda>h. ucast (h_read_io_u16 E h port)) (IoRead 16 port)
             else if len = 32 then handler_read E (\<lambda>h. ucast (h_read_io_u32 E h port)) (IoRead 32 port)
             else fail FieldInvalidAccessSize)
       | OpRegion PciConfig region_base _ parent_device \<Rightarrow>
           act_bind (pci_address E asint parent_device region_base offset) (\<lambda>(seg, bbn, dev, fn, off).
             if len = 8 then
               handler_read E (\<lambda>h. ucast (h_read_pci_u8 E h seg bbn dev fn off)) (PciRead 8 seg bbn dev fn off)
             else if len = 16 then
               handler_read E (\<lambda>h. ucast (h_read_pci_u16 E h seg bbn dev fn off)) (PciRead 16 seg bbn dev fn off)
             else if len = 32 then
               handler_read E (\<lambda>h. ucast (h_read_pci_u32 E h seg bbn dev fn off)) (PciRead 32 seg bbn dev fn off)
             else fail FieldInvalidAccessSize)
       | OpRegion _ _ _ _ \<Rightarrow> pure_res Panic
       | _ \<Rightarrow> fail FieldRegionIsNotOpRegion)"

definition write_region :: "aml_env \<Rightarrow> (aml_value \<Rightarrow> u64 act) \<Rightarrow> aml_handle \<Rightarrow> u64 \<Rightarrow> u64 \<Rightarrow> u64
    \<Rightarrow> unit act" where
  "write_region E asint region_handle offset len value =
     act_bind (reads (\<lambda>c. ns_get (ns c) region_handle)) (\<lambda>region.
       case region of
         OpRegion SystemMemory region_base _ _ \<Rightarrow>
           act_bind (pure_res (add_u64 region_base offset)) (\<lambda>address.
             if len = 8 then log_io E (MemWrite 8 address (take_bit 8 value))
             else if len = 16 then log_io E (MemWrite 16 address (take_bit 16 value))
             else if len = 32 then log_io E (MemWrite 32 address (take_bit 32 value))
             else if len = 64 then log_io E (MemWrite 64 address value)
             else fail FieldInvalidAccessSize)
       | OpRegion SystemIo region_base _ _ \<Rightarrow>
           act_bind (pure_res (and_then (add_u64 region_base offset) try_u16)) (\<lambda>port.
             if len = 8 then log_io E (IoWrite 8 port (take_bit 8 value))
             else if len = 16 then log_io E (IoWrite 16 port (take_bit 16 value))
             else if len = 32 then log_io E (IoWrite 32 port (take_bit 32 value))
             else fail FieldInvalidAccessSize)
       | OpRegion PciConfig region_base _ parent_device \<Rightarrow>
           act_bind (pci_address E asint parent_device region_base offset) (\<lambda>(seg, bbn, dev, fn, off).
             if len = 8 then log_io E (PciWrite 8 seg bbn dev fn off (take_bit 8 value))
             else if len = 16 then log_io E (PciWrite 16 seg bbn dev fn off (take_bit 16 value))
             else if len = 32 then log_io E (PciWrite 32 seg bbn dev fn off (take_bit 32 value))
             else fail FieldInvalidAccessSize)
       | OpRegion _ _ _ _ \<Rightarrow> pure_res Panic
       | _ \<Rightarrow> fail FieldRegionIsNotOpRegion)"

subsection \<open>Fields\<close>

fun maximum_access_size :: "aml_value \<Rightarrow> (u64, aml_error) res" where
  "maximum_access_size (OpRegion SystemMemory _ _ _) = Ok 64"
| "maximum_access_size (OpRegion SystemIo _ _ _) = Ok 32"
| "maximum_access_size (OpRegion PciConfig _ _ _) = Ok 32"
| "maximum_access_size (OpRegion _ _ _ _) = Panic"
| "maximum_access_size _ = Err FieldRegionIsNotOpRegion"

definition minimum_access_size :: "'z crates_scheme \<Rightarrow> field_flags \<Rightarrow> (u64, aml_error) res" where
  "minimum_access_size K flags =
     and_then (access_type K flags) (\<lambda>t.
       Ok (case t of
             AnyAccess \<Rightarrow> 8
           | ByteAccess \<Rightarrow> 8
           | WordAccess \<Rightarrow> 16
           | DWordAccess \<Rightarrow> 32
           | QWordAccess \<Rightarrow> 64
           | BufferAccess \<Rightarrow> 8))"

text \<open>The checks on the region and the size of an access, shared by reads and writes of a field.\<close>

definition field_access_size :: "aml_env \<Rightarrow> aml_handle \<Rightarrow> field_flags \<Rightarrow> u64 \<Rightarrow> u64 act" where
  "field_access_size E region flags len =
     act_bind (reads (\<lambda>c. and_then (ns_get (ns c) region) maximum_access_size)) (\<lambda>_.
     act_bind (pure_res (minimum_access_size E flags)) (\<lambda>m.
     act_bind (pure_res (next_power_of_two_u64 len)) (\<lambda>p. ret (max m p))))"

definition read_field :: "aml_env \<Rightarrow> (aml_value \<Rightarrow> u64 act) \<Rightarrow> aml_value \<Rightarrow> aml_value act" where
  "read_field E asint v =
     (case v of
        Field region flags offset len \<Rightarrow>
          act_bind (field_access_size E region flags len) (\<lambda>access_size.
          act_bind (read_region E asint region offset access_size) (\<lambda>w.
          act_bind (pure_res (unwrap_option (get_bits_u64 E w 0 (unat len)))) (\<lambda>x.
            ret (Integer x))))
      | _ \<Rightarrow> fail (IncompatibleValueConversion (type_of v) FieldUnitType))"

definition write_field :: "aml_env \<Rightarrow> (aml_value \<Rightarrow> u64 act) \<Rightarrow> aml_value \<Rightarrow> aml_value \<Rightarrow> unit act" where
  "write_field E asint v value =
     (case v of
        Field region flags offset len \<Rightarrow>
          act_bind (pure_res (field_update_rule E flags)) (\<lambda>rule.
          act_bind (case rule of
                      Preserve \<Rightarrow> act_bind (read_field E asint v) asint
                    | WriteAsOnes \<Rightarrow> ret (- 1)
                    | WriteAsZeros \<Rightarrow> ret 0) (\<lambda>field_value.
          act_bind (field_access_size E region flags len) (\<lambda>access_size.
          act_bind (asint value) (\<lambda>new.
          act_bind (pure_res (unwrap_option (set_bits_u64 E field_value 0 (unat len) new))) (\<lambda>field_value.
            write_region E asint region offset access_size field_value)))))
      | _ \<Rightarrow> fail (IncompatibleValueConversion (type_of v) FieldUnitType))"

subsection \<open>Buffer fields\<close>

text \<open>
  A \<open>u64\<close> viewed as bits is the view of its eight little-endian bytes.
\<close>

definition u64_of_bits :: "'z crates_scheme \<Rightarrow> bool list \<Rightarrow> u64" where
  "u64_of_bits K bits =
     word_of_nat (le_value (bits_into_vec K (bits @ replicate (64 - length bits) False)))"

text \<open>
  A bit vector made from a slice keeps the place of the first bit in its byte, and \<open>set_uninitialized\<close> clears the bits of
  the vector's memory around the slice: a field of more than 64 bits is copied with the bits of its first byte that are not its own
  set to zero.
\<close>

definition read_buffer_field :: "'z crates_scheme \<Rightarrow> aml_value \<Rightarrow> aml_value act" where
  "read_buffer_field K v =
     (case v of
        BufferField r offset len \<Rightarrow>
          with_lock r (\<lambda>data.
            act_bind (pure_res (add_u64 offset len)) (\<lambda>stop.
              if unat stop > length data * 8 then fail BufferFieldIndexesOutOfBounds
              else
                let bits = take (unat len) (drop (unat offset) (view_bits K data)) in
                if unat len > 64
                then act_bind (alloc_buffer (bits_into_vec K (replicate (unat offset mod 8) False @ bits))) (\<lambda>r'. ret (Buffer r'))
                else ret (Integer (u64_of_bits K bits))))
      | _ \<Rightarrow> fail (IncompatibleValueConversion (type_of v) BufferFieldType))"

text \<open>
  The bits \<open>src\<close>, cut off or zero-extended to \<open>len\<close> bits, put over the bits at \<open>offset\<close>.
  Slicing out of range panics.
\<close>

definition copy_bits :: "bool list \<Rightarrow> u64 \<Rightarrow> u64 \<Rightarrow> bool list \<Rightarrow> (bool list, 'e) res" where
  "copy_bits bits offset len src =
     (let bits_to_copy = min (unat len) (length src) in
      if unat offset + bits_to_copy \<ge> 2 ^ 64 then Panic
      else if unat offset + bits_to_copy > length bits then Panic
      else if unat offset + unat len \<ge> 2 ^ 64 then Panic
      else if unat offset + unat len > length bits then Panic
      else Ok (take (unat offset) bits @ take bits_to_copy src
               @ replicate (unat len - bits_to_copy) False
               @ drop (unat offset + unat len) bits))"

definition write_buffer_field :: "'z crates_scheme \<Rightarrow> aml_value \<Rightarrow> aml_value \<Rightarrow> unit act" where
  "write_buffer_field K v value =
     (case v of
        BufferField r offset len \<Rightarrow>
          with_lock r (\<lambda>inner_data.
            case value of
              Integer w \<Rightarrow>
                act_bind (pure_res (copy_bits (view_bits K inner_data) offset len
                           (view_bits K (to_le_bytes 8 (unat w))))) (\<lambda>bits.
                  write_buffer r (bits_into_vec K bits))
            | Boolean b \<Rightarrow>
                if unat offset < length (view_bits K inner_data) then
                  write_buffer r (bits_into_vec K ((view_bits K inner_data)[unat offset := b]))
                else pure_res Panic
            | Buffer r' \<Rightarrow>
                with_lock r' (\<lambda>value_data.
                  act_bind (pure_res (copy_bits (view_bits K inner_data) offset len
                             (view_bits K value_data))) (\<lambda>bits.
                    write_buffer r (bits_into_vec K bits)))
            | _ \<Rightarrow> fail (TypeCannotBeWrittenToBufferField (type_of value)))
      | _ \<Rightarrow> fail (IncompatibleValueConversion (type_of v) BufferFieldType))"

subsection \<open>Conversions that may access regions\<close>

definition fold_le_bytes :: "bytes \<Rightarrow> u64" where
  "fold_le_bytes bs = fold (\<lambda>popped i. push_bit 8 i + ucast popped) (rev bs) 0"

fun as_integer :: "aml_env \<Rightarrow> nat \<Rightarrow> aml_value \<Rightarrow> u64 act" where
  "as_integer E 0 v = pure_res OutOfFuel"
| "as_integer E (Suc n) v =
     (case v of
        Integer w \<Rightarrow> ret w
      | Boolean b \<Rightarrow> ret (if b then - 1 else 0)
      | Buffer r \<Rightarrow> with_lock r (\<lambda>bs. ret (fold_le_bytes (take 8 bs)))
      | Field _ _ _ _ \<Rightarrow> act_bind (read_field E (as_integer E n) v) (as_integer E n)
      | BufferField _ _ _ \<Rightarrow> act_bind (read_buffer_field E v) (as_integer E n)
      | _ \<Rightarrow> fail (IncompatibleValueConversion (type_of v) IntegerType))"

fun as_buffer :: "aml_env \<Rightarrow> nat \<Rightarrow> aml_value \<Rightarrow> buf_ref act" where
  "as_buffer E 0 v = pure_res OutOfFuel"
| "as_buffer E (Suc n) v =
     (case v of
        Buffer r \<Rightarrow> ret r
      | Field _ _ _ _ \<Rightarrow> act_bind (read_field E (as_integer E n) v) (as_buffer E n)
      | BufferField _ _ _ \<Rightarrow> act_bind (read_buffer_field E v) (as_buffer E n)
      | _ \<Rightarrow> fail (IncompatibleValueConversion (type_of v) BufferType))"

fun as_string_value :: "aml_env \<Rightarrow> nat \<Rightarrow> aml_value \<Rightarrow> string act" where
  "as_string_value E 0 v = pure_res OutOfFuel"
| "as_string_value E (Suc n) v =
     (case v of
        String s \<Rightarrow> ret s
      | Field _ _ _ _ \<Rightarrow> act_bind (read_field E (as_integer E n) v) (as_string_value E n)
      | _ \<Rightarrow> fail (IncompatibleValueConversion (type_of v) StringType))"

definition as_type :: "aml_env \<Rightarrow> nat \<Rightarrow> aml_value \<Rightarrow> aml_type \<Rightarrow> aml_value act" where
  "as_type E n v desired =
     (if type_of v = desired then ret v
      else
        case desired of
          IntegerType \<Rightarrow> act_bind (as_integer E n v) (\<lambda>i. ret (Integer i))
        | BufferType \<Rightarrow> act_bind (as_buffer E n v) (\<lambda>r. ret (Buffer r))
        | FieldUnitType \<Rightarrow> pure_res Panic
        | _ \<Rightarrow> fail (IncompatibleValueConversion (type_of v) desired))"

datatype ordering = Less | Equal | Greater

definition cmp_ord :: "'a::linorder \<Rightarrow> 'a \<Rightarrow> ordering" where
  "cmp_ord x y = (if x < y then Less else if x = y then Equal else Greater)"

fun cmp_lex :: "'a::linorder list \<Rightarrow> 'a list \<Rightarrow> ordering" where
  "cmp_lex [] [] = Equal"
| "cmp_lex [] (_ # _) = Less"
| "cmp_lex (_ # _) [] = Greater"
| "cmp_lex (x # xs) (y # ys) = (if x = y then cmp_lex xs ys else cmp_ord x y)"

definition value_cmp :: "aml_env \<Rightarrow> nat \<Rightarrow> aml_value \<Rightarrow> aml_value \<Rightarrow> ordering act" where
  "value_cmp E n v other =
     act_bind (if type_of v = FieldUnitType then read_field E (as_integer E n) v else ret v)
       (\<lambda>self_inner.
          case type_of self_inner of
            IntegerType \<Rightarrow>
              act_bind (as_integer E n v) (\<lambda>a.
              act_bind (as_integer E n other) (\<lambda>b. ret (cmp_ord a b)))
          | BufferType \<Rightarrow>
              act_bind (as_buffer E n v) (\<lambda>r.
              with_lock r (\<lambda>a.
                act_bind (as_buffer E n other) (\<lambda>r'.
                with_lock r' (\<lambda>b. ret (cmp_lex a b)))))
          | StringType \<Rightarrow>
              act_bind (as_string_value E n v) (\<lambda>a.
              act_bind (as_string_value E n other) (\<lambda>b.
                ret (cmp_lex (bytes_of_string a) (bytes_of_string b))))
          | typ \<Rightarrow> fail (TypeCannotBeCompared typ))"

subsection \<open>Targets\<close>

definition read_target :: "target \<Rightarrow> aml_value act" where
  "read_target t =
     (case t of
        NullTarget \<Rightarrow> pure_res Panic
      | NameTarget name \<Rightarrow>
          reads (\<lambda>c. and_then (search (ns c) name (current_scope c))
                      (\<lambda>(_, handle). ns_get (ns c) handle))
      | DebugTarget \<Rightarrow> pure_res Panic
      | ArgTarget arg \<Rightarrow> current_arg arg
      | LocalTarget l \<Rightarrow> local l)"

definition set_method_ctx :: "method_context \<Rightarrow> unit act" where
  "set_method_ctx mc c = Ok ((), c\<lparr>method_ctx := Some mc\<rparr>)"

definition store_name :: "aml_env \<Rightarrow> nat \<Rightarrow> aml_name \<Rightarrow> aml_value \<Rightarrow> aml_value act" where
  "store_name E n path value =
     act_bind (reads (\<lambda>c. search (ns c) path (current_scope c))) (\<lambda>(_, handle).
     act_bind (reads (\<lambda>c. unwrap (ns_get (ns c) handle))) (\<lambda>old.
       case type_of old of
         FieldUnitType \<Rightarrow>
           act_bind (write_field E (as_integer E n) old value) (\<lambda>_.
             read_field E (as_integer E n) old)
       | BufferFieldType \<Rightarrow>
           act_bind (write_buffer_field E old value) (\<lambda>_. ret value)
       | typ \<Rightarrow>
           act_bind (as_type E n value typ) (\<lambda>new.
           act_bind (on_ns (\<lambda>s. in_state s (ns_get_mut s handle new))) (\<lambda>_.
             reads (\<lambda>c. ns_get (ns c) handle)))))"

definition store :: "aml_env \<Rightarrow> nat \<Rightarrow> target \<Rightarrow> aml_value \<Rightarrow> aml_value act" where
  "store E n t value =
     (case t of
        NameTarget path \<Rightarrow> store_name E n path value
      | DebugTarget \<Rightarrow> pure_res Panic
      | ArgTarget arg_num \<Rightarrow>
          act_bind (reads (\<lambda>c. ok_or NotExecutingControlMethod (method_ctx c))) (\<lambda>mc.
          act_bind (pure_res (args_store_arg (margs mc) arg_num value)) (\<lambda>a.
          act_bind (set_method_ctx (mc\<lparr>margs := a\<rparr>)) (\<lambda>_. ret value)))
      | LocalTarget local_num \<Rightarrow>
          act_bind (reads (\<lambda>c. ok_or NotExecutingControlMethod (method_ctx c))) (\<lambda>mc.
            if unat local_num < length (locals mc) then
              act_bind (set_method_ctx (mc\<lparr>locals := (locals mc)[unat local_num := Some value]\<rparr>))
                (\<lambda>_. ret value)
            else pure_res Panic)
      | NullTarget \<Rightarrow> ret value)"

subsection \<open>Predefined objects\<close>

definition osi_true :: "string list" where
  "osi_true =
    [''Windows 2000'', ''Windows 2001'', ''Windows 2001 SP1'', ''Windows 2001 SP2'',
     ''Windows 2001.1'', ''Windows 2001.1 SP1'', ''Windows 2006'', ''Windows 2006 SP1'',
     ''Windows 2006 SP2'', ''Windows 2006.1'', ''Windows 2009'', ''Windows 2012'',
     ''Windows 2013'', ''Windows 2015'', ''Windows 2016'', ''Windows 2017'', ''Windows 2017.2'',
     ''Windows 2018'', ''Windows 2018.2'', ''Windows 2019'', ''Darwin'',
     ''Extended Address Space Descriptor'', ''3.0 Thermal Model'', ''3.0 _SCP Extensions'']"

definition osi_method :: "aml_env \<Rightarrow> nat \<Rightarrow> aml_value act" where
  "osi_method E n =
     act_bind (current_arg 0) (\<lambda>v.
     act_bind (as_string_value E n v) (\<lambda>s. ret (if s \<in> set osi_true then ones else zero)))"

definition run_native :: "aml_env \<Rightarrow> nat \<Rightarrow> native_method \<Rightarrow> aml_value act" where
  "run_native E n f = (case f of OsiMethod \<Rightarrow> osi_method E n | HostNative k \<Rightarrow> host_native E k)"

definition predef_level :: "string \<Rightarrow> unit act" where
  "predef_level name =
     act_bind (pure_res (unwrap (from_str name))) (\<lambda>path c.
       unwrap (on_ns (\<lambda>s. add_level s path ScopeLevel) c))"

definition predef_value :: "string \<Rightarrow> aml_value \<Rightarrow> aml_handle act" where
  "predef_value name value =
     act_bind (pure_res (unwrap (from_str name))) (\<lambda>path c.
       unwrap (on_ns (\<lambda>s. add_value s path value) c))"

definition add_predefined_objects :: "'z crates_scheme \<Rightarrow> unit act" where
  "add_predefined_objects K =
     act_bind (predef_level (CHR 0x5C # ''_GPE'')) (\<lambda>_.
     act_bind (predef_level (CHR 0x5C # ''_SB'')) (\<lambda>_.
     act_bind (predef_level (CHR 0x5C # ''_SI'')) (\<lambda>_.
     act_bind (predef_level (CHR 0x5C # ''_PR'')) (\<lambda>_.
     act_bind (predef_level (CHR 0x5C # ''_TZ'')) (\<lambda>_.
     act_bind (predef_value (CHR 0x5C # ''_OS'')
                (String ''Microsoft Windows NT'')) (\<lambda>_.
     act_bind (pure_res (native_method_value K 1 False 0 OsiMethod)) (\<lambda>osi.
     act_bind (predef_value (CHR 0x5C # ''_OSI'') osi) (\<lambda>_.
     act_bind (predef_value (CHR 0x5C # ''_REV'') (Integer 2)) (\<lambda>_.
       ret ())))))))))"

definition aml_context_new :: "'z crates_scheme \<Rightarrow> debug_verbosity
    \<Rightarrow> (unit \<times> aml_context, aml_error \<times> aml_context) res" where
  "aml_context_new K debug =
     add_predefined_objects K
       \<lparr>ns = namespace_new, method_ctx = None, current_scope = root_name, scope_indent = 0,
        verbosity = debug, buffers = [], locked = [], io_log = []\<rparr>"

end
