(* ===== verification/Aml_Opcode.thy ===== *)
theory Aml_Opcode
  imports Prelude
begin

section \<open>The bytes of the language\<close>

text \<open>
  The constants of \<open>aml/src/opcode.rs\<close>. Several stand for the same byte, which means one thing or another by
  its place in the stream.
\<close>

abbreviation (input) NULL_NAME :: u8 where "NULL_NAME \<equiv> 0x00"
abbreviation (input) DUAL_NAME_PREFIX :: u8 where "DUAL_NAME_PREFIX \<equiv> 0x2e"
abbreviation (input) MULTI_NAME_PREFIX :: u8 where "MULTI_NAME_PREFIX \<equiv> 0x2f"
abbreviation (input) ROOT_CHAR :: u8 where "ROOT_CHAR \<equiv> 0x5c"
abbreviation (input) PREFIX_CHAR :: u8 where "PREFIX_CHAR \<equiv> 0x5e"
abbreviation (input) RESERVED_FIELD :: u8 where "RESERVED_FIELD \<equiv> 0x00"
abbreviation (input) ACCESS_FIELD :: u8 where "ACCESS_FIELD \<equiv> 0x01"
abbreviation (input) CONNECT_FIELD :: u8 where "CONNECT_FIELD \<equiv> 0x02"
abbreviation (input) EXTENDED_ACCESS_FIELD :: u8 where "EXTENDED_ACCESS_FIELD \<equiv> 0x03"
abbreviation (input) ZERO_OP :: u8 where "ZERO_OP \<equiv> 0x00"
abbreviation (input) ONE_OP :: u8 where "ONE_OP \<equiv> 0x01"
abbreviation (input) ONES_OP :: u8 where "ONES_OP \<equiv> 0xff"
abbreviation (input) BYTE_CONST :: u8 where "BYTE_CONST \<equiv> 0x0a"
abbreviation (input) WORD_CONST :: u8 where "WORD_CONST \<equiv> 0x0b"
abbreviation (input) DWORD_CONST :: u8 where "DWORD_CONST \<equiv> 0x0c"
abbreviation (input) STRING_PREFIX :: u8 where "STRING_PREFIX \<equiv> 0x0d"
abbreviation (input) QWORD_CONST :: u8 where "QWORD_CONST \<equiv> 0x0e"
abbreviation (input) DEF_NAME_OP :: u8 where "DEF_NAME_OP \<equiv> 0x08"
abbreviation (input) DEF_SCOPE_OP :: u8 where "DEF_SCOPE_OP \<equiv> 0x10"
abbreviation (input) DEF_BUFFER_OP :: u8 where "DEF_BUFFER_OP \<equiv> 0x11"
abbreviation (input) DEF_PACKAGE_OP :: u8 where "DEF_PACKAGE_OP \<equiv> 0x12"
abbreviation (input) DEF_METHOD_OP :: u8 where "DEF_METHOD_OP \<equiv> 0x14"
abbreviation (input) DEF_EXTERNAL_OP :: u8 where "DEF_EXTERNAL_OP \<equiv> 0x15"
abbreviation (input) DEF_CREATE_DWORD_FIELD_OP :: u8 where "DEF_CREATE_DWORD_FIELD_OP \<equiv> 0x8a"
abbreviation (input) DEF_CREATE_WORD_FIELD_OP :: u8 where "DEF_CREATE_WORD_FIELD_OP \<equiv> 0x8b"
abbreviation (input) DEF_CREATE_BYTE_FIELD_OP :: u8 where "DEF_CREATE_BYTE_FIELD_OP \<equiv> 0x8c"
abbreviation (input) DEF_CREATE_BIT_FIELD_OP :: u8 where "DEF_CREATE_BIT_FIELD_OP \<equiv> 0x8d"
abbreviation (input) DEF_CREATE_QWORD_FIELD_OP :: u8 where "DEF_CREATE_QWORD_FIELD_OP \<equiv> 0x8f"
abbreviation (input) EXT_DEF_MUTEX_OP :: u8 where "EXT_DEF_MUTEX_OP \<equiv> 0x01"
abbreviation (input) EXT_DEF_CREATE_FIELD_OP :: u8 where "EXT_DEF_CREATE_FIELD_OP \<equiv> 0x13"
abbreviation (input) EXT_REVISION_OP :: u8 where "EXT_REVISION_OP \<equiv> 0x30"
abbreviation (input) EXT_DEF_FATAL_OP :: u8 where "EXT_DEF_FATAL_OP \<equiv> 0x32"
abbreviation (input) EXT_DEF_OP_REGION_OP :: u8 where "EXT_DEF_OP_REGION_OP \<equiv> 0x80"
abbreviation (input) EXT_DEF_FIELD_OP :: u8 where "EXT_DEF_FIELD_OP \<equiv> 0x81"
abbreviation (input) EXT_DEF_DEVICE_OP :: u8 where "EXT_DEF_DEVICE_OP \<equiv> 0x82"
abbreviation (input) EXT_DEF_PROCESSOR_OP :: u8 where "EXT_DEF_PROCESSOR_OP \<equiv> 0x83"
abbreviation (input) EXT_DEF_POWER_RES_OP :: u8 where "EXT_DEF_POWER_RES_OP \<equiv> 0x84"
abbreviation (input) EXT_DEF_THERMAL_ZONE_OP :: u8 where "EXT_DEF_THERMAL_ZONE_OP \<equiv> 0x85"
abbreviation (input) DEF_CONTINUE_OP :: u8 where "DEF_CONTINUE_OP \<equiv> 0x9f"
abbreviation (input) DEF_IF_ELSE_OP :: u8 where "DEF_IF_ELSE_OP \<equiv> 0xa0"
abbreviation (input) DEF_ELSE_OP :: u8 where "DEF_ELSE_OP \<equiv> 0xa1"
abbreviation (input) DEF_WHILE_OP :: u8 where "DEF_WHILE_OP \<equiv> 0xa2"
abbreviation (input) DEF_NOOP_OP :: u8 where "DEF_NOOP_OP \<equiv> 0xa3"
abbreviation (input) DEF_RETURN_OP :: u8 where "DEF_RETURN_OP \<equiv> 0xa4"
abbreviation (input) DEF_BREAK_OP :: u8 where "DEF_BREAK_OP \<equiv> 0xa5"
abbreviation (input) DEF_BREAKPOINT_OP :: u8 where "DEF_BREAKPOINT_OP \<equiv> 0xcc"
abbreviation (input) DEF_STORE_OP :: u8 where "DEF_STORE_OP \<equiv> 0x70"
abbreviation (input) DEF_ADD_OP :: u8 where "DEF_ADD_OP \<equiv> 0x72"
abbreviation (input) DEF_CONCAT_OP :: u8 where "DEF_CONCAT_OP \<equiv> 0x73"
abbreviation (input) DEF_INCREMENT_OP :: u8 where "DEF_INCREMENT_OP \<equiv> 0x75"
abbreviation (input) DEF_DECREMENT_OP :: u8 where "DEF_DECREMENT_OP \<equiv> 0x76"
abbreviation (input) DEF_SHIFT_LEFT :: u8 where "DEF_SHIFT_LEFT \<equiv> 0x79"
abbreviation (input) DEF_SHIFT_RIGHT :: u8 where "DEF_SHIFT_RIGHT \<equiv> 0x7a"
abbreviation (input) DEF_AND_OP :: u8 where "DEF_AND_OP \<equiv> 0x7b"
abbreviation (input) DEF_CONCAT_RES_OP :: u8 where "DEF_CONCAT_RES_OP \<equiv> 0x84"
abbreviation (input) DEF_L_OR_OP :: u8 where "DEF_L_OR_OP \<equiv> 0x91"
abbreviation (input) DEF_L_NOT_OP :: u8 where "DEF_L_NOT_OP \<equiv> 0x92"
abbreviation (input) DEF_L_EQUAL_OP :: u8 where "DEF_L_EQUAL_OP \<equiv> 0x93"
abbreviation (input) DEF_L_GREATER_OP :: u8 where "DEF_L_GREATER_OP \<equiv> 0x94"
abbreviation (input) DEF_L_LESS_OP :: u8 where "DEF_L_LESS_OP \<equiv> 0x95"
abbreviation (input) DEF_TO_INTEGER_OP :: u8 where "DEF_TO_INTEGER_OP \<equiv> 0x99"
abbreviation (input) DEF_MID_OP :: u8 where "DEF_MID_OP \<equiv> 0x9e"
abbreviation (input) EXT_DEBUG_OP :: u8 where "EXT_DEBUG_OP \<equiv> 0x31"
abbreviation (input) LOCAL0_OP :: u8 where "LOCAL0_OP \<equiv> 0x60"
abbreviation (input) LOCAL1_OP :: u8 where "LOCAL1_OP \<equiv> 0x61"
abbreviation (input) LOCAL2_OP :: u8 where "LOCAL2_OP \<equiv> 0x62"
abbreviation (input) LOCAL3_OP :: u8 where "LOCAL3_OP \<equiv> 0x63"
abbreviation (input) LOCAL4_OP :: u8 where "LOCAL4_OP \<equiv> 0x64"
abbreviation (input) LOCAL5_OP :: u8 where "LOCAL5_OP \<equiv> 0x65"
abbreviation (input) LOCAL6_OP :: u8 where "LOCAL6_OP \<equiv> 0x66"
abbreviation (input) LOCAL7_OP :: u8 where "LOCAL7_OP \<equiv> 0x67"
abbreviation (input) ARG0_OP :: u8 where "ARG0_OP \<equiv> 0x68"
abbreviation (input) ARG1_OP :: u8 where "ARG1_OP \<equiv> 0x69"
abbreviation (input) ARG2_OP :: u8 where "ARG2_OP \<equiv> 0x6a"
abbreviation (input) ARG3_OP :: u8 where "ARG3_OP \<equiv> 0x6b"
abbreviation (input) ARG4_OP :: u8 where "ARG4_OP \<equiv> 0x6c"
abbreviation (input) ARG5_OP :: u8 where "ARG5_OP \<equiv> 0x6d"
abbreviation (input) ARG6_OP :: u8 where "ARG6_OP \<equiv> 0x6e"
abbreviation (input) EXT_OPCODE_PREFIX :: u8 where "EXT_OPCODE_PREFIX \<equiv> 0x5b"

end
