(* ===== verification/Aml_Parser.thy ===== *)
theory Aml_Parser
  imports Aml_Value Aml_Opcode
begin

section \<open>Parser combinators\<close>

text \<open>
  \<open>parser.rs\<close>, \<open>pkg_length.rs\<close>, \<open>opcode.rs\<close>, \<open>misc.rs\<close> and the parsers of
  \<open>name_object.rs\<close>. A parser takes the stream and the context; it succeeds with the rest of
  the stream, the context and a result, or fails with a stream, the context and what
  propagates. The indentation that \<open>comment_scope\<close> counts is part of the context: a
  decrement below zero and an increment past \<open>usize\<close> panic. The messages themselves are not
  modelled.
\<close>

type_synonym 'r parser =
  "bytes \<Rightarrow> aml_context \<Rightarrow> (bytes \<times> aml_context \<times> 'r, bytes \<times> aml_context \<times> propagate) res"

type_synonym 'a pact = "('a, propagate) eact"

text \<open>\<open>try_with_context!\<close>\<close>

definition try_act :: "'a act \<Rightarrow> 'a pact" where
  "try_act m c = map_err (\<lambda>(e, c'). (PErr e, c')) (m c)"

definition perr :: "('a, aml_error) res \<Rightarrow> ('a, propagate) res" where
  "perr r = map_err PErr r"

subsection \<open>Combinators\<close>

definition id_parser :: "unit parser" where
  "id_parser input c = Ok (input, c, ())"

definition take_parser :: "u8 parser" where
  "take_parser input c =
     (case input of
        b # rest \<Rightarrow> Ok (rest, c, b)
      | [] \<Rightarrow> Err (input, c, PErr UnexpectedEndOfStream))"

definition take_u16 :: "u16 parser" where
  "take_u16 input c =
     (if length input < 2 then Err (input, c, PErr UnexpectedEndOfStream)
      else Ok (drop 2 input, c, word_of_nat (le_value (take 2 input))))"

definition take_u32 :: "u32 parser" where
  "take_u32 input c =
     (if length input < 4 then Err (input, c, PErr UnexpectedEndOfStream)
      else Ok (drop 4 input, c, word_of_nat (le_value (take 4 input))))"

definition take_u64 :: "u64 parser" where
  "take_u64 input c =
     (if length input < 8 then Err (input, c, PErr UnexpectedEndOfStream)
      else Ok (drop 8 input, c, word_of_nat (le_value (take 8 input))))"

definition take_n :: "u32 \<Rightarrow> bytes parser" where
  "take_n n input c =
     (if len_u32 input < n then Err (input, c, PErr UnexpectedEndOfStream)
      else Ok (drop (unat n) input, c, take (unat n) input))"

record pkg_length =
  raw_length :: u32
  end_offset :: u32

definition from_raw_length :: "bytes \<Rightarrow> u32 \<Rightarrow> (pkg_length, aml_error) res" where
  "from_raw_length stream raw =
     and_then (ok_or InvalidPkgLength (checked_sub_u32 (len_u32 stream) raw)) (\<lambda>off.
       Ok \<lparr>raw_length = raw, end_offset = off\<rparr>)"

definition still_parsing :: "pkg_length \<Rightarrow> bytes \<Rightarrow> bool" where
  "still_parsing len stream \<longleftrightarrow> len_u32 stream > end_offset len"

definition take_to_end_of_pkglength :: "pkg_length \<Rightarrow> bytes parser" where
  "take_to_end_of_pkglength len input c =
     (case checked_sub_u32 (len_u32 input) (end_offset len) of
        Some bytes_to_take \<Rightarrow> take_n bytes_to_take input c
      | None \<Rightarrow> Err (input, c, PErr InvalidPkgLength))"

fun n_of :: "'r parser \<Rightarrow> nat \<Rightarrow> 'r list parser" where
  "n_of p 0 input c = Ok (input, c, [])"
| "n_of p (Suc n) input c =
     and_then (map_err (\<lambda>(_, c', e). (input, c', e)) (p input c)) (\<lambda>(input', c', r).
     and_then (n_of p n input' c') (\<lambda>(input'', c'', rs). Ok (input'', c'', r # rs)))"

text \<open>
  The loop of \<open>take_while\<close> ends when the parser does not match; the number of rounds is
  bounded by the first argument.
\<close>

fun take_while :: "nat \<Rightarrow> 'r parser \<Rightarrow> nat parser" where
  "take_while 0 p input c = OutOfFuel"
| "take_while (Suc n) p input c =
     (case p input c of
        Ok (input', c', _) \<Rightarrow>
          and_then (take_while n p input' c') (\<lambda>(input'', c'', k). Ok (input'', c'', Suc k))
      | Err (_, c', e) \<Rightarrow>
          if e = PErr WrongParser then Ok (input, c', 0) else Err (input, c', e)
      | Panic \<Rightarrow> Panic
      | Deadlock \<Rightarrow> Deadlock
      | OutOfFuel \<Rightarrow> OutOfFuel)"

definition consume :: "(u8 \<Rightarrow> bool) \<Rightarrow> u8 parser" where
  "consume condition input c =
     (case input of
        b # rest \<Rightarrow>
          if condition b then Ok (rest, c, b) else Err (input, c, PErr (UnexpectedByte b))
      | [] \<Rightarrow> Err (input, c, PErr UnexpectedEndOfStream))"

definition indent_per_scope :: nat where
  "indent_per_scope = 2"

definition indent_in :: "debug_verbosity \<Rightarrow> aml_context \<Rightarrow> (aml_context, 'e) res" where
  "indent_in v c =
     (if verbosity_rank v \<le> verbosity_rank (verbosity c) then
        if scope_indent c + indent_per_scope < 2 ^ 64
        then Ok (c\<lparr>scope_indent := scope_indent c + indent_per_scope\<rparr>) else Panic
      else Ok c)"

definition indent_out :: "debug_verbosity \<Rightarrow> aml_context \<Rightarrow> (aml_context, 'e) res" where
  "indent_out v c =
     (if verbosity_rank v \<le> verbosity_rank (verbosity c) then
        if indent_per_scope \<le> scope_indent c
        then Ok (c\<lparr>scope_indent := scope_indent c - indent_per_scope\<rparr>) else Panic
      else Ok c)"

definition comment_scope :: "debug_verbosity \<Rightarrow> 'r parser \<Rightarrow> 'r parser" where
  "comment_scope v p input c =
     and_then (indent_in v c) (\<lambda>c.
     and_then (p input c) (\<lambda>(new_input, c, r).
     and_then (indent_out v c) (\<lambda>c. Ok (new_input, c, r))))"

definition extract_parser :: "'r parser \<Rightarrow> ('r \<times> bytes) parser" where
  "extract_parser p input c =
     and_then (p input c) (\<lambda>(after, c, r).
       if length after \<le> length input
       then Ok (after, c, (r, take (length input - length after) input)) else Panic)"

definition or_parser :: "'r parser \<Rightarrow> 'r parser \<Rightarrow> 'r parser" where
  "or_parser p1 p2 input c =
     (case p1 input c of
        Ok r \<Rightarrow> Ok r
      | Err (_, c', e) \<Rightarrow> if e = PErr WrongParser then p2 input c' else Err (input, c', e)
      | Panic \<Rightarrow> Panic
      | Deadlock \<Rightarrow> Deadlock
      | OutOfFuel \<Rightarrow> OutOfFuel)"

definition map_parser :: "'r parser \<Rightarrow> ('r \<Rightarrow> ('a, propagate) res) \<Rightarrow> 'a parser" where
  "map_parser p f input c =
     and_then (p input c) (\<lambda>(new_input, c, r).
     and_then (map_err (\<lambda>e. (input, c, e)) (f r)) (\<lambda>x. Ok (new_input, c, x)))"

definition map_with_context :: "'r parser \<Rightarrow> ('r \<Rightarrow> 'a pact) \<Rightarrow> 'a parser" where
  "map_with_context p f input c =
     and_then (p input c) (\<lambda>(new_input, c, r).
     and_then (map_err (\<lambda>(e, c). (input, c, e)) (f r c)) (\<lambda>(x, c). Ok (new_input, c, x)))"

definition discard_result :: "'r parser \<Rightarrow> unit parser" where
  "discard_result p input c = and_then (p input c) (\<lambda>(new_input, c, _). Ok (new_input, c, ()))"

definition then_parser :: "'r parser \<Rightarrow> 's parser \<Rightarrow> ('r \<times> 's) parser" where
  "then_parser p1 p2 input c =
     and_then (p1 input c) (\<lambda>(next_input, c, a).
     and_then (p2 next_input c) (\<lambda>(final_input, c, b). Ok (final_input, c, (a, b))))"

definition feed :: "'r parser \<Rightarrow> ('r \<Rightarrow> 's parser) \<Rightarrow> 's parser" where
  "feed p producer_fn input c =
     and_then (p input c) (\<lambda>(input, c, first_result). producer_fn first_result input c)"

fun choice :: "'r parser list \<Rightarrow> 'r parser" where
  "choice [] input c = Err (input, c, PErr WrongParser)"
| "choice (p # ps) input c =
     (case p input c of
        Ok r \<Rightarrow> Ok r
      | Err (_, c', e) \<Rightarrow> if e = PErr WrongParser then choice ps input c' else Err (input, c', e)
      | Panic \<Rightarrow> Panic
      | Deadlock \<Rightarrow> Deadlock
      | OutOfFuel \<Rightarrow> OutOfFuel)"

subsection \<open>Opcodes\<close>

definition opcode :: "u8 \<Rightarrow> unit parser" where
  "opcode op input c =
     (case input of
        [] \<Rightarrow> Err (input, c, PErr UnexpectedEndOfStream)
      | b # rest \<Rightarrow> if b = op then Ok (rest, c, ()) else Err (input, c, PErr WrongParser))"

definition ext_opcode :: "u8 \<Rightarrow> unit parser" where
  "ext_opcode op = discard_result (then_parser (opcode EXT_OPCODE_PREFIX) (opcode op))"

subsection \<open>Package lengths\<close>

fun fold_length :: "u32 \<Rightarrow> nat \<Rightarrow> bytes \<Rightarrow> (u32, 'e) res" where
  "fold_length len i [] = Ok len"
| "fold_length len i (b # bs) =
     (let add = push_bit (4 + i * 8) (ucast b) in
      if unat len + unat add < 2 ^ 32 then fold_length (len + add) (Suc i) bs else Panic)"

definition raw_pkg_length :: "'z crates_scheme \<Rightarrow> u32 parser" where
  "raw_pkg_length K input c =
     and_then (take_parser input c) (\<lambda>(new_input, c, lead_byte).
       let byte_count = get_bits_u8 K lead_byte 6 8 in
       if byte_count = 0 then Ok (new_input, c, ucast (get_bits_u8 K lead_byte 0 6))
       else
         case take_n (ucast byte_count) new_input c of
           Ok (new_input, c, bs) \<Rightarrow>
             and_then (fold_length (ucast (get_bits_u8 K lead_byte 0 4)) 0 bs)
               (\<lambda>len. Ok (new_input, c, len))
         | Err (_, c, _) \<Rightarrow> Err (input, c, PErr UnexpectedEndOfStream)
         | Panic \<Rightarrow> Panic
         | Deadlock \<Rightarrow> Deadlock
         | OutOfFuel \<Rightarrow> OutOfFuel)"

definition pkg_length_parser :: "'z crates_scheme \<Rightarrow> pkg_length parser" where
  "pkg_length_parser K input c =
     and_then (raw_pkg_length K input c) (\<lambda>(new_input, c, raw).
     and_then (map_err (\<lambda>e. (input, c, PErr e)) (from_raw_length input raw)) (\<lambda>len.
       Ok (new_input, c, len)))"

subsection \<open>Names\<close>

definition debug_obj :: "unit parser" where
  "debug_obj = ext_opcode EXT_DEBUG_OP"

definition local_parser :: "u8 \<Rightarrow> u8 \<Rightarrow> local_num parser" where
  "local_parser i op =
     map_parser (then_parser (opcode op) (comment_scope AllScopes id_parser)) (\<lambda>_. Ok i)"

definition local_obj :: "local_num parser" where
  "local_obj =
     choice [local_parser 0 LOCAL0_OP, local_parser 1 LOCAL1_OP, local_parser 2 LOCAL2_OP, local_parser 3 LOCAL3_OP,
             local_parser 4 LOCAL4_OP, local_parser 5 LOCAL5_OP, local_parser 6 LOCAL6_OP, local_parser 7 LOCAL7_OP]"

definition arg_parser :: "u8 \<Rightarrow> u8 \<Rightarrow> arg_num parser" where
  "arg_parser i op =
     map_parser (then_parser (opcode op) (comment_scope AllScopes id_parser)) (\<lambda>_. Ok i)"

definition arg_obj :: "arg_num parser" where
  "arg_obj =
     choice [arg_parser 0 ARG0_OP, arg_parser 1 ARG1_OP, arg_parser 2 ARG2_OP, arg_parser 3 ARG3_OP,
             arg_parser 4 ARG4_OP, arg_parser 5 ARG5_OP, arg_parser 6 ARG6_OP]"

definition name_seg_parser :: "name_seg parser" where
  "name_seg_parser input c =
     and_then (consume is_lead_name_char input c) (\<lambda>(input, c, char_1).
     and_then (consume is_name_char input c) (\<lambda>(input, c, char_2).
     and_then (consume is_name_char input c) (\<lambda>(input, c, char_3).
     and_then (consume is_name_char input c) (\<lambda>(input, c, char_4).
       Ok (input, c, NameSeg char_1 char_2 char_3 char_4)))))"

definition null_name :: "name_component list parser" where
  "null_name = map_parser (opcode NULL_NAME) (\<lambda>_. Ok [])"

definition dual_name_path :: "name_component list parser" where
  "dual_name_path =
     map_parser (then_parser (then_parser (opcode DUAL_NAME_PREFIX) name_seg_parser) name_seg_parser)
       (\<lambda>((_, first), second). Ok [Segment first, Segment second])"

definition multi_name_path :: "name_component list parser" where
  "multi_name_path input c =
     and_then (then_parser (opcode MULTI_NAME_PREFIX) take_parser input c) (\<lambda>(new_input, c, (_, seg_count)).
     and_then (map_err (\<lambda>(_, c, e). (input, c, e)) (n_of name_seg_parser (unat seg_count) new_input c))
       (\<lambda>(new_input, c, name_segs). Ok (new_input, c, map Segment name_segs)))"

definition name_path :: "name_component list parser" where
  "name_path =
     choice [null_name, dual_name_path, multi_name_path,
             map_parser name_seg_parser (\<lambda>seg. Ok [Segment seg])]"

definition root_name_string :: "aml_name parser" where
  "root_name_string =
     map_parser (then_parser (opcode ROOT_CHAR) name_path)
       (\<lambda>(_, path). from_components (Root # path))"

text \<open>Every round of \<open>take_while\<close> consumes a byte, so the length of the stream bounds them.\<close>

definition prefix_path :: "aml_name parser" where
  "prefix_path input c =
     map_parser (then_parser (take_while (Suc (length input)) (opcode PREFIX_CHAR)) name_path)
       (\<lambda>(num_prefix_chars, path). from_components (replicate num_prefix_chars Prefix @ path))
       input c"

definition name_string :: "aml_name parser" where
  "name_string =
     comment_scope AllScopes (\<lambda>input c.
       case input of
         [] \<Rightarrow> Err (input, c, PErr UnexpectedEndOfStream)
       | first_char # _ \<Rightarrow>
           if first_char = ROOT_CHAR then root_name_string input c
           else if first_char = PREFIX_CHAR then prefix_path input c
           else map_parser name_path
                  (\<lambda>path. if length path = 0 then Err (PErr EmptyNamesAreInvalid)
                          else from_components path) input c)"

definition simple_name :: "target parser" where
  "simple_name =
     comment_scope AllScopes
       (choice [map_parser arg_obj (\<lambda>arg_num. Ok (ArgTarget arg_num)),
                map_parser local_obj (\<lambda>local_num. Ok (LocalTarget local_num)),
                map_parser name_string (\<lambda>name. Ok (NameTarget name))])"

definition super_name :: "target parser" where
  "super_name =
     comment_scope AllScopes (choice [map_parser debug_obj (\<lambda>_. Ok DebugTarget), simple_name])"

definition target_parser :: "target parser" where
  "target_parser =
     comment_scope AllScopes (choice [map_parser null_name (\<lambda>_. Ok NullTarget), super_name])"

end
