(* ===== verification/Aml_Expression.thy ===== *)
theory Aml_Expression
  imports Aml_Parser
begin

section \<open>Expressions and method invocation\<close>

text \<open>
  \<open>expression.rs\<close> and \<open>AmlContext::invoke_method\<close>. The parsers of the grammar call each
  other; those that close the cycles (\<open>term_list\<close>, \<open>term_arg\<close>, \<open>data_ref_object\<close>) are the
  fields of the record \<open>rec_parsers\<close>, which \<open>Aml_Interp\<close> fills in. Its number \<open>r_fuel\<close> bounds
  the loops and the conversions to integers that may not end.
\<close>

record rec_parsers =
  r_fuel :: nat
  r_term_list :: "pkg_length \<Rightarrow> unit parser"
  r_term_arg :: "aml_value parser"
  r_data_ref_object :: "aml_value parser"

subsection \<open>Running a parser on a stream of its own\<close>

definition parse_in :: "'r parser \<Rightarrow> bytes \<Rightarrow> 'r pact" where
  "parse_in p stream c =
     and_then (map_err (\<lambda>(_, c, e). (e, c)) (p stream c)) (\<lambda>(_, c, r). Ok (r, c))"

definition run_term_list :: "rec_parsers \<Rightarrow> bytes \<Rightarrow> unit pact" where
  "run_term_list R stream c =
     and_then (unwrap (from_raw_length stream (len_u32 stream)))
       (\<lambda>len. parse_in (r_term_list R len) stream c)"

definition attempt :: "('a, 'e) eact \<Rightarrow> ('e + 'a, 'f) eact" where
  "attempt m c =
     (case m c of
        Ok (x, c') \<Rightarrow> Ok (Inr x, c')
      | Err (e, c') \<Rightarrow> Ok (Inl e, c')
      | Panic \<Rightarrow> Panic
      | Deadlock \<Rightarrow> Deadlock
      | OutOfFuel \<Rightarrow> OutOfFuel)"

fun method_outcome :: "propagate + unit \<Rightarrow> aml_value act" where
  "method_outcome (Inr _) = ret (Integer 0)"
| "method_outcome (Inl (PReturn result)) = ret result"
| "method_outcome (Inl PBreak) = fail BreakInInvalidPosition"
| "method_outcome (Inl PContinue) = fail ContinueInInvalidPosition"
| "method_outcome (Inl (PErr err)) = fail err"

definition method_body :: "aml_env \<Rightarrow> rec_parsers \<Rightarrow> method_code \<Rightarrow> aml_value act" where
  "method_body E R code =
     (case code of
        Aml stream \<Rightarrow> act_bind (attempt (run_term_list R stream)) method_outcome
      | Native f \<Rightarrow> run_native E (r_fuel R) f)"

definition enter_method :: "aml_name \<Rightarrow> args \<Rightarrow> (method_context option \<times> aml_name, 'e) eact" where
  "enter_method path a c =
     Ok ((method_ctx c, current_scope c),
         c\<lparr>method_ctx := Some (method_context_new a), current_scope := path\<rparr>)"

definition leave_method :: "method_context option \<Rightarrow> aml_name \<Rightarrow> (unit, 'e) eact" where
  "leave_method old_context old_scope c =
     Ok ((), c\<lparr>method_ctx := old_context, current_scope := old_scope\<rparr>)"

definition invoke_method :: "aml_env \<Rightarrow> rec_parsers \<Rightarrow> aml_name \<Rightarrow> args \<Rightarrow> aml_value act" where
  "invoke_method E R path a =
     act_bind (reads (\<lambda>c. get_by_path (ns c) path)) (\<lambda>v.
       case v of
         Method flags code \<Rightarrow>
           act_bind (enter_method path a) (\<lambda>(old_context, old_scope).
           act_bind (on_ns (\<lambda>s. add_level s path MethodLocals)) (\<lambda>_.
           act_bind (attempt (method_body E R code)) (\<lambda>return_value.
           act_bind (on_ns (\<lambda>s. remove_level s path)) (\<lambda>_.
           act_bind (leave_method old_context old_scope) (\<lambda>_.
             case return_value of Inr result \<Rightarrow> ret result | Inl err \<Rightarrow> fail err)))))
       | value \<Rightarrow> ret value)"

subsection \<open>Arithmetic and logic\<close>

abbreviation second :: "'a \<times> 'b \<Rightarrow> ('b, 'e) res" where
  "second \<equiv> \<lambda>(_, result). Ok result"

text \<open>\<open>context.store(target, result.clone())\<close> followed by returning the result.\<close>

definition store_result :: "aml_env \<Rightarrow> rec_parsers \<Rightarrow> target \<Rightarrow> aml_value \<Rightarrow> aml_value pact" where
  "store_result E R t result =
     act_bind (try_act (store E (r_fuel R) t result)) (\<lambda>_. ret result)"

definition int_pair :: "aml_env \<Rightarrow> rec_parsers \<Rightarrow> aml_value \<Rightarrow> aml_value \<Rightarrow> (u64 \<times> u64) pact" where
  "int_pair E R left_arg right_arg =
     act_bind (try_act (as_integer E (r_fuel R) left_arg)) (\<lambda>left.
     act_bind (try_act (as_integer E (r_fuel R) right_arg)) (\<lambda>right. ret (left, right)))"

definition def_add :: "aml_env \<Rightarrow> rec_parsers \<Rightarrow> aml_value parser" where
  "def_add E R =
     map_parser
       (then_parser (opcode DEF_ADD_OP)
         (comment_scope AllScopes
           (map_with_context
             (then_parser (then_parser (r_term_arg R) (r_term_arg R)) target_parser)
             (\<lambda>((left_arg, right_arg), t).
                act_bind (int_pair E R left_arg right_arg) (\<lambda>(left, right).
                  store_result E R t (Integer (left + right)))))))
       second"

definition def_and :: "aml_env \<Rightarrow> rec_parsers \<Rightarrow> aml_value parser" where
  "def_and E R =
     map_parser
       (then_parser (opcode DEF_AND_OP)
         (comment_scope AllScopes
           (map_with_context
             (then_parser (then_parser (r_term_arg R) (r_term_arg R)) target_parser)
             (\<lambda>((left_arg, right_arg), t).
                act_bind (int_pair E R left_arg right_arg) (\<lambda>(left, right).
                  store_result E R t (Integer (left AND right)))))))
       second"

definition def_increment :: "aml_env \<Rightarrow> rec_parsers \<Rightarrow> aml_value parser" where
  "def_increment E R =
     map_parser
       (then_parser (opcode DEF_INCREMENT_OP)
         (comment_scope AllScopes
           (map_with_context super_name (\<lambda>addend.
              act_bind (try_act (read_target addend)) (\<lambda>value.
              act_bind (try_act (as_integer E (r_fuel R) value)) (\<lambda>value.
              act_bind (pure_res (add_u64 value 1)) (\<lambda>new_value.
                store_result E R addend (Integer new_value))))))))
       second"

definition def_decrement :: "aml_env \<Rightarrow> rec_parsers \<Rightarrow> aml_value parser" where
  "def_decrement E R =
     map_parser
       (then_parser (opcode DEF_DECREMENT_OP)
         (comment_scope AllScopes
           (map_with_context super_name (\<lambda>minuend.
              act_bind (try_act (read_target minuend)) (\<lambda>value.
              act_bind (try_act (as_integer E (r_fuel R) value)) (\<lambda>value.
              act_bind (pure_res (sub_u64 value 1)) (\<lambda>new_value.
                store_result E R minuend (Integer new_value))))))))
       second"

definition def_l_or :: "rec_parsers \<Rightarrow> aml_value parser" where
  "def_l_or R =
     map_parser
       (then_parser (opcode DEF_L_OR_OP)
         (comment_scope AllScopes
           (map_with_context (then_parser (r_term_arg R) (r_term_arg R))
             (\<lambda>(left_arg, right_arg).
                act_bind (pure_res (perr (as_bool left_arg))) (\<lambda>left.
                act_bind (pure_res (perr (as_bool right_arg))) (\<lambda>right.
                  ret (Boolean (left \<or> right))))))))
       second"

text \<open>The six comparisons share their operands and differ in the outcomes they accept.\<close>

definition compare_args :: "aml_env \<Rightarrow> rec_parsers \<Rightarrow> (ordering \<Rightarrow> bool) \<Rightarrow> aml_value parser" where
  "compare_args E R accepts =
     comment_scope AllScopes
       (map_with_context (then_parser (r_term_arg R) (r_term_arg R))
         (\<lambda>(left_arg, right_arg).
            act_bind (try_act (value_cmp E (r_fuel R) left_arg right_arg)) (\<lambda>ord.
              ret (Boolean (accepts ord)))))"

definition def_l_equal :: "aml_env \<Rightarrow> rec_parsers \<Rightarrow> aml_value parser" where
  "def_l_equal E R =
     map_parser (then_parser (opcode DEF_L_EQUAL_OP) (compare_args E R (\<lambda>ord. ord = Equal))) second"

definition def_l_greater :: "aml_env \<Rightarrow> rec_parsers \<Rightarrow> aml_value parser" where
  "def_l_greater E R =
     map_parser (then_parser (opcode DEF_L_GREATER_OP) (compare_args E R (\<lambda>ord. ord = Greater))) second"

definition def_l_greater_equal :: "aml_env \<Rightarrow> rec_parsers \<Rightarrow> aml_value parser" where
  "def_l_greater_equal E R =
     map_parser
       (then_parser (then_parser (opcode DEF_L_NOT_OP) (opcode DEF_L_LESS_OP)) (compare_args E R (\<lambda>ord. ord \<noteq> Less)))
       second"

definition def_l_less :: "aml_env \<Rightarrow> rec_parsers \<Rightarrow> aml_value parser" where
  "def_l_less E R =
     map_parser (then_parser (opcode DEF_L_LESS_OP) (compare_args E R (\<lambda>ord. ord = Less))) second"

definition def_l_less_equal :: "aml_env \<Rightarrow> rec_parsers \<Rightarrow> aml_value parser" where
  "def_l_less_equal E R =
     map_parser
       (then_parser (then_parser (opcode DEF_L_NOT_OP) (opcode DEF_L_GREATER_OP)) (compare_args E R (\<lambda>ord. ord \<noteq> Greater)))
       second"

definition def_l_not_equal :: "aml_env \<Rightarrow> rec_parsers \<Rightarrow> aml_value parser" where
  "def_l_not_equal E R =
     map_parser
       (then_parser (then_parser (opcode DEF_L_NOT_OP) (opcode DEF_L_EQUAL_OP)) (compare_args E R (\<lambda>ord. ord \<noteq> Equal)))
       second"

text \<open>\<open>try_into\<close> a \<open>u32\<close>, then \<open>checked_shl\<close> and \<open>checked_shr\<close>.\<close>

definition checked_shift :: "(nat \<Rightarrow> u64 \<Rightarrow> u64) \<Rightarrow> aml_error \<Rightarrow> u64 \<Rightarrow> u64 \<Rightarrow> (u64, aml_error) res" where
  "checked_shift shift err operand shift_count =
     (if \<not> unat shift_count < 2 ^ 32 then Err err
      else if unat shift_count < 64 then Ok (shift (unat shift_count) operand)
      else Err err)"

definition shift_op :: "aml_env \<Rightarrow> rec_parsers \<Rightarrow> u8 \<Rightarrow> (nat \<Rightarrow> u64 \<Rightarrow> u64) \<Rightarrow> aml_error
    \<Rightarrow> aml_value parser" where
  "shift_op E R op shift err =
     map_with_context
       (then_parser (opcode op)
         (comment_scope Scopes
           (then_parser (then_parser (r_term_arg R) (r_term_arg R)) target_parser)))
       (\<lambda>(_, ((operand, shift_count), t)).
          act_bind (int_pair E R operand shift_count) (\<lambda>(operand, shift_count).
          act_bind (pure_res (perr (checked_shift shift err operand shift_count))) (\<lambda>result.
            store_result E R t (Integer result))))"

definition def_shift_left :: "aml_env \<Rightarrow> rec_parsers \<Rightarrow> aml_value parser" where
  "def_shift_left E R = shift_op E R DEF_SHIFT_LEFT push_bit InvalidShiftLeft"

definition def_shift_right :: "aml_env \<Rightarrow> rec_parsers \<Rightarrow> aml_value parser" where
  "def_shift_right E R = shift_op E R DEF_SHIFT_RIGHT drop_bit InvalidShiftRight"

definition def_store :: "aml_env \<Rightarrow> rec_parsers \<Rightarrow> aml_value parser" where
  "def_store E R =
     map_with_context
       (then_parser (opcode DEF_STORE_OP) (comment_scope Scopes (then_parser (r_term_arg R) super_name)))
       (\<lambda>(_, (value, t)). try_act (store E (r_fuel R) t value))"

subsection \<open>Buffers, strings and packages\<close>

definition new_buffer :: "bytes \<Rightarrow> (aml_value, 'e) eact" where
  "new_buffer bs = act_bind (alloc_buffer bs) (\<lambda>r. ret (Buffer r))"

text \<open>\<open>vec![0; buffer_size]\<close> with the given bytes at its front.\<close>

definition sized_buffer :: "u64 \<Rightarrow> bytes \<Rightarrow> (bytes, propagate) res" where
  "sized_buffer buffer_size bs =
     (if unat buffer_size < length bs then Err (PErr MalformedBuffer)
      else if unat buffer_size \<ge> 2 ^ 63 then Panic
      else Ok (bs @ replicate (unat buffer_size - length bs) 0))"

definition def_buffer :: "aml_env \<Rightarrow> rec_parsers \<Rightarrow> aml_value parser" where
  "def_buffer E R =
     map_with_context
       (then_parser (opcode DEF_BUFFER_OP)
         (comment_scope AllScopes
           (feed (then_parser (pkg_length_parser E) (r_term_arg R)) (\<lambda>(len, buffer_size).
              map_with_context (take_to_end_of_pkglength len) (\<lambda>bs.
                act_bind (try_act (as_integer E (r_fuel R) buffer_size)) (\<lambda>size.
                  pure_res (sized_buffer size bs)))))))
       (\<lambda>(_, buffer). new_buffer buffer)"

definition concat_values :: "aml_env \<Rightarrow> nat \<Rightarrow> aml_value \<Rightarrow> aml_value \<Rightarrow> aml_value act" where
  "concat_values E n left right =
     (case as_concat_type left of
        Integer l \<Rightarrow>
          act_bind (as_integer E n right) (\<lambda>r.
            new_buffer (to_le_bytes 8 (unat l) @ to_le_bytes 8 (unat r)))
      | Buffer l \<Rightarrow>
          act_bind (with_lock l ret) (\<lambda>new.
          act_bind (as_buffer E n right) (\<lambda>r.
          act_bind (with_lock r ret) (\<lambda>bs. new_buffer (new @ bs))))
      | String l \<Rightarrow>
          act_bind (case as_concat_type right of
                      String r \<Rightarrow> ret r
                    | Integer _ \<Rightarrow> as_string_value E n right
                    | Buffer _ \<Rightarrow> as_string_value E n right
                    | _ \<Rightarrow> pure_res Panic) (\<lambda>r. ret (String (l @ r)))
      | _ \<Rightarrow> pure_res Panic)"

definition def_concat :: "aml_env \<Rightarrow> rec_parsers \<Rightarrow> aml_value parser" where
  "def_concat E R =
     map_parser
       (then_parser (opcode DEF_CONCAT_OP)
         (comment_scope AllScopes
           (map_with_context
             (then_parser (then_parser (r_term_arg R) (r_term_arg R)) target_parser)
             (\<lambda>((left, right), t).
                act_bind (try_act (concat_values E (r_fuel R) left right)) (\<lambda>result.
                  store_result E R t result)))))
       second"

definition strip_end_tag :: "bytes \<Rightarrow> bytes" where
  "strip_end_tag bs = (if length bs = 0 then [] else take (length bs - 2) bs)"

definition byte_sum :: "bytes \<Rightarrow> u8" where
  "byte_sum bs = fold (\<lambda>byte checksum. checksum + byte) bs 0"

definition concat_res_bytes :: "bytes \<Rightarrow> bytes \<Rightarrow> bytes" where
  "concat_res_bytes l r =
     (let result = strip_end_tag l @ strip_end_tag r @ [0x79] in result @ [- byte_sum result])"

definition concat_resources :: "aml_env \<Rightarrow> nat \<Rightarrow> aml_value \<Rightarrow> aml_value \<Rightarrow> aml_value act" where
  "concat_resources E n left right =
     act_bind (as_buffer E n left) (\<lambda>l.
     act_bind (as_buffer E n right) (\<lambda>r.
     act_bind (with_lock l (\<lambda>bs. ret (length bs))) (\<lambda>left_len.
     act_bind (with_lock r (\<lambda>bs. ret (length bs))) (\<lambda>right_len.
       if left_len = 1 \<or> right_len = 1 then fail ResourceDescriptorTooShort
       else
         act_bind (with_lock l (\<lambda>left_contents. with_lock r (\<lambda>right_contents.
           ret (concat_res_bytes left_contents right_contents)))) new_buffer))))"

definition def_concat_res :: "aml_env \<Rightarrow> rec_parsers \<Rightarrow> aml_value parser" where
  "def_concat_res E R =
     map_parser
       (then_parser (opcode DEF_CONCAT_RES_OP)
         (comment_scope AllScopes
           (map_with_context
             (then_parser (then_parser (r_term_arg R) (r_term_arg R)) target_parser)
             (\<lambda>((left, right), t).
                act_bind (try_act (concat_resources E (r_fuel R) left right)) (\<lambda>result.
                  store_result E R t result)))))
       second"

text \<open>
  The slice of a buffer or string; \<open>index + length\<close> is only computed, and may only overflow,
  when the index is in range. Slicing a string between the bytes of a character panics.
\<close>

definition is_char_boundary :: "bytes \<Rightarrow> nat \<Rightarrow> bool" where
  "is_char_boundary bs i \<longleftrightarrow> i = 0 \<or> i = length bs \<or> (i < length bs \<and> \<not> is_cont (bs ! i))"

definition mid_bytes :: "bytes \<Rightarrow> u64 \<Rightarrow> u64 \<Rightarrow> (bytes, 'e) res" where
  "mid_bytes bs index len =
     (if unat index \<ge> length bs then Ok []
      else and_then (add_u64 index len) (\<lambda>stop.
        if unat stop \<ge> length bs then Ok (drop (unat index) bs)
        else Ok (take (unat len) (drop (unat index) bs))))"

definition mid_string :: "string \<Rightarrow> u64 \<Rightarrow> u64 \<Rightarrow> (string, 'e) res" where
  "mid_string str index len =
     (let bs = bytes_of_string str in
      if unat index < length bs \<and>
         (\<not> is_char_boundary bs (unat index) \<or>
          unat index + unat len < length bs \<and> \<not> is_char_boundary bs (unat index + unat len))
      then Panic
      else and_then (mid_bytes bs index len) (\<lambda>bs. Ok (string_of_bytes bs)))"

definition mid_value :: "aml_env \<Rightarrow> nat \<Rightarrow> aml_value \<Rightarrow> aml_value \<Rightarrow> aml_value \<Rightarrow> aml_value act" where
  "mid_value E n source index len =
     act_bind (as_integer E n index) (\<lambda>index.
     act_bind (as_integer E n len) (\<lambda>len.
       case source of
         Buffer r \<Rightarrow>
           with_lock r (\<lambda>foo. act_bind (pure_res (mid_bytes foo index len)) new_buffer)
       | String str \<Rightarrow> act_bind (pure_res (mid_string str index len)) (\<lambda>str'. ret (String str'))
       | _ \<Rightarrow> fail (TypeCannotBeSliced (type_of source))))"

definition def_mid :: "aml_env \<Rightarrow> rec_parsers \<Rightarrow> aml_value parser" where
  "def_mid E R =
     map_parser
       (then_parser (opcode DEF_MID_OP)
         (comment_scope AllScopes
           (map_with_context
             (then_parser (then_parser (then_parser (r_term_arg R) (r_term_arg R)) (r_term_arg R))
               target_parser)
             (\<lambda>(((source, index), len), t).
                act_bind (try_act (mid_value E (r_fuel R) source index len)) (\<lambda>result.
                  store_result E R t result)))))
       second"

definition package_element :: "rec_parsers \<Rightarrow> aml_value parser" where
  "package_element R =
     choice [r_data_ref_object R, map_parser name_string (\<lambda>name. Ok (String (as_string name)))]"

text \<open>The loop over the elements, with at most as many rounds as its first argument.\<close>

fun package_loop :: "nat \<Rightarrow> rec_parsers \<Rightarrow> pkg_length \<Rightarrow> aml_value list parser" where
  "package_loop 0 R len input c = OutOfFuel"
| "package_loop (Suc n) R len input c =
     (if still_parsing len input then
        and_then (package_element R input c) (\<lambda>(input, c, value).
        and_then (package_loop n R len input c) (\<lambda>(input, c, values). Ok (input, c, value # values)))
      else Ok (input, c, []))"

definition package_contents :: "rec_parsers \<Rightarrow> pkg_length \<Rightarrow> u8 \<Rightarrow> aml_value parser" where
  "package_contents R len num_elements input c =
     and_then (package_loop (r_fuel R) R len input c) (\<lambda>(input, c, contents).
       if length contents \<noteq> unat num_elements then Err (input, c, PErr MalformedPackage)
       else Ok (input, c, Package contents))"

definition def_package :: "aml_env \<Rightarrow> rec_parsers \<Rightarrow> aml_value parser" where
  "def_package E R =
     map_parser
       (then_parser (opcode DEF_PACKAGE_OP)
         (comment_scope AllScopes
           (feed (then_parser (pkg_length_parser E) take_parser)
             (\<lambda>(len, num_elements). package_contents R len num_elements))))
       second"

subsection \<open>Conversion to an integer\<close>

text \<open>\<open>u64::from_str_radix\<close>; \<open>parse\<close> is radix ten.\<close>

definition digit_value :: "char \<Rightarrow> nat option" where
  "digit_value ch =
     (let k = of_char ch :: nat in
      if 48 \<le> k \<and> k \<le> 57 then Some (k - 48)
      else if 97 \<le> k \<and> k \<le> 122 then Some (k - 87)
      else if 65 \<le> k \<and> k \<le> 90 then Some (k - 55)
      else None)"

fun parse_digits :: "nat \<Rightarrow> nat \<Rightarrow> string \<Rightarrow> nat option" where
  "parse_digits radix acc [] = Some acc"
| "parse_digits radix acc (ch # chs) =
     (case digit_value ch of
        Some d \<Rightarrow>
          if d < radix \<and> acc * radix + d < 2 ^ 64 then parse_digits radix (acc * radix + d) chs
          else None
      | None \<Rightarrow> None)"

definition from_str_radix :: "nat \<Rightarrow> string \<Rightarrow> u64 option" where
  "from_str_radix radix str =
     (case str of
        [] \<Rightarrow> None
      | ch # chs \<Rightarrow>
          if (ch = CHR ''+'' \<or> ch = CHR ''-'') \<and> chs = [] then None
          else map_option word_of_nat (parse_digits radix 0 (if ch = CHR ''+'' then chs else str)))"

fun trim_start_0x :: "string \<Rightarrow> string" where
  "trim_start_0x (a # b # rest) =
     (if a = CHR ''0'' \<and> b = CHR ''x'' then trim_start_0x rest else a # b # rest)"
| "trim_start_0x str = str"

definition string_to_integer :: "string \<Rightarrow> (u64, aml_error) res" where
  "string_to_integer str =
     ok_or (IncompatibleValueConversion StringType IntegerType)
       (if take 2 str = ''0x'' then from_str_radix 16 (trim_start_0x str) else from_str_radix 10 str)"

definition to_integer_value :: "aml_env \<Rightarrow> nat \<Rightarrow> aml_value \<Rightarrow> aml_value act" where
  "to_integer_value E n operand =
     (case operand of
        Integer value \<Rightarrow> ret (Integer value)
      | Buffer data \<Rightarrow> act_bind (as_integer E n (Buffer data)) (\<lambda>i. ret (Integer i))
      | String str \<Rightarrow> act_bind (pure_res (string_to_integer str)) (\<lambda>i. ret (Integer i))
      | _ \<Rightarrow> fail (IncompatibleValueConversion (type_of operand) IntegerType))"

definition def_to_integer :: "aml_env \<Rightarrow> rec_parsers \<Rightarrow> aml_value parser" where
  "def_to_integer E R =
     map_with_context
       (then_parser (opcode DEF_TO_INTEGER_OP)
         (comment_scope AllScopes (then_parser (r_term_arg R) target_parser)))
       (\<lambda>(_, (operand, t)).
          act_bind (try_act (to_integer_value E (r_fuel R) operand)) (\<lambda>result.
            store_result E R t result))"

subsection \<open>Method invocation and the choice of an expression\<close>

definition method_head :: "aml_env \<Rightarrow> aml_name \<Rightarrow> (aml_name \<times> u8 option) pact" where
  "method_head E name =
     act_bind (try_act (reads (\<lambda>c. search (ns c) name (current_scope c)))) (\<lambda>(full_path, handle).
     act_bind (try_act (reads (\<lambda>c. ns_get (ns c) handle))) (\<lambda>v.
       ret (full_path, case v of Method flags _ \<Rightarrow> Some (arg_count E flags) | _ \<Rightarrow> None)))"

definition method_call :: "aml_env \<Rightarrow> rec_parsers \<Rightarrow> aml_name \<Rightarrow> u8 option \<Rightarrow> aml_value list
    \<Rightarrow> aml_value pact" where
  "method_call E R path num_args arg_list =
     (case num_args of
        Some _ \<Rightarrow>
          act_bind (pure_res (perr (args_from_list arg_list))) (\<lambda>a.
            try_act (invoke_method E R path a))
      | None \<Rightarrow> try_act (reads (\<lambda>c. get_by_path (ns c) path)))"

definition method_invocation :: "aml_env \<Rightarrow> rec_parsers \<Rightarrow> aml_value parser" where
  "method_invocation E R =
     comment_scope Scopes
       (feed (map_with_context name_string (method_head E)) (\<lambda>(path, num_args).
          map_with_context
            (n_of (r_term_arg R) (case num_args of Some n \<Rightarrow> unat n | None \<Rightarrow> 0))
            (method_call E R path num_args)))"

definition expression_opcode :: "aml_env \<Rightarrow> rec_parsers \<Rightarrow> aml_value parser" where
  "expression_opcode E R =
     comment_scope AllScopes
       (choice [def_add E R, def_and E R, def_buffer E R, def_concat E R, def_concat_res E R,
                def_increment E R, def_decrement E R, def_l_equal E R, def_l_greater E R,
                def_l_greater_equal E R, def_l_less E R, def_l_less_equal E R,
                def_l_not_equal E R, def_l_or R, def_mid E R, def_package E R,
                def_shift_left E R, def_shift_right E R, def_store E R, def_to_integer E R,
                method_invocation E R])"

end
