(* ===== verification/Aml_Statement.thy ===== *)
theory Aml_Statement
  imports Aml_Expression
begin

section \<open>Statements\<close>

text \<open>
  \<open>statement.rs\<close>. A branch or loop body is a stream of its own, run by \<open>run_term_list\<close>; what
  propagates out of it (a return, a break, a continue, an error) is a value of \<open>propagate\<close>.
\<close>

definition def_break :: "unit parser" where
  "def_break =
     discard_result (then_parser (opcode DEF_BREAK_OP)
       (comment_scope AllScopes (map_parser id_parser (\<lambda>_. Err PBreak :: (unit, propagate) res))))"

definition def_breakpoint :: "unit parser" where
  "def_breakpoint = discard_result (then_parser (opcode DEF_BREAKPOINT_OP) (comment_scope AllScopes id_parser))"

definition def_continue :: "unit parser" where
  "def_continue =
     discard_result (then_parser (opcode DEF_CONTINUE_OP)
       (comment_scope AllScopes (map_parser id_parser (\<lambda>_. Err PContinue :: (unit, propagate) res))))"

definition handle_fatal_error :: "aml_env \<Rightarrow> u8 \<Rightarrow> u32 \<Rightarrow> u64 \<Rightarrow> (unit, 'e) eact" where
  "handle_fatal_error E fatal_type fatal_code fatal_arg = log_io E (FatalEvent fatal_type fatal_code fatal_arg)"

definition def_fatal :: "aml_env \<Rightarrow> rec_parsers \<Rightarrow> unit parser" where
  "def_fatal E R =
     discard_result (then_parser (ext_opcode EXT_DEF_FATAL_OP)
       (comment_scope Scopes
         (map_with_context (then_parser (then_parser take_parser take_u32) (r_term_arg R))
           (\<lambda>((fatal_type, fatal_code), fatal_arg).
              act_bind (try_act (as_integer E (r_fuel R) fatal_arg)) (\<lambda>fatal_arg.
              act_bind (handle_fatal_error E fatal_type fatal_code fatal_arg) (\<lambda>_.
                fail (PErr FatalError) :: unit pact))))))"

definition else_branch :: "aml_env \<Rightarrow> bytes parser" where
  "else_branch E =
     choice
       [map_parser
          (then_parser (opcode DEF_ELSE_OP)
            (comment_scope AllScopes (feed (pkg_length_parser E) take_to_end_of_pkglength)))
          second,
        \<lambda>input c. Ok (input, c, [])]"

definition def_if_else :: "aml_env \<Rightarrow> rec_parsers \<Rightarrow> unit parser" where
  "def_if_else E R =
     discard_result (then_parser (opcode DEF_IF_ELSE_OP)
       (comment_scope Scopes
         (map_with_context
           (then_parser
             (feed (then_parser (pkg_length_parser E) (r_term_arg R)) (\<lambda>(len, predicate_arg).
                map_parser (take_to_end_of_pkglength len) (\<lambda>then_branch.
                  and_then (perr (as_bool predicate_arg)) (\<lambda>predicate. Ok (predicate, then_branch)))))
             (else_branch E))
           (\<lambda>((predicate, then_branch), else_branch).
              run_term_list R (if predicate then then_branch else else_branch)))))"

definition def_noop :: "unit parser" where
  "def_noop = discard_result (then_parser (opcode DEF_NOOP_OP) (comment_scope AllScopes id_parser))"

definition def_return :: "rec_parsers \<Rightarrow> unit parser" where
  "def_return R =
     discard_result (then_parser (opcode DEF_RETURN_OP)
       (comment_scope Scopes
         (map_parser (r_term_arg R) (\<lambda>return_arg. Err (PReturn return_arg) :: (unit, propagate) res))))"

text \<open>The rounds of a while loop, at most as many as the first argument.\<close>

fun while_loop :: "nat \<Rightarrow> rec_parsers \<Rightarrow> bytes \<Rightarrow> bytes \<Rightarrow> unit pact" where
  "while_loop 0 R predicate_stream body = pure_res OutOfFuel"
| "while_loop (Suc n) R predicate_stream body =
     act_bind (attempt (run_term_list R body)) (\<lambda>out.
       if out = Inl PBreak then ret ()
       else if out = Inl PContinue \<or> out = Inr () then
         act_bind (parse_in (comment_scope AllScopes (r_term_arg R)) predicate_stream) (\<lambda>result.
         act_bind (pure_res (perr (as_bool result))) (\<lambda>predicate.
           if predicate then while_loop n R predicate_stream body else ret ()))
       else case out of Inl err \<Rightarrow> fail err | Inr _ \<Rightarrow> ret ())"

definition run_while :: "rec_parsers \<Rightarrow> aml_value \<Rightarrow> bytes \<Rightarrow> bytes \<Rightarrow> unit pact" where
  "run_while R first_predicate predicate_stream body =
     act_bind (pure_res (perr (as_bool first_predicate))) (\<lambda>predicate.
       if \<not> predicate then ret () else while_loop (r_fuel R) R predicate_stream body)"

definition def_while :: "aml_env \<Rightarrow> rec_parsers \<Rightarrow> unit parser" where
  "def_while E R =
     discard_result (then_parser (opcode DEF_WHILE_OP)
       (comment_scope Scopes
         (map_with_context
           (feed (then_parser (pkg_length_parser E) (extract_parser (r_term_arg R)))
             (\<lambda>(len, (first_predicate, predicate_stream)).
                map_parser (take_to_end_of_pkglength len)
                  (\<lambda>body. Ok (first_predicate, predicate_stream, body))))
           (\<lambda>(first_predicate, predicate_stream, body).
              run_while R first_predicate predicate_stream body))))"

definition statement_opcode :: "aml_env \<Rightarrow> rec_parsers \<Rightarrow> unit parser" where
  "statement_opcode E R =
     comment_scope AllScopes
       (choice [def_break, def_breakpoint, def_continue, def_fatal E R, def_if_else E R, def_noop,
                def_return R, def_while E R])"

end
