(* ===== verification/Aml_Term.thy ===== *)
theory Aml_Term
  imports Aml_Statement
begin

section \<open>Terms\<close>

text \<open>
  \<open>term_object.rs\<close>: the objects that add to the namespace, data objects, arguments and lists
  of terms.
\<close>

subsection \<open>Namespace modifiers\<close>

definition add_value_here :: "aml_name \<Rightarrow> aml_value \<Rightarrow> aml_handle pact" where
  "add_value_here name value =
     try_act (\<lambda>c. on_ns (\<lambda>s. add_value_at_resolved_path s name (current_scope c) value) c)"

definition set_scope :: "aml_name \<Rightarrow> (unit, 'e) eact" where
  "set_scope scope c = Ok ((), c\<lparr>current_scope := scope\<rparr>)"

text \<open>
  The term list of an object that has a scope of its own: on success the previous scope is
  set again.
\<close>

definition scoped_term_list :: "rec_parsers \<Rightarrow> (pkg_length \<times> aml_name) parser \<Rightarrow> unit parser" where
  "scoped_term_list R head =
     map_with_context
       (feed head (\<lambda>(len, previous_scope).
          map_parser (r_term_list R len) (\<lambda>_. Ok previous_scope)))
       set_scope"

definition def_name :: "rec_parsers \<Rightarrow> unit parser" where
  "def_name R =
     discard_result (then_parser (opcode DEF_NAME_OP)
       (comment_scope Scopes
         (map_with_context (then_parser name_string (r_data_ref_object R))
           (\<lambda>(name, data_ref_object).
              act_bind (add_value_here name data_ref_object) (\<lambda>_. ret ())))))"

definition enter_scope :: "pkg_length \<times> aml_name \<Rightarrow> (pkg_length \<times> aml_name) pact" where
  "enter_scope = (\<lambda>(len, name).
     act_bind (reads (\<lambda>c. Ok (current_scope c))) (\<lambda>previous_scope.
     act_bind (try_act (reads (\<lambda>c. resolve name (current_scope c)))) (\<lambda>resolved.
     act_bind (set_scope resolved) (\<lambda>_.
     act_bind (try_act (on_ns (\<lambda>s. add_level s resolved ScopeLevel))) (\<lambda>_.
       ret (len, previous_scope))))))"

definition def_scope :: "aml_env \<Rightarrow> rec_parsers \<Rightarrow> unit parser" where
  "def_scope E R =
     discard_result (then_parser (opcode DEF_SCOPE_OP)
       (comment_scope Scopes
         (scoped_term_list R
           (map_with_context (then_parser (pkg_length_parser E) name_string) enter_scope))))"

definition namespace_modifier :: "aml_env \<Rightarrow> rec_parsers \<Rightarrow> unit parser" where
  "namespace_modifier E R = choice [def_name R, def_scope E R]"

subsection \<open>Buffer fields\<close>

text \<open>
  The parsers of \<open>CreateBitField\<close> to \<open>CreateQWordField\<close> differ in the opcode, the factor on
  the index and the length.
\<close>

definition create_field_of :: "aml_env \<Rightarrow> rec_parsers \<Rightarrow> u8 \<Rightarrow> (u64 \<Rightarrow> (u64, propagate) res) \<Rightarrow> u64
    \<Rightarrow> unit parser" where
  "create_field_of E R op offset_of len =
     discard_result (then_parser (opcode op)
       (comment_scope AllScopes
         (map_with_context (then_parser (then_parser (r_term_arg R) (r_term_arg R)) name_string)
           (\<lambda>((source, index), name).
              act_bind (try_act (as_buffer E (r_fuel R) source)) (\<lambda>source_data.
              act_bind (try_act (as_integer E (r_fuel R) index)) (\<lambda>index.
              act_bind (pure_res (offset_of index)) (\<lambda>offset.
              act_bind (add_value_here name (BufferField source_data offset len)) (\<lambda>_.
                ret ()))))))))"

definition def_create_bit_field :: "aml_env \<Rightarrow> rec_parsers \<Rightarrow> unit parser" where
  "def_create_bit_field E R = create_field_of E R DEF_CREATE_BIT_FIELD_OP Ok 1"

definition def_create_byte_field :: "aml_env \<Rightarrow> rec_parsers \<Rightarrow> unit parser" where
  "def_create_byte_field E R = create_field_of E R DEF_CREATE_BYTE_FIELD_OP (\<lambda>index. mul_u64 index 8) 8"

definition def_create_word_field :: "aml_env \<Rightarrow> rec_parsers \<Rightarrow> unit parser" where
  "def_create_word_field E R = create_field_of E R DEF_CREATE_WORD_FIELD_OP (\<lambda>index. mul_u64 index 8) 16"

definition def_create_dword_field :: "aml_env \<Rightarrow> rec_parsers \<Rightarrow> unit parser" where
  "def_create_dword_field E R = create_field_of E R DEF_CREATE_DWORD_FIELD_OP (\<lambda>index. mul_u64 index 8) 32"

definition def_create_qword_field :: "aml_env \<Rightarrow> rec_parsers \<Rightarrow> unit parser" where
  "def_create_qword_field E R = create_field_of E R DEF_CREATE_QWORD_FIELD_OP (\<lambda>index. mul_u64 index 8) 64"

definition def_create_field :: "aml_env \<Rightarrow> rec_parsers \<Rightarrow> unit parser" where
  "def_create_field E R =
     discard_result (then_parser (ext_opcode EXT_DEF_CREATE_FIELD_OP)
       (comment_scope Scopes
         (map_with_context
           (then_parser (then_parser (then_parser (r_term_arg R) (r_term_arg R)) (r_term_arg R))
             name_string)
           (\<lambda>(((source, index), num_bits), name).
              act_bind (try_act (as_buffer E (r_fuel R) source)) (\<lambda>source_data.
              act_bind (try_act (as_integer E (r_fuel R) index)) (\<lambda>index.
              act_bind (try_act (as_integer E (r_fuel R) num_bits)) (\<lambda>num_bits.
              act_bind (add_value_here name (BufferField source_data index num_bits)) (\<lambda>_.
                ret ()))))))))"

subsection \<open>Operation regions and fields\<close>

definition region_space_of :: "u8 \<Rightarrow> (region_space, aml_error) res" where
  "region_space_of space =
     (if space = 0x00 then Ok SystemMemory
      else if space = 0x01 then Ok SystemIo
      else if space = 0x02 then Ok PciConfig
      else if space = 0x03 then Ok EmbeddedControl
      else if space = 0x04 then Ok SMBus
      else if space = 0x05 then Ok SystemCmos
      else if space = 0x06 then Ok PciBarTarget
      else if space = 0x07 then Ok IPMI
      else if space = 0x08 then Ok GeneralPurposeIo
      else if space = 0x09 then Ok GenericSerialBus
      else if 0x80 \<le> space then Ok (OemDefined space)
      else Err (InvalidRegionSpace space))"

definition region_parent :: "region_space \<Rightarrow> aml_name \<Rightarrow> aml_name option act" where
  "region_parent region name =
     (if region = PciConfig \<or> region = IPMI \<or> region = GenericSerialBus then
        act_bind (reads (\<lambda>c. resolve name (current_scope c))) (\<lambda>resolved_path.
        act_bind (pure_res (parent resolved_path)) (\<lambda>p. ret (Some p)))
      else ret None)"

definition def_op_region :: "aml_env \<Rightarrow> rec_parsers \<Rightarrow> unit parser" where
  "def_op_region E R =
     discard_result (then_parser (ext_opcode EXT_DEF_OP_REGION_OP)
       (comment_scope Scopes
         (map_with_context
           (then_parser (then_parser (then_parser name_string take_parser) (r_term_arg R)) (r_term_arg R))
           (\<lambda>(((name, space), offset), len).
              act_bind (pure_res (perr (region_space_of space))) (\<lambda>region.
              act_bind (try_act (as_integer E (r_fuel R) offset)) (\<lambda>offset.
              act_bind (try_act (as_integer E (r_fuel R) len)) (\<lambda>len.
              act_bind (try_act (region_parent region name)) (\<lambda>parent_device.
              act_bind (add_value_here name (OpRegion region offset len parent_device)) (\<lambda>_.
                ret ())))))))))"

definition opregion_as_handle :: "aml_handle parser" where
  "opregion_as_handle =
     map_with_context name_string (\<lambda>region_name.
       act_bind (try_act (reads (\<lambda>c. search (ns c) region_name (current_scope c))))
         (\<lambda>(_, handle). ret handle))"

definition reserved_field :: "aml_env \<Rightarrow> u64 parser" where
  "reserved_field E =
     map_parser (then_parser (opcode RESERVED_FIELD) (pkg_length_parser E))
       (\<lambda>(_, len). Ok (ucast (raw_length len)))"

definition named_field :: "aml_env \<Rightarrow> aml_handle \<Rightarrow> field_flags \<Rightarrow> u64 \<Rightarrow> u64 parser" where
  "named_field E region_handle flags current_offset =
     map_with_context (then_parser name_seg_parser (pkg_length_parser E)) (\<lambda>(seg, len).
       act_bind (add_value_here (from_name_seg seg)
                  (Field region_handle flags current_offset (ucast (raw_length len)))) (\<lambda>_.
         ret (ucast (raw_length len))))"

definition field_element :: "aml_env \<Rightarrow> aml_handle \<Rightarrow> field_flags \<Rightarrow> u64 \<Rightarrow> u64 parser" where
  "field_element E region_handle flags current_offset =
     choice [reserved_field E, named_field E region_handle flags current_offset]"

text \<open>The loop over the field list, with at most as many rounds as its first argument.\<close>

fun field_list :: "nat \<Rightarrow> aml_env \<Rightarrow> pkg_length \<Rightarrow> aml_handle \<Rightarrow> field_flags \<Rightarrow> u64 \<Rightarrow> unit parser" where
  "field_list 0 E len region_handle flags current_offset input c = OutOfFuel"
| "field_list (Suc n) E len region_handle flags current_offset input c =
     (if still_parsing len input then
        and_then (field_element E region_handle flags current_offset input c)
          (\<lambda>(input, c, field_length).
        and_then (add_u64 current_offset field_length) (\<lambda>current_offset.
          field_list n E len region_handle flags current_offset input c))
      else Ok (input, c, ()))"

definition def_field :: "aml_env \<Rightarrow> rec_parsers \<Rightarrow> unit parser" where
  "def_field E R =
     discard_result (then_parser (ext_opcode EXT_DEF_FIELD_OP)
       (comment_scope Scopes
         (feed (then_parser (then_parser (pkg_length_parser E) opregion_as_handle) take_parser)
           (\<lambda>((list_length, region_handle), flags).
              field_list (r_fuel R) E list_length region_handle (field_flags_new flags) 0))))"

subsection \<open>Methods and named objects with a scope\<close>

definition def_method :: "aml_env \<Rightarrow> unit parser" where
  "def_method E =
     discard_result (then_parser (opcode DEF_METHOD_OP)
       (comment_scope Scopes
         (map_with_context
           (feed (then_parser (then_parser (pkg_length_parser E) name_string) take_parser)
             (\<lambda>((len, name), flags).
                map_parser (take_to_end_of_pkglength len) (\<lambda>code. Ok (name, flags, code))))
           (\<lambda>(name, flags, code).
              act_bind (add_value_here name (Method (method_flags_from flags) (Aml code)))
                (\<lambda>_. ret ())))))"

definition def_external :: "unit parser" where
  "def_external =
     discard_result (then_parser (opcode DEF_EXTERNAL_OP)
       (comment_scope Scopes (then_parser (then_parser name_string take_parser) take_parser)))"

definition resolve_here :: "aml_name \<Rightarrow> aml_name pact" where
  "resolve_here name = try_act (reads (\<lambda>c. resolve name (current_scope c)))"

definition swap_scope :: "pkg_length \<Rightarrow> aml_name \<Rightarrow> (pkg_length \<times> aml_name) pact" where
  "swap_scope len resolved_name =
     act_bind (reads (\<lambda>c. Ok (current_scope c))) (\<lambda>previous_scope.
     act_bind (set_scope resolved_name) (\<lambda>_. ret (len, previous_scope)))"

text \<open>Devices and thermal zones add the value before the level.\<close>

definition enter_value_level :: "aml_value \<Rightarrow> level_type \<Rightarrow> pkg_length \<times> aml_name
    \<Rightarrow> (pkg_length \<times> aml_name) pact" where
  "enter_value_level value typ = (\<lambda>(len, name).
     act_bind (resolve_here name) (\<lambda>resolved_name.
     act_bind (try_act (on_ns (\<lambda>s. add_value s resolved_name value))) (\<lambda>_.
     act_bind (try_act (on_ns (\<lambda>s. add_level s resolved_name typ))) (\<lambda>_.
       swap_scope len resolved_name))))"

text \<open>Processors and power resources add the level before the value.\<close>

definition enter_level_value :: "aml_value \<Rightarrow> level_type \<Rightarrow> pkg_length \<times> aml_name
    \<Rightarrow> (pkg_length \<times> aml_name) pact" where
  "enter_level_value value typ = (\<lambda>(len, name).
     act_bind (resolve_here name) (\<lambda>resolved_name.
     act_bind (try_act (on_ns (\<lambda>s. add_level s resolved_name typ))) (\<lambda>_.
     act_bind (try_act (on_ns (\<lambda>s. add_value s resolved_name value))) (\<lambda>_.
       swap_scope len resolved_name))))"

definition def_device :: "aml_env \<Rightarrow> rec_parsers \<Rightarrow> unit parser" where
  "def_device E R =
     discard_result (then_parser (ext_opcode EXT_DEF_DEVICE_OP)
       (comment_scope Scopes
         (scoped_term_list R
           (map_with_context (then_parser (pkg_length_parser E) name_string)
             (enter_value_level Device DeviceLevel)))))"

definition def_processor :: "aml_env \<Rightarrow> rec_parsers \<Rightarrow> unit parser" where
  "def_processor E R =
     discard_result (then_parser (ext_opcode EXT_DEF_PROCESSOR_OP)
       (comment_scope Scopes
         (scoped_term_list R
           (map_with_context
             (then_parser
               (then_parser (then_parser (then_parser (pkg_length_parser E) name_string) take_parser)
                 take_u32)
               take_parser)
             (\<lambda>((((len, name), proc_id), pblk_address), pblk_len).
                enter_level_value (Processor proc_id pblk_address pblk_len) ProcessorLevel
                  (len, name))))))"

definition def_power_res :: "aml_env \<Rightarrow> rec_parsers \<Rightarrow> unit parser" where
  "def_power_res E R =
     discard_result (then_parser (ext_opcode EXT_DEF_POWER_RES_OP)
       (comment_scope Scopes
         (scoped_term_list R
           (map_with_context
             (then_parser (then_parser (then_parser (pkg_length_parser E) name_string) take_parser)
               take_u16)
             (\<lambda>(((len, name), system_level), resource_order).
                enter_level_value (PowerResource system_level resource_order) PowerResourceLevel
                  (len, name))))))"

definition def_thermal_zone :: "aml_env \<Rightarrow> rec_parsers \<Rightarrow> unit parser" where
  "def_thermal_zone E R =
     discard_result (then_parser (ext_opcode EXT_DEF_THERMAL_ZONE_OP)
       (comment_scope Scopes
         (scoped_term_list R
           (map_with_context (then_parser (pkg_length_parser E) name_string)
             (enter_value_level ThermalZone ThermalZoneLevel)))))"

definition def_mutex :: "unit parser" where
  "def_mutex =
     discard_result (then_parser (ext_opcode EXT_DEF_MUTEX_OP)
       (comment_scope Scopes
         (map_with_context (then_parser name_string take_parser)
           (\<lambda>(name, level). act_bind (add_value_here name (Mutex level)) (\<lambda>_. ret ())))))"

definition named_obj :: "aml_env \<Rightarrow> rec_parsers \<Rightarrow> unit parser" where
  "named_obj E R =
     comment_scope AllScopes
       (choice [def_create_bit_field E R, def_create_byte_field E R, def_create_word_field E R,
                def_create_dword_field E R, def_create_qword_field E R, def_create_field E R,
                def_op_region E R, def_field E R, def_method E, def_external, def_device E R,
                def_processor E R, def_power_res E R, def_thermal_zone E R, def_mutex])"

subsection \<open>Data objects and arguments\<close>

text \<open>The position of the first zero byte.\<close>

fun nul_position :: "bytes \<Rightarrow> nat option" where
  "nul_position [] = None"
| "nul_position (b # bs) = (if b = 0 then Some 0 else map_option Suc (nul_position bs))"

definition string_parser :: "aml_value parser" where
  "string_parser input c =
     (case nul_position input of
        None \<Rightarrow> Err (input, c, PErr UnterminatedStringConstant)
      | Some k \<Rightarrow>
          if utf8_valid (take k input)
          then Ok (drop (k + 1) input, c, String (string_of_bytes (take k input)))
          else Err (input, c, PErr InvalidStringConstant))"

definition const_parser :: "aml_value parser" where
  "const_parser input c =
     and_then (take_parser input c) (\<lambda>(new_input, c, op).
       if op = BYTE_CONST then map_parser take_parser (\<lambda>value. Ok (Integer (ucast value))) new_input c
       else if op = WORD_CONST then map_parser take_u16 (\<lambda>value. Ok (Integer (ucast value))) new_input c
       else if op = DWORD_CONST then map_parser take_u32 (\<lambda>value. Ok (Integer (ucast value))) new_input c
       else if op = QWORD_CONST then map_parser take_u64 (\<lambda>value. Ok (Integer value)) new_input c
       else if op = STRING_PREFIX then string_parser new_input c
       else if op = ZERO_OP then Ok (new_input, c, zero)
       else if op = ONE_OP then Ok (new_input, c, one)
       else if op = ONES_OP then Ok (new_input, c, ones)
       else Err (input, c, PErr WrongParser))"

definition aml_interpreter_revision :: u64 where
  "aml_interpreter_revision = 0"

definition computational_data :: "aml_env \<Rightarrow> rec_parsers \<Rightarrow> aml_value parser" where
  "computational_data E R =
     comment_scope AllScopes
       (choice [map_parser (ext_opcode EXT_REVISION_OP) (\<lambda>_. Ok (Integer aml_interpreter_revision)),
                const_parser, def_buffer E R])"

definition data_object :: "aml_env \<Rightarrow> rec_parsers \<Rightarrow> aml_value parser" where
  "data_object E R = comment_scope AllScopes (choice [def_package E R, computational_data E R])"

definition data_ref_object :: "aml_env \<Rightarrow> rec_parsers \<Rightarrow> aml_value parser" where
  "data_ref_object E R = comment_scope AllScopes (choice [data_object E R])"

definition term_arg :: "aml_env \<Rightarrow> rec_parsers \<Rightarrow> aml_value parser" where
  "term_arg E R =
     comment_scope AllScopes
       (choice [data_object E R,
                map_with_context arg_obj (\<lambda>arg_num. try_act (current_arg arg_num)),
                map_with_context local_obj (\<lambda>local_num. try_act (local local_num)),
                expression_opcode E R])"

subsection \<open>Term lists\<close>

definition term_object :: "aml_env \<Rightarrow> rec_parsers \<Rightarrow> aml_value option parser" where
  "term_object E R =
     comment_scope AllScopes
       (choice [map_parser (namespace_modifier E R) (\<lambda>_. Ok None),
                map_parser (named_obj E R) (\<lambda>_. Ok None),
                map_parser (statement_opcode E R) (\<lambda>_. Ok None),
                map_parser (expression_opcode E R) (\<lambda>value. Ok (Some value))])"

text \<open>The loop over the terms, with at most as many rounds as its first argument.\<close>

fun term_list_loop :: "nat \<Rightarrow> aml_env \<Rightarrow> rec_parsers \<Rightarrow> pkg_length \<Rightarrow> unit parser" where
  "term_list_loop 0 E R list_length input c = OutOfFuel"
| "term_list_loop (Suc n) E R list_length input c =
     (if still_parsing list_length input then
        and_then (term_object E R input c) (\<lambda>(new_input, new_context, _).
          term_list_loop n E R list_length new_input new_context)
      else Ok (input, c, ()))"

definition term_list :: "aml_env \<Rightarrow> rec_parsers \<Rightarrow> pkg_length \<Rightarrow> unit parser" where
  "term_list E R list_length input c = term_list_loop (Suc (r_fuel R)) E R list_length input c"

end
