(* ===== verification/Aml_Interp.thy ===== *)
theory Aml_Interp
  imports Aml_Term
begin

section \<open>The interpreter\<close>

text \<open>
  \<open>interp E n\<close> ties the knot of the grammar: it gives the parsers that nest at most \<open>n\<close> deep.
  On top of it are the entry points of \<open>AmlContext\<close>: \<open>parse_table\<close>, \<open>invoke_method\<close> (in
  \<open>Aml_Expression\<close>) and \<open>initialize_objects\<close>.
\<close>

fun interp :: "aml_env \<Rightarrow> nat \<Rightarrow> rec_parsers" where
  "interp E 0 =
     \<lparr>r_fuel = 0, r_term_list = (\<lambda>_ _ _. OutOfFuel), r_term_arg = (\<lambda>_ _. OutOfFuel),
      r_data_ref_object = (\<lambda>_ _. OutOfFuel)\<rparr>"
| "interp E (Suc n) =
     \<lparr>r_fuel = Suc n, r_term_list = term_list E (interp E n), r_term_arg = term_arg E (interp E n),
      r_data_ref_object = data_ref_object E (interp E n)\<rparr>"

fun table_outcome :: "propagate + unit \<Rightarrow> unit act" where
  "table_outcome (Inr _) = ret ()"
| "table_outcome (Inl (PErr err)) = fail err"
| "table_outcome (Inl (PReturn _)) = fail MalformedStream"
| "table_outcome (Inl PBreak) = fail MalformedStream"
| "table_outcome (Inl PContinue) = fail MalformedStream"

definition parse_table :: "aml_env \<Rightarrow> nat \<Rightarrow> bytes \<Rightarrow> unit act" where
  "parse_table E n stream =
     (if length stream = 0 then fail UnexpectedEndOfStream
      else act_bind (attempt (run_term_list (interp E n) stream)) table_outcome)"

definition invoke :: "aml_env \<Rightarrow> nat \<Rightarrow> aml_name \<Rightarrow> args \<Rightarrow> aml_value act" where
  "invoke E n path a = invoke_method E (interp E n) path a"

text \<open>Invoking \<open>name\<close> below the level at \<open>path\<close>.\<close>

definition invoke_at :: "aml_env \<Rightarrow> nat \<Rightarrow> string \<Rightarrow> aml_name \<Rightarrow> aml_value act" where
  "invoke_at E n name path =
     act_bind (pure_res (unwrap (from_str name))) (\<lambda>relative.
     act_bind (pure_res (resolve relative path)) (\<lambda>full. invoke E n full args_empty))"

definition has_value :: "namespace_level \<Rightarrow> string \<Rightarrow> (bool, 'e) res" where
  "has_value level name =
     and_then (unwrap (name_seg_from_str name)) (\<lambda>seg.
       Ok (map_of (level_values level) seg \<noteq> None))"

definition device_status :: "aml_env \<Rightarrow> nat \<Rightarrow> aml_name \<Rightarrow> namespace_level \<Rightarrow> status_object act" where
  "device_status E n path level =
     act_bind (pure_res (has_value level ''_STA'')) (\<lambda>has_sta.
       if has_sta then
         act_bind (invoke_at E n ''_STA'' path) (\<lambda>v. pure_res (as_status E v))
       else ret status_object_default)"

definition visit_level :: "aml_env \<Rightarrow> nat \<Rightarrow> aml_name \<Rightarrow> namespace_level \<Rightarrow> bool act" where
  "visit_level E n path level =
     (case level_typ level of
        DeviceLevel \<Rightarrow>
          act_bind (device_status E n path level) (\<lambda>status.
          act_bind (pure_res (has_value level ''_INI'')) (\<lambda>has_ini.
          act_bind (if present status \<and> has_ini
                    then act_bind (invoke_at E n ''_INI'' path) (\<lambda>_. ret ()) else ret ()) (\<lambda>_.
            ret (present status \<or> functional status))))
      | ScopeLevel \<Rightarrow> ret True
      | ProcessorLevel \<Rightarrow> ret False
      | PowerResourceLevel \<Rightarrow> ret False
      | ThermalZoneLevel \<Rightarrow> ret False
      | MethodLocals \<Rightarrow> ret False)"

definition initialize_sb :: "aml_env \<Rightarrow> nat \<Rightarrow> unit act" where
  "initialize_sb E n =
     act_bind (pure_res (unwrap (from_str (CHR 0x5C # ''_SB._INI'')))) (\<lambda>path.
     act_bind (attempt (invoke E n path args_empty)) (\<lambda>out.
       case out of
         Inr _ \<Rightarrow> ret ()
       | Inl (ValueDoesNotExist _) \<Rightarrow> ret ()
       | Inl err \<Rightarrow> fail err))"

definition initialize_objects :: "aml_env \<Rightarrow> nat \<Rightarrow> unit act" where
  "initialize_objects E n =
     act_bind (initialize_sb E n) (\<lambda>_ c. traverse (ns c) (visit_level E n) c)"

end
