(* ===== verification/Aml_Logic.thy ===== *)
theory Aml_Logic
  imports Aml_Interp
begin

section \<open>A logic for actions and parsers\<close>

text \<open>
  The invariant of the context (\<open>ctx_ok\<close>): the namespace is well formed, every value stored in
  it and in the locals and arguments refers only to buffers and regions that exist, the scope
  is absolute. \<open>ctx_step\<close> is what every step keeps: objects and buffers are never taken away,
  the log only grows, the indentation never falls below where it was, the locks held are the
  same. \<open>asat\<close> and \<open>psat\<close> state that an action or a parser keeps both, on success and on
  failure, and that its result is valid; their rules follow the combinators.
\<close>

subsection \<open>Valid values\<close>

fun parent_ok :: "region_space \<Rightarrow> aml_name option \<Rightarrow> bool" where
  "parent_ok region None \<longleftrightarrow> region \<noteq> PciConfig"
| "parent_ok region (Some p) \<longleftrightarrow> is_absolute p"

fun value_ok :: "nat \<Rightarrow> aml_handle set \<Rightarrow> aml_value \<Rightarrow> bool" where
  "value_ok nb H (Buffer r) \<longleftrightarrow> r < nb"
| "value_ok nb H (BufferField r _ _) \<longleftrightarrow> r < nb"
| "value_ok nb H (Field h _ _ _) \<longleftrightarrow> h \<in> H"
| "value_ok nb H (OpRegion region _ _ p) \<longleftrightarrow> parent_ok region p"
| "value_ok nb H (Package vs) \<longleftrightarrow> (\<forall>v \<in> set vs. value_ok nb H v)"
| "value_ok nb H _ \<longleftrightarrow> True"

lemma value_ok_mono:
  "value_ok nb H v \<Longrightarrow> nb \<le> nb' \<Longrightarrow> H \<subseteq> H' \<Longrightarrow> value_ok nb' H' v"
  by (induction nb H v rule: value_ok.induct) auto

definition vok :: "aml_context \<Rightarrow> aml_value \<Rightarrow> bool" where
  "vok c v \<longleftrightarrow> value_ok (length (buffers c)) (dom (object_at (ns c))) v"

definition mctx_ok :: "aml_context \<Rightarrow> method_context \<Rightarrow> bool" where
  "mctx_ok c mc \<longleftrightarrow>
     length (locals mc) = 8 \<and> length (margs mc) = 7
     \<and> (\<forall>v. Some v \<in> set (locals mc) \<union> set (margs mc) \<longrightarrow> vok c v)"

definition ctx_ok :: "aml_context \<Rightarrow> bool" where
  "ctx_ok c \<longleftrightarrow>
     ns_wf (ns c)
     \<and> (\<forall>h v. object_at (ns c) h = Some v \<longrightarrow> vok c v)
     \<and> (\<forall>mc. method_ctx c = Some mc \<longrightarrow> mctx_ok c mc)
     \<and> is_absolute (current_scope c)"

definition ctx_le :: "aml_context \<Rightarrow> aml_context \<Rightarrow> bool" where
  "ctx_le c c' \<longleftrightarrow> ns_grows (ns c) (ns c') \<and> length (buffers c) \<le> length (buffers c')"

definition ctx_step :: "aml_context \<Rightarrow> aml_context \<Rightarrow> bool" where
  "ctx_step c c' \<longleftrightarrow>
     ctx_le c c' \<and> verbosity c' = verbosity c \<and> scope_indent c \<le> scope_indent c'
     \<and> prefix (io_log c) (io_log c') \<and> locked c' = locked c"

lemma ctx_le_refl [simp]: "ctx_le c c"
  by (simp add: ctx_le_def)

lemma ctx_le_trans: "ctx_le a b \<Longrightarrow> ctx_le b c \<Longrightarrow> ctx_le a c"
  by (auto simp: ctx_le_def intro: ns_grows_trans)

lemma ctx_step_refl [simp]: "ctx_step c c"
  by (simp add: ctx_step_def)

lemma ctx_step_trans: "ctx_step a b \<Longrightarrow> ctx_step b c \<Longrightarrow> ctx_step a c"
  by (auto simp: ctx_step_def intro: ctx_le_trans prefix_order.trans)

lemma ctx_step_le: "ctx_step c c' \<Longrightarrow> ctx_le c c'"
  by (simp add: ctx_step_def)

lemma vok_mono: "ctx_le c c' \<Longrightarrow> vok c v \<Longrightarrow> vok c' v"
  unfolding vok_def ctx_le_def ns_grows_def by (blast intro: value_ok_mono)

lemma mctx_ok_mono: "ctx_le c c' \<Longrightarrow> mctx_ok c mc \<Longrightarrow> mctx_ok c' mc"
  by (auto simp: mctx_ok_def intro: vok_mono)

lemma vok_simps [simp]:
  "vok c (Boolean b)" "vok c (Integer w)" "vok c (String s)" "vok c Device"
  "vok c (Method fl code)" "vok c (Processor a b' d)" "vok c (Mutex l)"
  "vok c (PowerResource x y)" "vok c ThermalZone"
  "vok c (Package vs) \<longleftrightarrow> (\<forall>v \<in> set vs. vok c v)"
  "vok c (Buffer r) \<longleftrightarrow> r < length (buffers c)"
  "vok c (BufferField r off len) \<longleftrightarrow> r < length (buffers c)"
  "vok c (Field h flags off len) \<longleftrightarrow> object_at (ns c) h \<noteq> None"
  "vok c (OpRegion region off len p) \<longleftrightarrow> parent_ok region p"
  by (auto simp: vok_def)

lemma vok_consts [simp]: "vok c zero" "vok c one" "vok c ones"
  by (simp_all add: zero_def one_def ones_def)

subsection \<open>Judgements\<close>

type_synonym 'a post = "aml_context \<Rightarrow> 'a \<Rightarrow> bool"

definition any :: "'a post" where
  "any c x \<longleftrightarrow> True"

definition pair_ok :: "'a post \<Rightarrow> 'b post \<Rightarrow> ('a \<times> 'b) post" where
  "pair_ok Q1 Q2 c x \<longleftrightarrow> Q1 c (fst x) \<and> Q2 c (snd x)"

definition list_ok :: "'a post \<Rightarrow> 'a list post" where
  "list_ok Q c xs \<longleftrightarrow> (\<forall>x \<in> set xs. Q c x)"

definition perr_ok :: "propagate post" where
  "perr_ok c e \<longleftrightarrow> (\<forall>v. e = PReturn v \<longrightarrow> vok c v)"

definition sum_ok :: "'a post \<Rightarrow> 'b post \<Rightarrow> ('a + 'b) post" where
  "sum_ok Q1 Q2 c x \<longleftrightarrow> (case x of Inl a \<Rightarrow> Q1 c a | Inr b \<Rightarrow> Q2 c b)"

definition stable :: "(aml_context \<Rightarrow> bool) \<Rightarrow> bool" where
  "stable P \<longleftrightarrow> (\<forall>c c'. ctx_le c c' \<longrightarrow> P c \<longrightarrow> P c')"

text \<open>What holds after a run that started in the context \<open>c\<close>.\<close>

fun act_post :: "aml_context \<Rightarrow> 'a post \<Rightarrow> 'e post \<Rightarrow> ('a \<times> aml_context, 'e \<times> aml_context) res \<Rightarrow> bool" where
  "act_post c Q QE (Ok (x, c')) \<longleftrightarrow> ctx_ok c' \<and> ctx_step c c' \<and> Q c' x"
| "act_post c Q QE (Err (e, c')) \<longleftrightarrow> ctx_ok c' \<and> ctx_step c c' \<and> QE c' e"
| "act_post c Q QE Panic \<longleftrightarrow> True"
| "act_post c Q QE Deadlock \<longleftrightarrow> True"
| "act_post c Q QE OutOfFuel \<longleftrightarrow> True"

fun parser_post :: "bytes \<Rightarrow> aml_context \<Rightarrow> 'r post
    \<Rightarrow> (bytes \<times> aml_context \<times> 'r, bytes \<times> aml_context \<times> propagate) res \<Rightarrow> bool" where
  "parser_post input c Q (Ok (rest, c', r)) \<longleftrightarrow>
     suffix rest input \<and> ctx_ok c' \<and> ctx_step c c' \<and> Q c' r"
| "parser_post input c Q (Err (rest, c', e)) \<longleftrightarrow>
     suffix rest input \<and> ctx_ok c' \<and> ctx_step c c' \<and> perr_ok c' e"
| "parser_post input c Q Panic \<longleftrightarrow> True"
| "parser_post input c Q Deadlock \<longleftrightarrow> True"
| "parser_post input c Q OutOfFuel \<longleftrightarrow> True"

definition asat :: "(aml_context \<Rightarrow> bool) \<Rightarrow> ('a, 'e) eact \<Rightarrow> 'a post \<Rightarrow> 'e post \<Rightarrow> bool" where
  "asat P m Q QE \<longleftrightarrow> (\<forall>c. ctx_ok c \<longrightarrow> P c \<longrightarrow> act_post c Q QE (m c))"

definition psat :: "(aml_context \<Rightarrow> bool) \<Rightarrow> 'r parser \<Rightarrow> 'r post \<Rightarrow> bool" where
  "psat P p Q \<longleftrightarrow> (\<forall>input c. ctx_ok c \<longrightarrow> P c \<longrightarrow> parser_post input c Q (p input c))"

named_theorems stable_intros
named_theorems asat_intros

lemma any_simp [simp]: "any c x"
  by (simp add: any_def)

lemma pair_ok_simp [simp]: "pair_ok Q1 Q2 c (a, b) \<longleftrightarrow> Q1 c a \<and> Q2 c b"
  by (simp add: pair_ok_def)

lemma perr_ok_simps [simp]:
  "perr_ok c (PErr e)" "perr_ok c PBreak" "perr_ok c PContinue"
  "perr_ok c (PReturn v) \<longleftrightarrow> vok c v"
  by (simp_all add: perr_ok_def)

lemma list_ok_simps [simp]:
  "list_ok Q c []" "list_ok Q c (x # xs) \<longleftrightarrow> Q c x \<and> list_ok Q c xs"
  by (simp_all add: list_ok_def)

lemma sum_ok_simps [simp]:
  "sum_ok Q1 Q2 c (Inl a) = Q1 c a" "sum_ok Q1 Q2 c (Inr b) = Q2 c b"
  by (simp_all add: sum_ok_def)

lemma stableD: "stable P \<Longrightarrow> ctx_step c c' \<Longrightarrow> P c \<Longrightarrow> P c'"
  by (auto simp: stable_def ctx_step_def)

lemma stable_rules [stable_intros]:
  "stable (\<lambda>c. True)"
  "stable (\<lambda>c. b)"
  "stable (\<lambda>c. any c x)"
  "stable (\<lambda>c. vok c v)"
  "stable (\<lambda>c. perr_ok c e)"
  "stable P \<Longrightarrow> stable P' \<Longrightarrow> stable (\<lambda>c. P c \<and> P' c)"
  by (auto simp: stable_def perr_ok_def intro: vok_mono)

lemma stable_pair_ok [stable_intros]:
  assumes "\<And>a. stable (\<lambda>c. Q1 c a)" "\<And>b. stable (\<lambda>c. Q2 c b)"
  shows "stable (\<lambda>c. pair_ok Q1 Q2 c x)"
  using assms by (auto simp: stable_def pair_ok_def)

lemma stable_list_ok [stable_intros]:
  assumes "\<And>a. stable (\<lambda>c. Q c a)"
  shows "stable (\<lambda>c. list_ok Q c xs)"
  using assms by (auto simp: stable_def list_ok_def)

lemma stable_sum_ok [stable_intros]:
  assumes "\<And>a. stable (\<lambda>c. Q1 c a)" "\<And>b. stable (\<lambda>c. Q2 c b)"
  shows "stable (\<lambda>c. sum_ok Q1 Q2 c x)"
  using assms by (auto simp: stable_def sum_ok_def split: sum.splits)

subsection \<open>Rules for actions\<close>

lemma asatI: "(\<And>c. ctx_ok c \<Longrightarrow> P c \<Longrightarrow> act_post c Q QE (m c)) \<Longrightarrow> asat P m Q QE"
  by (simp add: asat_def)

lemma asatD: "asat P m Q QE \<Longrightarrow> ctx_ok c \<Longrightarrow> P c \<Longrightarrow> act_post c Q QE (m c)"
  by (simp add: asat_def)

lemma act_post_weaken:
  assumes "act_post c Q QE r" "\<And>c x. Q c x \<Longrightarrow> Q' c x" "\<And>c e. QE c e \<Longrightarrow> QE' c e"
  shows "act_post c Q' QE' r"
  using assms by (cases "(c, Q, QE, r)" rule: act_post.cases) auto

lemma act_post_step:
  assumes "ctx_step c c1" "act_post c1 Q QE r"
  shows "act_post c Q QE r"
  using assms by (cases "(c, Q, QE, r)" rule: act_post.cases) (auto intro: ctx_step_trans)

lemma asat_weaken:
  assumes "asat P m Q QE"
    and "\<And>c. P' c \<Longrightarrow> P c" "\<And>c x. Q c x \<Longrightarrow> Q' c x" "\<And>c e. QE c e \<Longrightarrow> QE' c e"
  shows "asat P' m Q' QE'"
proof (rule asatI)
  fix c assume "ctx_ok c" "P' c"
  with assms(2) have "act_post c Q QE (m c)" by (intro asatD[OF assms(1)])
  then show "act_post c Q' QE' (m c)" by (rule act_post_weaken) (fact assms)+
qed

lemma asat_pre: "asat P m Q QE \<Longrightarrow> (\<And>c. P' c \<Longrightarrow> P c) \<Longrightarrow> asat P' m Q QE"
  by (erule asat_weaken) auto

lemma asat_ret [asat_intros]: "(\<And>c. ctx_ok c \<Longrightarrow> P c \<Longrightarrow> Q c x) \<Longrightarrow> asat P (ret x) Q QE"
  by (simp add: asat_def)

lemma asat_fail [asat_intros]: "(\<And>c. ctx_ok c \<Longrightarrow> P c \<Longrightarrow> QE c e) \<Longrightarrow> asat P (fail e) Q QE"
  by (simp add: asat_def)

lemma asat_reads:
  assumes "\<And>c x. ctx_ok c \<Longrightarrow> P c \<Longrightarrow> f c = Ok x \<Longrightarrow> Q c x"
    and "\<And>c e. ctx_ok c \<Longrightarrow> P c \<Longrightarrow> f c = Err e \<Longrightarrow> QE c e"
  shows "asat P (reads f) Q QE"
proof (rule asatI)
  fix c assume "ctx_ok c" "P c"
  then show "act_post c Q QE (reads f c)"
    using assms by (cases "f c") (auto simp: reads_def)
qed

lemma asat_bind [asat_intros]:
  assumes m: "asat P m Q1 QE" and P: "stable P"
    and f: "\<And>x. asat (\<lambda>c. P c \<and> Q1 c x) (f x) Q2 QE"
  shows "asat P (act_bind m f) Q2 QE"
proof (rule asatI)
  fix c assume c: "ctx_ok c" "P c"
  note post = asatD[OF m c]
  show "act_post c Q2 QE (act_bind m f c)"
  proof (cases "m c")
    case (Ok p)
    obtain x c1 where p: "p = (x, c1)" by (cases p)
    with post Ok have c1: "ctx_ok c1" "ctx_step c c1" "Q1 c1 x" by simp_all
    with P c have "P c1" by (blast intro: stableD)
    with c1 have "act_post c1 Q2 QE (f x c1)" by (intro asatD[OF f]) auto
    with c1 show ?thesis by (auto simp: act_bind_def Ok p intro: act_post_step)
  next
    case (Err p)
    then show ?thesis using post by (cases p) (simp add: act_bind_def)
  qed (simp_all add: act_bind_def)
qed

lemma asat_if [asat_intros]:
  "(b \<Longrightarrow> asat P m Q QE) \<Longrightarrow> (\<not> b \<Longrightarrow> asat P m' Q QE) \<Longrightarrow> asat P (if b then m else m') Q QE"
  by simp

lemma asat_case_prod [asat_intros]:
  "(\<And>a b. x = (a, b) \<Longrightarrow> asat P (f a b) Q QE) \<Longrightarrow> asat P (case x of (a, b) \<Rightarrow> f a b) Q QE"
  by (cases x) simp

text \<open>Nested patterns leave the matches applied to the components already split off.\<close>

lemma asat_case_prods [asat_intros]:
  "(\<And>a b. x = (a, b) \<Longrightarrow> asat P (f1 a b y) Q QE) \<Longrightarrow> asat P ((case x of (a, b) \<Rightarrow> f1 a b) y) Q QE"
  "(\<And>a b. x = (a, b) \<Longrightarrow> asat P (f2 a b y z) Q QE) \<Longrightarrow> asat P ((case x of (a, b) \<Rightarrow> f2 a b) y z) Q QE"
  "(\<And>a b. x = (a, b) \<Longrightarrow> asat P (f3 a b y z w) Q QE) \<Longrightarrow>
     asat P ((case x of (a, b) \<Rightarrow> f3 a b) y z w) Q QE"
  by (cases x; simp)+

lemma asat_try_act [asat_intros]:
  assumes "asat P m Q any"
  shows "asat P (try_act m) Q perr_ok"
proof (rule asatI)
  fix c assume "ctx_ok c" "P c"
  from asatD[OF assms this] show "act_post c Q perr_ok (try_act m c)"
    by (cases "m c") (auto simp: try_act_def split: prod.splits)
qed

lemma asat_attempt [asat_intros]:
  assumes "asat P m Q QE"
  shows "asat P (attempt m) (sum_ok QE Q) QF"
proof (rule asatI)
  fix c assume "ctx_ok c" "P c"
  from asatD[OF assms this] show "act_post c (sum_ok QE Q) QF (attempt m c)"
    by (cases "m c") (auto simp: attempt_def split: prod.splits)
qed

lemma asat_pure_ok: "(\<And>c x. ctx_ok c \<Longrightarrow> P c \<Longrightarrow> r = Ok x \<Longrightarrow> Q c x) \<Longrightarrow>
    (\<And>c e. ctx_ok c \<Longrightarrow> P c \<Longrightarrow> r = Err e \<Longrightarrow> QE c e) \<Longrightarrow> asat P (pure_res r) Q QE"
  by (rule asat_reads)

subsection \<open>Steps that change one part of the context\<close>

lemma ctx_ok_grow_ns:
  assumes "ctx_ok c" "ns_wf n" "ns_grows (ns c) n"
    "\<And>h v. object_at n h = Some v \<Longrightarrow> object_at (ns c) h = Some v \<or> vok (c\<lparr>ns := n\<rparr>) v"
  shows "ctx_ok (c\<lparr>ns := n\<rparr>)" "ctx_step c (c\<lparr>ns := n\<rparr>)"
proof -
  have le: "ctx_le c (c\<lparr>ns := n\<rparr>)" using assms by (simp add: ctx_le_def)
  with assms show "ctx_ok (c\<lparr>ns := n\<rparr>)"
    by (auto simp: ctx_ok_def intro: vok_mono mctx_ok_mono dest!: assms(4))
  from le show "ctx_step c (c\<lparr>ns := n\<rparr>)" by (simp add: ctx_step_def)
qed

lemma ctx_ok_cong:
  assumes "ns c' = ns c" "buffers c' = buffers c" "method_ctx c' = method_ctx c"
    "current_scope c' = current_scope c"
  shows "ctx_ok c' = ctx_ok c"
proof -
  have v: "vok c' = vok c" using assms by (simp add: vok_def fun_eq_iff)
  then have "mctx_ok c' = mctx_ok c" by (simp add: mctx_ok_def fun_eq_iff)
  with v assms show ?thesis by (simp add: ctx_ok_def)
qed

lemma asat_alloc_buffer [asat_intros]:
  "asat P (alloc_buffer bs) (\<lambda>c r. r < length (buffers c)) QE"
proof (rule asatI)
  fix c assume c: "ctx_ok c"
  let ?c = "c\<lparr>buffers := buffers c @ [bs]\<rparr>"
  have le: "ctx_le c ?c" by (simp add: ctx_le_def)
  with c have "ctx_ok ?c" by (auto simp: ctx_ok_def intro: vok_mono mctx_ok_mono)
  with le show "act_post c (\<lambda>c r. r < length (buffers c)) QE (alloc_buffer bs c)"
    by (simp add: alloc_buffer_def ctx_step_def)
qed

lemma asat_write_buffer [asat_intros]: "asat P (write_buffer r bs) any QE"
proof (rule asatI)
  fix c assume c: "ctx_ok c"
  let ?c = "c\<lparr>buffers := (buffers c)[r := bs]\<rparr>"
  have le: "ctx_le c ?c" by (simp add: ctx_le_def)
  with c have "ctx_ok ?c" by (auto simp: ctx_ok_def intro: vok_mono mctx_ok_mono)
  with le show "act_post c any QE (write_buffer r bs c)"
    by (simp add: write_buffer_def ctx_step_def)
qed

lemma asat_log_io [asat_intros]: "asat P (log_io E ev) any QE"
  by (auto intro!: asatI simp: log_io_def ctx_step_def ctx_le_def
      ctx_ok_cong[of "_\<lparr>io_log := _\<rparr>"])

lemma asat_handler_read [asat_intros]: "asat P (handler_read E f ev) any QE"
  by (auto intro!: asatI simp: handler_read_def ctx_step_def ctx_le_def
      ctx_ok_cong[of "_\<lparr>io_log := _\<rparr>"])

lemma asat_with_lock [asat_intros]:
  assumes f: "\<And>bs. asat P (f bs) Q QE" and P: "stable P"
    and Q: "\<And>x. stable (\<lambda>c. Q c x)" and QE: "\<And>e. stable (\<lambda>c. QE c e)"
  shows "asat P (with_lock r f) Q QE"
proof (rule asatI)
  fix c assume c: "ctx_ok c" "P c"
  let ?c = "c\<lparr>locked := r # locked c\<rparr>"
  have "ctx_le c ?c" by (simp add: ctx_le_def)
  with P c have "P ?c" by (simp add: stable_def)
  moreover have "ctx_ok ?c" using c ctx_ok_cong[of ?c c] by simp
  ultimately have post: "act_post ?c Q QE (f (buffer_data c r) ?c)" by (intro asatD[OF f])
  have unlocked: "ctx_ok (unlock r c') \<and> ctx_step c (unlock r c')
      \<and> (\<forall>x. Q c' x \<longrightarrow> Q (unlock r c') x) \<and> (\<forall>e. QE c' e \<longrightarrow> QE (unlock r c') e)"
    if "ctx_ok c'" "ctx_step ?c c'" for c'
  proof -
    have le: "ctx_le c' (unlock r c')" by (simp add: unlock_def ctx_le_def)
    have "ctx_ok (unlock r c')" using that ctx_ok_cong[of "unlock r c'" c'] by (simp add: unlock_def)
    moreover have "ctx_step c (unlock r c')"
      using that(2) by (auto simp: ctx_step_def ctx_le_def unlock_def)
    ultimately show ?thesis using Q QE le by (simp add: stable_def)
  qed
  show "act_post c Q QE (with_lock r f c)"
  proof (cases "r \<in> set (locked c)")
    case False
    with post unlocked show ?thesis
      by (cases "f (buffer_data c r) ?c") (auto simp: with_lock_def split: prod.splits)
  qed (simp add: with_lock_def)
qed

subsection \<open>Rules for parsers\<close>

lemma psatI:
  "(\<And>input c. ctx_ok c \<Longrightarrow> P c \<Longrightarrow> parser_post input c Q (p input c)) \<Longrightarrow> psat P p Q"
  by (simp add: psat_def)

lemma psatD: "psat P p Q \<Longrightarrow> ctx_ok c \<Longrightarrow> P c \<Longrightarrow> parser_post input c Q (p input c)"
  by (simp add: psat_def)

lemma parser_post_weaken:
  assumes "parser_post input c Q r" "\<And>c x. Q c x \<Longrightarrow> Q' c x"
  shows "parser_post input c Q' r"
  using assms by (cases "(input, c, Q, r)" rule: parser_post.cases) auto

lemma parser_post_step:
  assumes "ctx_step c c1" "suffix input1 input" "parser_post input1 c1 Q r"
  shows "parser_post input c Q r"
  using assms
  by (cases "(input, c, Q, r)" rule: parser_post.cases)
    (auto intro: ctx_step_trans suffix_order.trans)

lemma psat_weaken:
  assumes "psat P p Q" "\<And>c. P' c \<Longrightarrow> P c" "\<And>c x. Q c x \<Longrightarrow> Q' c x"
  shows "psat P' p Q'"
proof (rule psatI)
  fix input c assume "ctx_ok c" "P' c"
  with assms(2) have "parser_post input c Q (p input c)" by (intro psatD[OF assms(1)])
  then show "parser_post input c Q' (p input c)" by (rule parser_post_weaken) (fact assms)
qed

lemma psat_any: "psat P p Q \<Longrightarrow> psat P p any"
  by (erule psat_weaken) simp_all

lemma psat_case_prods [psat_intros]:
  "(\<And>a b. x = (a, b) \<Longrightarrow> psat P (g a b) Q) \<Longrightarrow> psat P (case x of (a, b) \<Rightarrow> g a b) Q"
  "(\<And>a b. x = (a, b) \<Longrightarrow> psat P (h a b y) Q) \<Longrightarrow> psat P ((case x of (a, b) \<Rightarrow> h a b) y) Q"
  by (cases x; simp)+

lemma psat_id_parser [psat_intros]: "psat P id_parser any"
  by (auto intro!: psatI simp: id_parser_def)

lemma suffix_Cons_self [simp]: "suffix xs (x # xs)"
  by (simp add: suffix_ConsI)

lemma psat_take_parser [psat_intros]: "psat P take_parser any"
  by (auto intro!: psatI simp: take_parser_def split: list.split)

lemma psat_take_words [psat_intros]:
  "psat P take_u16 any" "psat P take_u32 any" "psat P take_u64 any" "psat P (take_n n) any"
  by (auto intro!: psatI simp: take_u16_def take_u32_def take_u64_def take_n_def suffix_drop)

lemma psat_take_to_end [psat_intros]: "psat P (take_to_end_of_pkglength len) any"
  by (auto intro!: psatI simp: take_to_end_of_pkglength_def take_n_def suffix_drop split: option.split)

lemma psat_consume [psat_intros]: "psat P (consume f) any"
  by (auto intro!: psatI simp: consume_def split: list.split)

lemma psat_opcode [psat_intros]: "psat P (opcode op) any"
  by (auto intro!: psatI simp: opcode_def split: list.split)

text \<open>Continuing after a parser that has succeeded.\<close>

lemma parser_post_and_then:
  assumes "parser_post input c Q1 r"
    and "\<And>rest c' x. r = Ok (rest, c', x) \<Longrightarrow> ctx_ok c' \<Longrightarrow> ctx_step c c' \<Longrightarrow> suffix rest input \<Longrightarrow>
           Q1 c' x \<Longrightarrow> parser_post input c Q2 (f (rest, c', x))"
  shows "parser_post input c Q2 (and_then r f)"
  using assms by (cases "(input, c, Q1, r)" rule: parser_post.cases) auto

lemma psat_then [psat_intros]:
  assumes p1: "psat P p1 Q1" and p2: "psat P p2 Q2" and P: "stable P"
    and Q1: "\<And>a. stable (\<lambda>c. Q1 c a)"
  shows "psat P (then_parser p1 p2) (pair_ok Q1 Q2)"
proof (rule psatI)
  fix input c assume c: "ctx_ok c" "P c"
  show "parser_post input c (pair_ok Q1 Q2) (then_parser p1 p2 input c)"
    unfolding then_parser_def
  proof (rule parser_post_and_then[OF psatD[OF p1 c]], clarsimp)
    fix rest c1 a assume 1: "ctx_ok c1" "ctx_step c c1" "suffix rest input" "Q1 c1 a"
    with P c have "P c1" by (blast intro: stableD)
    with 1 have "parser_post rest c1 Q2 (p2 rest c1)" by (intro psatD[OF p2])
    then show "parser_post input c (pair_ok Q1 Q2)
        (and_then (p2 rest c1) (\<lambda>(final_input, c, b). Ok (final_input, c, a, b)))"
      using 1 Q1 by (cases "(rest, c1, Q2, p2 rest c1)" rule: parser_post.cases)
        (auto intro: ctx_step_trans suffix_order.trans stableD)
  qed
qed

lemma psat_feed [psat_intros]:
  assumes p: "psat P p Q1" and P: "stable P"
    and f: "\<And>x. psat (\<lambda>c. P c \<and> Q1 c x) (f x) Q2"
  shows "psat P (feed p f) Q2"
proof (rule psatI)
  fix input c assume c: "ctx_ok c" "P c"
  show "parser_post input c Q2 (feed p f input c)"
    unfolding feed_def
  proof (rule parser_post_and_then[OF psatD[OF p c]], clarsimp)
    fix rest c1 a assume 1: "ctx_ok c1" "ctx_step c c1" "suffix rest input" "Q1 c1 a"
    with P c have "P c1" by (blast intro: stableD)
    with 1 have "parser_post rest c1 Q2 (f a rest c1)" by (intro psatD[OF f]) auto
    with 1 show "parser_post input c Q2 (f a rest c1)" by (blast intro: parser_post_step)
  qed
qed

lemma psat_map [psat_intros]:
  assumes p: "psat P p Q1" and P: "stable P"
    and f: "\<And>x c y. ctx_ok c \<Longrightarrow> P c \<Longrightarrow> Q1 c x \<Longrightarrow> f x = Ok y \<Longrightarrow> Q2 c y"
    and e: "\<And>x c y. ctx_ok c \<Longrightarrow> P c \<Longrightarrow> Q1 c x \<Longrightarrow> f x = Err y \<Longrightarrow> perr_ok c y"
  shows "psat P (map_parser p f) Q2"
proof (rule psatI)
  fix input c assume c: "ctx_ok c" "P c"
  show "parser_post input c Q2 (map_parser p f input c)"
    unfolding map_parser_def
  proof (rule parser_post_and_then[OF psatD[OF p c]], clarsimp)
    fix rest c1 a assume 1: "ctx_ok c1" "ctx_step c c1" "suffix rest input" "Q1 c1 a"
    with P c have "P c1" by (blast intro: stableD)
    with 1 f e show "parser_post input c Q2
        (and_then (map_err (\<lambda>e. (input, c1, e)) (f a)) (\<lambda>x. Ok (rest, c1, x)))"
      by (cases "f a") auto
  qed
qed

lemma psat_map_with_context [psat_intros]:
  assumes p: "psat P p Q1" and P: "stable P"
    and f: "\<And>x. asat (\<lambda>c. P c \<and> Q1 c x) (f x) Q2 perr_ok"
  shows "psat P (map_with_context p f) Q2"
proof (rule psatI)
  fix input c assume c: "ctx_ok c" "P c"
  show "parser_post input c Q2 (map_with_context p f input c)"
    unfolding map_with_context_def
  proof (rule parser_post_and_then[OF psatD[OF p c]], clarsimp)
    fix rest c1 a assume 1: "ctx_ok c1" "ctx_step c c1" "suffix rest input" "Q1 c1 a"
    with P c have "P c1" by (blast intro: stableD)
    with 1 have "act_post c1 Q2 perr_ok (f a c1)" by (intro asatD[OF f]) auto
    with 1 show "parser_post input c Q2
        (and_then (map_err (\<lambda>(e, c). (input, c, e)) (f a c1)) (\<lambda>(x, c). Ok (rest, c, x)))"
      by (cases "(c1, Q2, perr_ok, f a c1)" rule: act_post.cases) (auto intro: ctx_step_trans)
  qed
qed

lemma psat_discard [psat_intros]:
  assumes p: "psat P p Q"
  shows "psat P (discard_result p) any"
proof (rule psatI)
  fix input c assume c: "ctx_ok c" "P c"
  show "parser_post input c any (discard_result p input c)"
    unfolding discard_result_def by (rule parser_post_and_then[OF psatD[OF p c]]) simp
qed

lemma psat_choice [psat_intros]:
  assumes "list_all (\<lambda>p. psat P p Q) ps" "stable P"
  shows "psat P (choice ps) Q"
  using assms(1)
proof (induction ps)
  case Nil
  show ?case by (rule psatI) simp
next
  case (Cons p ps)
  show ?case
  proof (rule psatI)
    fix input c assume c: "ctx_ok c" "P c"
    have post: "parser_post input c Q (p input c)" using Cons(2) by (auto intro: psatD c)
    have next_post: "parser_post input c Q (choice ps input c')" if "ctx_ok c'" "ctx_step c c'" for c'
    proof -
      have "P c'" using that c assms(2) by (blast intro: stableD)
      with that Cons have "parser_post input c' Q (choice ps input c')" by (auto intro: psatD)
      with that show ?thesis by (blast intro: parser_post_step)
    qed
    show "parser_post input c Q (choice (p # ps) input c)"
      using post next_post
      by (cases "(input, c, Q, p input c)" rule: parser_post.cases) auto
  qed
qed

text \<open>
  \<open>comment_scope\<close>: what the parser inside keeps, the indentation above all, is enough for the
  decrement at the end.
\<close>

lemma indent_in_Ok:
  "indent_in v c = Ok c' \<Longrightarrow>
   \<exists>k. c' = c\<lparr>scope_indent := scope_indent c + k\<rparr> \<and>
       k = (if verbosity_rank v \<le> verbosity_rank (verbosity c) then indent_per_scope else 0)"
  by (auto simp: indent_in_def split: if_splits)

lemma indent_out_after:
  assumes "indent_in v c = Ok c1" "ctx_step c1 c2"
  shows "\<exists>c3. indent_out v c2 = Ok c3 \<and> c3 = c2\<lparr>scope_indent := scope_indent c3\<rparr>
    \<and> scope_indent c \<le> scope_indent c3"
proof -
  obtain k where k: "c1 = c\<lparr>scope_indent := scope_indent c + k\<rparr>"
    "k = (if verbosity_rank v \<le> verbosity_rank (verbosity c) then indent_per_scope else 0)"
    using indent_in_Ok[OF assms(1)] by blast
  with assms(2) have "verbosity c2 = verbosity c" "scope_indent c + k \<le> scope_indent c2"
    by (auto simp: ctx_step_def)
  with k show ?thesis by (auto simp: indent_out_def)
qed

lemma ctx_ok_indent [simp]: "ctx_ok (c\<lparr>scope_indent := k\<rparr>) = ctx_ok c"
  by (rule ctx_ok_cong) simp_all

lemma psat_comment_scope [psat_intros]:
  assumes p: "psat P p Q" and P: "stable P" and Q: "\<And>x. stable (\<lambda>c. Q c x)"
  shows "psat P (comment_scope v p) Q"
proof (rule psatI)
  fix input c assume c: "ctx_ok c" "P c"
  show "parser_post input c Q (comment_scope v p input c)"
  proof (cases "indent_in v c :: (aml_context, bytes \<times> aml_context \<times> propagate) res")
    case (Ok c1)
    then obtain k where k: "c1 = c\<lparr>scope_indent := scope_indent c + k\<rparr>"
      using indent_in_Ok by blast
    then have "ctx_step c c1" by (auto simp: ctx_step_def ctx_le_def)
    with c P k have c1: "ctx_ok c1" "P c1" by (auto intro: stableD)
    have tail: "parser_post input c Q (and_then (indent_out v c2) (\<lambda>c. Ok (rest, c, r)))"
      if 2: "ctx_ok c2" "ctx_step c1 c2" "suffix rest input" "Q c2 r" for rest c2 r
    proof -
      obtain c3 where c3: "indent_out v c2 = (Ok c3 :: (aml_context, bytes \<times> aml_context \<times> propagate) res)"
        "c3 = c2\<lparr>scope_indent := scope_indent c3\<rparr>" "scope_indent c \<le> scope_indent c3"
        using indent_out_after[OF Ok 2(2)] by blast
      have le: "ctx_le c2 c3" by (subst c3(2)) (simp add: ctx_le_def)
      have "ctx_ok c3" by (subst c3(2)) (simp add: 2)
      moreover have "ctx_step c c3"
        using 2(2) \<open>ctx_step c c1\<close> c3(3)
        by (subst c3(2)) (auto simp: ctx_step_def k ctx_le_def)
      moreover have "Q c3 r" using Q le 2(4) by (auto simp: stable_def)
      ultimately show ?thesis using 2 c3(1) by simp
    qed
    have "parser_post input c Q (and_then (p input c1) (\<lambda>(new_input, c, r).
        and_then (indent_out v c) (\<lambda>c. Ok (new_input, c, r))))"
      using psatD[OF p c1, of input] tail \<open>ctx_step c c1\<close>
      by (cases "(input, c1, Q, p input c1)" rule: parser_post.cases) (auto intro: ctx_step_trans)
    then show ?thesis by (simp add: comment_scope_def Ok)
  qed (auto simp: comment_scope_def indent_in_def split: if_splits)
qed

end
