(* ===== verification/Aml_Safety.thy ===== *)
theory Aml_Safety
  imports Aml_Logic
begin

section \<open>The interpreter keeps its invariant\<close>

text \<open>
  Every operation of the interpreter keeps \<open>ctx_ok\<close> and \<open>ctx_step\<close>, by the rules of
  \<open>Aml_Logic\<close>, one lemma per operation.
\<close>

subsection \<open>Names stay absolute\<close>

lemma normalize_fold_absolute:
  "normalize_fold self name cs = Ok n \<Longrightarrow> is_absolute name \<Longrightarrow> is_absolute n"
proof (induction self name cs rule: normalize_fold.induct)
  case (2 self name seg cs)
  then show ?case by (cases name) auto
next
  case (3 self name cs)
  then show ?case by (cases name) auto
next
  case (4 self name cs)
  then obtain seg rest where "rev name = Segment seg # rest"
    by (auto split: list.split_asm name_component.split_asm)
  then have "name = rev rest @ [Segment seg]" by (simp add: rev_eq_Cons_iff)
  moreover from this 4(3) have "is_absolute (butlast name)" by (cases "rev rest") auto
  ultimately show ?case using 4 by auto
qed simp

lemma normalize_name_absolute:
  assumes "normalize_name n = Ok m" "is_absolute n"
  shows "is_absolute m"
proof (cases "is_normal n")
  case True
  with assms show ?thesis by (simp add: normalize_name_def)
next
  case False
  from assms(2) obtain rest where n: "n = Root # rest" by (cases n) auto
  with False assms(1) have "normalize_fold n [Root] rest = Ok m"
    by (simp add: normalize_name_def)
  then show ?thesis by (rule normalize_fold_absolute) simp
qed

lemma resolve_is_absolute:
  assumes "resolve n scope = Ok m"
  shows "is_absolute m"
proof (cases "is_absolute n")
  case True
  with assms show ?thesis by (simp add: resolve_def split: if_splits)
next
  case False
  with assms have "is_absolute scope" "normalize_name (scope @ n) = Ok m"
    by (auto simp: resolve_def split: if_splits)
  moreover from this have "is_absolute (scope @ n)" by (cases scope) auto
  ultimately show ?thesis by (blast intro: normalize_name_absolute)
qed

lemma parent_is_absolute:
  assumes "parent n = Ok p" "is_absolute n"
  shows "is_absolute p"
proof -
  from assms(1) obtain m where m: "normalize_name n = Ok m"
    and p: "(case rev m of [] \<Rightarrow> Err RootHasNoParent | Root # _ \<Rightarrow> Err RootHasNoParent
             | Segment _ # _ \<Rightarrow> Ok (butlast m) | Prefix # _ \<Rightarrow> Panic) = Ok p"
    by (auto simp: parent_def res_elims)
  obtain c rest where "rev m = c # rest" using p by (cases "rev m") auto
  moreover from this p obtain seg where "c = Segment seg" "p = butlast m" by (cases c) auto
  moreover from calculation have "m = rev rest @ [Segment seg]" by (simp add: rev_eq_Cons_iff)
  moreover have "is_absolute m" using m assms(2) by (rule normalize_name_absolute)
  ultimately show ?thesis by (cases "rev rest") auto
qed

subsection \<open>What a search finds exists\<close>

lemma get_level_handle:
  assumes "get_level_for_path s n = Ok (level, seg)" "map_of (level_values level) seg = Some h"
    "ns_wf s"
  shows "object_at s h \<noteq> None"
proof -
  from assms(1,2) have "get_handle s n = Ok h" by (simp add: get_handle_def)
  with assms(3) show ?thesis by (auto simp: ns_wf_def dest: get_handle_at)
qed

lemma search_here_exists:
  assumes "search_here s path scope = Ok (Some (n, h))" "ns_wf s"
  shows "object_at s h \<noteq> None \<and> is_absolute n"
proof -
  from assms(1) obtain m where m: "resolve path scope = Ok m"
    by (auto simp: search_here_def res_elims)
  with assms obtain level seg where "get_level_for_path s m = Ok (level, seg)"
    "map_of (level_values level) seg = Some h" "n = m"
    by (auto simp: search_here_def split: res.split_asm aml_error.split_asm)
  with m assms(2) show ?thesis by (auto dest: get_level_handle resolve_is_absolute)
qed

lemma search_up_exists:
  "search_up s path scope = Ok (n, h) \<Longrightarrow> ns_wf s \<Longrightarrow> object_at s h \<noteq> None \<and> is_absolute n"
proof (induction s path scope rule: search_up.induct)
  case (1 s path scope)
  from 1(2) obtain found where found: "search_here s path scope = Ok found"
    by (subst (asm) search_up.simps) (auto simp: res_elims)
  show ?case
  proof (cases found)
    case None
    from 1(2) found None obtain p where "parent scope = Ok p" "search_up s path p = Ok (n, h)"
      by (subst (asm) search_up.simps) (auto split: res.split_asm aml_error.split_asm)
    with 1(1)[OF found None] 1(3) show ?thesis by blast
  next
    case (Some r)
    from 1(2) found Some have "r = (n, h)" by (subst (asm) search_up.simps) simp
    with found Some 1(3) show ?thesis using search_here_exists[of s path scope n h] by simp
  qed
qed

lemma search_exists:
  assumes "search s path scope = Ok (n, h)" "ns_wf s"
  shows "object_at s h \<noteq> None \<and> is_absolute n"
proof (cases "search_rules_apply path")
  case True
  with assms show ?thesis by (auto simp: search_def split: if_splits dest: search_up_exists)
next
  case False
  with assms obtain level seg where r: "resolve path scope = Ok n"
    "get_level_for_path s n = Ok (level, seg)" "map_of (level_values level) seg = Some h"
    by (auto simp: search_def res_elims)
  with assms(2) show ?thesis by (auto dest: get_level_handle resolve_is_absolute)
qed

subsection \<open>Operations on the namespace of the context\<close>

definition abs_ok :: "aml_name post" where
  "abs_ok c n \<longleftrightarrow> is_absolute n"

definition handle_ok :: "aml_handle post" where
  "handle_ok c h \<longleftrightarrow> object_at (ns c) h \<noteq> None"

definition opt_ok :: "'a post \<Rightarrow> 'a option post" where
  "opt_ok Q c x \<longleftrightarrow> (\<forall>y. x = Some y \<longrightarrow> Q c y)"

lemma stable_more [stable_intros]:
  "stable (\<lambda>c. abs_ok c n)" "stable (\<lambda>c. handle_ok c h)" "stable (\<lambda>c. mctx_ok c mc)"
  "stable (\<lambda>c. r < length (buffers c))"
  by (auto simp: stable_def abs_ok_def handle_ok_def ctx_le_def ns_grows_def
      intro: mctx_ok_mono[unfolded ctx_le_def ns_grows_def])

lemma stable_opt_ok [stable_intros]:
  "(\<And>y. stable (\<lambda>c. Q c y)) \<Longrightarrow> stable (\<lambda>c. opt_ok Q c x)"
  by (auto simp: stable_def opt_ok_def)

lemma asat_on_ns:
  assumes f: "\<And>c. ctx_ok c \<Longrightarrow> P c \<Longrightarrow>
      post_state (\<lambda>n. ns_wf n \<and> ns_grows (ns c) n \<and>
        (\<forall>h w. object_at n h = Some w \<longrightarrow> object_at (ns c) h = Some w \<or> w = v)) (f (ns c))"
    and v: "\<And>c. P c \<Longrightarrow> vok c v"
  shows "asat P (on_ns f) any any"
proof (rule asatI)
  fix c assume c: "ctx_ok c" "P c"
  have *: "ctx_ok (c\<lparr>ns := n\<rparr>) \<and> ctx_step c (c\<lparr>ns := n\<rparr>)"
    if n: "ns_wf n" "ns_grows (ns c) n"
      "\<forall>h w. object_at n h = Some w \<longrightarrow> object_at (ns c) h = Some w \<or> w = v" for n
  proof -
    have "vok (c\<lparr>ns := n\<rparr>) v"
      using n(2) v[OF c(2)] by (auto simp: ctx_le_def intro: vok_mono[rotated])
    with n(3) have "object_at n h = Some w \<Longrightarrow> object_at (ns c) h = Some w \<or> vok (c\<lparr>ns := n\<rparr>) w" for h w
      by blast
    with ctx_ok_grow_ns[OF c(1) n(1,2)] show ?thesis by blast
  qed
  from f[OF c] show "act_post c any any (on_ns f c)"
    using * by (cases "f (ns c)") (auto simp: on_ns_def)
qed

lemma post_state_conj:
  "post_state P r \<Longrightarrow> post_state Q r \<Longrightarrow> post_state (\<lambda>s. P s \<and> Q s) r"
  by (auto simp: post_state_def)

lemma post_state_imp: "post_state P r \<Longrightarrow> (\<And>s. P s \<Longrightarrow> Q s) \<Longrightarrow> post_state Q r"
  by (auto simp: post_state_def)

lemma level_ops_objects:
  "post_state (\<lambda>n. object_map n = object_map s) (add_level s path typ)"
  "post_state (\<lambda>n. object_map n = object_map s) (remove_level s path)"
  unfolding add_level_def remove_level_def
  by (auto intro!: post_state_map_err split: option.splits)

lemma add_value_objects:
  "post_state (\<lambda>n. object_at n = object_at s \<or> object_at n = (object_at s)(next_handle s \<mapsto> v))
     (add_value s path v)"
  unfolding add_value_def Let_def handle_increment_def
  by (auto intro!: post_state_map_err split: option.splits)

lemma add_value_at_objects:
  "post_state (\<lambda>n. object_at n = object_at s \<or> object_at n = (object_at s)(next_handle s \<mapsto> v))
     (add_value_at_resolved_path s path scope v)"
  unfolding add_value_at_resolved_path_def by (auto intro!: post_state_map_err add_value_objects)

lemma asat_add_level [asat_intros]: "asat P (on_ns (\<lambda>s. add_level s path typ)) any any"
  by (rule asat_on_ns[where v = "Integer 0"])
    (auto simp: ctx_ok_def intro: post_state_imp[OF post_state_conj[OF add_level_wf level_ops_objects(1)]])

lemma asat_remove_level [asat_intros]: "asat P (on_ns (\<lambda>s. remove_level s path)) any any"
  by (rule asat_on_ns[where v = "Integer 0"])
    (auto simp: ctx_ok_def intro: post_state_imp[OF post_state_conj[OF remove_level_wf level_ops_objects(2)]])

lemma asat_add_value [asat_intros]:
  assumes "\<And>c. P c \<Longrightarrow> vok c v"
  shows "asat P (on_ns (\<lambda>s. add_value s path v)) any any"
  using assms
  by (rule asat_on_ns[where v = v, rotated])
    (auto simp: ctx_ok_def split: if_splits
      intro!: post_state_imp[OF post_state_conj[OF add_value_wf add_value_objects]])

lemma asat_add_value_here [asat_intros]:
  assumes "\<And>c. P c \<Longrightarrow> vok c v"
  shows "asat P (add_value_here name v) any perr_ok"
  unfolding add_value_here_def
proof (rule asat_try_act, rule asatI)
  fix c assume c: "ctx_ok c" "P c"
  have "asat P (on_ns (\<lambda>s. add_value_at_resolved_path s name (current_scope c) v)) any any"
    using assms
    by (rule asat_on_ns[where v = v, rotated])
      (auto simp: ctx_ok_def split: if_splits
        intro!: post_state_imp[OF post_state_conj[OF add_value_at_resolved_path_wf add_value_at_objects]])
  from asatD[OF this c]
  show "act_post c any any (on_ns (\<lambda>s. add_value_at_resolved_path s name (current_scope c) v) c)" .
qed

lemma asat_set_object [asat_intros]:
  assumes "\<And>c. P c \<Longrightarrow> vok c v"
  shows "asat P (on_ns (\<lambda>s. in_state s (ns_get_mut s h v))) any any"
  using assms
proof (rule asat_on_ns[where v = v, rotated])
  fix c assume c: "ctx_ok c"
  show "post_state (\<lambda>n. ns_wf n \<and> ns_grows (ns c) n \<and>
      (\<forall>h w. object_at n h = Some w \<longrightarrow> object_at (ns c) h = Some w \<or> w = v))
      (in_state (ns c) (ns_get_mut (ns c) h v))"
  proof (rule post_state_in_state, goal_cases)
    case 1
    then show ?case using c by (simp add: ctx_ok_def)
  next
    case (2 n)
    then have "object_at n = (object_at (ns c))(h \<mapsto> v)" by (auto simp: ns_get_mut_def res_elims)
    then show ?case using 2 c ns_get_mut_wf[OF _ 2] by (auto simp: ctx_ok_def split: if_splits)
  qed
qed

lemma asat_ns_get [asat_intros]:
  "asat P (reads (\<lambda>c. ns_get (ns c) h)) vok QE"
  "asat P (reads (\<lambda>c. unwrap (ns_get (ns c) h))) vok QE"
  by (rule asat_reads; auto simp: ns_get_def res_elims ctx_ok_def)+

end
