(* ===== verification/Aml_Safety_Value.thy ===== *)
theory Aml_Safety_Value
  imports Aml_Safety
begin

section \<open>Values keep the invariant\<close>

text \<open>
  The conversions, accesses and stores of \<open>Aml_Value\<close> keep the invariant. What the host's
  native methods do to the context is outside the sources: that they keep the invariant is the
  hypothesis \<open>host_ok\<close>.
\<close>

declare any_simp [simp del, asat_intros] ret_apply [simp del] fail_apply [simp del]

lemma asat_fail_any [asat_intros]: "asat P (fail e) Q any"
  by (rule asat_fail) (rule any_simp)

definition host_ok :: "aml_env \<Rightarrow> bool" where
  "host_ok E \<longleftrightarrow> (\<forall>k. asat (\<lambda>_. True) (host_native E k) vok any)"

lemma asat_pure_any [asat_intros]: "asat P (pure_res r :: 'a act) any any"
  by (rule asat_reads) (simp_all add: any_simp)

lemma asat_stops [asat_intros]:
  "asat P (pure_res Panic) Q QE" "asat P (pure_res Deadlock) Q QE" "asat P (pure_res OutOfFuel) Q QE"
  by (rule asat_reads; simp)+

lemma asat_Let [asat_intros]: "asat P (f x) Q QE \<Longrightarrow> asat P (let y = x in f y) Q QE"
  by simp

lemma asat_reads_any [asat_intros]: "asat P (reads f :: 'a act) any any"
  by (rule asat_reads) (simp_all add: any_simp)

lemma asat_search [asat_intros]:
  "asat P (reads (\<lambda>c. search (ns c) path (current_scope c))) (pair_ok abs_ok handle_ok) any"
  "asat P (reads (\<lambda>c. search (ns c) path scope)) (pair_ok abs_ok handle_ok) any"
  by (rule asat_reads; force simp: any_simp abs_ok_def handle_ok_def ctx_ok_def pair_ok_def dest: search_exists)+

lemma asat_search_get [asat_intros]:
  "asat P (reads (\<lambda>c. and_then (search (ns c) path (current_scope c))
     (\<lambda>(_, handle). ns_get (ns c) handle))) vok any"
  "asat P (reads (\<lambda>c. and_then (search (ns c) path scope)
     (\<lambda>(_, handle). ns_get (ns c) handle))) vok any"
  by (rule asat_reads; auto simp: any_simp ns_get_def res_elims ctx_ok_def)+

subsection \<open>Regions and fields\<close>

text \<open>A conversion to integers that keeps the invariant on valid values.\<close>

definition asint_ok :: "(aml_value \<Rightarrow> u64 act) \<Rightarrow> bool" where
  "asint_ok asint \<longleftrightarrow> (\<forall>v. asat (\<lambda>c. vok c v) (asint v) any any)"

lemma asat_asint [asat_intros]:
  "asint_ok asint \<Longrightarrow> (\<And>c. P c \<Longrightarrow> vok c v) \<Longrightarrow> asat P (asint v) any any"
  unfolding asint_ok_def by (blast intro: asat_pre)

lemma asat_pci_optional [asat_intros]:
  assumes "asint_ok asint" "stable P"
  shows "asat P (pci_optional asint conv name dev) any any"
  unfolding pci_optional_def
proof (rule asat_bind[OF asat_pure_any assms(2)], rule asatI)
  fix n :: aml_name and c assume c: "ctx_ok c" "P c \<and> any c n"
  have "asat P (act_bind (reads (\<lambda>c. ns_get (ns c) handle)) (\<lambda>v.
          act_bind (asint v) (\<lambda>i. pure_res (conv i)))) any any" for handle
    by (rule asat_intros stable_intros assms | simp)+
  from asatD[OF this c(1)] c show "act_post c any any
      (case search (ns c) n dev of
         Ok (_, handle) \<Rightarrow> act_bind (reads (\<lambda>c. ns_get (ns c) handle)) (\<lambda>v.
           act_bind (asint v) (\<lambda>i. pure_res (conv i))) c
       | Err (ValueDoesNotExist _) \<Rightarrow> Ok (0, c) | Err e \<Rightarrow> Err (e, c)
       | Panic \<Rightarrow> Panic | Deadlock \<Rightarrow> Deadlock | OutOfFuel \<Rightarrow> OutOfFuel)"
    by (simp add: any_simp split: res.splits aml_error.splits)
qed

lemma asat_pci_address [asat_intros]:
  assumes "asint_ok asint" "stable P"
  shows "asat P (pci_address E asint dev base off) any any"
  unfolding pci_address_def
  by (rule asat_intros stable_intros assms | simp)+

lemma asat_read_region [asat_intros]:
  assumes "asint_ok asint" "stable P"
  shows "asat P (read_region E asint h off len) any any"
  unfolding read_region_def
  apply (rule asat_bind, rule asat_intros, rule assms)
  subgoal for v
    by (cases v rule: maximum_access_size.cases; simp)
      (rule asat_intros stable_intros assms | simp)+
  done

lemma asat_write_region [asat_intros]:
  assumes "asint_ok asint" "stable P"
  shows "asat P (write_region E asint h off len w) any any"
  unfolding write_region_def
  apply (rule asat_bind, rule asat_intros, rule assms)
  subgoal for v
    by (cases v rule: maximum_access_size.cases; simp)
      (rule asat_intros stable_intros assms | simp)+
  done

lemma asat_field_access_size [asat_intros]:
  "stable P \<Longrightarrow> asat P (field_access_size E h flags len) any any"
  unfolding field_access_size_def by (rule asat_intros stable_intros | simp)+

lemma asat_read_field [asat_intros]:
  assumes "asint_ok asint" "stable P"
  shows "asat P (read_field E asint v) vok any"
proof (cases v)
  case (Field h flags off len)
  then show ?thesis
    by (simp add: read_field_def) (rule asat_intros stable_intros assms | simp)+
qed (simp add: read_field_def; rule asat_fail_any)+

lemma asat_update_base:
  assumes "asint_ok asint" "stable P"
  shows "asat P (case rule of
      Preserve \<Rightarrow> act_bind (read_field E asint v) asint
    | WriteAsOnes \<Rightarrow> ret (- 1) | WriteAsZeros \<Rightarrow> ret 0) any any"
  using assms
  by (cases rule; simp) (rule asat_intros stable_intros | simp)+

lemma asat_write_field [asat_intros]:
  assumes "asint_ok asint" "stable P" "\<And>c. P c \<Longrightarrow> vok c value"
  shows "asat P (write_field E asint v value) any any"
proof (cases v)
  case (Field h flags off len)
  then show ?thesis
    by (simp add: write_field_def)
      (rule asat_update_base asat_intros stable_intros assms | simp add: assms)+
qed (simp add: write_field_def; rule asat_fail_any)+

subsection \<open>Buffer fields and conversions\<close>

lemma asat_new_buffer [asat_intros]: "stable P \<Longrightarrow> asat P (new_buffer bs) vok QE"
  unfolding new_buffer_def by (rule asat_intros stable_intros | simp)+

lemma asat_read_buffer_field [asat_intros]:
  assumes "stable P"
  shows "asat P (read_buffer_field K v) vok any"
proof (cases v)
  case (BufferField r off len)
  then show ?thesis
    by (simp add: read_buffer_field_def Let_def)
      (rule asat_intros stable_intros assms | simp)+
qed (simp add: read_buffer_field_def; rule asat_fail_any)+

lemma asat_write_buffer_field [asat_intros]:
  assumes "stable P"
  shows "asat P (write_buffer_field K v value) any any"
proof (cases v)
  case (BufferField r off len)
  then show ?thesis
    by (cases "value"; simp add: write_buffer_field_def)
      (rule asat_intros stable_intros assms | simp)+
qed (simp add: write_buffer_field_def; rule asat_fail_any)+

lemma asint_ok_as_integer: "asint_ok (as_integer E n)"
proof (induction n)
  case 0
  then show ?case unfolding asint_ok_def as_integer.simps by (blast intro: asat_pure_any)
next
  case (Suc n)
  have "asat P (as_integer E (Suc n) v) any any" if "stable P" for P v
    by (cases v; simp) (rule conjI impI asat_intros stable_intros Suc that | simp)+
  then show ?case by (auto simp: asint_ok_def intro: stable_intros)
qed

lemmas asat_as_integer [asat_intros] = asat_asint[OF asint_ok_as_integer]

lemma asat_as_buffer [asat_intros]:
  assumes "\<And>c. P c \<Longrightarrow> vok c v" "stable P"
  shows "asat P (as_buffer E n v) (\<lambda>c r. r < length (buffers c)) any"
  using assms
proof (induction n arbitrary: P v)
  case 0
  show ?case unfolding as_buffer.simps by (rule asat_stops)
next
  case (Suc n)
  note rules = asat_intros stable_intros asint_ok_as_integer Suc.IH Suc.prems(2)
  show ?case
  proof (cases v)
    case (Buffer r)
    then show ?thesis using Suc.prems(1) by simp (rule asat_ret, simp)
  next
    case (Field h flags off len)
    then show ?thesis by simp (rule rules | simp)+
  next
    case (BufferField r off len)
    then show ?thesis by simp (rule rules | simp)+
  qed (simp; rule asat_fail_any)+
qed

lemma asat_as_string_value [asat_intros]:
  assumes "stable P"
  shows "asat P (as_string_value E n v) any any"
  using assms
proof (induction n arbitrary: P v)
  case 0
  show ?case unfolding as_string_value.simps by (rule asat_stops)
next
  case (Suc n)
  show ?case
    by (cases v; simp)
      (rule Suc.IH asat_intros stable_intros asint_ok_as_integer Suc.prems | simp)+
qed

lemma asat_as_type [asat_intros]:
  assumes "\<And>c. P c \<Longrightarrow> vok c v" "stable P"
  shows "asat P (as_type E n v desired) vok any"
proof (cases "type_of v = desired")
  case True
  with assms show ?thesis by (simp add: as_type_def asat_ret)
next
  case False
  then show ?thesis
    by (cases desired; simp add: as_type_def)
      (rule asat_intros stable_intros assms | assumption | simp)+
qed

lemma asat_value_cmp [asat_intros]:
  assumes "stable P" "\<And>c. P c \<Longrightarrow> vok c v" "\<And>c. P c \<Longrightarrow> vok c other"
  shows "asat P (value_cmp E n v other) any any"
  unfolding value_cmp_def
proof (rule asat_bind[where ?Q1.0 = vok])
  show "asat P (if type_of v = FieldUnitType then read_field E (as_integer E n) v else ret v) vok any"
    by (rule asat_intros asint_ok_as_integer assms | simp add: assms)+
next
  fix x
  show "asat (\<lambda>c. P c \<and> vok c x)
      (case type_of x of
         IntegerType \<Rightarrow> act_bind (as_integer E n v) (\<lambda>a. act_bind (as_integer E n other) (\<lambda>b. ret (cmp_ord a b)))
       | BufferType \<Rightarrow> act_bind (as_buffer E n v) (\<lambda>r. with_lock r (\<lambda>a.
           act_bind (as_buffer E n other) (\<lambda>r'. with_lock r' (\<lambda>b. ret (cmp_lex a b)))))
       | StringType \<Rightarrow> act_bind (as_string_value E n v) (\<lambda>a.
           act_bind (as_string_value E n other) (\<lambda>b. ret (cmp_lex (bytes_of_string a) (bytes_of_string b))))
       | typ \<Rightarrow> fail (TypeCannotBeCompared typ)) any any"
    by (cases "type_of x"; simp)
      (rule asat_intros stable_intros asint_ok_as_integer assms | simp add: assms)+
qed (rule assms)

subsection \<open>Targets and native methods\<close>

lemma args_arg_ok:
  assumes "args_arg a k = Ok v"
  shows "Some v \<in> set a"
  using assms by (auto simp: args_arg_def res_elims split: if_splits) (metis nth_mem)

lemma asat_arg [asat_intros]: "asat P (current_arg k) vok any"
  unfolding current_arg_def
  by (rule asat_reads)
    (auto simp: res_elims ctx_ok_def mctx_ok_def any_simp dest!: args_arg_ok)

lemma asat_local [asat_intros]: "asat P (local k) vok any"
  unfolding local_def
proof (rule asat_reads)
  fix c v assume c: "ctx_ok c"
  assume "(case method_ctx c of None \<Rightarrow> Err NotExecutingControlMethod
     | Some mc \<Rightarrow> if k > 7 then Err (InvalidLocalAccess k)
         else if unat k < length (locals mc) then ok_or (InvalidLocalAccess k) (locals mc ! unat k)
         else Panic) = Ok v"
  then obtain mc where "method_ctx c = Some mc" "unat k < length (locals mc)" "locals mc ! unat k = Some v"
    by (auto simp: res_elims split: option.split_asm if_splits)
  with c show "vok c v" by (auto simp: ctx_ok_def mctx_ok_def) (metis nth_mem)
qed (rule any_simp)

lemma asat_read_target [asat_intros]: "asat P (read_target t) vok any"
  unfolding read_target_def by (cases t; simp) (rule asat_intros)+

lemma asat_set_method_ctx [asat_intros]:
  assumes "\<And>c. P c \<Longrightarrow> mctx_ok c mc"
  shows "asat P (set_method_ctx mc) any QE"
proof (rule asatI)
  fix c assume c: "ctx_ok c" "P c"
  let ?c = "c\<lparr>method_ctx := Some mc\<rparr>"
  have le: "ctx_le c ?c" by (simp add: ctx_le_def)
  have "mctx_ok c mc" using assms c(2) by blast
  with le have "mctx_ok ?c mc" by (rule mctx_ok_mono)
  with le c(1) have "ctx_ok ?c" by (auto simp: ctx_ok_def intro: vok_mono)
  with le show "act_post c any QE (set_method_ctx mc c)"
    by (simp add: set_method_ctx_def ctx_step_def any_simp)
qed

lemma asat_method_ctx [asat_intros]:
  "asat P (reads (\<lambda>c. ok_or NotExecutingControlMethod (method_ctx c))) mctx_ok any"
  by (rule asat_reads) (auto simp: res_elims ctx_ok_def any_simp)

lemma in_set_update: "Some w \<in> set (xs[k := Some v]) \<Longrightarrow> w = v \<or> Some w \<in> set xs"
  using set_update_subset_insert[of xs k "Some v"] by auto

lemma mctx_ok_store_arg:
  assumes "mctx_ok c mc" "vok c v" "args_store_arg (margs mc) k v = Ok a"
  shows "mctx_ok c (mc\<lparr>margs := a\<rparr>)"
  using assms by (auto simp: mctx_ok_def args_store_arg_def split: if_splits dest!: in_set_update)

lemma mctx_ok_store_local:
  assumes "mctx_ok c mc" "vok c v"
  shows "mctx_ok c (mc\<lparr>locals := (locals mc)[k := Some v]\<rparr>)"
  using assms by (auto simp: mctx_ok_def dest!: in_set_update)

lemma asat_store_name [asat_intros]:
  assumes "stable P" "\<And>c. P c \<Longrightarrow> vok c v"
  shows "asat P (store_name E n path v) vok any"
  unfolding store_name_def
  apply (rule asat_bind, rule asat_intros, rule assms, rule asat_case_prod)
  apply (rule asat_bind, rule asat_intros, (rule stable_intros assms)+)
  subgoal for x a b old
    by (cases "type_of old"; simp)
      (rule asat_intros stable_intros asint_ok_as_integer assms | simp add: assms)+
  done

lemma asat_store_arg:
  assumes "stable P" "\<And>c. P c \<Longrightarrow> vok c v"
  shows "asat P
     (act_bind (reads (\<lambda>c. ok_or NotExecutingControlMethod (method_ctx c))) (\<lambda>mc.
      act_bind (pure_res (args_store_arg (margs mc) k v)) (\<lambda>a.
      act_bind (set_method_ctx (mc\<lparr>margs := a\<rparr>)) (\<lambda>_. ret v)))) vok any"
proof (rule asat_bind[OF asat_method_ctx assms(1)])
  fix mc
  show "asat (\<lambda>c. P c \<and> mctx_ok c mc)
     (act_bind (pure_res (args_store_arg (margs mc) k v)) (\<lambda>a.
      act_bind (set_method_ctx (mc\<lparr>margs := a\<rparr>)) (\<lambda>_. ret v))) vok any"
    by (rule asat_bind[where ?Q1.0 = "\<lambda>c a. args_store_arg (margs mc) k v = Ok a"])
      (rule asat_reads asat_intros stable_intros assms
        | simp add: any_simp assms | blast intro: mctx_ok_store_arg assms)+
qed

lemma asat_store [asat_intros]:
  assumes "stable P" "\<And>c. P c \<Longrightarrow> vok c v"
  shows "asat P (store E n t v) vok any"
proof (cases t)
  case (ArgTarget k)
  then show ?thesis using asat_store_arg[OF assms] by (simp add: store_def)
next
  case (LocalTarget k)
  then show ?thesis
    by (simp add: store_def)
      (rule asat_intros stable_intros assms | simp add: assms | blast intro: mctx_ok_store_local assms)+
qed (simp add: store_def; (rule asat_intros stable_intros assms | simp add: assms)+)+

lemma asat_osi_method [asat_intros]: "stable P \<Longrightarrow> asat P (osi_method E n) vok any"
  unfolding osi_method_def by (rule asat_intros stable_intros | simp)+

lemma asat_run_native [asat_intros]:
  assumes "host_ok E" "stable P"
  shows "asat P (run_native E n f) vok any"
proof (cases f)
  case OsiMethod
  with assms show ?thesis by (simp add: run_native_def asat_osi_method)
next
  case (HostNative k)
  with assms show ?thesis
    by (auto simp: run_native_def host_ok_def intro: asat_pre)
qed

end
