(* ===== verification/Aml_Safety_Parse.thy ===== *)
theory Aml_Safety_Parse
  imports Aml_Safety_Value
begin

section \<open>Parsers keep the invariant\<close>

text \<open>
  One lemma per parser of the grammar. Those that call the parsers of the record \<open>R\<close> assume
  that these keep the invariant (\<open>rec_ok R\<close>); \<open>interp_ok\<close> closes the cycle by induction on
  the depth.
\<close>

subsection \<open>Names and package lengths\<close>

lemma list_all_psat [psat_intros]:
  "list_all (\<lambda>p. psat P p Q) []"
  "psat P p Q \<Longrightarrow> list_all (\<lambda>p. psat P p Q) ps \<Longrightarrow> list_all (\<lambda>p. psat P p Q) (p # ps)"
  by simp_all

lemma psat_ext_opcode [psat_intros]: "stable P \<Longrightarrow> psat P (ext_opcode op) any"
  unfolding ext_opcode_def by (rule psat_intros stable_intros | assumption)+

text \<open>A result that nothing is said about, computed by a function that fails with errors only.\<close>

lemma psat_map_any [psat_intros]:
  assumes "psat P p Q1" "stable P" "\<And>x e. f x = Err e \<Longrightarrow> \<exists>err. e = PErr err \<or> e = PBreak \<or> e = PContinue"
  shows "psat P (map_parser p f) any"
  by (rule psat_map[OF assms(1,2)]) (auto simp: any_simp dest!: assms(3))

lemma psat_n_of [psat_intros]:
  assumes p: "psat P p Q" and P: "stable P" and Q: "\<And>x. stable (\<lambda>c. Q c x)"
  shows "psat P (n_of p n) (list_ok Q)"
proof (induction n)
  case 0
  show ?case by (rule psatI) simp
next
  case (Suc n)
  show ?case
  proof (rule psatI)
    fix input :: bytes and c assume c: "ctx_ok c" "P c"
    have post: "parser_post input c Q (map_err (\<lambda>(_, c', e). (input, c', e)) (p input c))"
      using psatD[OF p c, of input]
      by (cases "(input, c, Q, p input c)" rule: parser_post.cases) auto
    show "parser_post input c (list_ok Q) (n_of p (Suc n) input c)"
      unfolding n_of.simps
    proof (rule parser_post_and_then[OF post], clarsimp)
      fix rest c1 a assume 1: "ctx_ok c1" "ctx_step c c1" "suffix rest input" "Q c1 a"
      with P c have "P c1" by (blast intro: stableD)
      with 1 Suc have "parser_post rest c1 (list_ok Q) (n_of p n rest c1)" by (intro psatD)
      with 1 Q show "parser_post input c (list_ok Q)
          (and_then (n_of p n rest c1) (\<lambda>(input'', c'', rs). Ok (input'', c'', a # rs)))"
        by (cases "(rest, c1, list_ok Q, n_of p n rest c1)" rule: parser_post.cases)
          (auto intro: ctx_step_trans suffix_order.trans stableD)
    qed
  qed
qed

lemma psat_take_while [psat_intros]:
  assumes p: "psat P p Q" and P: "stable P"
  shows "psat P (take_while n p) any"
proof (induction n)
  case 0
  show ?case by (rule psatI) simp
next
  case (Suc n)
  show ?case
  proof (rule psatI)
    fix input :: bytes and c assume c: "ctx_ok c" "P c"
    have *: "parser_post input c any (and_then (take_while n p rest c1)
        (\<lambda>(input'', c'', k). Ok (input'', c'', Suc k)))"
      if 1: "ctx_ok c1" "ctx_step c c1" "suffix rest input" for rest c1
    proof -
      have "P c1" using P c 1 by (blast intro: stableD)
      with 1 Suc have "parser_post rest c1 any (take_while n p rest c1)" by (intro psatD)
      with 1 show ?thesis
        by (cases "(rest, c1, any :: nat post, take_while n p rest c1)" rule: parser_post.cases)
          (auto simp: any_simp intro: ctx_step_trans suffix_order.trans)
    qed
    show "parser_post input c any (take_while (Suc n) p input c)"
      using psatD[OF p c, of input] *
      by (cases "(input, c, Q, p input c)" rule: parser_post.cases) (auto simp: any_simp)
  qed
qed

text \<open>A parser written as a function of the stream and the context.\<close>

lemma psat_name_seg [psat_intros]: "psat P name_seg_parser any"
  by (rule psatI) (auto simp: name_seg_parser_def consume_def any_simp suffix_ConsI split: list.splits)

lemma psat_null_name [psat_intros]: "stable P \<Longrightarrow> psat P null_name any"
  unfolding null_name_def by (rule psat_intros stable_intros | simp)+

lemma psat_dual_name_path [psat_intros]: "stable P \<Longrightarrow> psat P dual_name_path any"
  unfolding dual_name_path_def by (rule psat_intros stable_intros | force)+

lemma psat_multi_name_path [psat_intros]:
  assumes "stable P"
  shows "psat P multi_name_path any"
proof (rule psatI)
  fix input :: bytes and c assume c: "ctx_ok c" "P c"
  have p: "psat P (then_parser (opcode 0x2F) take_parser) any"
    by (rule psat_any) (rule psat_intros stable_intros assms)+
  have rest: "parser_post input c any (and_then
        (map_err (\<lambda>(_, c, e). (input, c, e)) (n_of name_seg_parser k rest c1))
        (\<lambda>(new_input, c, name_segs). Ok (new_input, c, map Segment name_segs)))"
    if 1: "ctx_ok c1" "ctx_step c c1" "suffix rest input" for rest c1 k
  proof -
    have "psat (\<lambda>_. True) (n_of name_seg_parser k) (list_ok any)"
      by (rule psat_intros stable_intros)+
    from psatD[OF this 1(1) TrueI, of rest] 1 show ?thesis
      by (cases "(rest, c1, list_ok any :: name_seg list post, n_of name_seg_parser k rest c1)"
          rule: parser_post.cases)
        (auto simp: any_simp intro: ctx_step_trans suffix_order.trans)
  qed
  show "parser_post input c any (multi_name_path input c)"
    unfolding multi_name_path_def
    by (rule parser_post_and_then[OF psatD[OF p c]]) (use rest in \<open>auto split: prod.split\<close>)
qed

lemma psat_name_path [psat_intros]: "stable P \<Longrightarrow> psat P name_path any"
  unfolding name_path_def by (rule psat_intros stable_intros | simp)+

lemma from_components_not_Err: "from_components cs \<noteq> Err e"
  by (simp add: from_components_def)

lemma psat_root_name_string [psat_intros]: "stable P \<Longrightarrow> psat P root_name_string any"
  unfolding root_name_string_def
  by (rule psat_intros stable_intros | force simp: from_components_not_Err)+

lemma psat_prefix_path [psat_intros]:
  assumes "stable P"
  shows "psat P prefix_path any"
proof (rule psatI)
  fix input :: bytes and c assume c: "ctx_ok c" "P c"
  have "psat P (map_parser (then_parser (take_while (Suc (length input)) (opcode 0x5E)) name_path)
       (\<lambda>(num_prefix_chars, path). from_components (replicate num_prefix_chars Prefix @ path))) any"
    by (rule psat_intros stable_intros assms | force simp: from_components_not_Err)+
  from psatD[OF this c] show "parser_post input c any (prefix_path input c)"
    by (simp add: prefix_path_def)
qed

lemma psat_name_string [psat_intros]:
  assumes "stable P"
  shows "psat P name_string any"
  unfolding name_string_def
proof (rule psat_comment_scope[OF _ assms stable_rules(3)], rule psatI)
  fix input :: bytes and c assume c: "ctx_ok c" "P c"
  have "psat P (map_parser name_path (\<lambda>path. if length path = 0 then Err (PErr EmptyNamesAreInvalid)
                          else from_components path)) any"
    by (rule psat_intros stable_intros assms | force simp: from_components_not_Err split: if_splits)+
  note posts = psatD[OF this c] psatD[OF psat_root_name_string[OF assms] c]
    psatD[OF psat_prefix_path[OF assms] c]
  show "parser_post input c any (case input of
         [] \<Rightarrow> Err (input, c, PErr UnexpectedEndOfStream)
       | first_char # _ \<Rightarrow>
           if first_char = 0x5C then root_name_string input c
           else if first_char = 0x5E then prefix_path input c
           else map_parser name_path
                  (\<lambda>path. if length path = 0 then Err (PErr EmptyNamesAreInvalid)
                          else from_components path) input c)"
    using c posts[of input] by (cases input) (auto simp del: length_0_conv)
qed

lemma psat_local_parser [psat_intros]: "stable P \<Longrightarrow> psat P (local_parser i op) any"
  unfolding local_parser_def by (rule psat_intros stable_intros | simp)+

lemma psat_local_obj [psat_intros]: "stable P \<Longrightarrow> psat P local_obj any"
  unfolding local_obj_def by (rule psat_intros stable_intros | simp)+

lemma psat_arg_parser [psat_intros]: "stable P \<Longrightarrow> psat P (arg_parser i op) any"
  unfolding arg_parser_def by (rule psat_intros stable_intros | simp)+

lemma psat_arg_obj [psat_intros]: "stable P \<Longrightarrow> psat P arg_obj any"
  unfolding arg_obj_def by (rule psat_intros stable_intros | simp)+

lemma psat_debug_obj [psat_intros]: "stable P \<Longrightarrow> psat P debug_obj any"
  unfolding debug_obj_def by (rule psat_intros stable_intros | simp)+

lemma psat_simple_name [psat_intros]: "stable P \<Longrightarrow> psat P simple_name any"
  unfolding simple_name_def by (rule psat_intros stable_intros | simp)+

lemma psat_super_name [psat_intros]: "stable P \<Longrightarrow> psat P super_name any"
  unfolding super_name_def by (rule psat_intros stable_intros | simp)+

lemma psat_target_parser [psat_intros]: "stable P \<Longrightarrow> psat P target_parser any"
  unfolding target_parser_def by (rule psat_intros stable_intros | simp)+

lemma fold_length_not_Err [simp]: "fold_length len i bs \<noteq> Err e"
  by (induction len i bs rule: fold_length.induct) (auto simp: Let_def)

lemma psat_raw_pkg_length [psat_intros]: "psat P (raw_pkg_length K) any"
proof (rule psatI)
  fix input :: bytes and c assume c: "ctx_ok c"
  show "parser_post input c any (raw_pkg_length K input c)"
  proof (cases input)
    case (Cons b bs)
    let ?n = "ucast (get_bits_u8 K b 6 8) :: u32"
    show ?thesis
      using c
      by (cases "fold_length (ucast (get_bits_u8 K b 0 4)) 0 (take (unat ?n) bs)
            :: (u32, bytes \<times> aml_context \<times> propagate) res")
        (auto simp: Cons raw_pkg_length_def take_parser_def take_n_def Let_def any_simp suffix_ConsI
          suffix_drop)
  qed (use c in \<open>simp add: raw_pkg_length_def take_parser_def\<close>)
qed

lemma psat_pkg_length [psat_intros]:
  assumes "stable P"
  shows "psat P (pkg_length_parser K) any"
proof (rule psatI)
  fix input :: bytes and c assume c: "ctx_ok c" "P c"
  show "parser_post input c any (pkg_length_parser K input c)"
    unfolding pkg_length_parser_def
  proof (rule parser_post_and_then[OF psatD[OF psat_raw_pkg_length[of P] c]], clarsimp)
    fix rest :: bytes and c1 and raw :: u32 assume "ctx_ok c1" "ctx_step c c1" "suffix rest input"
    then show "parser_post input c any (and_then (map_err (\<lambda>e. (input, c1, PErr e))
        (from_raw_length input raw)) (\<lambda>len. Ok (rest, c1, len)))"
      by (cases "from_raw_length input raw") (auto simp: any_simp)
  qed
qed

end
