(* ===== verification/Aml_Safety_Expr.thy ===== *)
theory Aml_Safety_Expr
  imports Aml_Safety_Parse
begin

section \<open>Expressions and method invocation keep the invariant\<close>

definition rec_ok :: "rec_parsers \<Rightarrow> bool" where
  "rec_ok R \<longleftrightarrow>
     psat (\<lambda>_. True) (r_term_arg R) vok \<and> psat (\<lambda>_. True) (r_data_ref_object R) vok
     \<and> (\<forall>len. psat (\<lambda>_. True) (r_term_list R len) any)"

lemma psat_rec [psat_intros]:
  assumes "rec_ok R"
  shows "psat P (r_term_arg R) vok" "psat P (r_data_ref_object R) vok"
    "psat P (r_term_list R len) any"
  using assms unfolding rec_ok_def by (blast intro: psat_weaken)+

subsection \<open>Method invocation\<close>

lemma asat_parse_in [asat_intros]:
  assumes "psat P p Q"
  shows "asat P (parse_in p stream) Q perr_ok"
proof (rule asatI)
  fix c assume c: "ctx_ok c" "P c"
  from psatD[OF assms c, of stream] show "act_post c Q perr_ok (parse_in p stream c)"
    by (cases "(stream, c, Q, p stream c)" rule: parser_post.cases) (auto simp: parse_in_def)
qed

lemma asat_run_term_list [asat_intros]:
  assumes "rec_ok R"
  shows "asat P (run_term_list R stream) any perr_ok"
proof (rule asatI)
  fix c assume c: "ctx_ok c" "P c"
  have "act_post c any perr_ok (parse_in (r_term_list R len) stream c)" for len
    using asatD[OF asat_parse_in[OF psat_rec(3)[OF assms, of P]] c] .
  then show "act_post c any perr_ok (run_term_list R stream c)"
    by (cases "from_raw_length stream (len_u32 stream)") (auto simp: run_term_list_def)
qed

lemma asat_method_outcome [asat_intros]:
  "(\<And>c. P c \<Longrightarrow> sum_ok perr_ok any c out) \<Longrightarrow> asat P (method_outcome out) vok any"
  by (cases out rule: method_outcome.cases; simp) (rule asat_ret asat_fail_any | simp)+

lemma asat_method_body [asat_intros]:
  assumes "rec_ok R" "host_ok E" "stable P"
  shows "asat P (method_body E R code) vok any"
  unfolding method_body_def
  by (cases code; simp) (rule asat_intros stable_intros assms | simp)+

lemma asat_enter_method [asat_intros]:
  assumes "\<And>c. P c \<Longrightarrow> abs_ok c path" "\<And>c. P c \<Longrightarrow> list_ok (opt_ok vok) c a" "length a = 7"
  shows "asat P (enter_method path a) (pair_ok (opt_ok mctx_ok) abs_ok) QE"
proof (rule asatI)
  fix c assume c: "ctx_ok c" "P c"
  let ?c = "c\<lparr>method_ctx := Some (method_context_new a), current_scope := path\<rparr>"
  have le: "ctx_le c ?c" by (simp add: ctx_le_def)
  from assms(2)[OF c(2)] assms(3) have "mctx_ok c (method_context_new a)"
    by (auto simp: mctx_ok_def method_context_new_def list_ok_def opt_ok_def)
  with le have "mctx_ok ?c (method_context_new a)" by (rule mctx_ok_mono)
  with le c(1) assms(1)[OF c(2)] have "ctx_ok ?c"
    by (auto simp: ctx_ok_def abs_ok_def intro: vok_mono)
  moreover have "opt_ok mctx_ok ?c (method_ctx c)"
    using c(1) le by (auto simp: ctx_ok_def opt_ok_def intro: mctx_ok_mono)
  moreover have "abs_ok ?c (current_scope c)" using c(1) by (simp add: ctx_ok_def abs_ok_def)
  ultimately show "act_post c (pair_ok (opt_ok mctx_ok) abs_ok) QE (enter_method path a c)"
    using le by (simp add: enter_method_def ctx_step_def)
qed

lemma asat_leave_method [asat_intros]:
  assumes "\<And>c. P c \<Longrightarrow> opt_ok mctx_ok c mc" "\<And>c. P c \<Longrightarrow> abs_ok c scope"
  shows "asat P (leave_method mc scope) any QE"
proof (rule asatI)
  fix c assume c: "ctx_ok c" "P c"
  let ?c = "c\<lparr>method_ctx := mc, current_scope := scope\<rparr>"
  have le: "ctx_le c ?c" by (simp add: ctx_le_def)
  with c assms have "ctx_ok ?c"
    by (auto simp: ctx_ok_def opt_ok_def abs_ok_def intro: vok_mono mctx_ok_mono)
  with le show "act_post c any QE (leave_method mc scope c)"
    by (simp add: leave_method_def ctx_step_def any_simp)
qed

lemma asat_get_by_path [asat_intros]: "asat P (reads (\<lambda>c. get_by_path (ns c) path)) vok any"
  by (rule asat_reads) (auto simp: get_by_path_def ns_get_def res_elims ctx_ok_def any_simp)

lemma asat_return_value [asat_intros]:
  "(\<And>c. P c \<Longrightarrow> sum_ok any vok c r) \<Longrightarrow>
   asat P (case r of Inr result \<Rightarrow> ret result | Inl err \<Rightarrow> fail err) vok any"
  by (cases r; simp) (rule asat_ret asat_fail_any | simp)+

lemma asat_invoke_method [asat_intros]:
  assumes "rec_ok R" "host_ok E" "stable P" "\<And>c. P c \<Longrightarrow> abs_ok c path"
    "\<And>c. P c \<Longrightarrow> list_ok (opt_ok vok) c a" "length a = 7"
  shows "asat P (invoke_method E R path a) vok any"
  unfolding invoke_method_def
proof (rule asat_bind[OF asat_get_by_path assms(3)])
  fix v
  note rules = asat_intros stable_intros assms(1-3,6)
  show "asat (\<lambda>c. P c \<and> vok c v) (case v of
         Method flags code \<Rightarrow>
           act_bind (enter_method path a) (\<lambda>(old_context, old_scope).
           act_bind (on_ns (\<lambda>s. add_level s path MethodLocals)) (\<lambda>_.
           act_bind (attempt (method_body E R code)) (\<lambda>return_value.
           act_bind (on_ns (\<lambda>s. remove_level s path)) (\<lambda>_.
           act_bind (leave_method old_context old_scope) (\<lambda>_.
             case return_value of Inr result \<Rightarrow> ret result | Inl err \<Rightarrow> fail err)))))
       | value \<Rightarrow> ret value) vok any"
    by (cases v; simp) (rule rules | simp add: assms(4,5))+
qed

subsection \<open>Expressions\<close>

lemma asat_store_result [asat_intros]:
  assumes "stable P" "\<And>c. P c \<Longrightarrow> vok c v"
  shows "asat P (store_result E R t v) vok perr_ok"
  unfolding store_result_def by (rule asat_intros stable_intros assms | simp add: assms)+

lemma asat_int_pair [asat_intros]:
  assumes "stable P" "\<And>c. P c \<Longrightarrow> vok c a" "\<And>c. P c \<Longrightarrow> vok c b"
  shows "asat P (int_pair E R a b) any perr_ok"
  unfolding int_pair_def by (rule asat_intros stable_intros assms | simp add: assms)+

lemma asat_perr [asat_intros]: "asat P (pure_res (perr r)) any perr_ok"
  by (rule asat_reads) (cases r; auto simp: perr_def any_simp)+

lemma asat_arith [asat_intros]:
  "asat P (pure_res (add_u64 a b)) any perr_ok" "asat P (pure_res (sub_u64 a b)) any perr_ok"
  "asat P (pure_res (mul_u64 a b)) any perr_ok"
  by (rule asat_reads; simp add: any_simp)+


lemma psat_def_add [psat_intros]:
  assumes "rec_ok R" "stable P"
  shows "psat P (def_add E R) vok"
  unfolding def_add_def
  by (rule psat_intros asat_intros stable_intros assms | force simp: any_simp)+

lemma psat_def_and [psat_intros]:
  assumes "rec_ok R" "stable P"
  shows "psat P (def_and E R) vok"
  unfolding def_and_def
  by (rule psat_intros asat_intros stable_intros assms | force simp: any_simp)+

lemma psat_def_increment [psat_intros]:
  assumes "rec_ok R" "stable P"
  shows "psat P (def_increment E R) vok"
  unfolding def_increment_def
  by (rule psat_intros asat_intros stable_intros assms | force simp: any_simp)+

lemma psat_def_decrement [psat_intros]:
  assumes "rec_ok R" "stable P"
  shows "psat P (def_decrement E R) vok"
  unfolding def_decrement_def
  by (rule psat_intros asat_intros stable_intros assms | force simp: any_simp)+

lemma psat_second:
  assumes "psat P p1 any" "psat P p2 Q" "stable P"
  shows "psat P (map_parser (then_parser p1 p2) second) Q"
  by (rule psat_map[OF psat_then[OF assms stable_rules(3)] assms(3)]) auto

lemma psat_def_l_or [psat_intros]:
  assumes "rec_ok R" "stable P"
  shows "psat P (def_l_or R) vok"
  unfolding def_l_or_def
  by (rule psat_second psat_intros asat_intros stable_intros assms | force simp: any_simp)+

lemma psat_compare_args [psat_intros]:
  assumes "rec_ok R" "stable P"
  shows "psat P (compare_args E R acc) vok"
  unfolding compare_args_def
  by (rule psat_intros asat_intros stable_intros assms | force simp: any_simp)+

lemma psat_def_l_equal [psat_intros]:
  assumes "rec_ok R" "stable P"
  shows "psat P (def_l_equal E R) vok"
  unfolding def_l_equal_def
  by (rule psat_intros asat_intros stable_intros assms | force simp: any_simp)+

lemma psat_def_l_greater [psat_intros]:
  assumes "rec_ok R" "stable P"
  shows "psat P (def_l_greater E R) vok"
  unfolding def_l_greater_def
  by (rule psat_intros asat_intros stable_intros assms | force simp: any_simp)+

lemma psat_def_l_greater_equal [psat_intros]:
  assumes "rec_ok R" "stable P"
  shows "psat P (def_l_greater_equal E R) vok"
  unfolding def_l_greater_equal_def
  by (rule psat_intros asat_intros stable_intros assms | force simp: any_simp)+

lemma psat_def_l_less [psat_intros]:
  assumes "rec_ok R" "stable P"
  shows "psat P (def_l_less E R) vok"
  unfolding def_l_less_def
  by (rule psat_intros asat_intros stable_intros assms | force simp: any_simp)+

lemma psat_def_l_less_equal [psat_intros]:
  assumes "rec_ok R" "stable P"
  shows "psat P (def_l_less_equal E R) vok"
  unfolding def_l_less_equal_def
  by (rule psat_intros asat_intros stable_intros assms | force simp: any_simp)+

lemma psat_def_l_not_equal [psat_intros]:
  assumes "rec_ok R" "stable P"
  shows "psat P (def_l_not_equal E R) vok"
  unfolding def_l_not_equal_def
  by (rule psat_intros asat_intros stable_intros assms | force simp: any_simp)+

lemma psat_shift_op [psat_intros]:
  assumes "rec_ok R" "stable P"
  shows "psat P (shift_op E R op sh err) vok"
  unfolding shift_op_def
  by (rule psat_intros asat_intros stable_intros assms | force simp: any_simp)+

lemma psat_def_shift_left [psat_intros]:
  assumes "rec_ok R" "stable P"
  shows "psat P (def_shift_left E R) vok"
  unfolding def_shift_left_def
  by (rule psat_intros asat_intros stable_intros assms | force simp: any_simp)+

lemma psat_def_shift_right [psat_intros]:
  assumes "rec_ok R" "stable P"
  shows "psat P (def_shift_right E R) vok"
  unfolding def_shift_right_def
  by (rule psat_intros asat_intros stable_intros assms | force simp: any_simp)+

lemma psat_def_store [psat_intros]:
  assumes "rec_ok R" "stable P"
  shows "psat P (def_store E R) vok"
  unfolding def_store_def
  by (rule psat_intros asat_intros stable_intros assms | force simp: any_simp)+

lemma asat_sized_buffer [asat_intros]: "asat P (pure_res (sized_buffer k bs)) any perr_ok"
  by (rule asat_reads) (auto simp: sized_buffer_def any_simp split: if_splits)

lemma psat_def_buffer [psat_intros]:
  assumes "rec_ok R" "stable P"
  shows "psat P (def_buffer E R) vok"
  unfolding def_buffer_def
  by (rule psat_intros asat_intros stable_intros assms | force simp: any_simp)+

lemma asat_concat_values [asat_intros]:
  assumes "stable P" "\<And>c. P c \<Longrightarrow> vok c l" "\<And>c. P c \<Longrightarrow> vok c r"
  shows "asat P (concat_values E n l r) vok any"
proof -
  have right: "asat P (case as_concat_type r of String r \<Rightarrow> ret r
      | Integer _ \<Rightarrow> as_string_value E n r | Buffer _ \<Rightarrow> as_string_value E n r
      | _ \<Rightarrow> pure_res Panic) any any"
    by (cases "as_concat_type r"; simp) (rule asat_intros assms)+
  show ?thesis
    unfolding concat_values_def
    by (cases "as_concat_type l"; simp)
      (rule right asat_intros stable_intros assms | simp add: assms)+
qed

lemma psat_def_concat [psat_intros]:
  assumes "rec_ok R" "stable P"
  shows "psat P (def_concat E R) vok"
  unfolding def_concat_def
  by (rule psat_intros asat_intros stable_intros assms | force simp: any_simp)+

lemma asat_with_lock_ret:
  assumes "stable P"
  shows "asat P (with_lock r (\<lambda>bs. ret (f bs))) any any"
    "asat P (with_lock r (\<lambda>bs. with_lock r' (\<lambda>bs'. ret (g bs bs')))) any any"
  by (rule asat_intros stable_intros assms)+

lemma asat_concat_resources [asat_intros]:
  assumes "stable P" "\<And>c. P c \<Longrightarrow> vok c l" "\<And>c. P c \<Longrightarrow> vok c r"
  shows "asat P (concat_resources E n l r) vok any"
  unfolding concat_resources_def
  by (rule asat_with_lock_ret asat_intros stable_intros assms | simp add: assms any_simp)+

lemma psat_def_concat_res [psat_intros]:
  assumes "rec_ok R" "stable P"
  shows "psat P (def_concat_res E R) vok"
  unfolding def_concat_res_def
  by (rule psat_intros asat_intros stable_intros assms | force simp: any_simp)+

lemma asat_mid_value [asat_intros]:
  assumes "stable P" "\<And>c. P c \<Longrightarrow> vok c i" "\<And>c. P c \<Longrightarrow> vok c l"
  shows "asat P (mid_value E n v i l) vok any"
  unfolding mid_value_def
  apply (rule asat_bind, rule asat_intros, rule assms, assumption, rule assms)
  apply (rule asat_bind, rule asat_intros, rule assms, simp, (rule stable_intros assms)+)
  apply (cases v; simp)
  apply (rule asat_intros stable_intros assms | simp add: any_simp)+
  done

lemma psat_def_mid [psat_intros]:
  assumes "rec_ok R" "stable P"
  shows "psat P (def_mid E R) vok"
  unfolding def_mid_def
  by (rule psat_intros asat_intros stable_intros assms | force simp: any_simp)+

lemma psat_package_element [psat_intros]:
  assumes "rec_ok R" "stable P"
  shows "psat P (package_element R) vok"
  unfolding package_element_def
  by (rule psat_intros asat_intros stable_intros assms | force simp: any_simp)+

lemma psat_package_loop [psat_intros]:
  assumes "rec_ok R" "stable P"
  shows "psat P (package_loop n R len) (list_ok vok)"
proof (induction n)
  case 0
  show ?case by (rule psatI) simp
next
  case (Suc n)
  show ?case
  proof (rule psatI)
    fix input :: bytes and c assume c: "ctx_ok c" "P c"
    have "psat P (feed (package_element R) (\<lambda>v. map_parser (package_loop n R len) (\<lambda>vs. Ok (v # vs))))
        (list_ok vok)"
    proof (rule psat_feed[OF psat_package_element[OF assms] assms(2)])
      fix v
      have "psat (\<lambda>c. P c \<and> vok c v) (package_loop n R len) (list_ok vok)"
        by (rule psat_weaken[OF Suc]) simp_all
      then show "psat (\<lambda>c. P c \<and> vok c v) (map_parser (package_loop n R len) (\<lambda>vs. Ok (v # vs)))
          (list_ok vok)"
        by (rule psat_map) (rule stable_intros assms | force)+
    qed
    from psatD[OF this c, of input] c
    show "parser_post input c (list_ok vok) (package_loop (Suc n) R len input c)"
      by (simp add: feed_def map_parser_def)
  qed
qed

lemma psat_package_contents [psat_intros]:
  assumes "rec_ok R" "stable P"
  shows "psat P (package_contents R len k) vok"
proof (rule psatI)
  fix input :: bytes and c assume c: "ctx_ok c" "P c"
  show "parser_post input c vok (package_contents R len k input c)"
    unfolding package_contents_def
    by (rule parser_post_and_then[OF psatD[OF psat_package_loop[OF assms] c]])
      (auto simp: list_ok_def)
qed

lemma psat_def_package [psat_intros]:
  assumes "rec_ok R" "stable P"
  shows "psat P (def_package E R) vok"
  unfolding def_package_def
  by (rule psat_intros asat_intros stable_intros assms | force simp: any_simp)+

lemma asat_to_integer_value [asat_intros]:
  assumes "stable P" "\<And>c. P c \<Longrightarrow> vok c v"
  shows "asat P (to_integer_value E n v) vok any"
proof (cases v)
  case (Buffer r)
  have "asat P (act_bind (as_integer E n v) (\<lambda>i. ret (Integer i))) vok any"
    by (rule asat_intros stable_intros assms | assumption | simp)+
  with Buffer show ?thesis by (simp add: to_integer_value_def)
qed (unfold to_integer_value_def; simp; (rule asat_intros stable_intros assms | simp)+)+

lemma psat_def_to_integer [psat_intros]:
  assumes "rec_ok R" "stable P"
  shows "psat P (def_to_integer E R) vok"
  unfolding def_to_integer_def
  by (rule psat_intros asat_intros stable_intros assms | force simp: any_simp)+

lemma asat_method_head [asat_intros]:
  "stable P \<Longrightarrow> asat P (method_head E name) (pair_ok abs_ok any) perr_ok"
  unfolding method_head_def by (rule asat_intros stable_intros | simp add: any_simp)+

lemma args_from_list_ok:
  "args_from_list vs = Ok a \<Longrightarrow> length a = 7 \<and> set a \<subseteq> insert None (Some ` set vs)"
  by (auto simp: args_from_list_def Let_def split: if_splits)

lemma asat_method_call [asat_intros]:
  assumes "rec_ok R" "host_ok E" "stable P" "\<And>c. P c \<Longrightarrow> abs_ok c path" "\<And>c. P c \<Longrightarrow> list_ok vok c vs"
  shows "asat P (method_call E R path k vs) vok perr_ok"
proof (cases k)
  case None
  then show ?thesis by (simp add: method_call_def) (rule asat_intros)+
next
  case (Some n)
  show ?thesis
  proof (cases "args_from_list vs")
    case (Ok a)
    then have a: "length a = 7" "\<And>c. P c \<Longrightarrow> list_ok (opt_ok vok) c a"
      using args_from_list_ok[OF Ok] assms(5) by (fastforce simp: list_ok_def opt_ok_def)+
    have "asat P (try_act (invoke_method E R path a)) vok perr_ok"
      by (rule asat_intros assms a | assumption)+
    moreover have "method_call E R path k vs = try_act (invoke_method E R path a)"
      by (simp add: method_call_def Some Ok perr_def fun_eq_iff act_bind_def reads_def)
    ultimately show ?thesis by simp
  qed (auto simp: method_call_def Some perr_def act_bind_def reads_def asat_def)
qed

lemma psat_method_invocation [psat_intros]:
  assumes "rec_ok R" "host_ok E" "stable P"
  shows "psat P (method_invocation E R) vok"
  unfolding method_invocation_def
  by (rule psat_intros asat_intros stable_intros assms | force simp: any_simp abs_ok_def)+

lemma psat_expression_opcode [psat_intros]:
  assumes "rec_ok R" "host_ok E" "stable P"
  shows "psat P (expression_opcode E R) vok"
  unfolding expression_opcode_def
  by (rule psat_intros stable_intros assms)+

end
