(* ===== verification/Aml_Safety_Term.thy ===== *)
theory Aml_Safety_Term
  imports Aml_Safety_Expr
begin

section \<open>Statements, terms and the whole interpreter keep the invariant\<close>

text \<open>
  The last cycle of lemmas, and with \<open>interp_ok\<close> the result for parsers of every depth. The
  entry points \<open>parse_table\<close>, \<open>invoke_method\<close> and \<open>initialize_objects\<close> follow.
\<close>

subsection \<open>Statements\<close>

lemma psat_map_fails [psat_intros]:
  assumes "psat P p Q1" "stable P" "\<And>x c. Q1 c x \<Longrightarrow> perr_ok c (f x)"
  shows "psat P (map_parser p (\<lambda>x. Err (f x) :: (unit, propagate) res)) any"
  by (rule psat_map[OF assms(1,2)]) (auto simp: assms(3))

lemma psat_discard_then:
  assumes "psat P p1 any" "psat P p2 any" "stable P"
  shows "psat P (discard_result (then_parser p1 p2)) any"
  by (rule psat_discard[OF psat_then[OF assms stable_rules(3)]])

lemma psat_def_break [psat_intros]:
  assumes "stable P"
  shows "psat P (def_break) any"
  unfolding def_break_def
  by (rule psat_discard_then psat_map_any psat_intros asat_intros stable_intros assms | force simp: any_simp)+

lemma psat_def_breakpoint [psat_intros]:
  assumes "stable P"
  shows "psat P (def_breakpoint) any"
  unfolding def_breakpoint_def
  by (rule psat_discard_then psat_map_any psat_intros asat_intros stable_intros assms | force simp: any_simp)+

lemma psat_def_continue [psat_intros]:
  assumes "stable P"
  shows "psat P (def_continue) any"
  unfolding def_continue_def
  by (rule psat_discard_then psat_map_any psat_intros asat_intros stable_intros assms | force simp: any_simp)+

lemma psat_def_noop [psat_intros]:
  assumes "stable P"
  shows "psat P (def_noop) any"
  unfolding def_noop_def
  by (rule psat_discard_then psat_map_any psat_intros asat_intros stable_intros assms | force simp: any_simp)+

lemma asat_fatal [asat_intros]: "asat P (handle_fatal_error E a b d) any QE"
  unfolding handle_fatal_error_def by (rule asat_log_io)

lemma psat_def_fatal [psat_intros]:
  assumes "rec_ok R" "stable P"
  shows "psat P (def_fatal E R) any"
  unfolding def_fatal_def
  by (rule psat_discard_then psat_map_any psat_intros asat_intros stable_intros assms | force simp: any_simp)+

lemma psat_no_else [psat_intros]: "psat P (\<lambda>input c. Ok (input, c, [])) any"
  by (rule psatI) (simp add: any_simp)

lemma psat_else_branch [psat_intros]:
  assumes "stable P"
  shows "psat P (else_branch E) any"
  unfolding else_branch_def
  by (rule psat_discard_then psat_second psat_map_any psat_intros asat_intros stable_intros assms | force simp: any_simp)+

lemma psat_def_if_else [psat_intros]:
  assumes "rec_ok R" "stable P"
  shows "psat P (def_if_else E R) any"
  unfolding def_if_else_def
  by (rule psat_discard_then psat_map_any psat_intros asat_intros stable_intros assms | force simp: any_simp perr_def res_elims map_err_def split: res.splits)+

lemma psat_def_return [psat_intros]:
  assumes "rec_ok R" "stable P"
  shows "psat P (def_return R) any"
  unfolding def_return_def
  by (rule psat_discard_then psat_map_any psat_intros asat_intros stable_intros assms | force simp: any_simp)+

lemma asat_while_loop [asat_intros]:
  assumes "rec_ok R" "stable P"
  shows "asat P (while_loop n R pred body) any perr_ok"
proof (induction n)
  case 0
  show ?case unfolding while_loop.simps by (rule asat_stops)
next
  case (Suc n)
  have next_round: "asat P' (while_loop n R pred body) any perr_ok" if "\<And>c. P' c \<Longrightarrow> P c" for P'
    by (rule asat_pre[OF Suc that])
  have out: "asat (\<lambda>c. P c \<and> sum_ok perr_ok any c x)
      (case x of Inl err \<Rightarrow> fail err | Inr _ \<Rightarrow> ret ()) any perr_ok" for x :: "propagate + unit"
    by (cases x; simp) (rule asat_ret asat_fail | simp add: any_simp)+
  show ?case
    unfolding while_loop.simps
    by (rule next_round out asat_intros psat_intros stable_intros assms | simp)+
qed

lemma asat_run_while [asat_intros]:
  assumes "rec_ok R" "stable P"
  shows "asat P (run_while R v pred body) any perr_ok"
  unfolding run_while_def by (rule asat_intros stable_intros assms | simp)+

lemma psat_extract [psat_intros]:
  assumes "psat P p Q"
  shows "psat P (extract_parser p) (pair_ok Q any)"
proof (rule psatI)
  fix input :: bytes and c assume c: "ctx_ok c" "P c"
  show "parser_post input c (pair_ok Q any) (extract_parser p input c)"
    unfolding extract_parser_def
    by (rule parser_post_and_then[OF psatD[OF assms c]]) (auto simp: any_simp dest: suffix_length_le)
qed

lemma psat_def_while [psat_intros]:
  assumes "rec_ok R" "stable P"
  shows "psat P (def_while E R) any"
  unfolding def_while_def
  by (rule psat_discard_then psat_map_any psat_intros asat_intros stable_intros assms | force simp: any_simp)+

lemma psat_statement_opcode [psat_intros]:
  assumes "rec_ok R" "stable P"
  shows "psat P (statement_opcode E R) any"
  unfolding statement_opcode_def
  by (rule psat_discard_then psat_map_any psat_intros asat_intros stable_intros assms | force simp: any_simp)+

subsection \<open>Terms\<close>

lemma asat_set_scope [asat_intros]:
  assumes "\<And>c. P c \<Longrightarrow> abs_ok c scope"
  shows "asat P (set_scope scope) any QE"
proof (rule asatI)
  fix c assume c: "ctx_ok c" "P c"
  let ?c = "c\<lparr>current_scope := scope\<rparr>"
  have le: "ctx_le c ?c" by (simp add: ctx_le_def)
  with c assms have "ctx_ok ?c" by (auto simp: ctx_ok_def abs_ok_def intro: vok_mono mctx_ok_mono)
  with le show "act_post c any QE (set_scope scope c)"
    by (simp add: set_scope_def ctx_step_def any_simp)
qed

lemma asat_get_scope [asat_intros]: "asat P (reads (\<lambda>c. Ok (current_scope c))) abs_ok QE"
  by (rule asat_reads) (auto simp: ctx_ok_def abs_ok_def)

lemma asat_resolve [asat_intros]: "asat P (reads (\<lambda>c. resolve n (current_scope c))) abs_ok any"
  by (rule asat_reads) (auto simp: abs_ok_def any_simp intro: resolve_is_absolute)

lemma psat_scoped_term_list [psat_intros]:
  assumes "rec_ok R" "stable P" "psat P head (pair_ok any abs_ok)"
  shows "psat P (scoped_term_list R head) any"
  unfolding scoped_term_list_def
proof (rule psat_map_with_context[where ?Q1.0 = abs_ok])
  show "psat P (feed head (\<lambda>(len, previous_scope).
      map_parser (r_term_list R len) (\<lambda>_. Ok previous_scope))) abs_ok"
    by (rule psat_feed[OF assms(3,2)])
      (rule psat_case_prods psat_map psat_intros stable_intros assms | force simp: any_simp)+
qed (rule asat_intros assms | simp)+

lemma asat_enter_scope [asat_intros]:
  "stable P \<Longrightarrow> asat P (enter_scope x) (pair_ok any abs_ok) perr_ok"
  unfolding enter_scope_def by (rule asat_intros stable_intros | simp add: any_simp)+

lemma psat_def_name [psat_intros]:
  assumes "rec_ok R" "stable P"
  shows "psat P (def_name R) any"
  unfolding def_name_def
  by (rule psat_discard_then psat_map_any psat_intros asat_intros stable_intros assms | force simp: any_simp)+

lemma psat_def_scope [psat_intros]:
  assumes "rec_ok R" "stable P"
  shows "psat P (def_scope E R) any"
  unfolding def_scope_def
  by (rule psat_discard_then psat_map_any psat_intros asat_intros stable_intros assms | force simp: any_simp)+

lemma psat_namespace_modifier [psat_intros]:
  assumes "rec_ok R" "stable P"
  shows "psat P (namespace_modifier E R) any"
  unfolding namespace_modifier_def
  by (rule psat_discard_then psat_map_any psat_intros asat_intros stable_intros assms | force simp: any_simp)+

lemma psat_create_field_of [psat_intros]:
  assumes "rec_ok R" "stable P" "\<And>P k. asat P (pure_res (f k)) any perr_ok"
  shows "psat P (create_field_of E R op f len) any"
  unfolding create_field_of_def
  by (rule psat_discard_then psat_intros assms asat_intros stable_intros | force simp: any_simp)+

lemma asat_pure_Ok: "asat P (pure_res (Ok k)) any perr_ok"
  by (rule asat_reads) (simp_all add: any_simp)

lemma psat_def_create_bit_field [psat_intros]:
  assumes "rec_ok R" "stable P"
  shows "psat P (def_create_bit_field E R) any"
  unfolding def_create_bit_field_def
  by (rule psat_discard_then asat_pure_Ok psat_map_any psat_intros asat_intros stable_intros assms | force simp: any_simp)+

lemma psat_def_create_byte_field [psat_intros]:
  assumes "rec_ok R" "stable P"
  shows "psat P (def_create_byte_field E R) any"
  unfolding def_create_byte_field_def
  by (rule psat_discard_then asat_pure_Ok psat_map_any psat_intros asat_intros stable_intros assms | force simp: any_simp)+

lemma psat_def_create_word_field [psat_intros]:
  assumes "rec_ok R" "stable P"
  shows "psat P (def_create_word_field E R) any"
  unfolding def_create_word_field_def
  by (rule psat_discard_then asat_pure_Ok psat_map_any psat_intros asat_intros stable_intros assms | force simp: any_simp)+

lemma psat_def_create_dword_field [psat_intros]:
  assumes "rec_ok R" "stable P"
  shows "psat P (def_create_dword_field E R) any"
  unfolding def_create_dword_field_def
  by (rule psat_discard_then asat_pure_Ok psat_map_any psat_intros asat_intros stable_intros assms | force simp: any_simp)+

lemma psat_def_create_qword_field [psat_intros]:
  assumes "rec_ok R" "stable P"
  shows "psat P (def_create_qword_field E R) any"
  unfolding def_create_qword_field_def
  by (rule psat_discard_then asat_pure_Ok psat_map_any psat_intros asat_intros stable_intros assms | force simp: any_simp)+

lemma psat_def_create_field [psat_intros]:
  assumes "rec_ok R" "stable P"
  shows "psat P (def_create_field E R) any"
  unfolding def_create_field_def
  by (rule psat_discard_then psat_map_any psat_intros asat_intros stable_intros assms | force simp: any_simp)+

lemma asat_region_parent [asat_intros]:
  "asat P (region_parent region name) (\<lambda>c p. parent_ok region p) any"
proof -
  have "asat (\<lambda>_. True) (act_bind (reads (\<lambda>c. resolve name (current_scope c))) (\<lambda>path.
      act_bind (pure_res (parent path)) (\<lambda>p. ret (Some p)))) (\<lambda>c p. parent_ok region p) any"
  proof (rule asat_bind[OF asat_resolve])
    fix path
    show "asat (\<lambda>c. True \<and> abs_ok c path) (act_bind (pure_res (parent path)) (\<lambda>p. ret (Some p)))
        (\<lambda>c p. parent_ok region p) any"
      by (rule asat_bind[where ?Q1.0 = abs_ok], rule asat_reads)
        (rule stable_intros asat_ret | auto simp: abs_ok_def any_simp intro: parent_is_absolute)+
  qed (rule stable_intros)
  then have "asat P (act_bind (reads (\<lambda>c. resolve name (current_scope c))) (\<lambda>path.
      act_bind (pure_res (parent path)) (\<lambda>p. ret (Some p)))) (\<lambda>c p. parent_ok region p) any"
    by (rule asat_pre) simp
  then show ?thesis unfolding region_parent_def by (auto intro!: asat_ret)
qed

lemma psat_def_op_region [psat_intros]:
  assumes "rec_ok R" "stable P"
  shows "psat P (def_op_region E R) any"
  unfolding def_op_region_def
  by (rule psat_discard_then psat_map_any psat_intros asat_intros stable_intros assms | force simp: any_simp)+

lemma psat_opregion_as_handle [psat_intros]:
  "stable P \<Longrightarrow> psat P opregion_as_handle handle_ok"
  unfolding opregion_as_handle_def
  by (rule psat_intros asat_intros stable_intros | force simp: any_simp)+

lemma psat_reserved_field [psat_intros]: "stable P \<Longrightarrow> psat P (reserved_field E) any"
  unfolding reserved_field_def by (rule psat_intros stable_intros | force)+

lemma psat_named_field [psat_intros]:
  assumes "stable P" "\<And>c. P c \<Longrightarrow> handle_ok c h"
  shows "psat P (named_field E h flags off) any"
  unfolding named_field_def
  by (rule psat_intros asat_intros stable_intros assms | force simp: any_simp handle_ok_def dest: assms(2))+

lemma psat_field_element [psat_intros]:
  assumes "stable P" "\<And>c. P c \<Longrightarrow> handle_ok c h"
  shows "psat P (field_element E h flags off) any"
  unfolding field_element_def by (rule psat_intros stable_intros assms | assumption)+

lemma psat_field_list [psat_intros]:
  assumes "stable P" "\<And>c. P c \<Longrightarrow> handle_ok c h"
  shows "psat P (field_list n E len h flags off) any"
proof (induction n arbitrary: off)
  case 0
  show ?case by (rule psatI) simp
next
  case (Suc n)
  show ?case
  proof (rule psatI)
    fix input :: bytes and c assume c: "ctx_ok c" "P c"
    have rest: "parser_post input c any (and_then (add_u64 off k) (\<lambda>off.
           field_list n E len h flags off rest c1))"
      if 1: "ctx_ok c1" "ctx_step c c1" "suffix rest input" for rest c1 k
    proof -
      from 1 have "P c1" using assms(1) c by (blast intro: stableD)
      with 1 have "parser_post input c any (field_list n E len h flags off' rest c1)" for off'
        by (intro parser_post_step[OF 1(2,3)] psatD[OF Suc])
      then show ?thesis
        by (cases "add_u64 off k :: (u64, bytes \<times> aml_context \<times> propagate) res") auto
    qed
    have "parser_post input c any (and_then (field_element E h flags off input c)
        (\<lambda>(input, c, field_length). and_then (add_u64 off field_length) (\<lambda>off.
           field_list n E len h flags off input c)))"
      by (rule parser_post_and_then[OF psatD[OF psat_field_element[OF assms] c]]) (auto intro: rest)
    with c show "parser_post input c any (field_list (Suc n) E len h flags off input c)"
      by (simp add: any_simp)
  qed
qed

lemma psat_def_field [psat_intros]:
  assumes "rec_ok R" "stable P"
  shows "psat P (def_field E R) any"
  unfolding def_field_def
  by (rule psat_discard_then psat_map_any psat_intros asat_intros stable_intros assms | force simp: any_simp)+

lemma psat_def_method [psat_intros]:
  assumes "stable P"
  shows "psat P (def_method E) any"
  unfolding def_method_def
  by (rule psat_discard_then psat_map_any psat_intros asat_intros stable_intros assms | force simp: any_simp)+

lemma psat_def_external [psat_intros]:
  assumes "stable P"
  shows "psat P (def_external) any"
  unfolding def_external_def
  by (rule psat_discard_then psat_map_any psat_intros asat_intros stable_intros assms | force simp: any_simp)+

lemma asat_resolve_here [asat_intros]: "asat P (resolve_here n) abs_ok perr_ok"
  unfolding resolve_here_def by (rule asat_intros)+

lemma asat_swap_scope [asat_intros]:
  assumes "stable P" "\<And>c. P c \<Longrightarrow> abs_ok c n"
  shows "asat P (swap_scope len n) (pair_ok any abs_ok) perr_ok"
  unfolding swap_scope_def by (rule asat_intros stable_intros assms | simp add: any_simp assms)+

lemma asat_enter_levels [asat_intros]:
  assumes "stable P" "\<And>c. vok c v"
  shows "asat P (enter_value_level v typ x) (pair_ok any abs_ok) perr_ok"
    "asat P (enter_level_value v typ x) (pair_ok any abs_ok) perr_ok"
  unfolding enter_value_level_def enter_level_value_def
  by (rule asat_intros stable_intros assms | simp)+

lemma psat_def_device [psat_intros]:
  assumes "rec_ok R" "stable P"
  shows "psat P (def_device E R) any"
  unfolding def_device_def
  by (rule psat_discard_then psat_map_any psat_intros asat_intros stable_intros assms | force simp: any_simp)+

lemma psat_def_processor [psat_intros]:
  assumes "rec_ok R" "stable P"
  shows "psat P (def_processor E R) any"
  unfolding def_processor_def
  by (rule psat_discard_then psat_map_any psat_intros asat_intros stable_intros assms | force simp: any_simp)+

lemma psat_def_power_res [psat_intros]:
  assumes "rec_ok R" "stable P"
  shows "psat P (def_power_res E R) any"
  unfolding def_power_res_def
  by (rule psat_discard_then psat_map_any psat_intros asat_intros stable_intros assms | force simp: any_simp)+

lemma psat_def_thermal_zone [psat_intros]:
  assumes "rec_ok R" "stable P"
  shows "psat P (def_thermal_zone E R) any"
  unfolding def_thermal_zone_def
  by (rule psat_discard_then psat_map_any psat_intros asat_intros stable_intros assms | force simp: any_simp)+

lemma psat_def_mutex [psat_intros]:
  assumes "stable P"
  shows "psat P (def_mutex) any"
  unfolding def_mutex_def
  by (rule psat_discard_then psat_map_any psat_intros asat_intros stable_intros assms | force simp: any_simp)+

lemma psat_named_obj [psat_intros]:
  assumes "rec_ok R" "stable P"
  shows "psat P (named_obj E R) any"
  unfolding named_obj_def
  by (rule psat_discard_then psat_map_any psat_intros asat_intros stable_intros assms | force simp: any_simp)+

subsection \<open>Data objects, arguments and term lists\<close>

lemma psat_const_parser [psat_intros]:
  assumes "stable P"
  shows "psat P const_parser vok"
proof (rule psatI)
  fix input :: bytes and c assume c: "ctx_ok c" "P c"
  have string: "parser_post input c vok (string_parser rest c1)"
    if "ctx_ok c1" "ctx_step c c1" "suffix rest input" for rest c1
    using that by (auto simp: string_parser_def suffix_drop split: option.split
        intro: suffix_order.trans[OF suffix_drop])
  have ints: "parser_post input c vok (map_parser q (\<lambda>v. Ok (Integer (g v))) rest c1)"
    if "ctx_ok c1" "ctx_step c c1" "suffix rest input" "psat (\<lambda>_. True) q any"
    for q :: "'a::len word parser" and g :: "'a word \<Rightarrow> u64" and rest c1
  proof -
    have "psat (\<lambda>_. True) (map_parser q (\<lambda>v. Ok (Integer (g v)))) vok"
      by (rule psat_map[OF that(4)]) (rule stable_intros | force)+
    with that show ?thesis by (blast intro: psatD parser_post_step)
  qed
  show "parser_post input c vok (const_parser input c)"
    unfolding const_parser_def
  proof (rule parser_post_and_then[OF psatD[OF psat_take_parser[of P] c]], clarsimp, goal_cases)
    case (1 rest c1 op)
    note step = 1(2-4)
    show ?case
      using step string[OF step] ints[OF step psat_take_parser] ints[OF step psat_take_words(1)]
        ints[OF step psat_take_words(2)] ints[OF step psat_take_words(3)]
      by simp
  qed
qed

lemma psat_computational_data [psat_intros]:
  assumes "rec_ok R" "stable P"
  shows "psat P (computational_data E R) vok"
  unfolding computational_data_def
  by (rule psat_discard_then psat_map_any psat_intros asat_intros stable_intros assms | force simp: any_simp)+

lemma psat_data_object [psat_intros]:
  assumes "rec_ok R" "stable P"
  shows "psat P (data_object E R) vok"
  unfolding data_object_def
  by (rule psat_discard_then psat_map_any psat_intros asat_intros stable_intros assms | force simp: any_simp)+

lemma psat_data_ref_object [psat_intros]:
  assumes "rec_ok R" "stable P"
  shows "psat P (data_ref_object E R) vok"
  unfolding data_ref_object_def
  by (rule psat_discard_then psat_map_any psat_intros asat_intros stable_intros assms | force simp: any_simp)+

lemma psat_term_arg [psat_intros]:
  assumes "rec_ok R" "host_ok E" "stable P"
  shows "psat P (term_arg E R) vok"
  unfolding term_arg_def
  by (rule psat_discard_then psat_map_any psat_intros asat_intros stable_intros assms | force simp: any_simp)+

lemma psat_term_object [psat_intros]:
  assumes "rec_ok R" "host_ok E" "stable P"
  shows "psat P (term_object E R) any"
  unfolding term_object_def
  by (rule psat_discard_then psat_map_any psat_intros asat_intros stable_intros assms | force simp: any_simp)+

lemma psat_term_list_loop [psat_intros]:
  assumes "rec_ok R" "host_ok E" "stable P"
  shows "psat P (term_list_loop n E R len) any"
proof (induction n)
  case 0
  show ?case by (rule psatI) simp
next
  case (Suc n)
  show ?case
  proof (rule psatI)
    fix input :: bytes and c assume c: "ctx_ok c" "P c"
    have "psat P (feed (term_object E R) (\<lambda>_. term_list_loop n E R len)) any"
      by (rule psat_feed[OF psat_term_object[OF assms] assms(3)]) (rule psat_weaken[OF Suc], simp_all)
    from psatD[OF this c, of input] c
    show "parser_post input c any (term_list_loop (Suc n) E R len input c)"
      by (simp add: feed_def any_simp)
  qed
qed

lemma psat_term_list [psat_intros]:
  assumes "rec_ok R" "host_ok E" "stable P"
  shows "psat P (term_list E R len) any"
  using psat_term_list_loop[OF assms, of "Suc (r_fuel R)" len]
  unfolding psat_def term_list_def .

subsection \<open>The interpreter\<close>

lemma interp_ok:
  assumes "host_ok E"
  shows "rec_ok (interp E n)"
proof (induction n)
  case 0
  show ?case by (simp add: rec_ok_def psat_def)
next
  case (Suc n)
  show ?case
    unfolding rec_ok_def interp.simps
    by (simp, intro conjI allI) (rule psat_intros stable_intros assms Suc)+
qed

lemma asat_table_outcome [asat_intros]: "asat P (table_outcome out) any any"
  by (cases out rule: table_outcome.cases; simp) (rule asat_intros)+

lemma asat_parse_table:
  assumes "host_ok E" "stable P"
  shows "asat P (parse_table E n stream) any any"
  unfolding parse_table_def by (rule asat_intros stable_intros assms interp_ok)+

lemma asat_invoke [asat_intros]:
  assumes "host_ok E" "stable P" "\<And>c. P c \<Longrightarrow> abs_ok c path"
    "\<And>c. P c \<Longrightarrow> list_ok (opt_ok vok) c a" "length a = 7"
  shows "asat P (invoke E n path a) vok any"
  unfolding invoke_def by (rule asat_invoke_method[OF interp_ok[OF assms(1)] assms])

lemma args_empty_ok: "list_ok (opt_ok vok) c args_empty" "length args_empty = 7"
  by (simp_all add: args_empty_def list_ok_def opt_ok_def)

lemma asat_pure_resolve: "asat P (pure_res (resolve n scope)) abs_ok any"
  by (rule asat_reads) (auto simp: abs_ok_def any_simp intro: resolve_is_absolute)

lemma asat_invoke_at [asat_intros]:
  assumes "host_ok E" "stable P"
  shows "asat P (invoke_at E n name path) vok any"
  unfolding invoke_at_def
  by (rule asat_pure_resolve asat_intros stable_intros assms args_empty_ok | simp)+

lemma asat_device_status [asat_intros]:
  assumes "host_ok E" "stable P"
  shows "asat P (device_status E n path level) any any"
  unfolding device_status_def by (rule asat_intros stable_intros assms)+

lemma asat_visit_level:
  assumes "host_ok E" "stable P"
  shows "asat P (visit_level E n path level) any any"
proof -
  have ini: "asat P' (if b then act_bind (invoke_at E n ''_INI'' path) (\<lambda>_. ret ()) else ret ()) any any"
    if "stable P'" for P' b
    by (rule asat_intros assms that)+
  show ?thesis
    unfolding visit_level_def
    by (cases "level_typ level"; simp) (rule ini asat_intros stable_intros assms)+
qed

lemma asat_traverse_level:
  assumes "\<And>path level. asat (\<lambda>_. True) (f path level) any any"
  shows "asat (\<lambda>_. True) (traverse_level f cs scope) any any"
proof (induction cs arbitrary: scope rule: measure_induct_rule[of "size_list (size_prod (\<lambda>_. 0) size)"])
  case (less cs)
  show ?case
  proof (cases cs)
    case Nil
    then show ?thesis by (simp add: asat_def any_simp)
  next
    case (Cons p siblings)
    obtain seg child where p: "p = (seg, child)" by (cases p)
    have child: "asat (\<lambda>_. True) (traverse_level f (children child) name) any any" for name
      by (rule less) (cases child, simp add: Cons p)
    have siblings: "asat (\<lambda>_. True) (traverse_level f siblings scope) any any"
      by (rule less) (simp add: Cons p)
    have "asat (\<lambda>_. True)
       (act_bind (pure_res (resolve (from_name_seg seg) scope)) (\<lambda>name.
        act_bind (f name child) (\<lambda>go.
        act_bind (if go then traverse_level f (children child) name else ret ()) (\<lambda>_.
          traverse_level f siblings scope)))) any any"
      by (rule asat_pre[OF assms] asat_pre[OF child] asat_pre[OF siblings] asat_intros stable_intros | simp)+
    moreover have "act_bind (pure_res (resolve (from_name_seg seg) scope)) (\<lambda>name.
        act_bind (f name child) (\<lambda>go.
        act_bind (if go then traverse_level f (children child) name else ret ()) (\<lambda>_.
          traverse_level f siblings scope))) = traverse_level f cs scope"
      by (rule ext, cases "resolve (from_name_seg seg) scope")
        (simp_all add: Cons p act_bind_def reads_def ret_def[abs_def] if_distribR cong del: if_weak_cong)
    ultimately show ?thesis by simp
  qed
qed

lemma asat_sb_path:
  "asat P (pure_res (unwrap (from_str (CHR 0x5C # ''_SB._INI'')))) abs_ok any"
proof -
  have "from_str (CHR 0x5C # ''_SB._INI'') =
      Ok [Root, Segment (NameSeg 0x5F 0x53 0x42 0x5F), Segment (NameSeg 0x5F 0x49 0x4E 0x49)]"
    by code_simp
  then show ?thesis by (intro asat_reads) (auto simp: abs_ok_def any_simp)
qed

lemma asat_initialize_objects:
  assumes "host_ok E"
  shows "asat (\<lambda>_. True) (initialize_objects E n) any any"
proof -
  have sb: "asat (\<lambda>_. True) (initialize_sb E n) any any"
  proof -
    have out: "asat P (case x of Inr _ \<Rightarrow> ret () | Inl (ValueDoesNotExist _) \<Rightarrow> ret ()
        | Inl err \<Rightarrow> fail err) any any" for P and x :: "aml_error + aml_value"
      by (cases x; simp split: aml_error.split) (rule asat_intros | (intro allI conjI impI))+
    show ?thesis
      unfolding initialize_sb_def
      by (rule asat_bind[OF asat_sb_path])
        (rule out asat_intros stable_intros assms args_empty_ok | simp)+
  qed
  have trav: "asat (\<lambda>_. True) (\<lambda>c. traverse (ns c) (visit_level E n) c) any any"
  proof (rule asatI)
    fix c assume c: "ctx_ok c"
    have "asat (\<lambda>_. True)
       (act_bind (visit_level E n root_name (root_level (ns c))) (\<lambda>go.
          if go then traverse_level (visit_level E n) (children (root_level (ns c))) root_name
          else ret ())) any any"
      by (rule asat_bind[OF asat_visit_level[OF assms]])
        (rule stable_intros asat_if asat_pre[OF asat_traverse_level] asat_visit_level assms asat_intros | simp)+
    from asatD[OF this c TrueI] show "act_post c any any (traverse (ns c) (visit_level E n) c)"
      by (simp add: traverse_def act_bind_def if_distribR ret_def[abs_def] cong del: if_weak_cong)
  qed
  show ?thesis
    unfolding initialize_objects_def
    by (rule asat_bind[OF sb]) (rule stable_intros asat_pre[OF trav] | simp)+
qed

end
