(* ===== verification/Aml_Fuel.thy ===== *)
theory Aml_Fuel
  imports Aml_Interp
begin

section \<open>More fuel never changes a result\<close>

text \<open>
  The bound on the depth and on the rounds of loops is not part of the sources. A run that ends
  within some fuel has the same outcome with any larger fuel: the outcome is that of the
  unbounded program. The proof follows the combinators with the order \<open>flat_le\<close> of the
  prelude, for actions (\<open>amono\<close>) and parsers (\<open>pmono\<close>).
\<close>

definition amono :: "('a, 'e) eact \<Rightarrow> ('a, 'e) eact \<Rightarrow> bool" where
  "amono m m' \<longleftrightarrow> (\<forall>c. flat_le (m c) (m' c))"

definition pmono :: "'r parser \<Rightarrow> 'r parser \<Rightarrow> bool" where
  "pmono p p' \<longleftrightarrow> (\<forall>input c. flat_le (p input c) (p' input c))"

named_theorems fuel_intros

subsection \<open>Actions\<close>

lemma amono_refl [fuel_intros]: "amono m m"
  by (simp add: amono_def)

lemma amono_fuel: "amono (pure_res OutOfFuel) m"
  by (simp add: amono_def reads_def)

lemma amono_bind [fuel_intros]:
  "amono m m' \<Longrightarrow> (\<And>x. amono (f x) (f' x)) \<Longrightarrow> amono (act_bind m f) (act_bind m' f')"
  unfolding amono_def by (blast intro: flat_le_act_bind)

lemma amono_if [fuel_intros]:
  "amono m m' \<Longrightarrow> amono k k' \<Longrightarrow> amono (if b then m else k) (if b then m' else k')"
  by simp

lemma amono_case_prod [fuel_intros]:
  "(\<And>a b. amono (f a b) (f' a b)) \<Longrightarrow> amono (case x of (a, b) \<Rightarrow> f a b) (case x of (a, b) \<Rightarrow> f' a b)"
  "(\<And>a b. amono (g a b y) (g' a b y)) \<Longrightarrow>
     amono ((case x of (a, b) \<Rightarrow> g a b) y) ((case x of (a, b) \<Rightarrow> g' a b) y)"
  "(\<And>a b. amono (h a b y z) (h' a b y z)) \<Longrightarrow>
     amono ((case x of (a, b) \<Rightarrow> h a b) y z) ((case x of (a, b) \<Rightarrow> h' a b) y z)"
  by (cases x; simp)+

lemma amono_try [fuel_intros]: "amono m m' \<Longrightarrow> amono (try_act m) (try_act m')"
  unfolding amono_def try_act_def by (blast intro: flat_le_map_err)

lemma amono_attempt [fuel_intros]:
  assumes "amono m m'"
  shows "amono (attempt m) (attempt m')"
  unfolding amono_def
proof
  fix c
  from assms have "m c = OutOfFuel \<or> m c = m' c" by (simp add: amono_def flat_le_def)
  then show "flat_le (attempt m c) (attempt m' c)" by (auto simp: attempt_def)
qed

lemma amono_with_lock [fuel_intros]:
  "(\<And>bs. amono (f bs) (f' bs)) \<Longrightarrow> amono (with_lock r f) (with_lock r f')"
  unfolding amono_def by (blast intro: flat_le_with_lock)

subsection \<open>Values\<close>

definition asint_le :: "(aml_value \<Rightarrow> u64 act) \<Rightarrow> (aml_value \<Rightarrow> u64 act) \<Rightarrow> bool" where
  "asint_le f g \<longleftrightarrow> (\<forall>v. amono (f v) (g v))"

lemma asint_leD [fuel_intros]: "asint_le f g \<Longrightarrow> amono (f v) (g v)"
  by (simp add: asint_le_def)

lemma amono_pci_optional [fuel_intros]:
  assumes "asint_le f g"
  shows "amono (pci_optional f conv name dev) (pci_optional g conv name dev)"
proof -
  have "amono (act_bind (reads (\<lambda>c. ns_get (ns c) h)) (\<lambda>v. act_bind (f v) (\<lambda>i. pure_res (conv i))))
              (act_bind (reads (\<lambda>c. ns_get (ns c) h)) (\<lambda>v. act_bind (g v) (\<lambda>i. pure_res (conv i))))" for h
    by (rule fuel_intros assms)+
  then show ?thesis
    unfolding pci_optional_def
    by (intro amono_bind amono_refl) (auto simp: amono_def split: res.split aml_error.split)
qed

lemma amono_pci_address [fuel_intros]:
  "asint_le f g \<Longrightarrow> amono (pci_address E f dev base off) (pci_address E g dev base off)"
  unfolding pci_address_def by (rule fuel_intros | assumption)+

lemma amono_read_region [fuel_intros]:
  assumes "asint_le f g"
  shows "amono (read_region E f h off len) (read_region E g h off len)"
  unfolding read_region_def
  apply (rule amono_bind[OF amono_refl])
  subgoal for v
    by (cases v rule: maximum_access_size.cases; simp) (rule fuel_intros assms)+
  done

lemma amono_write_region [fuel_intros]:
  assumes "asint_le f g"
  shows "amono (write_region E f h off len w) (write_region E g h off len w)"
  unfolding write_region_def
  apply (rule amono_bind[OF amono_refl])
  subgoal for v
    by (cases v rule: maximum_access_size.cases; simp) (rule fuel_intros assms)+
  done

lemma amono_read_field [fuel_intros]:
  assumes "asint_le f g"
  shows "amono (read_field E f v) (read_field E g v)"
  unfolding read_field_def by (cases v; simp) (rule fuel_intros assms)+

lemma amono_write_field [fuel_intros]:
  assumes "asint_le f g"
  shows "amono (write_field E f v w) (write_field E g v w)"
proof (cases v)
  case (Field h flags off len)
  have "amono (case rule of Preserve \<Rightarrow> act_bind (read_field E f v) f
        | WriteAsOnes \<Rightarrow> ret (- 1) | WriteAsZeros \<Rightarrow> ret 0)
      (case rule of Preserve \<Rightarrow> act_bind (read_field E g v) g
        | WriteAsOnes \<Rightarrow> ret (- 1) | WriteAsZeros \<Rightarrow> ret 0)" for rule
    by (cases rule; simp) (rule fuel_intros assms)+
  note base = this[unfolded Field]
  show ?thesis
    unfolding write_field_def Field aml_value.case by (rule base fuel_intros assms)+
qed (simp add: write_field_def; rule amono_refl)+

lemma as_integer_Suc: "asint_le (as_integer E n) (as_integer E (Suc n))"
proof (induction n)
  case 0
  show ?case by (simp only: asint_le_def as_integer.simps(1)) (blast intro: amono_fuel)
next
  case (Suc n)
  have "amono (as_integer E (Suc n) v) (as_integer E (Suc (Suc n)) v)" for v
    by (subst (1 2) as_integer.simps(2), cases v; simp only: aml_value.case) (rule fuel_intros Suc)+
  then show ?case unfolding asint_le_def by blast
qed

text \<open>One step of fuel at a time is enough.\<close>

lemma amono_trans: "amono a b \<Longrightarrow> amono b d \<Longrightarrow> amono a d"
  unfolding amono_def by (blast intro: flat_le_trans)

lemma amono_le_fuel:
  assumes "\<And>n. amono (f n) (f (Suc n))" "n \<le> (n' :: nat)"
  shows "amono (f n) (f n')"
  using assms(2) by (induction rule: dec_induct) (blast intro: amono_refl amono_trans assms(1))+

lemma asint_le_fuel [fuel_intros]: "n \<le> n' \<Longrightarrow> asint_le (as_integer E n) (as_integer E n')"
  unfolding asint_le_def
proof
  fix v assume "n \<le> n'"
  have "amono (as_integer E k v) (as_integer E (Suc k) v)" for k
    by (rule asint_leD[OF as_integer_Suc])
  from this \<open>n \<le> n'\<close> show "amono (as_integer E n v) (as_integer E n' v)"
    by (rule amono_le_fuel[of "\<lambda>n. as_integer E n v"])
qed

lemma amono_as_integer [fuel_intros]: "n \<le> n' \<Longrightarrow> amono (as_integer E n v) (as_integer E n' v)"
  by (rule asint_leD[OF asint_le_fuel])

lemma as_buffer_Suc: "amono (as_buffer E n v) (as_buffer E (Suc n) v)"
proof (induction n arbitrary: v)
  case 0
  show ?case by (simp only: as_buffer.simps(1) amono_fuel)
next
  case (Suc n)
  show ?case
    by (subst (1 2) as_buffer.simps(2), cases v; simp only: aml_value.case)
      (rule Suc fuel_intros as_integer_Suc)+
qed

lemma amono_as_buffer [fuel_intros]: "n \<le> n' \<Longrightarrow> amono (as_buffer E n v) (as_buffer E n' v)"
  by (rule amono_le_fuel[of "\<lambda>n. as_buffer E n v", OF as_buffer_Suc])

lemma as_string_Suc: "amono (as_string_value E n v) (as_string_value E (Suc n) v)"
proof (induction n arbitrary: v)
  case 0
  show ?case by (simp only: as_string_value.simps(1) amono_fuel)
next
  case (Suc n)
  show ?case
    by (subst (1 2) as_string_value.simps(2), cases v; simp only: aml_value.case)
      (rule Suc fuel_intros as_integer_Suc)+
qed

lemma amono_as_string [fuel_intros]:
  "n \<le> n' \<Longrightarrow> amono (as_string_value E n v) (as_string_value E n' v)"
  by (rule amono_le_fuel[of "\<lambda>n. as_string_value E n v", OF as_string_Suc])

lemma amono_as_type [fuel_intros]:
  assumes "n \<le> n'"
  shows "amono (as_type E n v t) (as_type E n' v t)"
  unfolding as_type_def
  by (cases "type_of v = t"; cases t; simp only: if_True if_False aml_type.case)
    (rule fuel_intros assms)+

lemma amono_value_cmp [fuel_intros]:
  assumes "n \<le> n'"
  shows "amono (value_cmp E n v w) (value_cmp E n' v w)"
  unfolding value_cmp_def
  apply (rule amono_bind, (rule fuel_intros assms)+)
  subgoal for x
    by (cases "type_of x"; simp only: aml_type.case) (rule fuel_intros assms)+
  done

lemma amono_store [fuel_intros]:
  assumes "n \<le> n'"
  shows "amono (store E n t v) (store E n' t v)"
proof -
  have "amono (store_name E n path v) (store_name E n' path v)" for path
    unfolding store_name_def
    apply (rule amono_bind[OF amono_refl], rule fuel_intros, rule amono_bind[OF amono_refl])
    subgoal for x a b old
      by (cases "type_of old"; simp only: aml_type.case) (rule fuel_intros assms)+
    done
  then show ?thesis
    unfolding store_def by (cases t; simp only: target.case) (rule fuel_intros | assumption)+
qed

lemma amono_run_native [fuel_intros]:
  assumes "n \<le> n'"
  shows "amono (run_native E n f) (run_native E n' f)"
  unfolding run_native_def osi_method_def
  by (cases f; simp only: native_method.case) (rule fuel_intros assms)+

subsection \<open>Parsers\<close>

lemma pmonoI: "(\<And>input c. flat_le (p input c) (p' input c)) \<Longrightarrow> pmono p p'"
  by (simp add: pmono_def)

lemma pmonoD: "pmono p p' \<Longrightarrow> flat_le (p input c) (p' input c)"
  by (simp add: pmono_def)

lemma pmono_refl [fuel_intros]: "pmono p p"
  by (simp add: pmono_def)

lemma pmono_then [fuel_intros]:
  "pmono p p' \<Longrightarrow> pmono q q' \<Longrightarrow> pmono (then_parser p q) (then_parser p' q')"
  unfolding then_parser_def
  by (auto simp: pmono_def intro!: flat_le_and_then)

lemma pmono_feed [fuel_intros]:
  "pmono p p' \<Longrightarrow> (\<And>x. pmono (f x) (f' x)) \<Longrightarrow> pmono (feed p f) (feed p' f')"
  unfolding feed_def
  by (auto simp: pmono_def intro!: flat_le_and_then)

lemma pmono_map [fuel_intros]: "pmono p p' \<Longrightarrow> pmono (map_parser p f) (map_parser p' f)"
  unfolding map_parser_def
  by (auto simp: pmono_def intro!: flat_le_and_then)

lemma pmono_map_with_context [fuel_intros]:
  "pmono p p' \<Longrightarrow> (\<And>x. amono (f x) (f' x)) \<Longrightarrow> pmono (map_with_context p f) (map_with_context p' f')"
  unfolding map_with_context_def amono_def
  by (auto simp: pmono_def intro!: flat_le_and_then flat_le_map_err)

lemma pmono_discard [fuel_intros]: "pmono p p' \<Longrightarrow> pmono (discard_result p) (discard_result p')"
  unfolding discard_result_def
  by (auto simp: pmono_def intro!: flat_le_and_then)

lemma pmono_comment_scope [fuel_intros]: "pmono p p' \<Longrightarrow> pmono (comment_scope v p) (comment_scope v p')"
  unfolding comment_scope_def
  by (auto simp: pmono_def intro!: flat_le_and_then)

lemma pmono_extract [fuel_intros]: "pmono p p' \<Longrightarrow> pmono (extract_parser p) (extract_parser p')"
  unfolding extract_parser_def
  by (auto simp: pmono_def intro!: flat_le_and_then)

lemma pmono_n_of [fuel_intros]: "pmono p p' \<Longrightarrow> pmono (n_of p n) (n_of p' n)"
  by (induction n) (auto simp: pmono_def intro!: flat_le_and_then flat_le_map_err)

lemma pmono_case_prod [fuel_intros]:
  "(\<And>a b. pmono (f a b) (f' a b)) \<Longrightarrow> pmono (case x of (a, b) \<Rightarrow> f a b) (case x of (a, b) \<Rightarrow> f' a b)"
  "(\<And>a b. pmono (g a b y) (g' a b y)) \<Longrightarrow>
     pmono ((case x of (a, b) \<Rightarrow> g a b) y) ((case x of (a, b) \<Rightarrow> g' a b) y)"
  by (cases x; simp)+

lemma pmono_choice [fuel_intros]:
  assumes "list_all2 pmono ps ps'"
  shows "pmono (choice ps) (choice ps')"
  using assms
proof (induction rule: list_all2_induct)
  case Nil
  show ?case by (rule pmono_refl)
next
  case (Cons p ps p' ps')
  show ?case
  proof (rule pmonoI)
    fix input c
    have "p input c = OutOfFuel \<or> p input c = p' input c"
      using pmonoD[OF Cons(1), of input c] by (simp add: flat_le_def)
    moreover have "flat_le (choice ps input c') (choice ps' input c')" for c'
      by (rule pmonoD[OF Cons(3)])
    ultimately show "flat_le (choice (p # ps) input c) (choice (p' # ps') input c)"
      by (auto split: res.split)
  qed
qed

lemma list_all2_pmono [fuel_intros]:
  "list_all2 pmono [] []"
  "pmono p p' \<Longrightarrow> list_all2 pmono ps ps' \<Longrightarrow> list_all2 pmono (p # ps) (p' # ps')"
  by simp_all

subsection \<open>The grammar\<close>

definition rec_le :: "rec_parsers \<Rightarrow> rec_parsers \<Rightarrow> bool" where
  "rec_le R R' \<longleftrightarrow>
     r_fuel R \<le> r_fuel R' \<and> pmono (r_term_arg R) (r_term_arg R')
     \<and> pmono (r_data_ref_object R) (r_data_ref_object R')
     \<and> (\<forall>len. pmono (r_term_list R len) (r_term_list R' len))"

lemma rec_leD [fuel_intros]:
  assumes "rec_le R R'"
  shows "r_fuel R \<le> r_fuel R'" "pmono (r_term_arg R) (r_term_arg R')"
    "pmono (r_data_ref_object R) (r_data_ref_object R')"
    "pmono (r_term_list R len) (r_term_list R' len)"
  using assms by (simp_all add: rec_le_def)

lemma amono_parse_in [fuel_intros]: "pmono p p' \<Longrightarrow> amono (parse_in p s) (parse_in p' s)"
  unfolding amono_def parse_in_def
  by (auto simp: pmono_def intro!: flat_le_and_then flat_le_map_err)

lemma amono_run_term_list [fuel_intros]:
  assumes "rec_le R R'"
  shows "amono (run_term_list R s) (run_term_list R' s)"
  unfolding amono_def run_term_list_def
  using amono_parse_in[OF rec_leD(4)[OF assms]]
  by (intro allI flat_le_and_then) (simp_all add: amono_def)

lemma amono_method_body [fuel_intros]:
  assumes "rec_le R R'"
  shows "amono (method_body E R code) (method_body E R' code)"
  unfolding method_body_def by (cases code; simp only: method_code.case) (rule fuel_intros assms)+

lemma amono_invoke_method [fuel_intros]:
  assumes "rec_le R R'"
  shows "amono (invoke_method E R path a) (invoke_method E R' path a)"
  unfolding invoke_method_def
  apply (rule amono_bind[OF amono_refl])
  subgoal for v
    by (cases v; simp only: aml_value.case) (rule fuel_intros assms)+
  done

text \<open>Monotonicity of each parser of the grammar.\<close>

lemma amono_store_result [fuel_intros]:
  "rec_le R R' \<Longrightarrow> amono (store_result E R t v) (store_result E R' t v)"
  unfolding store_result_def by (rule fuel_intros | assumption)+

lemma amono_int_pair [fuel_intros]:
  "rec_le R R' \<Longrightarrow> amono (int_pair E R a b) (int_pair E R' a b)"
  unfolding int_pair_def by (rule fuel_intros | assumption)+

lemma pmono_def_add [fuel_intros]:
  assumes "rec_le R R'"
  shows "pmono (def_add E R) (def_add E R')"
  unfolding def_add_def by (rule fuel_intros assms)+

lemma pmono_def_and [fuel_intros]:
  assumes "rec_le R R'"
  shows "pmono (def_and E R) (def_and E R')"
  unfolding def_and_def by (rule fuel_intros assms)+

lemma pmono_def_increment [fuel_intros]:
  assumes "rec_le R R'"
  shows "pmono (def_increment E R) (def_increment E R')"
  unfolding def_increment_def by (rule fuel_intros assms)+

lemma pmono_def_decrement [fuel_intros]:
  assumes "rec_le R R'"
  shows "pmono (def_decrement E R) (def_decrement E R')"
  unfolding def_decrement_def by (rule fuel_intros assms)+

lemma pmono_def_l_or [fuel_intros]:
  assumes "rec_le R R'"
  shows "pmono (def_l_or R) (def_l_or R')"
  unfolding def_l_or_def by (rule fuel_intros assms)+

lemma pmono_compare_args [fuel_intros]:
  assumes "rec_le R R'"
  shows "pmono (compare_args E R acc) (compare_args E R' acc)"
  unfolding compare_args_def by (rule fuel_intros assms)+

lemma pmono_def_l_equal [fuel_intros]:
  assumes "rec_le R R'"
  shows "pmono (def_l_equal E R) (def_l_equal E R')"
  unfolding def_l_equal_def by (rule fuel_intros assms)+

lemma pmono_def_l_greater [fuel_intros]:
  assumes "rec_le R R'"
  shows "pmono (def_l_greater E R) (def_l_greater E R')"
  unfolding def_l_greater_def by (rule fuel_intros assms)+

lemma pmono_def_l_greater_equal [fuel_intros]:
  assumes "rec_le R R'"
  shows "pmono (def_l_greater_equal E R) (def_l_greater_equal E R')"
  unfolding def_l_greater_equal_def by (rule fuel_intros assms)+

lemma pmono_def_l_less [fuel_intros]:
  assumes "rec_le R R'"
  shows "pmono (def_l_less E R) (def_l_less E R')"
  unfolding def_l_less_def by (rule fuel_intros assms)+

lemma pmono_def_l_less_equal [fuel_intros]:
  assumes "rec_le R R'"
  shows "pmono (def_l_less_equal E R) (def_l_less_equal E R')"
  unfolding def_l_less_equal_def by (rule fuel_intros assms)+

lemma pmono_def_l_not_equal [fuel_intros]:
  assumes "rec_le R R'"
  shows "pmono (def_l_not_equal E R) (def_l_not_equal E R')"
  unfolding def_l_not_equal_def by (rule fuel_intros assms)+

lemma pmono_shift_op [fuel_intros]:
  assumes "rec_le R R'"
  shows "pmono (shift_op E R op sh err) (shift_op E R' op sh err)"
  unfolding shift_op_def by (rule fuel_intros assms)+

lemma pmono_def_shift_left [fuel_intros]:
  assumes "rec_le R R'"
  shows "pmono (def_shift_left E R) (def_shift_left E R')"
  unfolding def_shift_left_def by (rule fuel_intros assms)+

lemma pmono_def_shift_right [fuel_intros]:
  assumes "rec_le R R'"
  shows "pmono (def_shift_right E R) (def_shift_right E R')"
  unfolding def_shift_right_def by (rule fuel_intros assms)+

lemma pmono_def_store [fuel_intros]:
  assumes "rec_le R R'"
  shows "pmono (def_store E R) (def_store E R')"
  unfolding def_store_def by (rule fuel_intros assms)+

lemma pmono_def_buffer [fuel_intros]:
  assumes "rec_le R R'"
  shows "pmono (def_buffer E R) (def_buffer E R')"
  unfolding def_buffer_def by (rule fuel_intros assms)+

lemma amono_concat_values [fuel_intros]:
  assumes "n \<le> n'"
  shows "amono (concat_values E n l r) (concat_values E n' l r)"
proof -
  have "amono (case as_concat_type r of String r \<Rightarrow> ret r
      | Integer _ \<Rightarrow> as_string_value E n r | Buffer _ \<Rightarrow> as_string_value E n r | _ \<Rightarrow> pure_res Panic)
    (case as_concat_type r of String r \<Rightarrow> ret r
      | Integer _ \<Rightarrow> as_string_value E n' r | Buffer _ \<Rightarrow> as_string_value E n' r | _ \<Rightarrow> pure_res Panic)"
    by (cases "as_concat_type r"; simp only: aml_value.case) (rule fuel_intros assms)+
  then show ?thesis
    unfolding concat_values_def
    by (cases "as_concat_type l"; simp only: aml_value.case) (rule fuel_intros assms | assumption)+
qed

lemma amono_concat_resources [fuel_intros]:
  "n \<le> n' \<Longrightarrow> amono (concat_resources E n l r) (concat_resources E n' l r)"
  unfolding concat_resources_def by (rule fuel_intros | assumption)+

lemma amono_mid_value [fuel_intros]:
  "n \<le> n' \<Longrightarrow> amono (mid_value E n v i l) (mid_value E n' v i l)"
  unfolding mid_value_def by (rule fuel_intros | assumption)+

lemma amono_to_integer_value [fuel_intros]:
  assumes "n \<le> n'"
  shows "amono (to_integer_value E n v) (to_integer_value E n' v)"
  unfolding to_integer_value_def
  by (cases v; simp only: aml_value.case) (rule fuel_intros assms)+

lemma pmono_def_concat [fuel_intros]:
  assumes "rec_le R R'"
  shows "pmono (def_concat E R) (def_concat E R')"
  unfolding def_concat_def by (rule fuel_intros assms)+

lemma pmono_def_concat_res [fuel_intros]:
  assumes "rec_le R R'"
  shows "pmono (def_concat_res E R) (def_concat_res E R')"
  unfolding def_concat_res_def by (rule fuel_intros assms)+

lemma pmono_def_mid [fuel_intros]:
  assumes "rec_le R R'"
  shows "pmono (def_mid E R) (def_mid E R')"
  unfolding def_mid_def by (rule fuel_intros assms)+

lemma pmono_package_element [fuel_intros]:
  assumes "rec_le R R'"
  shows "pmono (package_element R) (package_element R')"
  unfolding package_element_def by (rule fuel_intros assms)+

lemma package_loop_mono:
  assumes "rec_le R R'"
  shows "n \<le> n' \<Longrightarrow> flat_le (package_loop n R len input c) (package_loop n' R' len input c)"
proof (induction n arbitrary: n' input c)
  case 0
  then show ?case by simp
next
  case (Suc n)
  then obtain k where k: "n' = Suc k" "n \<le> k" by (cases n') auto
  from Suc.IH[OF k(2)] pmonoD[OF pmono_package_element[OF assms]] show ?case
    by (auto simp: k intro!: flat_le_and_then)
qed

lemma pmono_package_contents [fuel_intros]:
  assumes "rec_le R R'"
  shows "pmono (package_contents R len k) (package_contents R' len k)"
  unfolding pmono_def package_contents_def
  using package_loop_mono[OF assms rec_leD(1)[OF assms]] by (auto intro!: flat_le_and_then)

lemma pmono_def_package [fuel_intros]:
  assumes "rec_le R R'"
  shows "pmono (def_package E R) (def_package E R')"
  unfolding def_package_def by (rule fuel_intros assms)+

lemma pmono_def_to_integer [fuel_intros]:
  assumes "rec_le R R'"
  shows "pmono (def_to_integer E R) (def_to_integer E R')"
  unfolding def_to_integer_def by (rule fuel_intros assms)+

lemma amono_method_call [fuel_intros]:
  assumes "rec_le R R'"
  shows "amono (method_call E R path k vs) (method_call E R' path k vs)"
  unfolding method_call_def by (cases k; simp only: option.case) (rule fuel_intros assms)+

lemma pmono_method_invocation [fuel_intros]:
  assumes "rec_le R R'"
  shows "pmono (method_invocation E R) (method_invocation E R')"
  unfolding method_invocation_def by (rule fuel_intros assms)+

lemma pmono_expression_opcode [fuel_intros]:
  assumes "rec_le R R'"
  shows "pmono (expression_opcode E R) (expression_opcode E R')"
  unfolding expression_opcode_def by (rule fuel_intros assms)+

lemma pmono_def_fatal [fuel_intros]:
  assumes "rec_le R R'"
  shows "pmono (def_fatal E R) (def_fatal E R')"
  unfolding def_fatal_def by (rule fuel_intros assms)+

lemma pmono_def_if_else [fuel_intros]:
  assumes "rec_le R R'"
  shows "pmono (def_if_else E R) (def_if_else E R')"
  unfolding def_if_else_def by (rule fuel_intros assms)+

lemma pmono_def_return [fuel_intros]:
  assumes "rec_le R R'"
  shows "pmono (def_return R) (def_return R')"
  unfolding def_return_def by (rule fuel_intros assms)+

lemma while_loop_mono:
  assumes "rec_le R R'"
  shows "n \<le> n' \<Longrightarrow> amono (while_loop n R pred body) (while_loop n' R' pred body)"
proof (induction n arbitrary: n')
  case 0
  show ?case by (simp only: while_loop.simps(1) amono_fuel)
next
  case (Suc n)
  then obtain k where k: "n' = Suc k" "n \<le> k" by (cases n') auto
  show ?case
    unfolding k while_loop.simps(2) by (rule fuel_intros assms Suc.IH k)+
qed

lemma amono_run_while [fuel_intros]:
  assumes "rec_le R R'"
  shows "amono (run_while R v pred body) (run_while R' v pred body)"
  unfolding run_while_def by (rule fuel_intros while_loop_mono assms)+

lemma pmono_def_while [fuel_intros]:
  assumes "rec_le R R'"
  shows "pmono (def_while E R) (def_while E R')"
  unfolding def_while_def by (rule fuel_intros assms)+

lemma pmono_statement_opcode [fuel_intros]:
  assumes "rec_le R R'"
  shows "pmono (statement_opcode E R) (statement_opcode E R')"
  unfolding statement_opcode_def by (rule fuel_intros assms)+

lemma pmono_scoped_term_list [fuel_intros]:
  assumes "rec_le R R'"
  shows "pmono (scoped_term_list R head) (scoped_term_list R' head)"
  unfolding scoped_term_list_def by (rule fuel_intros assms)+

lemma pmono_def_name [fuel_intros]:
  assumes "rec_le R R'"
  shows "pmono (def_name R) (def_name R')"
  unfolding def_name_def by (rule fuel_intros assms)+

lemma pmono_def_scope [fuel_intros]:
  assumes "rec_le R R'"
  shows "pmono (def_scope E R) (def_scope E R')"
  unfolding def_scope_def by (rule fuel_intros assms)+

lemma pmono_namespace_modifier [fuel_intros]:
  assumes "rec_le R R'"
  shows "pmono (namespace_modifier E R) (namespace_modifier E R')"
  unfolding namespace_modifier_def by (rule fuel_intros assms)+

lemma pmono_create_field_of [fuel_intros]:
  assumes "rec_le R R'"
  shows "pmono (create_field_of E R op f len) (create_field_of E R' op f len)"
  unfolding create_field_of_def by (rule fuel_intros assms)+

lemma pmono_def_create_bit_field [fuel_intros]:
  assumes "rec_le R R'"
  shows "pmono (def_create_bit_field E R) (def_create_bit_field E R')"
  unfolding def_create_bit_field_def by (rule fuel_intros assms)+

lemma pmono_def_create_byte_field [fuel_intros]:
  assumes "rec_le R R'"
  shows "pmono (def_create_byte_field E R) (def_create_byte_field E R')"
  unfolding def_create_byte_field_def by (rule fuel_intros assms)+

lemma pmono_def_create_word_field [fuel_intros]:
  assumes "rec_le R R'"
  shows "pmono (def_create_word_field E R) (def_create_word_field E R')"
  unfolding def_create_word_field_def by (rule fuel_intros assms)+

lemma pmono_def_create_dword_field [fuel_intros]:
  assumes "rec_le R R'"
  shows "pmono (def_create_dword_field E R) (def_create_dword_field E R')"
  unfolding def_create_dword_field_def by (rule fuel_intros assms)+

lemma pmono_def_create_qword_field [fuel_intros]:
  assumes "rec_le R R'"
  shows "pmono (def_create_qword_field E R) (def_create_qword_field E R')"
  unfolding def_create_qword_field_def by (rule fuel_intros assms)+

lemma pmono_def_create_field [fuel_intros]:
  assumes "rec_le R R'"
  shows "pmono (def_create_field E R) (def_create_field E R')"
  unfolding def_create_field_def by (rule fuel_intros assms)+

lemma pmono_def_op_region [fuel_intros]:
  assumes "rec_le R R'"
  shows "pmono (def_op_region E R) (def_op_region E R')"
  unfolding def_op_region_def by (rule fuel_intros assms)+

lemma field_list_mono:
  "n \<le> n' \<Longrightarrow>
   flat_le (field_list n E len h flags off input c) (field_list n' E len h flags off input c)"
proof (induction n arbitrary: n' off input c)
  case 0
  then show ?case by simp
next
  case (Suc n)
  then obtain k where k: "n' = Suc k" "n \<le> k" by (cases n') auto
  from Suc.IH[OF k(2)] show ?case by (auto simp: k intro!: flat_le_and_then)
qed

lemma pmono_field_list [fuel_intros]:
  "n \<le> n' \<Longrightarrow> pmono (field_list n E len h flags off) (field_list n' E len h flags off)"
  unfolding pmono_def using field_list_mono by blast

lemma pmono_def_field [fuel_intros]:
  assumes "rec_le R R'"
  shows "pmono (def_field E R) (def_field E R')"
  unfolding def_field_def by (rule fuel_intros assms)+

lemma pmono_def_device [fuel_intros]:
  assumes "rec_le R R'"
  shows "pmono (def_device E R) (def_device E R')"
  unfolding def_device_def by (rule fuel_intros assms)+

lemma pmono_def_processor [fuel_intros]:
  assumes "rec_le R R'"
  shows "pmono (def_processor E R) (def_processor E R')"
  unfolding def_processor_def by (rule fuel_intros assms)+

lemma pmono_def_power_res [fuel_intros]:
  assumes "rec_le R R'"
  shows "pmono (def_power_res E R) (def_power_res E R')"
  unfolding def_power_res_def by (rule fuel_intros assms)+

lemma pmono_def_thermal_zone [fuel_intros]:
  assumes "rec_le R R'"
  shows "pmono (def_thermal_zone E R) (def_thermal_zone E R')"
  unfolding def_thermal_zone_def by (rule fuel_intros assms)+

lemma pmono_named_obj [fuel_intros]:
  assumes "rec_le R R'"
  shows "pmono (named_obj E R) (named_obj E R')"
  unfolding named_obj_def by (rule fuel_intros assms)+

lemma pmono_computational_data [fuel_intros]:
  assumes "rec_le R R'"
  shows "pmono (computational_data E R) (computational_data E R')"
  unfolding computational_data_def by (rule fuel_intros assms)+

lemma pmono_data_object [fuel_intros]:
  assumes "rec_le R R'"
  shows "pmono (data_object E R) (data_object E R')"
  unfolding data_object_def by (rule fuel_intros assms)+

lemma pmono_data_ref_object [fuel_intros]:
  assumes "rec_le R R'"
  shows "pmono (data_ref_object E R) (data_ref_object E R')"
  unfolding data_ref_object_def by (rule fuel_intros assms)+

lemma pmono_term_arg [fuel_intros]:
  assumes "rec_le R R'"
  shows "pmono (term_arg E R) (term_arg E R')"
  unfolding term_arg_def by (rule fuel_intros assms)+

lemma pmono_term_object [fuel_intros]:
  assumes "rec_le R R'"
  shows "pmono (term_object E R) (term_object E R')"
  unfolding term_object_def by (rule fuel_intros assms)+

lemma term_list_loop_mono:
  assumes "rec_le R R'"
  shows "n \<le> n' \<Longrightarrow> flat_le (term_list_loop n E R len input c) (term_list_loop n' E R' len input c)"
proof (induction n arbitrary: n' input c)
  case 0
  then show ?case by simp
next
  case (Suc n)
  then obtain k where k: "n' = Suc k" "n \<le> k" by (cases n') auto
  from Suc.IH[OF k(2)] pmonoD[OF pmono_term_object[OF assms]] show ?case
    by (auto simp: k intro!: flat_le_and_then)
qed

lemma pmono_term_list [fuel_intros]:
  assumes "rec_le R R'"
  shows "pmono (term_list E R len) (term_list E R' len)"
  unfolding pmono_def term_list_def
  using term_list_loop_mono[OF assms, of "Suc (r_fuel R)" "Suc (r_fuel R')"] rec_leD(1)[OF assms] by simp

subsection \<open>The interpreter\<close>

lemma interp_fields:
  "r_fuel (interp E (Suc n)) = Suc n"
  "r_term_arg (interp E (Suc n)) = term_arg E (interp E n)"
  "r_data_ref_object (interp E (Suc n)) = data_ref_object E (interp E n)"
  "r_term_list (interp E (Suc n)) len = term_list E (interp E n) len"
  by simp_all

lemma interp_Suc: "rec_le (interp E n) (interp E (Suc n))"
proof (induction n)
  case 0
  show ?case by (simp add: rec_le_def pmono_def)
next
  case (Suc n)
  show ?case
    unfolding rec_le_def
    by (intro conjI allI; simp only: interp_fields le_SucI order_refl) (rule fuel_intros Suc)+
qed

lemma rec_le_trans: "rec_le a b \<Longrightarrow> rec_le b d \<Longrightarrow> rec_le a d"
  unfolding rec_le_def pmono_def by (blast intro: flat_le_trans le_trans)

lemma rec_le_refl: "rec_le R R"
  by (simp add: rec_le_def pmono_refl)

lemma interp_mono: "n \<le> n' \<Longrightarrow> rec_le (interp E n) (interp E n')"
  by (induction rule: dec_induct) (blast intro: rec_le_refl rec_le_trans interp_Suc)+

lemma amono_parse_table [fuel_intros]:
  assumes "n \<le> n'"
  shows "amono (parse_table E n s) (parse_table E n' s)"
  unfolding parse_table_def by (rule fuel_intros interp_mono assms)+

lemma amono_invoke [fuel_intros]: "n \<le> n' \<Longrightarrow> amono (invoke E n path a) (invoke E n' path a)"
  unfolding invoke_def by (rule amono_invoke_method[OF interp_mono])

lemma amono_invoke_at [fuel_intros]:
  "n \<le> n' \<Longrightarrow> amono (invoke_at E n name path) (invoke_at E n' name path)"
  unfolding invoke_at_def by (rule fuel_intros | assumption)+

lemma amono_visit_level [fuel_intros]:
  assumes "n \<le> n'"
  shows "amono (visit_level E n path level) (visit_level E n' path level)"
  unfolding visit_level_def device_status_def
  by (cases "level_typ level"; simp only: level_type.case) (rule fuel_intros assms)+

lemma traverse_level_mono:
  assumes "\<And>path level. amono (f path level) (g path level)"
  shows "flat_le (traverse_level f cs scope st) (traverse_level g cs scope st)"
proof (induction cs arbitrary: scope st rule: measure_induct_rule[of "size_list (size_prod (\<lambda>_. 0) size)"])
  case (less cs)
  show ?case
  proof (cases cs)
    case (Cons p siblings)
    obtain seg child where p: "p = (seg, child)" by (cases p)
    have child: "flat_le (traverse_level f (children child) name st') (traverse_level g (children child) name st')"
      for name st'
      by (rule less) (cases child, simp add: Cons p)
    have siblings: "flat_le (traverse_level f siblings scope st') (traverse_level g siblings scope st')" for st'
      by (rule less) (simp add: Cons p)
    show ?thesis
      using assms child siblings
      by (auto simp: Cons p amono_def intro!: flat_le_and_then)
  qed simp
qed

lemma amono_initialize_objects:
  assumes "n \<le> n'"
  shows "amono (initialize_objects E n) (initialize_objects E n')"
proof -
  have "flat_le (traverse (ns c) (visit_level E n) c) (traverse (ns c) (visit_level E n') c)" for c
    using traverse_level_mono[of "visit_level E n" "visit_level E n'"] amono_visit_level[OF assms]
    by (auto simp: traverse_def amono_def intro!: flat_le_and_then)
  then have "amono (\<lambda>c. traverse (ns c) (visit_level E n) c) (\<lambda>c. traverse (ns c) (visit_level E n') c)"
    by (simp add: amono_def)
  then show ?thesis
    unfolding initialize_objects_def initialize_sb_def
    by (intro amono_bind) (rule fuel_intros assms | assumption)+
qed

end
