(* ===== verification/Aml_Examples.thy ===== *)
theory Aml_Examples
  imports Aml_Safety_Term Aml_Fuel
begin

section \<open>Example inputs\<close>

text \<open>
  Inputs on which the witnesses evaluate: the reference crates with a handler that answers every
  read with zero and returns from a fatal error, no native method of the host but one that
  fails, and the context before any object has been added.
\<close>

definition std_env :: aml_env where
  "std_env = crates.extend std_crates
     (aml_env.fields (\<lambda>_ _. 0) (\<lambda>_ _. 0) (\<lambda>_ _. 0) (\<lambda>_ _. 0) (\<lambda>_ _. 0) (\<lambda>_ _. 0) (\<lambda>_ _. 0)
        (\<lambda>_ _ _ _ _ _. 0) (\<lambda>_ _ _ _ _ _. 0) (\<lambda>_ _ _ _ _ _. 0) (\<lambda>_ _. True)
        (\<lambda>_. fail FatalError))"

definition blank_context :: aml_context where
  "blank_context =
     \<lparr>ns = namespace_new, method_ctx = None, current_scope = root_name, scope_indent = 0,
      verbosity = NoVerbosity, buffers = [], locked = [], io_log = []\<rparr>"

lemma std_env_simps:
  "get_bit_u8 std_env = get_bit_u8 std_crates" "get_bits_u8 std_env = get_bits_u8 std_crates"
  "set_bit_u8 std_env = set_bit_u8 std_crates" "set_bits_u8 std_env = set_bits_u8 std_crates"
  "get_bit_u64 std_env = get_bit_u64 std_crates" "get_bits_u64 std_env = get_bits_u64 std_crates"
  "set_bits_u64 std_env = set_bits_u64 std_crates" "view_bits std_env = view_bits std_crates"
  "bits_into_vec std_env = bits_into_vec std_crates" "le_read_u16 std_env = le_read_u16 std_crates"
  "le_read_u32 std_env = le_read_u32 std_crates" "le_read_uint std_env = le_read_uint std_crates"
  "host_native std_env = (\<lambda>_. fail FatalError)" "h_read_u8 std_env = (\<lambda>_ _. 0)"
  "h_returns std_env = (\<lambda>_ _. True)"
  by (simp_all add: std_env_def crates.extend_def aml_env.fields_def)

lemma std_env_host_ok: "host_ok std_env"
  by (simp add: host_ok_def std_env_simps) (rule asat_fail_any)

interpretation env_bf: bit_field_crate std_env
  by unfold_locales
    (simp_all add: std_env_simps std_bf.get_bit_u8 std_bf.get_bits_u8 std_bf.set_bit_u8
      std_bf.set_bits_u8 std_bf.get_bit_u64 std_bf.get_bits_u64 std_bf.get_bits_u64_range
      std_bf.set_bits_u64 std_bf.set_bits_u64_large)

interpretation env_bo: byteorder_crate std_env
  by unfold_locales
    (simp_all add: std_env_simps std_bo.le_read_u16 std_bo.le_read_u16_short std_bo.le_read_u32
      std_bo.le_read_u32_short std_bo.le_read_uint std_bo.le_read_uint_short)

interpretation env_bv: bitvec_crate std_env
  by unfold_locales
    (simp_all add: std_env_simps std_bv.length_view_bits std_bv.view_bits_nth
      std_bv.length_bits_into_vec std_bv.bits_into_vec_nth)

lemma blank_context_ok: "ctx_ok blank_context"
  by (simp add: ctx_ok_def blank_context_def root_name_def)
    (simp add: namespace_new_def)

text \<open>A namespace with one object, the integer five under the name \<open>\A\<close>.\<close>

definition seg_A :: name_seg where
  "seg_A = NameSeg 0x41 0x5F 0x5F 0x5F"

definition ns_A :: namespace where
  "ns_A = \<lparr>next_handle = 1, object_map = [(0, Integer 5)],
           root_level = NamespaceLevel ScopeLevel [] [(seg_A, 0)]\<rparr>"

lemma add_A_to_empty: "add_value namespace_new [Root, Segment seg_A] (Integer 5) = Ok (0, ns_A)"
  by (simp add: add_value_def namespace_new_def handle_increment_def get_level_for_path_mut_def
      split_path_def root_name_def write_level_def with_values_def level_new_def ns_A_def
      normalize_name_def is_normal_def Let_def List.map_filter_def)

lemma ns_A_simps [simp]:
  "object_at ns_A = [0 \<mapsto> Integer 5]" "level_at ns_A [] = Some (NamespaceLevel ScopeLevel [] [(seg_A, 0)])"
  "handle_at ns_A [] seg_A = Some 0"
  by (simp_all add: ns_A_def handle_at_def)

lemma ns_A_wf: "ns_wf ns_A"
proof -
  have "ns_wf ns_A \<and> ns_grows namespace_new ns_A"
    using add_value_wf[OF ns_wf_new, of "[Root, Segment seg_A]" "Integer 5"] by (simp add: add_A_to_empty)
  then show ?thesis by simp
qed

lemma search_A: "search ns_A [Segment seg_A] root_name = Ok ([Root, Segment seg_A], 0)"
  using search_seg[of ns_A seg_A "[]"] by (simp add: abs_path_def root_name_def)

text \<open>The same namespace with another object under the name.\<close>

definition ns_with :: "aml_value \<Rightarrow> namespace" where
  "ns_with v = ns_A\<lparr>object_map := [(0, v)]\<rparr>"

lemma ns_with_wf: "ns_wf (ns_with v)"
  using ns_A_wf by (auto simp: ns_wf_def ns_with_def handle_at_def split: if_splits)

lemma ns_with_simps [simp]:
  "children (root_level (ns_with v)) = []" "get_by_path (ns_with v) (abs_path [seg_A]) = Ok v"
proof -
  show "children (root_level (ns_with v)) = []" by (simp add: ns_with_def ns_A_def)
  have "get_handle (ns_with v) (abs_path ([] @ [seg_A])) = Ok 0"
    by (subst handle_at_get_handle) (simp add: ns_with_def ns_A_def handle_at_def)
  then show "get_by_path (ns_with v) (abs_path [seg_A]) = Ok v"
    by (simp add: get_by_path_def ns_get_def ns_with_def)
qed

end
