(* ===== verification/Parser_Correct.thy ===== *)
theory Parser_Correct
  imports Aml_Examples
begin

section \<open>Package lengths, names and constants\<close>

text \<open>
  The decoders of the byte code against encoders written after the grammar in the comments of
  \<open>pkg_length.rs\<close>, \<open>name_object.rs\<close> and \<open>term_object.rs\<close>: what an encoder writes is read back,
  and what follows it is left alone. The package length is also characterised on every input.
\<close>

subsection \<open>Package lengths\<close>

text \<open>
  \<open>PkgLength\<close>: a lead byte whose top two bits count the bytes that follow. Without any, its
  low six bits are the length; otherwise its low four bits are the length's low bits.
\<close>

definition follow_bytes :: "nat \<Rightarrow> nat" where
  "follow_bytes n = (if n < 64 then 0 else if n < 2 ^ 12 then 1 else if n < 2 ^ 20 then 2 else 3)"

definition encode_pkg_length :: "nat \<Rightarrow> bytes" where
  "encode_pkg_length n =
     (if n < 64 then [word_of_nat n]
      else word_of_nat (64 * follow_bytes n + n mod 16) # to_le_bytes (follow_bytes n) (n div 16))"

lemma unat_ucast_u8 [simp]: "unat (ucast (b :: u8) :: u32) = unat b" "unat (ucast b :: u64) = unat b"
  by (auto simp: unsigned_ucast_eq intro!: take_bit_nat_eq_self less_trans[OF unat_u8_lt])

lemma unat_push_u32:
  fixes b :: u8
  assumes "k + 8 \<le> 32"
  shows "unat (push_bit k (ucast b :: u32)) = unat b * 2 ^ k"
proof -
  have "unat b * 2 ^ k < 256 * 2 ^ k" by simp
  also have "256 * 2 ^ k = (2 :: nat) ^ (k + 8)" by (simp add: power_add)
  also have "\<dots> \<le> 2 ^ 32" using assms by (intro power_increasing) simp_all
  finally have "unat b * 2 ^ k < 2 ^ 32" .
  then show ?thesis
    by (subst unsigned_push_bit_eq) (simp add: push_bit_eq_mult take_bit_eq_mod)
qed

lemma fold_length_le_value:
  assumes "4 + 8 * (i + length bs) \<le> 32" "unat len < 2 ^ (4 + 8 * i)"
  shows "fold_length len i bs = Ok (word_of_nat (unat len + 2 ^ (4 + 8 * i) * le_value bs))"
  using assms
proof (induction len i bs rule: fold_length.induct)
  case (1 len i)
  then show ?case by simp
next
  case (2 len i b bs)
  let ?add = "push_bit (4 + i * 8) (ucast b) :: u32"
  let ?P = "2 ^ (4 + 8 * i) :: nat"
  have add: "unat ?add = unat b * ?P"
    using unat_push_u32[of "4 + i * 8" b] 2(2) by (simp add: mult.commute)
  have "unat len + unat b * ?P < ?P * 256"
  proof -
    have "unat b * ?P \<le> 255 * ?P" using unat_u8_lt[of b] by (intro mult_le_mono1) linarith
    with 2(3) show ?thesis by linarith
  qed
  also have "?P * 256 = 2 ^ (4 + 8 * Suc i)" by (simp add: power_add)
  finally have lt: "unat len + unat ?add < 2 ^ (4 + 8 * Suc i)" by (simp add: add)
  also have "(2 :: nat) ^ (4 + 8 * Suc i) \<le> 2 ^ 32"
    using 2(2) by (intro power_increasing) simp_all
  finally have small: "unat len + unat ?add < 2 ^ 32" .
  then have sum: "unat (len + ?add) = unat len + unat ?add"
    by (simp add: unat_word_ariths)
  with lt have lt': "unat (len + ?add) < 2 ^ (4 + 8 * Suc i)" by simp
  have "4 + 8 * (Suc i + length bs) \<le> 32" using 2(2) by simp
  note IH = 2(1)[OF refl small this lt']
  from small IH show ?case
    by (simp add: sum add algebra_simps power_add del: of_nat_add of_nat_mult)
qed

lemma le_value_take_bound: "le_value (take k bs) < 256 ^ k"
proof -
  have "le_value (take k bs) < 256 ^ length (take k bs)" by (rule le_value_bound)
  also have "\<dots> \<le> 256 ^ k" by (intro power_increasing) simp_all
  finally show ?thesis .
qed

context bit_field_crate
begin

lemma lead_bits:
  fixes b :: u8
  shows "get_bits_u8 K b 6 8 = drop_bit 6 b" "unat (get_bits_u8 K b 0 6) = unat b mod 64"
    "unat (get_bits_u8 K b 0 4) = unat b mod 16" "unat (drop_bit 6 b) = unat b div 64"
    "unat (drop_bit 6 b) < 4"
proof -
  show d: "unat (drop_bit 6 b) = unat b div 64"
    by (simp only: unsigned_drop_bit_eq) (simp add: drop_bit_eq_div take_bit_eq_mod)
  with unat_u8_lt[of b] show lt: "unat (drop_bit 6 b) < 4" by linarith
  have "take_bit 2 (drop_bit 6 b) = drop_bit 6 b"
    by (rule bit_word_eqI) (auto simp: bit_simps dest: bit_imp_le_length)
  then show "get_bits_u8 K b 6 8 = drop_bit 6 b" by (simp add: get_bits_u8)
  show "unat (get_bits_u8 K b 0 6) = unat b mod 64" "unat (get_bits_u8 K b 0 4) = unat b mod 16"
    by (simp only: get_bits_u8, simp only: drop_bit_0 id_apply diff_zero, subst unsigned_take_bit_eq,
        simp add: take_bit_eq_mod)+
qed

lemma raw_pkg_length_Cons:
  assumes "length rest < 2 ^ 32"
  shows "raw_pkg_length K (b # rest) c =
    (let k = unat b div 64 in
     if k = 0 then Ok (rest, c, word_of_nat (unat b mod 64))
     else if length rest < k then Err (b # rest, c, PErr UnexpectedEndOfStream)
     else Ok (drop k rest, c, word_of_nat (unat b mod 16 + 16 * le_value (take k rest))))"
proof -
  let ?k = "unat b div 64"
  have k: "unat (ucast (drop_bit 6 b) :: u32) = ?k"
    using lead_bits(4)[of b] by simp
  have zero: "drop_bit 6 b = 0 \<longleftrightarrow> ?k = 0"
    using lead_bits(4)[of b] by (simp add: unat_eq_zero[symmetric] del: unat_eq_zero)
  have less: "len_u32 rest < ucast (drop_bit 6 b) \<longleftrightarrow> length rest < ?k"
    using assms by (simp only: word_less_nat_alt k unat_len_u32_small)
  have low: "ucast (get_bits_u8 K b 0 6) = (word_of_nat (unat b mod 64) :: u32)"
    by (simp only: lead_bits(2)[symmetric]) (simp add: word_unat_eq_iff unat_of_nat)
  have fold: "fold_length (ucast (get_bits_u8 K b 0 4)) 0 (take ?k rest)
      = Ok (word_of_nat (unat b mod 16 + 16 * le_value (take ?k rest)))"
  proof (subst fold_length_le_value)
    show "4 + 8 * (0 + length (take ?k rest)) \<le> 32"
      using lead_bits(4,5)[of b] by simp
  qed (use lead_bits(3)[of b] in \<open>simp_all\<close>)
  show ?thesis
    by (simp add: raw_pkg_length_def take_parser_def lead_bits(1) zero low take_n_def less k fold Let_def
        del: unat_ucast_u8 of_nat_add of_nat_mult)
qed

end

text \<open>
  The package length parser never panics, whatever the stream holds: the addition of the
  bytes cannot overflow. When it succeeds it leaves the context alone, has consumed at least
  one byte, and the length is below $2^{28}$; on failure the stream is the one it was given.
\<close>

theorem raw_pkg_length_total:
  assumes "bit_field_crate K" "length input < 2 ^ 32"
  shows "(\<exists>rest len. raw_pkg_length K input c = Ok (rest, c, len) \<and> unat len < 2 ^ 28
            \<and> strict_suffix rest input)
         \<or> raw_pkg_length K input c = Err (input, c, PErr UnexpectedEndOfStream)"
proof (cases input)
  case Nil
  then show ?thesis by (simp add: raw_pkg_length_def take_parser_def)
next
  case (Cons b rest)
  let ?k = "unat b div 64"
  have "?k < 4" using unat_u8_lt[of b] by linarith
  then have "(256 :: nat) ^ ?k \<le> 256 ^ 3" by (intro power_increasing) simp_all
  with le_value_take_bound[of ?k rest] have "le_value (take ?k rest) < 256 ^ 3"
    by (rule less_le_trans)
  moreover have "x + 16 * y < 2 ^ 28" if "y < 256 ^ 3" "x < 16" for x y :: nat
    using that by simp
  ultimately have big: "unat b mod 16 + 16 * le_value (take ?k rest) < 2 ^ 28" by simp
  have small: "unat b mod 64 < 2 ^ 28" by (rule less_trans[of _ 64]) simp_all
  have unat: "unat (word_of_nat m :: u32) < 2 ^ 28" if "m < 2 ^ 28" for m
    using that by (simp add: unat_of_nat)
  have suf: "strict_suffix (drop ?k rest) (b # rest)"
    by (rule suffix_order.le_less_trans[of _ rest])
      (simp_all add: suffix_drop strict_suffix_def suffix_Cons)
  have "strict_suffix rest (b # rest)" by (simp add: strict_suffix_def suffix_Cons)
  with bit_field_crate.raw_pkg_length_Cons[OF assms(1), of rest b c] assms(2) Cons
    unat[OF big] unat[OF small] suf
  show ?thesis by (auto simp: Let_def)
qed

theorem raw_pkg_length_total_witness:
  "(\<exists>rest len. raw_pkg_length std_crates [0x41, 0x02] blank_context = Ok (rest, blank_context, len) \<and> unat len < 2 ^ 28
      \<and> strict_suffix rest [0x41, 0x02])
   \<or> raw_pkg_length std_crates [0x41, 0x02] blank_context = Err ([0x41, 0x02], blank_context, PErr UnexpectedEndOfStream)"
  by (rule raw_pkg_length_total[OF std_bf.bit_field_crate_axioms]) simp

lemma unat_lead:
  assumes "n < 2 ^ 28" "64 \<le> n"
  shows "unat (word_of_nat (64 * follow_bytes n + n mod 16) :: u8) = 64 * follow_bytes n + n mod 16"
    "0 < follow_bytes n" "n div 16 < 256 ^ follow_bytes n"
proof -
  have "follow_bytes n \<le> 3" by (simp add: follow_bytes_def)
  moreover have "n mod 16 < 16" by simp
  ultimately have "64 * follow_bytes n + n mod 16 < 256" by linarith
  then show "unat (word_of_nat (64 * follow_bytes n + n mod 16) :: u8) = 64 * follow_bytes n + n mod 16"
    by (simp only: unat_of_nat_u8 mod_less)
  show "0 < follow_bytes n" using assms by (simp add: follow_bytes_def)
  have "n div 16 < 256" if "n < 2 ^ 12" using that by (simp add: div_less_iff_less_mult)
  moreover have "n div 16 < 65536" if "n < 2 ^ 20" using that by (simp add: div_less_iff_less_mult)
  moreover have "n div 16 < 16777216" using assms(1) by (simp add: div_less_iff_less_mult)
  ultimately show "n div 16 < 256 ^ follow_bytes n" using assms(2) by (simp add: follow_bytes_def)
qed

lemma length_encode_pkg_length: "0 < length (encode_pkg_length n)" "length (encode_pkg_length n) \<le> 4"
  by (simp_all add: encode_pkg_length_def follow_bytes_def)

lemma raw_pkg_length_encode:
  assumes "bit_field_crate K" "n < 2 ^ 28" "length (encode_pkg_length n @ rest) < 2 ^ 32"
  shows "raw_pkg_length K (encode_pkg_length n @ rest) c = Ok (rest, c, word_of_nat n)"
proof (cases "n < 64")
  case True
  then have "unat (word_of_nat n :: u8) = n" by (simp add: unat_of_nat_u8)
  with bit_field_crate.raw_pkg_length_Cons[OF assms(1), of rest "word_of_nat n" c] True assms(3)
  show ?thesis by (simp add: encode_pkg_length_def Let_def)
next
  case False
  let ?f = "follow_bytes n"
  let ?tail = "to_le_bytes ?f (n div 16)"
  have lead: "unat (word_of_nat (64 * ?f + n mod 16) :: u8) = 64 * ?f + n mod 16"
    and f: "0 < ?f" and val: "n div 16 < 256 ^ ?f" using unat_lead[OF assms(2)] False by simp_all
  have "(64 * ?f + n mod 16) div 64 = ?f" "(64 * ?f + n mod 16) mod 16 = n mod 16"
    by (simp_all add: div_add1_eq mod_add_eq[symmetric, of "64 * ?f"] mod_mult_left_eq[symmetric, of 64])
  moreover have "le_value ?tail = n div 16" using val by (simp add: le_value_to_le_bytes)
  moreover have "n mod 16 + 16 * (n div 16) = n" by simp
  ultimately show ?thesis
    using bit_field_crate.raw_pkg_length_Cons[OF assms(1), of "?tail @ rest"
        "word_of_nat (64 * ?f + n mod 16)" c] assms(3) False f lead
    by (simp add: encode_pkg_length_def Let_def del: of_nat_add of_nat_mult)
qed

text \<open>The two halves of reading a package: its length, and what is left of it.\<close>

lemma pkg_length_encode:
  assumes "bit_field_crate K" "n < 2 ^ 28" "n = length (encode_pkg_length n @ body)"
    "length (encode_pkg_length n @ body @ rest) < 2 ^ 32"
  shows "pkg_length_parser K (encode_pkg_length n @ body @ rest) c
           = Ok (body @ rest, c, \<lparr>raw_length = word_of_nat n, end_offset = word_of_nat (length rest)\<rparr>)"
proof -
  let ?input = "encode_pkg_length n @ body @ rest"
  have un: "unat (word_of_nat n :: u32) = n" using assms(2) by (simp add: unat_of_nat)
  have len: "unat (len_u32 ?input) = n + length rest"
    using assms(3,4) by (simp only: unat_len_u32_small) simp
  have "checked_sub_u32 (len_u32 ?input) (word_of_nat n) = Some (word_of_nat (length rest))"
    using assms(4) by (simp only: checked_sub_u32_Some len un) (simp add: unat_of_nat)
  then show ?thesis
    using raw_pkg_length_encode[OF assms(1,2), of "body @ rest" c] assms(4)
    by (simp add: pkg_length_parser_def from_raw_length_def)
qed

lemma take_to_end_encode:
  assumes "length (body @ rest) < 2 ^ 32"
  shows "take_to_end_of_pkglength \<lparr>raw_length = l, end_offset = word_of_nat (length rest)\<rparr> (body @ rest) c
           = Ok (rest, c, body)"
proof -
  have "checked_sub_u32 (len_u32 (body @ rest)) (word_of_nat (length rest)) = Some (len_u32 body)"
    using assms by (simp only: checked_sub_u32_Some unat_len_u32) (simp add: unat_of_nat)
  moreover have "take_n (len_u32 body) (body @ rest) c = Ok (rest, c, body)"
    using assms by (simp add: take_n_def word_less_nat_alt unat_len_u32)
  ultimately show ?thesis by (simp add: take_to_end_of_pkglength_def)
qed

text \<open>
  C28. A package that the grammar's encoder has written is taken apart again: after the length
  field, the parser takes exactly the bytes of the package and leaves what follows it. The
  length counts its own bytes.
\<close>

theorem pkg_contents_roundtrip:
  assumes "bit_field_crate K" "n < 2 ^ 28" "n = length (encode_pkg_length n @ body)"
    "length (encode_pkg_length n @ body @ rest) < 2 ^ 32"
  shows "feed (pkg_length_parser K) take_to_end_of_pkglength (encode_pkg_length n @ body @ rest) c
           = Ok (rest, c, body)"
  using pkg_length_encode[OF assms, of c] take_to_end_encode[of body rest] assms(4) by (simp add: feed_def)

theorem pkg_contents_roundtrip_witness:
  "feed (pkg_length_parser std_crates) take_to_end_of_pkglength
     (encode_pkg_length 3 @ [0xAA, 0xBB] @ [0xCC]) blank_context
   = Ok ([0xCC], blank_context, [0xAA, 0xBB])"
  by (rule pkg_contents_roundtrip[OF std_bf.bit_field_crate_axioms])
    (simp_all add: encode_pkg_length_def)

subsection \<open>Names\<close>

text \<open>The encodings of a path and of what stands before it.\<close>

fun encode_path :: "name_seg list \<Rightarrow> bytes" where
  "encode_path [] = [0x00]"
| "encode_path [s] = seg_bytes s"
| "encode_path [s, t] = 0x2E # seg_bytes s @ seg_bytes t"
| "encode_path ss = 0x2F # word_of_nat (length ss) # concat (map seg_bytes ss)"

fun encode_head :: "name_component list \<Rightarrow> bytes" where
  "encode_head [] = []"
| "encode_head (Root # cs) = 0x5C # encode_head cs"
| "encode_head (Prefix # cs) = 0x5E # encode_head cs"
| "encode_head (Segment s # cs) = encode_head cs"

lemma name_seg_parser_encode:
  "valid_seg s \<Longrightarrow> name_seg_parser (seg_bytes s @ rest) c = Ok (rest, c, s)"
  by (cases s) (simp add: name_seg_parser_def consume_def)

lemma n_of_name_segs:
  "list_all valid_seg ss \<Longrightarrow>
   n_of name_seg_parser (length ss) (concat (map seg_bytes ss) @ rest) c = Ok (rest, c, ss)"
  by (induction ss) (simp_all add: name_seg_parser_encode)

lemma lead_char_not_op:
  assumes "is_lead_name_char b"
  shows "b \<noteq> 0" "b \<noteq> 0x2E" "b \<noteq> 0x2F" "b \<noteq> 0x5C" "b \<noteq> 0x5E"
  using assms by (auto simp: is_lead_name_char_def)

lemmas combinator_simps = choice.simps map_parser_def then_parser_def opcode_def from_components_def

lemma name_path_encode:
  assumes "list_all valid_seg ss" "length ss \<le> 255"
  shows "name_path (encode_path ss @ rest) c = Ok (rest, c, map Segment ss)"
proof (cases ss rule: encode_path.cases)
  case 1
  then show ?thesis by (simp add: name_path_def null_name_def combinator_simps)
next
  case (2 s)
  obtain w x y z where s: "s = NameSeg w x y z" by (cases s)
  with 2 assms have "is_lead_name_char w" by simp
  with 2 s assms name_seg_parser_encode[of s rest c] lead_char_not_op[of w] show ?thesis
    by (simp add: name_path_def null_name_def dual_name_path_def multi_name_path_def combinator_simps)
next
  case (3 s t)
  with assms name_seg_parser_encode[of s "seg_bytes t @ rest" c] name_seg_parser_encode[of t rest c]
  show ?thesis
    by (simp add: name_path_def null_name_def dual_name_path_def combinator_simps)
next
  case (4 s t u us)
  have "unat (word_of_nat (length ss) :: u8) = length ss"
    using assms(2) by (simp only: unat_of_nat_u8) simp
  with n_of_name_segs[OF assms(1), of rest c] 4 show ?thesis
    by (simp add: name_path_def null_name_def dual_name_path_def multi_name_path_def take_parser_def
        combinator_simps del: n_of.simps)
qed

lemma encode_path_first:
  assumes "list_all valid_seg ss"
  shows "\<exists>b bs. encode_path ss = b # bs \<and> b \<noteq> 0x5C \<and> b \<noteq> 0x5E"
proof (cases ss rule: encode_path.cases)
  case (2 s)
  with assms lead_char_not_op show ?thesis by (cases s) simp
qed simp_all

lemma take_while_prefixes:
  assumes "b \<noteq> 0x5E"
  shows "k < n \<Longrightarrow> take_while n (opcode 0x5E) (replicate k 0x5E @ b # bs) c = Ok (b # bs, c, k)"
proof (induction k arbitrary: n)
  case 0
  with assms show ?case by (cases n) (simp_all add: opcode_def)
next
  case (Suc k)
  then obtain m where "n = Suc m" "k < m" by (cases n) auto
  with Suc.IH[of m] show ?case by (simp add: opcode_def)
qed

lemma comment_scope_same:
  assumes "scope_indent c + 2 < 2 ^ 64"
    and "\<And>c'. p input c' = Ok (rest, c', r)"
  shows "comment_scope v p input c = Ok (rest, c, r)"
  using assms by (simp add: comment_scope_def indent_in_def indent_out_def indent_per_scope_def)

lemma encode_head_prefixes [simp]: "encode_head (replicate k Prefix) = replicate k 0x5E"
  by (induction k) simp_all

lemma name_string_encode:
  assumes "list_all valid_seg ss" "length ss \<le> 255" "head = [Root] \<or> head = replicate k Prefix"
    "head @ map Segment ss \<noteq> []" "scope_indent c + 2 < 2 ^ 64"
  shows "name_string (encode_head head @ encode_path ss @ rest) c = Ok (rest, c, head @ map Segment ss)"
  unfolding name_string_def
proof (rule comment_scope_same[OF assms(5)], goal_cases)
  case (1 c')
  obtain b bs where first: "encode_path ss = b # bs" "b \<noteq> 0x5C" "b \<noteq> 0x5E"
    using encode_path_first[OF assms(1)] by blast
  note path = name_path_encode[OF assms(1,2), of rest c', unfolded first(1)]
  from assms(3) consider "head = [Root]" | "head = []" | j where "head = replicate (Suc j) Prefix"
    by (cases k) auto
  then show ?case
  proof cases
    case 1
    with first path show ?thesis
      by (simp add: root_name_string_def combinator_simps)
  next
    case 2
    with first path assms(4) show ?thesis
      by (simp add: map_parser_def from_components_def)
  next
    case (3 j)
    note tw = take_while_prefixes[OF first(3), of "Suc j" "Suc (length (replicate (Suc j) 0x5E @ b # bs @ rest))"
        "bs @ rest" c']
    with 3 first path show ?thesis
      by (simp add: prefix_path_def map_parser_def then_parser_def from_components_def del: take_while.simps)
  qed
qed

text \<open>
  C27. Encoding a name and parsing it gives the name back, for absolute names, names with any
  number of prefix characters and plain paths, of up to 255 segments; the parser consumes the
  encoding exactly and leaves the context as it was.
\<close>

theorem name_string_roundtrip:
  assumes "list_all valid_seg ss" "length ss \<le> 255" "head = [Root] \<or> head = replicate k Prefix"
    "head @ map Segment ss \<noteq> []" "scope_indent c + 2 < 2 ^ 64"
  shows "name_string (encode_head head @ encode_path ss @ rest) c = Ok (rest, c, head @ map Segment ss)"
  using assms by (rule name_string_encode)

theorem name_string_roundtrip_witness:
  "name_string (encode_head [Prefix, Prefix] @ encode_path [NameSeg 0x41 0x42 0x43 0x5F] @ [0x99])
     blank_context
   = Ok ([0x99], blank_context, [Prefix, Prefix] @ map Segment [NameSeg 0x41 0x42 0x43 0x5F])"
  by (rule name_string_roundtrip[where k = "Suc (Suc 0)"])
    (simp_all add: is_lead_name_char_def is_name_char_def blank_context_def)

lemma take_while_opcode_ends:
  "length input < n \<Longrightarrow> take_while n (opcode op) input c \<noteq> OutOfFuel"
proof (induction n arbitrary: input)
  case (Suc n)
  then show ?case
    by (cases input) (auto simp: opcode_def and_then_def split: res.splits)
qed simp

text \<open>Parsers that never use up their fuel, and the combinators that keep this.\<close>

definition ends :: "'r parser \<Rightarrow> bool" where
  "ends p \<longleftrightarrow> (\<forall>input c. p input c \<noteq> OutOfFuel)"

named_theorems ends_intros \<open>parsers that never run out of fuel\<close>

lemma and_then_fuel: "and_then r f = OutOfFuel \<longleftrightarrow> r = OutOfFuel \<or> (\<exists>x. r = Ok x \<and> f x = OutOfFuel)"
  by (cases r) simp_all

lemma map_err_not_fuel: "map_err f r = OutOfFuel \<longleftrightarrow> r = OutOfFuel"
  by (cases r) simp_all

lemma ends_simple [ends_intros]:
  "ends (opcode op)" "ends take_parser" "ends name_seg_parser" "ends id_parser" "ends (take_n n)"
  "ends take_u16" "ends take_u32"
  by (auto simp: ends_def opcode_def take_parser_def name_seg_parser_def consume_def id_parser_def
      take_n_def take_u16_def take_u32_def and_then_fuel split: list.splits)

lemma ends_comment_scope [ends_intros]: "ends p \<Longrightarrow> ends (comment_scope v p)"
  by (auto simp: ends_def comment_scope_def indent_in_def indent_out_def and_then_fuel)

lemma ends_map_parser [ends_intros]: "ends p \<Longrightarrow> (\<And>x. f x \<noteq> OutOfFuel) \<Longrightarrow> ends (map_parser p f)"
  by (auto simp: ends_def map_parser_def map_err_not_fuel and_then_fuel)

lemma ends_map_with_context [ends_intros]:
  "ends p \<Longrightarrow> (\<And>x c. f x c \<noteq> OutOfFuel) \<Longrightarrow> ends (map_with_context p f)"
  by (auto simp: ends_def map_with_context_def map_err_not_fuel and_then_fuel)

lemma ends_then [ends_intros]: "ends p \<Longrightarrow> ends q \<Longrightarrow> ends (then_parser p q)"
  by (auto simp: ends_def then_parser_def and_then_fuel)

lemma ends_feed [ends_intros]: "ends p \<Longrightarrow> (\<And>x. ends (f x)) \<Longrightarrow> ends (feed p f)"
  by (auto simp: ends_def feed_def and_then_fuel)

lemma ends_discard [ends_intros]: "ends p \<Longrightarrow> ends (discard_result p)"
  by (auto simp: ends_def discard_result_def and_then_fuel)

lemma ends_choice [ends_intros]: "list_all ends ps \<Longrightarrow> ends (choice ps)"
proof (induction ps)
  case (Cons p ps)
  then have "p input c \<noteq> OutOfFuel" "choice ps input c \<noteq> OutOfFuel" for input c
    by (simp_all add: ends_def)
  then show ?case by (auto simp: ends_def split: res.split)
qed (simp add: ends_def)

lemma ends_list [ends_intros]:
  "list_all ends []" "ends p \<Longrightarrow> list_all ends ps \<Longrightarrow> list_all ends (p # ps)"
  by simp_all

lemma ends_n_of [ends_intros]:
  assumes "ends p"
  shows "ends (n_of p n)"
proof (induction n)
  case (Suc n)
  with assms show ?case
    by (auto simp: ends_def map_err_not_fuel and_then_fuel)
qed (simp add: ends_def)

lemma ends_multi_name_path [ends_intros]: "ends multi_name_path"
proof -
  have "ends (then_parser (opcode 0x2F) take_parser)" "ends (n_of name_seg_parser k)" for k
    by (rule ends_intros)+
  then show ?thesis
    by (auto simp: ends_def multi_name_path_def map_err_not_fuel and_then_fuel)
qed

lemma ends_name_path [ends_intros]: "ends name_path"
  unfolding name_path_def null_name_def dual_name_path_def
  by (rule ends_intros | simp add: split_beta)+

lemma ends_prefix_path: "prefix_path input c \<noteq> OutOfFuel"
proof -
  have "take_while (Suc (length input)) (opcode 0x5E) input c \<noteq> OutOfFuel"
    by (rule take_while_opcode_ends) simp
  with ends_name_path show ?thesis
    by (auto simp: prefix_path_def map_parser_def then_parser_def from_components_def map_err_not_fuel
        ends_def and_then_fuel simp del: take_while.simps)
qed

lemma ends_root_name_string: "ends root_name_string"
  unfolding root_name_string_def by (rule ends_intros | simp add: split_beta from_components_def)+

text \<open>
  Parsing a name always ends: the bound on the rounds of \<open>take_while\<close>, one more than the
  bytes of the stream, is never used up.
\<close>

theorem name_string_terminates: "name_string input c \<noteq> OutOfFuel"
proof -
  have "ends (map_parser name_path (\<lambda>path. if length path = 0 then Err (PErr EmptyNamesAreInvalid)
          else from_components path))"
    by (rule ends_intros | simp add: from_components_def)+
  then have "ends name_string"
    unfolding name_string_def using ends_prefix_path ends_root_name_string
    by (intro ends_comment_scope) (auto simp: ends_def split: list.split)
  then show ?thesis by (simp add: ends_def)
qed

subsection \<open>Constants\<close>

definition encode_integer :: "u64 \<Rightarrow> bytes" where
  "encode_integer w =
     (let n = unat w in
      if w = 0 then [0x00] else if w = 1 then [0x01] else if w = - 1 then [0xFF]
      else if n < 2 ^ 8 then 0x0A # to_le_bytes 1 n
      else if n < 2 ^ 16 then 0x0B # to_le_bytes 2 n
      else if n < 2 ^ 32 then 0x0C # to_le_bytes 4 n
      else 0x0E # to_le_bytes 8 n)"

lemma take_bytes: "take n (to_le_bytes n x @ rest) = to_le_bytes n x" "drop n (to_le_bytes n x @ rest) = rest"
  by simp_all

lemma unat_ucast_narrow:
  assumes "x < 2 ^ LENGTH('a)" "LENGTH('a) \<le> 64"
  shows "unat (ucast (word_of_nat x :: 'a::len word) :: u64) = x"
proof -
  have "x < 2 ^ 64" using assms(1) power_increasing[OF assms(2), of "2 :: nat"] by simp
  then show ?thesis using assms(1)
    by (simp only: unsigned_ucast_eq unat_of_nat) (simp add: take_bit_nat_eq_self)
qed

lemma const_parser_integer: "const_parser (encode_integer w @ rest) c = Ok (rest, c, Integer w)"
proof -
  have w64: "unat w < 256 ^ 8" using unsigned_less[of w, where 'a = nat] by simp
  have one: "to_le_bytes (Suc 0) x = [word_of_nat x]" for x by (simp add: to_le_bytes_def)
  show ?thesis
    using w64 unat_ucast_narrow[where 'a = 8, of "unat w"] unat_ucast_narrow[where 'a = 16, of "unat w"]
      unat_ucast_narrow[where 'a = 32, of "unat w"]
    by (simp add: encode_integer_def Let_def const_parser_def take_parser_def zero_def one_def ones_def
        map_parser_def take_u16_def take_u32_def take_u64_def le_value_to_le_bytes one
        word_unat_eq_iff[of _ w])
qed

text \<open>
  Every 64-bit integer, encoded in the shortest of the forms of the grammar, is read back
  as the same integer from a stream that goes on with anything.
\<close>

theorem integer_constant_roundtrip:
  assumes "scope_indent c + 2 < 2 ^ 64"
  shows "computational_data E R (encode_integer w @ rest) c = Ok (rest, c, Integer w)"
proof -
  have "\<exists>b bs. encode_integer w = b # bs \<and> b \<noteq> 0x5b"
    by (simp add: encode_integer_def Let_def)
  then have "ext_opcode 0x30 (encode_integer w @ rest) c' = Err (encode_integer w @ rest, c', PErr WrongParser)" for c'
    by (auto simp: ext_opcode_def discard_result_def then_parser_def opcode_def)
  then show ?thesis
    unfolding computational_data_def
    by (intro comment_scope_same[OF assms]) (simp add: map_parser_def const_parser_integer)
qed

theorem integer_constant_roundtrip_witness:
  "computational_data std_env (interp std_env 0) (encode_integer 0x1234 @ [0x99]) blank_context
     = Ok ([0x99], blank_context, Integer 0x1234)"
  by (rule integer_constant_roundtrip) (simp add: blank_context_def)

lemma nul_position_append: "0 \<notin> set bs \<Longrightarrow> nul_position (bs @ 0 # rest) = Some (length bs)"
  by (induction bs) auto

lemma nul_position_None: "0 \<notin> set bs \<Longrightarrow> nul_position bs = None"
  by (induction bs) auto

text \<open>
  A string constant: any bytes without a zero that are well-formed UTF-8, up to the zero
  that ends them, are the string; ill-formed bytes and a missing zero are the errors the
  sources name for them.
\<close>

theorem string_constant_roundtrip:
  assumes "0 \<notin> set bs" "scope_indent c + 2 < 2 ^ 64" "verbosity c = NoVerbosity"
  shows "computational_data E R (0x0D # bs @ 0 # rest) c =
           (if utf8_valid bs then Ok (rest, c, String (string_of_bytes bs))
            else Err (0x0D # bs @ 0 # rest, c, PErr InvalidStringConstant))
         \<and> computational_data E R (0x0D # bs) c =
             Err (0x0D # bs, c, PErr UnterminatedStringConstant)"
  using assms
  by (simp add: computational_data_def comment_scope_def indent_in_def indent_out_def map_parser_def
      ext_opcode_def discard_result_def then_parser_def opcode_def const_parser_def take_parser_def
      string_parser_def nul_position_append nul_position_None)

theorem string_constant_roundtrip_witness:
  "computational_data std_env (interp std_env 0) (0x0D # [0x41, 0x42] @ 0 # [0x99]) blank_context =
     (if utf8_valid [0x41, 0x42] then Ok ([0x99], blank_context, String (string_of_bytes [0x41, 0x42]))
      else Err (0x0D # [0x41, 0x42] @ 0 # [0x99], blank_context, PErr InvalidStringConstant))
   \<and> computational_data std_env (interp std_env 0) (0x0D # [0x41, 0x42]) blank_context =
       Err (0x0D # [0x41, 0x42], blank_context, PErr UnterminatedStringConstant)"
  by (rule string_constant_roundtrip) (simp_all add: blank_context_def)

end
