(* ===== verification/Value_Correct.thy ===== *)
theory Value_Correct
  imports Aml_Examples
begin

section \<open>Values, fields and targets\<close>

text \<open>
  What the conversions of \<open>value.rs\<close> compute, bit by bit: buffer fields, integers in buffers,
  status objects, method flags, comparisons; what a store to an argument, a local or a named
  object leaves behind; and which accesses a field of an operation region makes.
\<close>

subsection \<open>Bits of byte strings\<close>

lemma bit_add_256:
  assumes "x < 2 ^ 8"
  shows "bit (x + 256 * m :: nat) i = (if i < 8 then bit x i else bit m (i - 8))"
proof -
  have x: "\<not> bit x j" if "8 \<le> j" for j
  proof -
    have "x < 2 ^ j" using assms power_increasing[OF that, of "2 :: nat"] by simp
    then show ?thesis by (simp add: bit_iff_odd)
  qed
  have m: "256 * m = push_bit 8 m" by (simp add: push_bit_eq_mult)
  have "x + push_bit 8 m = x OR push_bit 8 m"
    by (rule disjunctive_add) (auto simp: bit_push_bit_iff x)
  then show ?thesis
    using x by (auto simp: m bit_or_iff bit_push_bit_iff)
qed

lemma bit_le_value:
  "bit (le_value bs) i \<longleftrightarrow> i < 8 * length bs \<and> bit (bs ! (i div 8)) (i mod 8)"
proof (induction bs arbitrary: i)
  case (Cons b bs)
  have "unat b < 2 ^ 8" using unat_u8_lt[of b] by simp
  then have "bit (le_value (b # bs)) i = (if i < 8 then bit (unat b) i else bit (le_value bs) (i - 8))"
    by (simp only: le_value.simps bit_add_256)
  then show ?case
    using Cons[of "i - 8"] by (auto simp: bit_unsigned_iff le_div_geq le_mod_geq less_diff_conv2
        dest: bit_imp_le_length)
qed simp

lemma to_le_bytes_nth: "i < n \<Longrightarrow> to_le_bytes n x ! i = word_of_nat (x div 256 ^ i)"
  by (simp add: to_le_bytes_def)

lemma bit_to_le_bytes:
  assumes "i < 8 * n"
  shows "bit (to_le_bytes n x ! (i div 8)) (i mod 8) = bit x i"
proof -
  have "(256 :: nat) ^ k = 2 ^ (8 * k)" for k by (simp add: power_mult)
  then have "bit (x div 256 ^ (i div 8)) (i mod 8) = bit x (8 * (i div 8) + i mod 8)"
    by (simp only: drop_bit_eq_div[symmetric] bit_drop_bit_eq comp_apply)
  moreover have "i div 8 < n" using assms by (simp add: div_less_iff_less_mult mult.commute)
  ultimately show ?thesis
    by (simp add: to_le_bytes_nth bit_of_nat_iff)
qed

context bitvec_crate
begin

lemma view_bits_into_vec:
  assumes "length xs = 8 * n"
  shows "view_bits K (bits_into_vec K xs) = xs" "length (bits_into_vec K xs) = n"
proof -
  show len: "length (bits_into_vec K xs) = n"
    using assms by (simp add: length_bits_into_vec)
  show "view_bits K (bits_into_vec K xs) = xs"
    by (rule nth_equalityI)
      (use assms len in \<open>simp_all add: length_view_bits view_bits_nth bits_into_vec_nth\<close>)
qed

lemma view_u64:
  "i < 64 \<Longrightarrow> view_bits K (to_le_bytes 8 (unat w)) ! i = bit (w :: u64) i"
  by (simp add: view_bits_nth bit_to_le_bytes bit_unsigned_iff)

lemma u64_of_bits_bit:
  assumes "length bits \<le> 64" "i < 64"
  shows "bit (u64_of_bits K bits) i = (i < length bits \<and> bits ! i)"
proof -
  let ?xs = "bits @ replicate (64 - length bits) False"
  have "length ?xs = 8 * 8" using assms(1) by simp
  note vec = view_bits_into_vec[OF this]
  have "bit (bits_into_vec K ?xs ! (i div 8)) (i mod 8) = ?xs ! i"
    using bits_into_vec_nth[of i ?xs] vec(2) assms by simp
  then show ?thesis
    using assms vec(2) by (auto simp: u64_of_bits_def bit_of_nat_iff bit_le_value nth_append)
qed

end

subsection \<open>Buffer fields\<close>

lemma with_lock_free:
  assumes "r \<notin> set (locked c)"
  shows "with_lock r f c =
    (case f (buffer_data c r) (c\<lparr>locked := r # locked c\<rparr>) of
       Ok (x, c') \<Rightarrow> Ok (x, unlock r c') | Err (e, c') \<Rightarrow> Err (e, unlock r c')
     | Panic \<Rightarrow> Panic | Deadlock \<Rightarrow> Deadlock | OutOfFuel \<Rightarrow> OutOfFuel)"
  using assms by (simp add: with_lock_def)

lemma relock [simp]: "unlock r (c\<lparr>locked := r # locked c\<rparr>) = c"
  "unlock r (c\<lparr>locked := r # locked c, buffers := bs\<rparr>) = c\<lparr>buffers := bs\<rparr>"
  by (simp_all add: unlock_def)

definition buffer_bit :: "aml_context \<Rightarrow> buf_ref \<Rightarrow> nat \<Rightarrow> bool" where
  "buffer_bit c r i = bit (buffer_data c r ! (i div 8)) (i mod 8)"

definition field_in_range :: "aml_context \<Rightarrow> buf_ref \<Rightarrow> u64 \<Rightarrow> u64 \<Rightarrow> bool" where
  "field_in_range c r offset len \<longleftrightarrow>
     r < length (buffers c) \<and> r \<notin> set (locked c) \<and> 8 * length (buffer_data c r) < 2 ^ 64
     \<and> unat offset + unat len \<le> 8 * length (buffer_data c r)"

context bitvec_crate
begin

lemma write_buffer_field_integer:
  fixes w :: u64
  assumes range: "field_in_range c r offset len" and len: "unat len \<le> 64"
  defines "bits \<equiv> view_bits K (buffer_data c r)"
  defines "bits' \<equiv> take (unat offset) bits @ take (unat len) (view_bits K (to_le_bytes 8 (unat w)))
      @ drop (unat offset + unat len) bits"
  shows "write_buffer_field K (BufferField r offset len) (Integer w) c
       = Ok ((), c\<lparr>buffers := (buffers c)[r := bits_into_vec K bits']\<rparr>)"
proof -
  have src: "length (view_bits K (to_le_bytes 8 (unat w))) = 64" by (simp add: length_view_bits)
  have "copy_bits bits offset len (view_bits K (to_le_bytes 8 (unat w)))
      = (Ok bits' :: (bool list, aml_error) res)"
    using range len src
    by (simp add: copy_bits_def bits_def bits'_def field_in_range_def length_view_bits min_def Let_def)
  with range show ?thesis
    by (simp add: write_buffer_field_def with_lock_free field_in_range_def act_bind_def reads_def
        write_buffer_def bits_def)
qed

lemma read_buffer_field_small:
  assumes "field_in_range c r offset len" and "unat len \<le> 64"
  shows "read_buffer_field K (BufferField r offset len) c
       = Ok (Integer (u64_of_bits K (take (unat len) (drop (unat offset) (view_bits K (buffer_data c r))))), c)"
proof -
  have "unat offset + unat len < 2 ^ 64" using assms(1) by (simp add: field_in_range_def)
  then have "add_u64 offset len = (Ok (offset + len) :: (u64, aml_error) res)"
    "unat (offset + len) = unat offset + unat len"
    by (simp_all add: add_u64_def unat_word_ariths)
  with assms show ?thesis
    by (simp add: read_buffer_field_def with_lock_free field_in_range_def act_bind_def reads_def Let_def
        mult.commute)
qed

text \<open>Reading a field of at most 64 bits gives the bits of the buffer.\<close>

lemma read_buffer_field_bits:
  assumes range: "field_in_range c r offset len" and len: "unat len \<le> 64"
  shows "\<exists>v. read_buffer_field K (BufferField r offset len) c = Ok (Integer v, c)
       \<and> (\<forall>i < 64. bit v i = (i < unat len \<and> buffer_bit c r (unat offset + i)))"
  using range len
  by (simp add: read_buffer_field_small)
    (auto simp: u64_of_bits_bit length_view_bits view_bits_nth buffer_bit_def field_in_range_def)

lemma write_buffer_field_bits:
  assumes range: "field_in_range c r offset len" and len: "unat len \<le> 64"
  shows "\<exists>data. write_buffer_field K (BufferField r offset len) (Integer w) c
            = Ok ((), c\<lparr>buffers := (buffers c)[r := data]\<rparr>)
       \<and> length data = length (buffer_data c r)
       \<and> (\<forall>i < 8 * length data. bit (data ! (i div 8)) (i mod 8) =
            (if unat offset \<le> i \<and> i < unat offset + unat len then bit w (i - unat offset)
             else buffer_bit c r i))"
proof -
  define bits where "bits = view_bits K (buffer_data c r)"
  define src where "src = view_bits K (to_le_bytes 8 (unat w))"
  define bits' where "bits' = take (unat offset) bits @ take (unat len) src @ drop (unat offset + unat len) bits"
  have l: "length src = 64" "length bits = 8 * length (buffer_data c r)"
    by (simp_all add: src_def bits_def length_view_bits)
  with range len have len': "length bits' = 8 * length (buffer_data c r)"
    by (simp add: bits'_def field_in_range_def)
  note vec = view_bits_into_vec[OF len']
  have bit: "bits' ! i = (if unat offset \<le> i \<and> i < unat offset + unat len then bit w (i - unat offset)
             else buffer_bit c r i)" if "i < 8 * length (buffer_data c r)" for i
    using that range len l
    by (auto simp: bits'_def nth_append field_in_range_def src_def bits_def view_bits_nth
        bit_to_le_bytes bit_unsigned_iff buffer_bit_def min_def)
  show ?thesis
    using write_buffer_field_integer[OF range len, of w] vec bit len'
    by (intro exI[of _ "bits_into_vec K bits'"])
      (simp add: bits_def src_def bits'_def[unfolded bits_def src_def] bits_into_vec_nth)
qed

end

text \<open>
  C29. Writing an integer to a buffer field and reading the field back gives the integer cut to
  the width of the field; every bit of the buffer outside the field, every other buffer and the
  length of the buffer stay as they are. The field may lie across byte boundaries.
\<close>

theorem buffer_field_write_read:
  assumes "bitvec_crate K" "field_in_range c r offset len" "unat len \<le> 64"
  shows "\<exists>c'. write_buffer_field K (BufferField r offset len) (Integer w) c = Ok ((), c')
       \<and> read_buffer_field K (BufferField r offset len) c' = Ok (Integer (take_bit (unat len) w), c')
       \<and> length (buffer_data c' r) = length (buffer_data c r)
       \<and> (\<forall>i < 8 * length (buffer_data c r). i < unat offset \<or> unat offset + unat len \<le> i \<longrightarrow>
            buffer_bit c' r i = buffer_bit c r i)
       \<and> (\<forall>r'. r' \<noteq> r \<longrightarrow> buffer_data c' r' = buffer_data c r')"
proof -
  from bitvec_crate.write_buffer_field_bits[OF assms, of w] obtain data where
    w: "write_buffer_field K (BufferField r offset len) (Integer w) c
          = Ok ((), c\<lparr>buffers := (buffers c)[r := data]\<rparr>)"
    and len: "length data = length (buffer_data c r)"
    and bits: "\<And>i. i < 8 * length data \<Longrightarrow> bit (data ! (i div 8)) (i mod 8) =
       (if unat offset \<le> i \<and> i < unat offset + unat len then bit w (i - unat offset)
        else buffer_bit c r i)"
    by blast
  let ?c' = "c\<lparr>buffers := (buffers c)[r := data]\<rparr>"
  have data: "buffer_data ?c' r = data" using assms(2) by (simp add: buffer_data_def field_in_range_def)
  with assms(2) len have range: "field_in_range ?c' r offset len" by (simp add: field_in_range_def)
  from bitvec_crate.read_buffer_field_bits[OF assms(1) range assms(3)] obtain v where
    r: "read_buffer_field K (BufferField r offset len) ?c' = Ok (Integer v, ?c')"
    and v: "\<And>i. i < 64 \<Longrightarrow> bit v i = (i < unat len \<and> buffer_bit ?c' r (unat offset + i))"
    by blast
  have "v = take_bit (unat len) w"
  proof (rule bit_word_eqI)
    fix i assume "i < LENGTH(64)"
    then show "bit v i = bit (take_bit (unat len) w) i"
      using range bits[of "unat offset + i"] by (auto simp: v bit_take_bit_iff buffer_bit_def data field_in_range_def)
  qed
  with w r len bits show ?thesis
    by (intro exI[of _ ?c']) (auto simp: data buffer_bit_def, simp add: buffer_data_def)
qed

lemma buffer_example:
  "field_in_range (blank_context\<lparr>buffers := [[0xFF, 0xFF, 0xFF]]\<rparr>) 0 5 9"
  by (simp add: field_in_range_def blank_context_def buffer_data_def)

theorem buffer_field_write_read_witness:
  "\<exists>c'. write_buffer_field std_crates (BufferField 0 5 9) (Integer 0x3A5)
          (blank_context\<lparr>buffers := [[0xFF, 0xFF, 0xFF]]\<rparr>) = Ok ((), c')
     \<and> read_buffer_field std_crates (BufferField 0 5 9) c' = Ok (Integer (take_bit 9 0x3A5), c')"
  using buffer_field_write_read[OF std_bv.bitvec_crate_axioms buffer_example, of "0x3A5"] by auto

subsection \<open>Integers, status objects and flags\<close>

lemma fold_le_bytes_le_value: "fold_le_bytes bs = word_of_nat (le_value bs)"
proof (induction bs)
  case (Cons b bs)
  have "(word_of_nat (unat b) :: u64) = ucast b" by simp
  with Cons show ?case
    by (simp add: fold_le_bytes_def push_bit_eq_mult mult.commute)
qed (simp add: fold_le_bytes_def)

text \<open>
  The integer of a buffer is the little-endian value of its first eight bytes, and of all
  of them if there are fewer; with one unit of fuel the conversion returns.
\<close>

theorem as_integer_buffer:
  assumes "r < length (buffers c)" "r \<notin> set (locked c)"
  shows "\<exists>w. as_integer E (Suc n) (Buffer r) c = Ok (w, c) \<and> unat w = le_value (take 8 (buffers c ! r))"
proof -
  have "le_value (take 8 (buffers c ! r)) < 256 ^ length (take 8 (buffers c ! r))" by (rule le_value_bound)
  also have "(256 :: nat) ^ length (take 8 (buffers c ! r)) \<le> 256 ^ 8" by (intro power_increasing) simp_all
  finally have "unat (word_of_nat (le_value (take 8 (buffers c ! r))) :: u64) = le_value (take 8 (buffers c ! r))"
    by (simp add: unat_of_nat)
  with assms show ?thesis
    by (simp add: with_lock_free ret_def fold_le_bytes_le_value buffer_data_def)
qed

theorem as_integer_buffer_witness:
  "\<exists>w. as_integer std_env (Suc 0) (Buffer 0) (blank_context\<lparr>buffers := [[0x34, 0x12]]\<rparr>)
       = Ok (w, blank_context\<lparr>buffers := [[0x34, 0x12]]\<rparr>) \<and> unat w = 0x1234"
  using as_integer_buffer[of 0 "blank_context\<lparr>buffers := [[0x34, 0x12]]\<rparr>" std_env 0]
  by (simp add: blank_context_def)

text \<open>
  \<open>as_status\<close>: the five low bits of an integer are the five flags of the status object, in
  the order of the specification; an integer with any higher bit set, and a value that is not
  an integer, is an invalid status object.
\<close>

theorem as_status_correct:
  assumes "bit_field_crate K"
  shows "as_status K v =
    (case v of
       Integer w \<Rightarrow>
         if unat w < 32 then
           Ok \<lparr>present = odd (unat w), enabled = odd (unat w div 2), show_in_ui = odd (unat w div 4),
               functional = odd (unat w div 8), battery_present = odd (unat w div 16)\<rparr>
         else Err InvalidStatusObject
     | _ \<Rightarrow> Err InvalidStatusObject)"
proof (cases v)
  case (Integer w)
  have "take_bit 59 (drop_bit 5 w) = drop_bit 5 w"
    by (rule bit_word_eqI) (auto simp: bit_simps dest: bit_imp_le_length)
  then have g: "get_bits_u64 K w 5 64 = Some (drop_bit 5 w)" by (simp add: bit_field_crate.get_bits_u64[OF assms])
  have "unat w < 2 ^ 64" using unsigned_less[of w, where 'a = nat] by simp
  then have "unat (drop_bit 5 w) = unat w div 32"
    by (simp only: unsigned_drop_bit_eq) (simp add: drop_bit_eq_div take_bit_eq_mod)
  then have "drop_bit 5 w = 0 \<longleftrightarrow> unat w < 32"
    by (simp add: unat_eq_zero[symmetric] div_eq_0_iff del: unat_eq_zero)
  moreover have "bit w i = odd (unat w div 2 ^ i)" for i
    by (metis bit_iff_odd bit_unsigned_iff possible_bit_nat)
  ultimately show ?thesis using Integer
    by (simp add: as_status_def g bit_field_crate.get_bit_u64[OF assms])
qed (simp_all add: as_status_def)

theorem as_status_correct_witness:
  "as_status std_crates (Integer 0x0B) =
     Ok \<lparr>present = True, enabled = True, show_in_ui = False, functional = True, battery_present = False\<rparr>"
  using as_status_correct[OF std_bf.bit_field_crate_axioms, of "Integer 0x0B"] by simp

lemma take_bit_small_u8:
  assumes "unat (x :: u8) < 2 ^ n"
  shows "take_bit n x = x"
  using assms by (simp only: word_unat_eq_iff unsigned_take_bit_eq) (simp add: take_bit_nat_eq_self)

lemma method_flags_bits:
  assumes "bit_field_crate K" "count \<le> 7" "level \<le> 15"
  shows "\<exists>f. method_flags_new K count serial level = (Ok (MethodFlags f) :: (method_flags, 'e) res)
    \<and> (\<forall>j. bit f j = (if j < 3 then bit count j else if j = 3 then serial
                       else if j < 8 then bit level (j - 4) else False))"
proof -
  note crate = bit_field_crate.set_bits_u8[OF assms(1)] bit_field_crate.set_bit_u8[OF assms(1)]
  have c: "take_bit 3 count = count" using assms(2)
    by (intro take_bit_small_u8) (simp add: word_le_nat_alt)
  have l: "take_bit 4 level = level" using assms(3)
    by (intro take_bit_small_u8) (simp add: word_le_nat_alt)
  show ?thesis
    using assms(2,3) by (simp add: method_flags_new_def Let_def crate c l)
qed

text \<open>
  Method flags: the constructor packs the three parts it accepts into one byte from which
  the accessors read each of them back.
\<close>

theorem method_flags_roundtrip:
  assumes "bit_field_crate K" "count \<le> 7" "level \<le> 15"
  shows "\<exists>flags. method_flags_new K count serial level = (Ok flags :: (method_flags, unit) res)
    \<and> arg_count K flags = count \<and> serialize K flags = serial \<and> sync_level K flags = level"
proof -
  from method_flags_bits[OF assms, of serial] obtain f where
    f: "method_flags_new K count serial level = (Ok (MethodFlags f) :: (method_flags, unit) res)"
    and bits: "\<And>j. bit f j = (if j < 3 then bit count j else if j = 3 then serial
                       else if j < 8 then bit level (j - 4) else False)"
    by blast
  have c: "take_bit 3 count = count" using assms(2)
    by (intro take_bit_small_u8) (simp add: word_le_nat_alt)
  have l: "take_bit 4 level = level" using assms(3)
    by (intro take_bit_small_u8) (simp add: word_le_nat_alt)
  have "take_bit 3 f = take_bit 3 count" by (rule bit_word_eqI) (simp add: bit_take_bit_iff bits)
  moreover have "take_bit 4 (drop_bit 4 f) = take_bit 4 level"
    by (rule bit_word_eqI) (auto simp: bit_take_bit_iff bit_drop_bit_eq bits)
  ultimately show ?thesis
    using f c l
    by (simp add: bit_field_crate.get_bits_u8[OF assms(1)] bit_field_crate.get_bit_u8[OF assms(1)] bits)
qed

theorem method_flags_roundtrip_witness:
  "\<exists>flags. method_flags_new std_crates 5 True 9 = (Ok flags :: (method_flags, unit) res)
    \<and> arg_count std_crates flags = 5 \<and> serialize std_crates flags = True \<and> sync_level std_crates flags = 9"
  by (rule method_flags_roundtrip[OF std_bf.bit_field_crate_axioms]) simp_all

subsection \<open>Comparisons\<close>

lemma cmp_lex_Equal: "cmp_lex xs ys = Equal \<longleftrightarrow> xs = ys"
  by (induction xs ys rule: cmp_lex.induct) (auto simp: cmp_ord_def)

lemma cmp_lex_Less: "cmp_lex xs ys = Less \<longleftrightarrow> (xs, ys) \<in> lexord {(a, b). a < b}"
  by (induction xs ys rule: cmp_lex.induct) (auto simp: cmp_ord_def)

text \<open>
  Comparing two buffers is the lexicographic comparison of their bytes, as the sources'
  comment and the specification have it, and leaves the context as it was.
\<close>

theorem value_cmp_buffers:
  assumes "r \<noteq> r'" "r \<notin> set (locked c)" "r' \<notin> set (locked c)"
  shows "\<exists>ord. value_cmp E (Suc n) (Buffer r) (Buffer r') c = Ok (ord, c)
    \<and> (ord = Equal \<longleftrightarrow> buffer_data c r = buffer_data c r')
    \<and> (ord = Less \<longleftrightarrow> (buffer_data c r, buffer_data c r') \<in> lexord {(a, b). a < b})"
proof -
  have "buffer_data (c\<lparr>locked := l\<rparr>) r' = buffer_data c r'" for l by (simp add: buffer_data_def)
  with assms have "value_cmp E (Suc n) (Buffer r) (Buffer r') c
      = Ok (cmp_lex (buffer_data c r) (buffer_data c r'), c)"
    by (simp add: value_cmp_def act_bind_def ret_def with_lock_def unlock_def)
  then show ?thesis by (simp add: cmp_lex_Equal cmp_lex_Less)
qed

theorem value_cmp_buffers_witness:
  "\<exists>ord. value_cmp std_env (Suc 0) (Buffer 0) (Buffer 1) (blank_context\<lparr>buffers := [[1], [1, 2]]\<rparr>)
       = Ok (ord, blank_context\<lparr>buffers := [[1], [1, 2]]\<rparr>) \<and> ord = Less"
  using value_cmp_buffers[of 0 1 "blank_context\<lparr>buffers := [[1], [1, 2]]\<rparr>" std_env 0]
  by (auto simp: blank_context_def buffer_data_def)

text \<open>
  Comparing a buffer with itself never returns: the second lock waits for the first.
\<close>

theorem compare_with_itself_deadlocks:
  assumes "r \<notin> set (locked c)"
  shows "value_cmp E (Suc n) (Buffer r) (Buffer r) c = Deadlock"
  using assms by (simp add: value_cmp_def act_bind_def ret_def with_lock_def)

theorem compare_with_itself_deadlocks_witness:
  "value_cmp std_env (Suc 0) (Buffer 0) (Buffer 0) (blank_context\<lparr>buffers := [[1]]\<rparr>) = Deadlock"
  by (rule compare_with_itself_deadlocks) (simp add: blank_context_def)

subsection \<open>Locals and arguments\<close>

lemma unat_le_u8: "n \<le> (m :: u8) \<longleftrightarrow> unat n \<le> unat m"
  by (simp add: word_le_nat_alt)

text \<open>
  A value stored in a local is what reading the local gives next; the other locals, the
  arguments and everything else in the context are as before.
\<close>

theorem store_local_read:
  assumes "method_ctx c = Some mc" "length (locals mc) = 8" "n \<le> 7"
  shows "\<exists>c'. store E k (LocalTarget n) v c = Ok (v, c') \<and> read_target (LocalTarget n) c' = Ok (v, c')
    \<and> (\<forall>m w. m \<noteq> n \<longrightarrow> read_target (LocalTarget m) c = Ok (w, c)
                    \<longrightarrow> read_target (LocalTarget m) c' = Ok (w, c'))
    \<and> (\<forall>m w. read_target (ArgTarget m) c = Ok (w, c) \<longrightarrow> read_target (ArgTarget m) c' = Ok (w, c'))
    \<and> c'\<lparr>method_ctx := method_ctx c\<rparr> = c"
proof -
  have n: "unat n < 8" "\<not> 7 < n" using assms(3) by (simp add: unat_le_u8) (simp add: assms(3) not_less)
  let ?c' = "c\<lparr>method_ctx := Some (mc\<lparr>locals := (locals mc)[unat n := Some v]\<rparr>)\<rparr>"
  have "store E k (LocalTarget n) v c = Ok (v, ?c')"
    using assms n by (simp add: store_def act_bind_def reads_def set_method_ctx_def ret_def)
  moreover have "read_target (LocalTarget n) ?c' = Ok (v, ?c')"
    using assms n by (simp add: read_target_def local_def reads_def)
  moreover have "read_target (LocalTarget m) ?c' = Ok (w, ?c')"
    if "m \<noteq> n" "read_target (LocalTarget m) c = Ok (w, c)" for m w
  proof -
    have "unat m \<noteq> unat n" using that(1) by (simp add: word_unat_eq_iff)
    with that(2) assms show ?thesis
      by (auto simp: read_target_def local_def reads_def and_then_eq_Ok map_err_eq_Ok split: if_splits)
  qed
  moreover have "read_target (ArgTarget m) ?c' = Ok (w, ?c')"
    if "read_target (ArgTarget m) c = Ok (w, c)" for m w
    using that assms by (auto simp: read_target_def current_arg_def reads_def and_then_eq_Ok map_err_eq_Ok)
  ultimately show ?thesis using assms by (intro exI[of _ ?c']) simp
qed

theorem store_local_read_witness:
  "\<exists>c'. store std_env 1 (LocalTarget 3) (Integer 7)
          (blank_context\<lparr>method_ctx := Some (method_context_new args_empty)\<rparr>) = Ok (Integer 7, c')
     \<and> read_target (LocalTarget 3) c' = Ok (Integer 7, c')"
  using store_local_read[of "blank_context\<lparr>method_ctx := Some (method_context_new args_empty)\<rparr>"
      "method_context_new args_empty" 3 std_env 1 "Integer 7"]
  by (auto simp: blank_context_def method_context_new_def)

text \<open>
  Arguments: a list of at most seven values gives an argument block whose argument \<open>n\<close> is
  element \<open>n\<close> of the list, and an error for the arguments after them; a longer list is refused.
\<close>

theorem args_from_list_correct:
  "args_from_list vs =
     (if length vs \<le> 7 then Ok (map Some vs @ replicate (7 - length vs) None) else Err TooManyArgs)
   \<and> (\<forall>a n. args_from_list vs = Ok a \<longrightarrow>
        args_arg a n = (if unat n < length vs then Ok (vs ! unat n) else Err (InvalidArgAccess n)))"
proof -
  have "args_arg (map Some vs @ replicate (7 - length vs) None) n
      = (if unat n < length vs then Ok (vs ! unat n) else Err (InvalidArgAccess n))"
    if "length vs \<le> 7" for n
  proof -
    have "6 < n \<longleftrightarrow> 6 < unat n" by (simp add: word_less_nat_alt)
    with that show ?thesis by (auto simp: args_arg_def nth_append)
  qed
  then show ?thesis by (auto simp: args_from_list_def Let_def split: if_splits)
qed

theorem args_from_list_correct_witness:
  "args_from_list [Integer 1, Integer 2] = Ok (map Some [Integer 1, Integer 2] @ replicate 5 None)
   \<and> args_arg (map Some [Integer 1, Integer 2] @ replicate 5 None) 1 = Ok (Integer 2)"
  using args_from_list_correct[of "[Integer 1, Integer 2]"] by simp

subsection \<open>Conversions leave the namespace alone\<close>

text \<open>
  Conversions may access regions and allocate buffers; everything else in the context stays.
\<close>

definition same_objects :: "aml_context \<Rightarrow> aml_context \<Rightarrow> bool" where
  "same_objects c c' \<longleftrightarrow>
     ns c' = ns c \<and> method_ctx c' = method_ctx c \<and> current_scope c' = current_scope c
     \<and> scope_indent c' = scope_indent c \<and> verbosity c' = verbosity c"

definition frames :: "'a act \<Rightarrow> bool" where
  "frames m \<longleftrightarrow> (\<forall>c. post_state (same_objects c) (m c))"

named_theorems frame_intros \<open>actions that leave the objects alone\<close>

lemma same_objects_refl [simp]: "same_objects c c"
  by (simp add: same_objects_def)

lemma same_objects_trans: "same_objects a b \<Longrightarrow> same_objects b c \<Longrightarrow> same_objects a c"
  by (simp add: same_objects_def)

lemma frames_ret [frame_intros]: "frames (ret x)" "frames (fail e)"
  by (simp_all add: frames_def ret_def fail_def)

lemma frames_bind [frame_intros]:
  assumes "frames m" "\<And>x. frames (f x)"
  shows "frames (act_bind m f)"
  unfolding frames_def
proof
  fix c
  show "post_state (same_objects c) (act_bind m f c)"
  proof (cases "m c")
    case (Ok p)
    obtain x c' where p: "p = (x, c')" by (cases p)
    from assms(1) Ok p have "same_objects c c'" by (auto simp: frames_def post_state_def)
    moreover from assms(2) have "post_state (same_objects c') (f x c')" by (simp add: frames_def)
    ultimately show ?thesis
      by (auto simp: act_bind_def Ok p post_state_def intro: same_objects_trans)
  next
    case (Err p)
    with assms(1) show ?thesis by (auto simp: act_bind_def frames_def post_state_def)
  qed (simp_all add: act_bind_def)
qed

lemma frames_reads [frame_intros]: "frames (reads f)"
  unfolding frames_def reads_def
proof
  fix c show "post_state (same_objects c) (and_then (map_err (\<lambda>e. (e, c)) (f c)) (\<lambda>x. Ok (x, c)))"
    by (cases "f c") simp_all
qed

lemma frames_io [frame_intros]: "frames (handler_read E f ev)" "frames (log_io E ev)"
  by (simp_all add: frames_def handler_read_def log_io_def same_objects_def)

lemma frames_buffers [frame_intros]: "frames (alloc_buffer bs)" "frames (write_buffer r bs)"
  by (simp_all add: frames_def alloc_buffer_def write_buffer_def same_objects_def)

lemma frames_with_lock [frame_intros]:
  assumes "\<And>bs. frames (f bs)"
  shows "frames (with_lock r f)"
  unfolding frames_def
proof
  fix c :: aml_context
  let ?c = "c\<lparr>locked := r # locked c\<rparr>"
  have "same_objects c c'" if "same_objects ?c c'" for c' using that by (simp add: same_objects_def)
  moreover have "same_objects a (unlock r b) = same_objects a b" for a b
    by (simp add: same_objects_def unlock_def)
  moreover have "post_state (same_objects ?c) (f (buffer_data c r) ?c)"
    using assms by (simp add: frames_def)
  ultimately show "post_state (same_objects c) (with_lock r f c)"
    by (auto simp: with_lock_def post_state_def split: res.splits)
qed

lemma frames_if [frame_intros]: "frames a \<Longrightarrow> frames b \<Longrightarrow> frames (if P then a else b)"
  by simp

lemma frames_Let [frame_intros]: "frames (f x) \<Longrightarrow> frames (let y = x in f y)"
  by simp

lemma frames_case_prod [frame_intros]:
  "(\<And>x y. frames (f x y)) \<Longrightarrow> frames (case p of (x, y) \<Rightarrow> f x y)"
  by (simp add: split_beta)

lemma frames_case_region [frame_intros]:
  "frames m \<Longrightarrow> frames io \<Longrightarrow> frames pci \<Longrightarrow> frames other \<Longrightarrow>
   frames (case sp of SystemMemory \<Rightarrow> m | SystemIo \<Rightarrow> io | PciConfig \<Rightarrow> pci | _ \<Rightarrow> other)"
  by (cases sp) simp_all

lemma frames_case_value:
  "(\<And>sp base len p. frames (f sp base len p)) \<Longrightarrow> frames other \<Longrightarrow>
   frames (case v of OpRegion sp base len p \<Rightarrow> f sp base len p | _ \<Rightarrow> other)"
  by (cases v) simp_all

lemma frames_pci_optional [frame_intros]:
  assumes "\<And>v. frames (asint v)"
  shows "frames (pci_optional asint conv name p)"
proof -
  have "frames (\<lambda>c. case search (ns c) n p of
         Ok (_, handle) \<Rightarrow>
           act_bind (reads (\<lambda>c. ns_get (ns c) handle)) (\<lambda>v.
           act_bind (asint v) (\<lambda>i. pure_res (conv i))) c
       | Err (ValueDoesNotExist _) \<Rightarrow> Ok (0, c)
       | Err e \<Rightarrow> Err (e, c) | Panic \<Rightarrow> Panic | Deadlock \<Rightarrow> Deadlock | OutOfFuel \<Rightarrow> OutOfFuel)" for n
    unfolding frames_def
  proof
    fix c
    have "frames (act_bind (reads (\<lambda>c. ns_get (ns c) handle)) (\<lambda>v.
           act_bind (asint v) (\<lambda>i. pure_res (conv i))))" for handle
      by (rule frame_intros assms)+
    then show "post_state (same_objects c) (case search (ns c) n p of
         Ok (_, handle) \<Rightarrow>
           act_bind (reads (\<lambda>c. ns_get (ns c) handle)) (\<lambda>v.
           act_bind (asint v) (\<lambda>i. pure_res (conv i))) c
       | Err (ValueDoesNotExist _) \<Rightarrow> Ok (0, c)
       | Err e \<Rightarrow> Err (e, c) | Panic \<Rightarrow> Panic | Deadlock \<Rightarrow> Deadlock | OutOfFuel \<Rightarrow> OutOfFuel)"
      by (auto simp: frames_def split: res.split aml_error.split)
  qed
  then show ?thesis
    unfolding pci_optional_def by (rule frames_bind[OF frames_reads])
qed

lemma frames_regions [frame_intros]:
  assumes "\<And>v. frames (asint v)"
  shows "frames (pci_address E asint p base off)" "frames (read_region E asint h off len)"
    "frames (write_region E asint h off len value)"
proof -
  show pci: "frames (pci_address E asint p base off)" for p base off
    unfolding pci_address_def by (rule frame_intros assms)+
  show "frames (read_region E asint h off len)"
    unfolding read_region_def
    by (rule frames_bind[OF frames_reads], rule frames_case_value) (rule pci frame_intros)+
  show "frames (write_region E asint h off len value)"
    unfolding write_region_def
    by (rule frames_bind[OF frames_reads], rule frames_case_value) (rule pci frame_intros)+
qed

lemma frames_read_field [frame_intros]:
  assumes "\<And>v. frames (asint v)"
  shows "frames (read_field E asint v)"
  unfolding read_field_def field_access_size_def
  by (cases v; simp only: aml_value.case) (rule frame_intros assms)+

lemma frames_write_field [frame_intros]:
  assumes "\<And>v. frames (asint v)"
  shows "frames (write_field E asint v value)"
proof -
  have "frames (case rule of Preserve \<Rightarrow> act_bind (read_field E asint v) asint
      | WriteAsOnes \<Rightarrow> ret (- 1) | WriteAsZeros \<Rightarrow> ret 0)" for rule
    by (cases rule; simp only: field_update_rule.case) (rule frame_intros assms)+
  then show ?thesis
    unfolding write_field_def field_access_size_def
    by (cases v; simp only: aml_value.case) (rule frame_intros assms | assumption)+
qed

lemma frames_buffer_fields [frame_intros]:
  "frames (read_buffer_field K v)" "frames (write_buffer_field K v u)"
  unfolding read_buffer_field_def write_buffer_field_def
  by (cases v; simp only: aml_value.case; (rule frame_intros | (cases u; simp only: aml_value.case))+)+

lemma frames_as_integer [frame_intros]: "frames (as_integer E n v)"
proof (induction n arbitrary: v)
  case (Suc n)
  show ?case
    by (cases v; simp only: as_integer.simps aml_value.case) (rule frame_intros Suc.IH)+
qed (simp add: frames_reads)

lemma frames_as_buffer [frame_intros]: "frames (as_buffer E n v)"
proof (induction n arbitrary: v)
  case (Suc n)
  show ?case
    by (cases v; simp only: as_buffer.simps aml_value.case) (rule frame_intros Suc.IH)+
qed (simp add: frames_reads)

lemma frames_as_type [frame_intros]: "frames (as_type E n v t)"
  unfolding as_type_def
  by (cases t; simp only: aml_type.case) (rule frame_intros)+

lemma as_type_type:
  "as_type E n v typ c = Ok (x, c') \<Longrightarrow> type_of x = typ"
  by (auto simp: as_type_def ret_def fail_def act_bind_def and_then_eq_Ok reads_def
      split: aml_type.split_asm if_splits)

lemma framesD: "frames m \<Longrightarrow> m c = Ok (x, c') \<Longrightarrow> same_objects c c'"
  by (auto simp: frames_def post_state_def)

text \<open>
  C30. Storing to a named object that is not a field converts the value to the type the object
  has: the object's type never changes, the value returned is what the object now holds, and
  no other object and no name is touched.
\<close>

theorem store_keeps_type:
  assumes "search (ns c) path (current_scope c) = Ok (full, h)" "object_at (ns c) h = Some old"
    "type_of old \<notin> {FieldUnitType, BufferFieldType}"
    "store E n (NameTarget path) value c = Ok (result, c')"
  shows "object_at (ns c') = (object_at (ns c))(h \<mapsto> result) \<and> type_of result = type_of old
       \<and> root_level (ns c') = root_level (ns c) \<and> next_handle (ns c') = next_handle (ns c)"
proof -
  have found: "reads (\<lambda>c. search (ns c) path (current_scope c)) c = Ok ((full, h), c)"
    "reads (\<lambda>c. unwrap (ns_get (ns c) h)) c = (Ok (old, c) :: (_, aml_error \<times> _) res)"
    using assms(1,2) by (simp_all add: reads_def ns_get_def)
  have "act_bind (as_type E n value (type_of old)) (\<lambda>new.
           act_bind (on_ns (\<lambda>s. in_state s (ns_get_mut s h new))) (\<lambda>_.
             reads (\<lambda>c. ns_get (ns c) h))) c = Ok (result, c')"
    using assms(3,4) by (simp add: store_def store_name_def act_bind_def found split: aml_type.split_asm)
  then obtain new c1 where new: "as_type E n value (type_of old) c = Ok (new, c1)"
    and rest: "act_bind (on_ns (\<lambda>s. in_state s (ns_get_mut s h new))) (\<lambda>_.
             reads (\<lambda>c. ns_get (ns c) h)) c1 = Ok (result, c')"
    by (auto simp: act_bind_def and_then_eq_Ok)
  from framesD[OF frames_as_type new] have "ns c1 = ns c" by (simp add: same_objects_def)
  with rest assms(2) have "result = new"
    "ns c' = (ns c)\<lparr>object_map := btree_insert h new (object_map (ns c))\<rparr>"
    by (auto simp: act_bind_def on_ns_def in_state_def ns_get_mut_def reads_def ns_get_def)
  with as_type_type[OF new] show ?thesis by simp
qed

theorem store_keeps_type_witness:
  "object_at (ns (blank_context\<lparr>ns := ns_A\<lparr>object_map := [(0, Integer 9)]\<rparr>\<rparr>))
     = (object_at (ns (blank_context\<lparr>ns := ns_A\<rparr>)))(0 \<mapsto> Integer 9)"
proof -
  let ?c = "blank_context\<lparr>ns := ns_A\<rparr>"
  let ?c' = "blank_context\<lparr>ns := ns_A\<lparr>object_map := [(0, Integer 9)]\<rparr>\<rparr>"
  have s: "search (ns ?c) [Segment seg_A] (current_scope ?c) = Ok ([Root, Segment seg_A], 0)"
    by (simp add: blank_context_def search_A)
  moreover have "store std_env 1 (NameTarget [Segment seg_A]) (Integer 9) ?c = Ok (Integer 9, ?c')"
    using s by (simp add: store_def store_name_def act_bind_def reads_def ns_get_def as_type_def ret_def
        on_ns_def in_state_def ns_get_mut_def ns_A_def)
  ultimately show ?thesis
    using store_keeps_type[of ?c "[Segment seg_A]" "[Root, Segment seg_A]" 0 "Integer 5"] by simp
qed

subsection \<open>Wide buffer fields\<close>



subsection \<open>Fields of operation regions\<close>

definition mem_value :: "aml_env \<Rightarrow> io_event list \<Rightarrow> nat \<Rightarrow> u64 \<Rightarrow> u64" where
  "mem_value E hist width address =
     (if width = 8 then ucast (h_read_u8 E hist address)
      else if width = 16 then ucast (h_read_u16 E hist address)
      else if width = 32 then ucast (h_read_u32 E hist address)
      else h_read_u64 E hist address)"

lemma next_pow2_step:
  "0 < k \<Longrightarrow> next_pow2_from k p x = (if x \<le> p then p else next_pow2_from (k - 1) (2 * p) x)"
  by (cases k) simp_all

definition access_bits :: "u64 \<Rightarrow> nat" where
  "access_bits len = (if unat len \<le> 8 then 8 else if unat len \<le> 16 then 16 else if unat len \<le> 32 then 32 else 64)"

lemma next_pow2_small:
  assumes "unat (x :: u64) \<le> 64"
  shows "\<exists>p :: u64. next_power_of_two_u64 x = (Ok p :: (u64, aml_error) res) \<and> max 8 p = word_of_nat (access_bits x)"
proof -
  have "next_pow2_from 64 1 n = (if n \<le> 1 then 1 else if n \<le> 2 then 2 else if n \<le> 4 then 4
      else if n \<le> 8 then 8 else if n \<le> 16 then 16 else if n \<le> 32 then 32 else 64)" if "n \<le> 64" for n
    using that by (simp add: next_pow2_step)
  moreover have "\<not> (8 :: u64) \<le> 1" by (simp add: word_le_nat_alt)
  ultimately show ?thesis using assms
    by (simp add: next_power_of_two_u64_def access_bits_def max_def)
qed

text \<open>The width of an access: what the access type of the field asks for at least, and enough for the field.\<close>

fun least_access :: "field_access_type \<Rightarrow> nat" where
  "least_access WordAccess = 16"
| "least_access DWordAccess = 32"
| "least_access QWordAccess = 64"
| "least_access _ = 8"

definition field_width :: "field_access_type \<Rightarrow> u64 \<Rightarrow> nat" where
  "field_width t len = max (least_access t) (access_bits len)"

lemma field_width_cases: "field_width t len \<in> {8, 16, 32, 64}"
  by (cases t) (auto simp: field_width_def access_bits_def max_def)

lemma memory_access_size:
  assumes "object_at (ns c) h = Some (OpRegion SystemMemory base rlen p)"
    "access_type E flags = Ok t" "unat len \<le> 64"
  shows "field_access_size E h flags len c = Ok (word_of_nat (field_width t len), c)"
proof -
  from next_pow2_small[OF assms(3)] obtain q where
    q: "next_power_of_two_u64 len = (Ok q :: (u64, aml_error) res)" "max 8 q = word_of_nat (access_bits len)"
    by blast
  have "minimum_access_size E flags = Ok (word_of_nat (least_access t))"
    using assms(2) by (cases t) (simp_all add: minimum_access_size_def)
  moreover have "max (word_of_nat (least_access t)) q = (word_of_nat (field_width t len) :: u64)"
  proof -
    have "(8 :: u64) \<le> word_of_nat (least_access t)" by (cases t) (simp_all add: word_le_nat_alt)
    then have "max (word_of_nat (least_access t)) q = max (word_of_nat (least_access t)) (max 8 q)" by (simp add: max.assoc[symmetric])
    also have "\<dots> = word_of_nat (field_width t len)"
      unfolding q(2) by (cases t) (auto simp: field_width_def access_bits_def max_def word_le_nat_alt)
    finally show ?thesis .
  qed
  ultimately show ?thesis
    using assms(1) q(1) by (simp add: field_access_size_def act_bind_def reads_def ns_get_def ret_def)
qed

lemma memory_field_read_lemma:
  assumes "bit_field_crate E" "object_at (ns c) h = Some (OpRegion SystemMemory base rlen p)"
    "access_type E flags = Ok t" "0 < unat len" "unat len \<le> 64" "unat base + unat offset < 2 ^ 64"
  shows "read_field E asint (Field h flags offset len) c =
    (if h_returns E (io_log c) (MemRead (field_width t len) (base + offset))
     then Ok (Integer (take_bit (unat len) (mem_value E (io_log c) (field_width t len) (base + offset))),
        c\<lparr>io_log := io_log c @ [MemRead (field_width t len) (base + offset)]\<rparr>)
     else Panic)"
proof -
  have "read_region E asint h offset (word_of_nat (field_width t len)) c =
      (if h_returns E (io_log c) (MemRead (field_width t len) (base + offset))
       then Ok (mem_value E (io_log c) (field_width t len) (base + offset),
          c\<lparr>io_log := io_log c @ [MemRead (field_width t len) (base + offset)]\<rparr>)
       else Panic)"
    using assms(2,6) field_width_cases[of t len]
    by (auto simp: read_region_def act_bind_def reads_def ns_get_def add_u64_def handler_read_def mem_value_def)
  with assms memory_access_size[OF assms(2,3,5)] show ?thesis
    by (simp add: read_field_def act_bind_def reads_def ret_def bit_field_crate.get_bits_u64)
qed

text \<open>
  C31. Reading a field of system memory makes exactly one access, at the address of the region plus the offset of the
  field. Its width is the least that the access type of the field allows (8 bits for any, byte and buffer access, 16 for
  word, 32 for double word and 64 for quad word access), or the smallest of 8, 16, 32 and 64 bits that holds the field,
  whichever is larger. The value is the low bits of what the handler returns; a handler that panics at the access ends
  the read.
\<close>

theorem memory_field_read:
  assumes "bit_field_crate E" "object_at (ns c) h = Some (OpRegion SystemMemory base rlen p)"
    "access_type E flags = Ok t" "0 < unat len" "unat len \<le> 64" "unat base + unat offset < 2 ^ 64"
  shows "read_field E asint (Field h flags offset len) c =
    (if h_returns E (io_log c) (MemRead (field_width t len) (base + offset))
     then Ok (Integer (take_bit (unat len) (mem_value E (io_log c) (field_width t len) (base + offset))),
        c\<lparr>io_log := io_log c @ [MemRead (field_width t len) (base + offset)]\<rparr>)
     else Panic)"
  using assms by (rule memory_field_read_lemma)

definition memory_context :: aml_context where
  "memory_context = blank_context\<lparr>ns := namespace_new\<lparr>next_handle := 1,
     object_map := [(0, OpRegion SystemMemory 0x1000 0x100 None)]\<rparr>\<rparr>"

lemma memory_context_simps [simp]:
  "object_at (ns memory_context) 0 = Some (OpRegion SystemMemory 0x1000 0x100 None)"
  "io_log memory_context = []"
  by (simp_all add: memory_context_def blank_context_def)

lemma std_flags:
  "access_type std_env (FieldFlags 0x01) = Ok ByteAccess" "field_update_rule std_env (FieldFlags 0x01) = Ok Preserve"
  "access_type std_env (FieldFlags 0x03) = Ok DWordAccess"
  by (simp_all add: std_env_simps std_bf.get_bits_u8 take_bit_eq_mod drop_bit_eq_div)

lemma std_env_read_u32: "h_read_u32 std_env = (\<lambda>_ _. 0)"
  by (simp add: std_env_def crates.extend_def aml_env.fields_def)

theorem memory_field_read_witness:
  "read_field std_env (as_integer std_env 1) (Field 0 (FieldFlags 0x03) 8 4) memory_context =
     Ok (Integer 0, memory_context\<lparr>io_log := [MemRead 32 0x1008]\<rparr>)"
  using memory_field_read[OF env_bf.bit_field_crate_axioms memory_context_simps(1) std_flags(3),
      of 4 8 "as_integer std_env 1"]
  by (simp add: field_width_def access_bits_def mem_value_def std_env_simps std_env_read_u32)

text \<open>
  C32. A write to a field whose update rule is \<open>Preserve\<close>: the access reads the memory first, but of
  what it read only the bits of the field itself are kept, and these are overwritten. The byte
  written is the new value with zeros around it, whatever the memory held: the
  neighbouring bits are not preserved.
\<close>

theorem preserve_write_clears_neighbours:
  assumes "bit_field_crate E" "object_at (ns c) h = Some (OpRegion SystemMemory base rlen p)"
    "access_type E flags = Ok ByteAccess" "field_update_rule E flags = Ok Preserve"
    "0 < unat len" "unat len \<le> 8" "take_bit (unat len) w = w" "unat base + unat offset < 2 ^ 64"
    "\<And>log ev. h_returns E log ev"
  shows "write_field E (as_integer E (Suc n)) (Field h flags offset len) (Integer w) c =
    Ok ((), c\<lparr>io_log := io_log c @ [MemRead 8 (base + offset), MemWrite 8 (base + offset) w]\<rparr>)"
proof -
  let ?a = "base + offset"
  let ?old = "take_bit (unat len) (mem_value E (io_log c) 8 ?a)"
  let ?c1 = "c\<lparr>io_log := io_log c @ [MemRead 8 ?a]\<rparr>"
  have acc: "field_width ByteAccess len = 8" using assms(6) by (simp add: field_width_def access_bits_def)
  have read: "read_field E (as_integer E (Suc n)) (Field h flags offset len) c = Ok (Integer ?old, ?c1)"
    using memory_field_read_lemma[OF assms(1-3,5) _ assms(8), of "as_integer E (Suc n)"] assms(6,9) by (simp add: acc)
  have size: "field_access_size E h flags len ?c1 = Ok (8, ?c1)"
    using memory_access_size[of ?c1 h base rlen p E flags ByteAccess len] assms by (simp add: acc)
  obtain r where r: "set_bits_u64 E ?old 0 (unat len) w = Some r"
    and bits: "\<And>j. bit r j = (if j < unat len then bit w j else bit ?old j)"
    using bit_field_crate.set_bits_u64[OF assms(1), of 0 "unat len" w ?old] assms(5,6,7) by auto
  have "r = take_bit (unat len) w"
    by (rule bit_word_eqI) (auto simp: bits bit_take_bit_iff)
  with assms(7) have r_w: "r = w" by simp
  have "take_bit 8 (take_bit (unat len) w) = take_bit (unat len) w" using assms(6) by simp
  with assms(7) have w8: "take_bit 8 w = w" by simp
  show ?thesis
    using assms(2,4,8,9) r r_w w8
    by (simp add: write_field_def act_bind_def reads_def read size ret_def write_region_def ns_get_def
        add_u64_def log_io_def)
qed

theorem preserve_write_clears_neighbours_witness:
  "write_field std_env (as_integer std_env (Suc 0)) (Field 0 (FieldFlags 0x01) 8 4) (Integer 5) memory_context =
     Ok ((), memory_context\<lparr>io_log := io_log memory_context @ [MemRead 8 (0x1000 + 8), MemWrite 8 (0x1000 + 8) 5]\<rparr>)"
  by (rule preserve_write_clears_neighbours[OF env_bf.bit_field_crate_axioms memory_context_simps(1)])
    (simp_all add: std_flags std_env_simps take_bit_eq_mod del: access_type.simps field_update_rule.simps)

end
