(* ===== verification/Expression_Correct.thy ===== *)
theory Expression_Correct
  imports Parser_Correct Value_Correct
begin

section \<open>Expressions and methods\<close>

text \<open>
  What the interpreter computes: the value of every expression built from integer constants, locals, arguments,
  the arithmetic, shift, comparison and logical operators, and calls of methods and named objects that behave as
  specified (the locale \<open>callees\<close>) is the one a direct evaluator gives, with the errors it gives; resource templates are joined with a valid end tag; a method call
  puts the caller's scope and context back and removes the level of the method's locals.
\<close>

subsection \<open>Outcomes of parsers that leave the context alone\<close>

text \<open>
  \<open>yields p input c rest r\<close>: on \<open>input\<close> the parser has the outcome \<open>r\<close>, leaves \<open>rest\<close> and does
  not change the context. \<open>mismatch\<close>: the parser is not the one for this input.
\<close>

definition yields :: "'r parser \<Rightarrow> bytes \<Rightarrow> aml_context \<Rightarrow> bytes \<Rightarrow> ('r, aml_error) res \<Rightarrow> bool" where
  "yields p input c rest r \<longleftrightarrow>
     (\<exists>v. r = Ok v \<and> p input c = Ok (rest, c, v))
     \<or> (\<exists>e i. r = Err e \<and> e \<noteq> WrongParser \<and> p input c = Err (i, c, PErr e))"

definition mismatch :: "'r parser \<Rightarrow> bytes \<Rightarrow> aml_context \<Rightarrow> bool" where
  "mismatch p input c \<longleftrightarrow> (\<exists>i. p input c = Err (i, c, PErr WrongParser))"

lemma yields_cases:
  assumes "yields p input c rest r"
  obtains (Ok) v where "r = Ok v" "p input c = Ok (rest, c, v)"
    | (Err) e i where "r = Err e" "e \<noteq> WrongParser" "p input c = Err (i, c, PErr e)"
  using assms by (auto simp: yields_def)

lemma yields_then:
  assumes "yields p input c mid r" "\<And>v. r = Ok v \<Longrightarrow> yields q mid c rest (s v)"
  shows "yields (then_parser p q) input c rest (and_then r (\<lambda>v. and_then (s v) (\<lambda>w. Ok (v, w))))"
  using assms(1)
proof (cases rule: yields_cases)
  case (Ok v)
  from assms(2)[OF Ok(1)] show ?thesis
    by (cases rule: yields_cases) (use Ok in \<open>auto simp: yields_def then_parser_def\<close>)
qed (auto simp: yields_def then_parser_def)

lemma yields_opcode: "yields (opcode b) (b # input) c input (Ok ())"
  by (simp add: yields_def opcode_def)

lemma yields_map_with_context:
  assumes "yields p input c rest r"
    and "\<And>v. r = Ok v \<Longrightarrow> f v c = (case g v of Ok x \<Rightarrow> Ok (x, c) | Err e \<Rightarrow> Err (PErr e, c)
                     | Panic \<Rightarrow> Panic | Deadlock \<Rightarrow> Deadlock | OutOfFuel \<Rightarrow> OutOfFuel)"
    and "\<And>v. r = Ok v \<Longrightarrow> (\<exists>x. g v = Ok x) \<or> (\<exists>e. g v = Err e \<and> e \<noteq> WrongParser)"
  shows "yields (map_with_context p f) input c rest (and_then r g)"
  using assms(1)
proof (cases rule: yields_cases)
  case (Ok v)
  with assms(2,3)[OF Ok(1)] show ?thesis by (auto simp: yields_def map_with_context_def)
qed (auto simp: yields_def map_with_context_def)

lemma yields_map_parser:
  assumes "yields p input c rest r"
  shows "yields (map_parser p (\<lambda>v. Ok (f v))) input c rest (and_then r (\<lambda>v. Ok (f v)))"
  using assms by (cases rule: yields_cases) (auto simp: yields_def map_parser_def)

lemma quiet_scope:
  assumes "verbosity c = NoVerbosity" "v \<noteq> NoVerbosity"
  shows "indent_in v c = Ok c" "indent_out v c = Ok c"
  using assms by (cases v; simp add: indent_in_def indent_out_def)+

lemma yields_comment_scope:
  assumes "verbosity c = NoVerbosity" "v \<noteq> NoVerbosity" "yields p input c rest r"
  shows "yields (comment_scope v p) input c rest r"
  using assms(3) by (cases rule: yields_cases) (auto simp: yields_def comment_scope_def quiet_scope[OF assms(1,2)])

lemma mismatch_comment_scope:
  assumes "verbosity c = NoVerbosity" "v \<noteq> NoVerbosity" "mismatch p input c"
  shows "mismatch (comment_scope v p) input c"
  using assms(3) by (auto simp: mismatch_def comment_scope_def quiet_scope[OF assms(1,2)])

lemma yields_choice:
  "yields p input c rest r \<Longrightarrow> yields (choice (p # ps)) input c rest r"
  "mismatch p input c \<Longrightarrow> yields (choice ps) input c rest r \<Longrightarrow> yields (choice (p # ps)) input c rest r"
  by (auto simp: yields_def mismatch_def)

lemma mismatch_choice:
  "mismatch (choice []) input c"
  "mismatch p input c \<Longrightarrow> mismatch (choice ps) input c \<Longrightarrow> mismatch (choice (p # ps)) input c"
  by (auto simp: mismatch_def)

lemma mismatch_map:
  "mismatch p input c \<Longrightarrow> mismatch (map_parser p f) input c"
  "mismatch p input c \<Longrightarrow> mismatch (map_with_context p g) input c"
  "mismatch p input c \<Longrightarrow> mismatch (discard_result p) input c"
  "mismatch p input c \<Longrightarrow> mismatch (then_parser p q) input c"
  by (auto simp: mismatch_def map_parser_def map_with_context_def discard_result_def then_parser_def)

lemma mismatch_opcode:
  "b \<noteq> op \<Longrightarrow> mismatch (opcode op) (b # input) c"
  "b' \<noteq> op' \<Longrightarrow> mismatch (then_parser (opcode b) (opcode op')) (b # b' # input) c"
  by (simp_all add: mismatch_def opcode_def then_parser_def)

lemmas mismatch_intros = mismatch_opcode mismatch_map mismatch_choice

subsection \<open>The operators by their opcodes\<close>

text \<open>No operator matches an input that starts with the opcode of another one.\<close>

lemma mismatch_operators:
  "b \<noteq> 0x72 \<Longrightarrow> mismatch (def_add E R) (b # input) c"
  "b \<noteq> 0x7b \<Longrightarrow> mismatch (def_and E R) (b # input) c"
  "b \<noteq> 0x11 \<Longrightarrow> mismatch (def_buffer E R) (b # input) c"
  "b \<noteq> 0x73 \<Longrightarrow> mismatch (def_concat E R) (b # input) c"
  "b \<noteq> 0x84 \<Longrightarrow> mismatch (def_concat_res E R) (b # input) c"
  "b \<noteq> 0x75 \<Longrightarrow> mismatch (def_increment E R) (b # input) c"
  "b \<noteq> 0x76 \<Longrightarrow> mismatch (def_decrement E R) (b # input) c"
  "b \<noteq> 0x93 \<Longrightarrow> mismatch (def_l_equal E R) (b # input) c"
  "b \<noteq> 0x94 \<Longrightarrow> mismatch (def_l_greater E R) (b # input) c"
  "b \<noteq> 0x95 \<Longrightarrow> mismatch (def_l_less E R) (b # input) c"
  "b \<noteq> 0x91 \<Longrightarrow> mismatch (def_l_or R) (b # input) c"
  "b \<noteq> 0x9e \<Longrightarrow> mismatch (def_mid E R) (b # input) c"
  "b \<noteq> 0x12 \<Longrightarrow> mismatch (def_package E R) (b # input) c"
  "b \<noteq> 0x79 \<Longrightarrow> mismatch (def_shift_left E R) (b # input) c"
  "b \<noteq> 0x7a \<Longrightarrow> mismatch (def_shift_right E R) (b # input) c"
  unfolding def_add_def def_and_def def_buffer_def def_concat_def def_concat_res_def def_increment_def
    def_decrement_def def_l_equal_def def_l_greater_def def_l_less_def def_l_or_def def_mid_def
    def_package_def def_shift_left_def def_shift_right_def shift_op_def
  by (intro mismatch_map(1,2,4) mismatch_opcode(1), assumption)+

lemma mismatch_negated:
  "b \<noteq> 0x92 \<Longrightarrow> mismatch (def_l_greater_equal E R) (b # input) c"
  "b \<noteq> 0x92 \<Longrightarrow> mismatch (def_l_less_equal E R) (b # input) c"
  "b \<noteq> 0x92 \<Longrightarrow> mismatch (def_l_not_equal E R) (b # input) c"
  "b' \<noteq> 0x95 \<Longrightarrow> mismatch (def_l_greater_equal E R) (0x92 # b' # input) c"
  "b' \<noteq> 0x94 \<Longrightarrow> mismatch (def_l_less_equal E R) (0x92 # b' # input) c"
  unfolding def_l_greater_equal_def def_l_less_equal_def def_l_not_equal_def
  by ((intro mismatch_map(1) mismatch_map(4) mismatch_opcode(1), assumption)
    | (rule mismatch_map(1), rule mismatch_map(4), rule mismatch_opcode(2), assumption))+

subsection \<open>A direct evaluator\<close>

datatype binop = AddOp | AndOp | ShlOp | ShrOp | OrOp | EqOp | GtOp | LtOp | GeOp | LeOp | NeOp

text \<open>The locals and the arguments of a method are its variables.\<close>

datatype avar = LocalV nat | ArgV nat

fun var_ok :: "avar \<Rightarrow> bool" where
  "var_ok (LocalV i) = (i < 8)"
| "var_ok (ArgV i) = (i < 7)"

fun var_byte :: "avar \<Rightarrow> u8" where
  "var_byte (LocalV i) = 0x60 + word_of_nat i"
| "var_byte (ArgV i) = 0x68 + word_of_nat i"

datatype anum = NumI u64 | NumB bool

text \<open>
  A call names its object by the absolute path. What calls may be made and what they return is given by a
  specification: for a path, the number of arguments and the result for their values.
\<close>

type_synonym mspec = "name_seg list \<Rightarrow> (nat \<times> (anum list \<Rightarrow> (anum, aml_error) res)) option"

datatype aexp = Lit u64 | Var avar | Bin binop aexp aexp | Call "name_seg list" "aexp list"

fun exp_ok :: "mspec \<Rightarrow> aexp \<Rightarrow> bool" where
  "exp_ok M (Lit w) = True"
| "exp_ok M (Var x) = var_ok x"
| "exp_ok M (Bin b x y) = (exp_ok M x \<and> exp_ok M y)"
| "exp_ok M (Call p es) = ((case M p of None \<Rightarrow> False | Some (k, _) \<Rightarrow> length es = k) \<and> list_all (exp_ok M) es)"

fun op_bytes :: "binop \<Rightarrow> bytes" where
  "op_bytes AddOp = [0x72]"
| "op_bytes AndOp = [0x7b]"
| "op_bytes ShlOp = [0x79]"
| "op_bytes ShrOp = [0x7a]"
| "op_bytes OrOp = [0x91]"
| "op_bytes EqOp = [0x93]"
| "op_bytes GtOp = [0x94]"
| "op_bytes LtOp = [0x95]"
| "op_bytes GeOp = [0x92, 0x95]"
| "op_bytes LeOp = [0x92, 0x94]"
| "op_bytes NeOp = [0x92, 0x93]"

text \<open>The operators that take a target are given the null target.\<close>

fun op_target :: "binop \<Rightarrow> bytes" where
  "op_target AddOp = [0x00]"
| "op_target AndOp = [0x00]"
| "op_target ShlOp = [0x00]"
| "op_target ShrOp = [0x00]"
| "op_target _ = []"

fun encode_exp :: "aexp \<Rightarrow> bytes" where
  "encode_exp (Lit w) = encode_integer w"
| "encode_exp (Var x) = [var_byte x]"
| "encode_exp (Bin b x y) = op_bytes b @ encode_exp x @ encode_exp y @ op_target b"
| "encode_exp (Call p es) = 0x5C # encode_path p @ concat (map encode_exp es)"

fun num_value :: "anum \<Rightarrow> aml_value" where
  "num_value (NumI w) = Integer w"
| "num_value (NumB b) = Boolean b"

fun num_int :: "anum \<Rightarrow> u64" where
  "num_int (NumI w) = w"
| "num_int (NumB b) = (if b then - 1 else 0)"

fun num_bool :: "anum \<Rightarrow> bool" where
  "num_bool (NumI w) = (w \<noteq> 0)"
| "num_bool (NumB b) = b"

fun eval_op :: "binop \<Rightarrow> anum \<Rightarrow> anum \<Rightarrow> (anum, aml_error) res" where
  "eval_op AddOp x y = Ok (NumI (num_int x + num_int y))"
| "eval_op AndOp x y = Ok (NumI (num_int x AND num_int y))"
| "eval_op ShlOp x y =
     (if unat (num_int y) < 64 then Ok (NumI (push_bit (unat (num_int y)) (num_int x))) else Err InvalidShiftLeft)"
| "eval_op ShrOp x y =
     (if unat (num_int y) < 64 then Ok (NumI (drop_bit (unat (num_int y)) (num_int x))) else Err InvalidShiftRight)"
| "eval_op OrOp x y = Ok (NumB (num_bool x \<or> num_bool y))"
| "eval_op EqOp x y = Ok (NumB (num_int x = num_int y))"
| "eval_op GtOp x y = Ok (NumB (num_int x > num_int y))"
| "eval_op LtOp x y = Ok (NumB (num_int x < num_int y))"
| "eval_op GeOp x y = Ok (NumB (num_int x \<ge> num_int y))"
| "eval_op LeOp x y = Ok (NumB (num_int x \<le> num_int y))"
| "eval_op NeOp x y = Ok (NumB (num_int x \<noteq> num_int y))"

text \<open>The values of the variables of the running method; \<open>None\<close> stands for no method.\<close>

record frame =
  flocals :: "anum option list"
  fargs :: "anum option list"

fun get_var :: "frame option \<Rightarrow> avar \<Rightarrow> (anum, aml_error) res" where
  "get_var None x = Err NotExecutingControlMethod"
| "get_var (Some s) (LocalV i) = ok_or (InvalidLocalAccess (word_of_nat i)) (flocals s ! i)"
| "get_var (Some s) (ArgV i) = ok_or (InvalidArgAccess (word_of_nat i)) (fargs s ! i)"

fun eval_all :: "('a, 'e) res list \<Rightarrow> ('a list, 'e) res" where
  "eval_all [] = Ok []"
| "eval_all (r # rs) = and_then r (\<lambda>v. and_then (eval_all rs) (\<lambda>vs. Ok (v # vs)))"

fun eval_exp :: "mspec \<Rightarrow> frame option \<Rightarrow> aexp \<Rightarrow> (anum, aml_error) res" where
  "eval_exp M s (Lit w) = Ok (NumI w)"
| "eval_exp M s (Var x) = get_var s x"
| "eval_exp M s (Bin b x y) = and_then (eval_exp M s x) (\<lambda>u. and_then (eval_exp M s y) (eval_op b u))"
| "eval_exp M s (Call p es) = and_then (eval_all (map (eval_exp M s) es)) (\<lambda>vs.
     case M p of None \<Rightarrow> Err (ValueDoesNotExist (abs_path p)) | Some (_, f) \<Rightarrow> f vs)"

definition frame_ctx :: "frame \<Rightarrow> method_context" where
  "frame_ctx s = \<lparr>locals = map (map_option num_value) (flocals s), margs = map (map_option num_value) (fargs s)\<rparr>"

definition frame_ok :: "frame \<Rightarrow> bool" where
  "frame_ok s \<longleftrightarrow> length (flocals s) = 8 \<and> length (fargs s) = 7"

definition in_frame :: "frame option \<Rightarrow> aml_context \<Rightarrow> bool" where
  "in_frame s c \<longleftrightarrow> pred_option frame_ok s \<and> method_ctx c = map_option frame_ctx s"

lemma num_as_integer: "0 < n \<Longrightarrow> as_integer E n (num_value v) c = Ok (num_int v, c)"
  by (cases n; cases v) (simp_all add: ret_def)

lemma num_as_bool: "as_bool (num_value v) = Ok (num_bool v)"
  by (cases v) simp_all

lemma num_type: "type_of (num_value v) = IntegerType"
  by (cases v) simp_all

definition value_res :: "(anum, aml_error) res \<Rightarrow> (aml_value, aml_error) res" where
  "value_res r = and_then r (\<lambda>v. Ok (num_value v))"

lemma num_value_cmp:
  "0 < n \<Longrightarrow> value_cmp E n (num_value u) (num_value v) c = Ok (cmp_ord (num_int u) (num_int v), c)"
  by (simp add: value_cmp_def num_type act_bind_def num_as_integer ret_def)

lemma null_target: "yields target_parser (0x00 # rest) c rest (Ok NullTarget)"
  if "verbosity c = NoVerbosity"
  unfolding target_parser_def
  by (rule yields_comment_scope[OF that])
    (simp_all add: yields_def null_name_def map_parser_def opcode_def)

lemma store_null: "store_result E R NullTarget v c = Ok (v, c)"
  by (simp add: store_result_def act_bind_def try_act_def store_def ret_def)

text \<open>The two operands, evaluated from left to right.\<close>

definition pair_res :: "(anum, aml_error) res \<Rightarrow> (anum, aml_error) res \<Rightarrow> (aml_value \<times> aml_value, aml_error) res" where
  "pair_res r s = and_then r (\<lambda>u. and_then s (\<lambda>v. Ok (num_value u, num_value v)))"

lemma yields_operands:
  assumes "yields p (x @ y @ tail) c (y @ tail) (value_res r)" "yields p (y @ tail) c tail (value_res s)"
  shows "yields (then_parser p p) (x @ y @ tail) c tail (pair_res r s)"
proof -
  have "and_then (value_res r) (\<lambda>v. and_then (value_res s) (\<lambda>w. Ok (v, w))) = pair_res r s"
    by (cases r; cases s) (simp_all add: value_res_def pair_res_def)
  with yields_then[OF assms(1), of p tail "\<lambda>_. value_res s"] assms(2) show ?thesis by simp
qed

lemma pair_res_Ok: "pair_res r s = Ok p \<longleftrightarrow> (\<exists>u v. r = Ok u \<and> s = Ok v \<and> p = (num_value u, num_value v))"
  by (auto simp: pair_res_def and_then_eq_Ok)

lemma pair_res_Err: "pair_res r s = Err e \<Longrightarrow> and_then r (\<lambda>u. and_then s (f u)) = Err e"
  by (auto simp: pair_res_def and_then_eq_Err and_then_eq_Ok)

lemma then_opcode: "then_parser (opcode b) q (b # input) c = and_then (q input c) (\<lambda>(i, c, w). Ok (i, c, ((), w)))"
  by (simp add: then_parser_def opcode_def)

lemma then_opcodes:
  "then_parser (then_parser (opcode b) (opcode b')) q (b # b' # input) c
     = and_then (q input c) (\<lambda>(i, c, w). Ok (i, c, (((), ()), w)))"
  by (simp add: then_parser_def opcode_def)

lemma then_Ok:
  "p input c = Ok (mid, c', v) \<Longrightarrow> then_parser p q input c = and_then (q mid c') (\<lambda>(i, c, w). Ok (i, c, (v, w)))"
  "p input c = Err e \<Longrightarrow> then_parser p q input c = Err e"
  by (simp_all add: then_parser_def)

fun op_parser :: "aml_env \<Rightarrow> rec_parsers \<Rightarrow> binop \<Rightarrow> aml_value parser" where
  "op_parser E R AddOp = def_add E R"
| "op_parser E R AndOp = def_and E R"
| "op_parser E R ShlOp = def_shift_left E R"
| "op_parser E R ShrOp = def_shift_right E R"
| "op_parser E R OrOp = def_l_or R"
| "op_parser E R EqOp = def_l_equal E R"
| "op_parser E R GtOp = def_l_greater E R"
| "op_parser E R LtOp = def_l_less E R"
| "op_parser E R GeOp = def_l_greater_equal E R"
| "op_parser E R LeOp = def_l_less_equal E R"
| "op_parser E R NeOp = def_l_not_equal E R"

lemmas op_defs = def_add_def def_and_def def_shift_left_def def_shift_right_def shift_op_def def_l_or_def
  def_l_equal_def def_l_greater_def def_l_less_def def_l_greater_equal_def def_l_less_equal_def
  def_l_not_equal_def compare_args_def

lemma num_int_pair:
  "0 < r_fuel R \<Longrightarrow> int_pair E R (num_value u) (num_value v) c = Ok ((num_int u, num_int v), c)"
  by (simp add: int_pair_def act_bind_def try_act_def num_as_integer ret_def)

lemma yields_op:
  assumes quiet: "verbosity c = NoVerbosity" and fuel: "0 < r_fuel R"
    and ops: "yields (then_parser (r_term_arg R) (r_term_arg R)) (x @ y @ op_target b @ rest) c
                (op_target b @ rest) (pair_res r s)"
  shows "yields (op_parser E R b) (op_bytes b @ x @ y @ op_target b @ rest) c rest
           (value_res (and_then r (\<lambda>u. and_then s (eval_op b u))))"
proof -
  have scopes: "indent_in v c = Ok c" "indent_out v c = Ok c" if "v \<noteq> NoVerbosity" for v
    using quiet_scope[OF quiet that] by simp_all
  have target: "target_parser (0 # rest) c = Ok (rest, c, NullTarget)"
    using null_target[OF quiet, of rest] by (auto simp: yields_def)
  from ops show ?thesis
  proof (cases rule: yields_cases)
    case (Ok p)
    then obtain u v where uv: "r = Ok u" "s = Ok v" "p = (num_value u, num_value v)"
      by (auto simp: pair_res_Ok)
    have 1: "value_res (and_then r (\<lambda>u. and_then s (eval_op b u))) = value_res (eval_op b u v)"
      by (simp add: uv)
    note pair = Ok(2)[unfolded uv(3)]
    have "then_parser (then_parser (r_term_arg R) (r_term_arg R)) target_parser (x @ y @ op_target b @ rest) c
        = and_then (target_parser (op_target b @ rest) c) (\<lambda>(i, c, w). Ok (i, c, ((num_value u, num_value v), w)))"
      by (rule then_Ok(1)) (rule pair)
    then show ?thesis
      unfolding 1 using pair fuel
      by (cases b)
        (auto simp: yields_def op_defs map_parser_def then_opcode then_opcodes comment_scope_def scopes
          map_with_context_def target act_bind_def num_int_pair store_null value_res_def
          reads_def perr_def checked_shift_def num_as_bool try_act_def num_value_cmp ret_def cmp_ord_def
          split: if_splits)
  next
    case (Err e i)
    have 1: "value_res (and_then r (\<lambda>u. and_then s (eval_op b u))) = Err e"
      using pair_res_Err[OF Err(1), of "eval_op b"] by (simp add: value_res_def)
    have "then_parser (then_parser (r_term_arg R) (r_term_arg R)) target_parser (x @ y @ op_target b @ rest) c
        = Err (i, c, PErr e)"
      by (rule then_Ok(2)) (rule Err)
    then show ?thesis
      unfolding 1 using Err
      by (cases b)
        (auto simp: yields_def op_defs map_parser_def then_opcode then_opcodes comment_scope_def scopes
          map_with_context_def)
  qed
qed

subsection \<open>Arguments and the theorem on expressions\<close>

lemma yields_expression_opcode:
  assumes quiet: "verbosity c = NoVerbosity"
    and op: "yields (op_parser E R b) (op_bytes b @ input) c rest r"
  shows "yields (expression_opcode E R) (op_bytes b @ input) c rest r"
  unfolding expression_opcode_def using op
  by (intro yields_comment_scope[OF quiet], simp, cases b)
    (simp only: op_parser.simps op_bytes.simps append_Cons append_Nil,
      ((rule yields_choice(1), assumption)
       | (rule yields_choice(2), rule mismatch_operators mismatch_negated, simp))+)+

lemma mismatch_ext_opcode: "b \<noteq> 0x5b \<Longrightarrow> mismatch (ext_opcode op) (b # input) c"
  unfolding ext_opcode_def by (intro mismatch_intros)

lemma mismatch_const:
  "b \<notin> {0x0a, 0x0b, 0x0c, 0x0e, 0x0d, 0x00, 0x01, 0xff} \<Longrightarrow> mismatch const_parser (b # input) c"
  by (simp add: mismatch_def const_parser_def take_parser_def)

lemma mismatch_data_object:
  assumes "verbosity c = NoVerbosity" "b \<notin> {0x12, 0x5b, 0x11, 0x0a, 0x0b, 0x0c, 0x0e, 0x0d, 0x00, 0x01, 0xff}"
  shows "mismatch (data_object E R) (b # input) c"
  unfolding data_object_def computational_data_def
  by (intro mismatch_comment_scope assms mismatch_choice mismatch_operators mismatch_map(1)
      mismatch_ext_opcode mismatch_const) (use assms in auto)

lemma mismatch_objs:
  "b \<notin> {0x68, 0x69, 0x6a, 0x6b, 0x6c, 0x6d, 0x6e} \<Longrightarrow> mismatch arg_obj (b # input) c"
  "b \<notin> {0x60, 0x61, 0x62, 0x63, 0x64, 0x65, 0x66, 0x67} \<Longrightarrow> mismatch local_obj (b # input) c"
  unfolding arg_obj_def local_obj_def arg_parser_def local_parser_def
  by (intro mismatch_choice mismatch_map(1) mismatch_map(4) mismatch_opcode(1); simp)+

lemma yields_term_arg_expression:
  assumes quiet: "verbosity c = NoVerbosity"
    and op: "yields (op_parser E R b) (op_bytes b @ input) c rest r"
  shows "yields (term_arg E R) (op_bytes b @ input) c rest r"
proof -
  obtain b0 bs where b0: "op_bytes b @ input = b0 # bs"
    and range: "b0 \<in> {0x72, 0x7b, 0x79, 0x7a, 0x91, 0x93, 0x94, 0x95, 0x92}"
    by (cases b) auto
  have "yields (choice [data_object E R,
                map_with_context arg_obj (\<lambda>arg_num. try_act (current_arg arg_num)),
                map_with_context local_obj (\<lambda>local_num. try_act (local local_num)),
                expression_opcode E R]) (b0 # bs) c rest r"
  proof (rule yields_choice(2), rule mismatch_data_object[OF quiet])
    show "b0 \<notin> {0x12, 0x5b, 0x11, 0x0a, 0x0b, 0x0c, 0x0e, 0x0d, 0x00, 0x01, 0xff}" using range by auto
    have "mismatch arg_obj (b0 # bs) c" "mismatch local_obj (b0 # bs) c"
      using range by (intro mismatch_objs; auto)+
    then show "yields (choice [map_with_context arg_obj (\<lambda>arg_num. try_act (current_arg arg_num)),
        map_with_context local_obj (\<lambda>local_num. try_act (local local_num)),
        expression_opcode E R]) (b0 # bs) c rest r"
      by (intro yields_choice(2)[OF mismatch_map(2)] yields_choice(1)[OF yields_expression_opcode[OF quiet op, unfolded b0]])
  qed
  then show ?thesis
    unfolding term_arg_def b0 by (intro yields_comment_scope[OF quiet]) simp_all
qed

lemma yields_term_arg_literal:
  assumes "verbosity c = NoVerbosity"
  shows "yields (term_arg E R) (encode_integer w @ rest) c rest (Ok (Integer w))"
proof -
  have "\<exists>b bs. encode_integer w @ rest = b # bs \<and> b \<noteq> 0x12 \<and> b \<noteq> 0x5b"
    by (simp add: encode_integer_def Let_def)
  then obtain b bs where b: "encode_integer w @ rest = b # bs" "b \<noteq> 0x12" "b \<noteq> 0x5b" by blast
  have "yields const_parser (b # bs) c rest (Ok (Integer w))"
    using const_parser_integer[of w rest c] by (simp add: yields_def b(1))
  then show ?thesis
    unfolding term_arg_def data_object_def computational_data_def b(1)
    by (intro yields_comment_scope assms)
      (simp, rule yields_choice(1), intro yields_comment_scope assms, simp,
       rule yields_choice(2), rule mismatch_operators, rule b(2), rule yields_choice(1),
       intro yields_comment_scope assms, simp, rule yields_choice(2), intro mismatch_map mismatch_ext_opcode b(3),
       rule yields_choice(1))
qed

fun call_outcome :: "('a, 'e) res \<Rightarrow> aml_context \<Rightarrow> ('a \<times> aml_context, 'e \<times> aml_context) res" where
  "call_outcome (Ok v) c = Ok (v, c)"
| "call_outcome (Err e) c = Err (e, c)"
| "call_outcome Panic c = Panic"
| "call_outcome Deadlock c = Deadlock"
| "call_outcome OutOfFuel c = OutOfFuel"

lemma index_cases:
  "i < 8 \<Longrightarrow> i \<in> {0, 1, 2, 3, 4, 5, 6, 7 :: nat}"
  "i < 7 \<Longrightarrow> i \<in> {0, 1, 2, 3, 4, 5, 6 :: nat}"
  by auto

lemma variable_objs:
  assumes "verbosity c = NoVerbosity"
  shows "i < 8 \<Longrightarrow> local_obj (var_byte (LocalV i) # rest) c = Ok (rest, c, word_of_nat i)"
    "i < 7 \<Longrightarrow> arg_obj (var_byte (ArgV i) # rest) c = Ok (rest, c, word_of_nat i)"
  by (drule index_cases;
      auto simp: local_obj_def arg_obj_def local_parser_def arg_parser_def map_parser_def then_parser_def opcode_def
        comment_scope_def quiet_scope[OF assms] id_parser_def)+

lemma variable_bytes:
  assumes "var_ok x"
  shows "var_byte x \<notin> {0x12, 0x5b, 0x11, 0x0a, 0x0b, 0x0c, 0x0e, 0x0d, 0x00, 0x01, 0xff}"
    "x = LocalV i \<Longrightarrow> var_byte x \<notin> {0x68, 0x69, 0x6a, 0x6b, 0x6c, 0x6d, 0x6e}"
  using assms by (cases x; auto dest!: index_cases)+

lemma get_var_outcome: "(\<exists>v. get_var s x = Ok v) \<or> (\<exists>e. get_var s x = Err e \<and> e \<noteq> WrongParser)"
  by (induction s x rule: get_var.induct) (auto simp: ok_or_def split: option.split)

lemma word_of_index: "i < 8 \<Longrightarrow> unat (word_of_nat i :: u8) = i" "i < 8 \<Longrightarrow> (word_of_nat i :: u8) \<le> 7"
  "i < 7 \<Longrightarrow> (word_of_nat i :: u8) \<le> 6"
  by (simp_all add: unat_of_nat word_le_nat_alt)

lemma variable_read:
  assumes "in_frame s c"
  shows "i < 8 \<Longrightarrow> try_act (local (word_of_nat i)) c = call_outcome (map_err PErr (value_res (get_var s (LocalV i)))) c"
    "i < 7 \<Longrightarrow> try_act (current_arg (word_of_nat i)) c = call_outcome (map_err PErr (value_res (get_var s (ArgV i)))) c"
  using assms word_of_index[of i]
  by (cases s; auto simp: in_frame_def frame_ok_def frame_ctx_def try_act_def local_def current_arg_def reads_def
      args_arg_def value_res_def ok_or_def not_less split: option.split)+

lemma yields_map_with_call:
  assumes "yields p input c rest (Ok v)" "f v c = call_outcome (map_err PErr r) c"
    and "(\<exists>x. r = Ok x) \<or> (\<exists>e. r = Err e \<and> e \<noteq> WrongParser)"
  shows "yields (map_with_context p f) input c rest r"
  using assms by (auto simp: yields_def map_with_context_def)

lemma yields_term_arg_var:
  assumes quiet: "verbosity c = NoVerbosity" and frame: "in_frame s c" and x: "var_ok x"
  shows "yields (term_arg E R) (var_byte x # rest) c rest (value_res (get_var s x))"
proof -
  have out: "(\<exists>v. value_res (get_var s x) = Ok v) \<or> (\<exists>e. value_res (get_var s x) = Err e \<and> e \<noteq> WrongParser)"
    using get_var_outcome[of s x] by (auto simp: value_res_def)
  have "yields (choice [map_with_context arg_obj (\<lambda>arg_num. try_act (current_arg arg_num)),
        map_with_context local_obj (\<lambda>local_num. try_act (local local_num)),
        expression_opcode E R]) (var_byte x # rest) c rest (value_res (get_var s x))"
  proof (cases x)
    case (LocalV i)
    have "mismatch arg_obj (var_byte x # rest) c" by (rule mismatch_objs(1)) (rule variable_bytes(2)[OF x LocalV])
    moreover have "yields local_obj (var_byte x # rest) c rest (Ok (word_of_nat i))"
      using variable_objs(1)[OF quiet, of i rest] x by (simp add: LocalV yields_def)
    then have "yields (map_with_context local_obj (\<lambda>local_num. try_act (local local_num))) (var_byte x # rest) c rest
        (value_res (get_var s x))"
      by (rule yields_map_with_call) (use variable_read(1)[OF frame, of i] x out in \<open>auto simp: LocalV\<close>)
    ultimately show ?thesis by (intro yields_choice(2)[OF mismatch_map(2)] yields_choice(1))
  next
    case (ArgV i)
    have "yields arg_obj (var_byte x # rest) c rest (Ok (word_of_nat i))"
      using variable_objs(2)[OF quiet, of i rest] x by (simp add: ArgV yields_def)
    then have "yields (map_with_context arg_obj (\<lambda>arg_num. try_act (current_arg arg_num))) (var_byte x # rest) c rest
        (value_res (get_var s x))"
      by (rule yields_map_with_call) (use variable_read(2)[OF frame, of i] x out in \<open>auto simp: ArgV\<close>)
    then show ?thesis by (rule yields_choice(1))
  qed
  then show ?thesis
    unfolding term_arg_def
    by (intro yields_comment_scope[OF quiet] yields_choice(2)[OF mismatch_data_object[OF quiet]] variable_bytes x) simp
qed

subsection \<open>Calls\<close>

text \<open>
  \<open>method_invocation\<close> reads the object of a name, or calls it if it is a method: it parses as many arguments as the
  method has, from left to right. \<open>callees E c M\<close> is what a caller relies on: the objects that the specification
  speaks of exist, and invoking them gives the specified result and the caller's context back, whatever the
  locals of the caller are.
\<close>

definition callee_arity :: "aml_env \<Rightarrow> aml_value \<Rightarrow> nat" where
  "callee_arity E v = (case v of Method flags _ \<Rightarrow> unat (arg_count E flags) | _ \<Rightarrow> 0)"

definition call_args :: "anum list \<Rightarrow> args" where
  "call_args vs = map (\<lambda>v. Some (num_value v)) vs @ replicate (7 - length vs) None"

locale callees =
  fixes E :: aml_env and c :: aml_context and M :: mspec
  assumes quiet: "verbosity c = NoVerbosity"
    and callee_scope: "M p = Some (k, f) \<Longrightarrow> is_absolute (current_scope c)"
    and callee_path: "M p = Some (k, f) \<Longrightarrow> p \<noteq> [] \<and> length p \<le> 255 \<and> list_all valid_seg p"
    and callee_object: "M p = Some (k, f) \<Longrightarrow>
          \<exists>v. get_by_path (ns c) (abs_path p) = Ok v \<and> callee_arity E v = k \<and> k \<le> 7"
    and callee_result: "M p = Some (k, f) \<Longrightarrow> length vs = k \<Longrightarrow>
          (\<exists>v. f vs = Ok v) \<or> (\<exists>e. f vs = Err e \<and> e \<noteq> WrongParser)"
    and callee_runs: "M p = Some (k, f) \<Longrightarrow> length vs = k \<Longrightarrow>
          \<exists>N. \<forall>n\<ge>N. invoke E n (abs_path p) (call_args vs) (c\<lparr>method_ctx := mc\<rparr>)
            = call_outcome (value_res (f vs)) (c\<lparr>method_ctx := mc\<rparr>)"
begin

lemma at_method_ctx: "callees E (c\<lparr>method_ctx := mc\<rparr>) M"
  by unfold_locales
    (simp_all add: quiet callee_scope callee_path callee_object callee_result callee_runs)

end

lemma search_abs:
  assumes "get_by_path n (abs_path p) = Ok v" "is_absolute scope"
  shows "\<exists>h. search n (abs_path p) scope = Ok (abs_path p, h) \<and> ns_get n h = Ok v"
proof -
  from assms(1) obtain level seg h where h: "get_level_for_path n (abs_path p) = Ok (level, seg)"
    "map_of (level_values level) seg = Some h" "ns_get n h = Ok v"
    by (auto simp: get_by_path_def get_handle_def and_then_eq_Ok ok_or_def unwrap_def split: option.splits res.splits)
  have "\<not> search_rules_apply (abs_path p)" "is_absolute (abs_path p)" by (simp_all add: abs_path_def)
  with assms(2) h show ?thesis by (simp add: search_def resolve_def)
qed

lemma name_string_root:
  assumes "verbosity c = NoVerbosity" "list_all valid_seg p" "length p \<le> 255"
  shows "name_string (0x5C # encode_path p @ rest) c = Ok (rest, c, abs_path p)"
  using name_path_encode[OF assms(2,3), of rest c]
  by (simp add: name_string_def comment_scope_def quiet_scope[OF assms(1)] root_name_string_def combinator_simps abs_path_def)

lemma args_from_call: "length vs \<le> 7 \<Longrightarrow> args_from_list (map num_value vs) = Ok (call_args vs)"
  by (simp add: args_from_list_def call_args_def Let_def comp_def)

lemma method_call_invoke:
  assumes "get_by_path (ns c) path = Ok v" "length vs = callee_arity E v" "length vs \<le> 7"
  shows "method_call E R path (case v of Method flags _ \<Rightarrow> Some (arg_count E flags) | _ \<Rightarrow> None) (map num_value vs) c
    = try_act (invoke_method E R path (call_args vs)) c"
  using assms(1) args_from_call[OF assms(3)]
  by (cases v) (simp_all add: method_call_def act_bind_def reads_def perr_def try_act_def invoke_method_def)

text \<open>The arguments, one after the other.\<close>

definition values_res :: "(anum list, aml_error) res \<Rightarrow> (aml_value list, aml_error) res" where
  "values_res r = and_then r (\<lambda>vs. Ok (map num_value vs))"

lemma yields_n_of:
  assumes "list_all2 (\<lambda>bs r. \<forall>rest. yields p (bs @ rest) c rest (value_res r)) bss rs"
  shows "yields (n_of p (length rs)) (concat bss @ rest) c rest (values_res (eval_all rs))"
  using assms
proof (induction bss rs rule: list_all2_induct)
  case Nil
  show ?case by (simp add: yields_def values_res_def)
next
  case (Cons bs bss r rs)
  from Cons(1) have "yields p (bs @ concat bss @ rest) c (concat bss @ rest) (value_res r)" by blast
  then show ?case
  proof (cases rule: yields_cases)
    case (Ok v)
    then obtain u where u: "r = Ok u" "v = num_value u" by (auto simp: value_res_def and_then_eq_Ok)
    from Cons.IH show ?thesis
      by (cases rule: yields_cases)
        (use Ok u in \<open>auto simp: yields_def values_res_def and_then_eq_Ok and_then_eq_Err\<close>)
  qed (auto simp: yields_def value_res_def values_res_def and_then_eq_Err)
qed

lemma mismatch_call:
  "b \<noteq> 0x70 \<Longrightarrow> mismatch (def_store E R) (b # input) c"
  "b \<noteq> 0x99 \<Longrightarrow> mismatch (def_to_integer E R) (b # input) c"
  unfolding def_store_def def_to_integer_def
  by (intro mismatch_map(1,2,4) mismatch_opcode(1), assumption)+

lemma yields_term_arg_call:
  assumes quiet: "verbosity c = NoVerbosity" and call: "yields (method_invocation E R) (0x5C # input) c rest r"
  shows "yields (term_arg E R) (0x5C # input) c rest r"
proof -
  have "yields (expression_opcode E R) (0x5C # input) c rest r"
    unfolding expression_opcode_def
    by (rule yields_comment_scope[OF quiet], simp)
      (rule yields_choice(1)[OF call]
        | (rule yields_choice(2), rule mismatch_operators mismatch_negated mismatch_call, simp))+
  moreover have "mismatch (data_object E R) (0x5C # input) c" by (rule mismatch_data_object[OF quiet]) simp
  moreover have "mismatch arg_obj (0x5C # input) c" "mismatch local_obj (0x5C # input) c"
    by (rule mismatch_objs, simp)+
  ultimately show ?thesis
    unfolding term_arg_def
    by (intro yields_comment_scope[OF quiet] yields_choice(2)[OF mismatch_map(2)] yields_choice(2) yields_choice(1)) simp_all
qed

context callees
begin

lemma yields_invocation:
  assumes p: "M p = Some (k, f)"
    and args: "yields (n_of (r_term_arg R) k) (as @ rest) c rest (values_res r)"
    and run: "\<And>vs. r = Ok vs \<Longrightarrow> length vs = k \<and>
      invoke_method E R (abs_path p) (call_args vs) c = call_outcome (value_res (f vs)) c"
  shows "yields (method_invocation E R) (0x5C # encode_path p @ as @ rest) c rest (value_res (and_then r f))"
proof -
  from callee_object[OF p] obtain v where v: "get_by_path (ns c) (abs_path p) = Ok v" "callee_arity E v = k" "k \<le> 7"
    by blast
  let ?count = "case v of Method flags _ \<Rightarrow> Some (arg_count E flags) | _ \<Rightarrow> None"
  from search_abs[OF v(1) callee_scope[OF p]] obtain h where
    "search (ns c) (abs_path p) (current_scope c) = Ok (abs_path p, h)" "ns_get (ns c) h = Ok v" by blast
  then have "method_head E (abs_path p) c = Ok ((abs_path p, ?count), c)"
    by (simp add: method_head_def act_bind_def try_act_def reads_def)
  with name_string_root[OF quiet, of p "as @ rest"] callee_path[OF p]
  have head: "map_with_context name_string (method_head E) (0x5C # encode_path p @ as @ rest) c
      = Ok (as @ rest, c, (abs_path p, ?count))"
    by (simp add: map_with_context_def)
  have count: "(case ?count of Some n \<Rightarrow> unat n | None \<Rightarrow> 0) = k"
    using v(2) by (cases v) (simp_all add: callee_arity_def)
  have "yields (map_with_context (n_of (r_term_arg R) k) (method_call E R (abs_path p) ?count)) (as @ rest) c rest
      (value_res (and_then r f))"
    using args
  proof (cases rule: yields_cases)
    case (Ok ws)
    then obtain vs where vs: "r = Ok vs" "ws = map num_value vs" by (auto simp: values_res_def and_then_eq_Ok)
    with run have call: "length vs = k" "invoke_method E R (abs_path p) (call_args vs) c = call_outcome (value_res (f vs)) c"
      by auto
    have "method_call E R (abs_path p) ?count ws c = call_outcome (map_err PErr (value_res (f vs))) c"
      using method_call_invoke[OF v(1), of vs E R] call v(2,3) callee_result[OF p call(1)]
      by (auto simp: vs(2) try_act_def value_res_def)
    with Ok(2) callee_result[OF p call(1)] show ?thesis
      by (auto simp: yields_def map_with_context_def vs(1) value_res_def)
  qed (auto simp: yields_def map_with_context_def values_res_def value_res_def and_then_eq_Err)
  then have "yields (feed (map_with_context name_string (method_head E)) (\<lambda>(path, num_args).
          map_with_context (n_of (r_term_arg R) (case num_args of Some n \<Rightarrow> unat n | None \<Rightarrow> 0))
            (method_call E R path num_args))) (0x5C # encode_path p @ as @ rest) c rest (value_res (and_then r f))"
    by (simp add: yields_def feed_def head count)
  then show ?thesis unfolding method_invocation_def by (intro yields_comment_scope[OF quiet]) simp
qed

lemma eval_all_length: "eval_all rs = Ok vs \<Longrightarrow> length vs = length rs"
  by (induction rs arbitrary: vs) (auto simp: and_then_eq_Ok)

lemma yields_arguments:
  assumes "\<forall>e\<in>set es. \<exists>N. \<forall>n\<ge>N. \<forall>rest. yields (r_term_arg (interp E n)) (encode_exp e @ rest) c rest
      (value_res (eval_exp M s e))"
  shows "\<exists>N. \<forall>n\<ge>N. \<forall>rest. yields (n_of (r_term_arg (interp E n)) (length es)) (concat (map encode_exp es) @ rest) c rest
      (values_res (eval_all (map (eval_exp M s) es)))"
proof -
  from assms obtain N where N: "yields (r_term_arg (interp E n)) (encode_exp e @ rest) c rest (value_res (eval_exp M s e))"
    if "e \<in> set es" "N e \<le> n" for e n rest by metis
  have "yields (n_of (r_term_arg (interp E n)) (length es)) (concat (map encode_exp es) @ rest) c rest
      (values_res (eval_all (map (eval_exp M s) es)))" if n: "sum_list (map N es) \<le> n" for n rest
  proof -
    have "N e \<le> n" if "e \<in> set es" for e using member_le_sum_list[of "N e" "map N es"] that n by simp
    then have "list_all2 (\<lambda>bs r. \<forall>rest. yields (r_term_arg (interp E n)) (bs @ rest) c rest (value_res r))
        (map encode_exp es) (map (eval_exp M s) es)"
      using N by (simp add: list_all2_conv_all_nth del: interp.simps)
    from yields_n_of[OF this, of rest] show ?thesis by simp
  qed
  then show ?thesis by blast
qed

lemma yields_exp:
  assumes frame: "in_frame s c"
  shows "exp_ok M e \<Longrightarrow>
    \<exists>N. \<forall>n\<ge>N. \<forall>rest. yields (r_term_arg (interp E n)) (encode_exp e @ rest) c rest (value_res (eval_exp M s e))"
proof (induction e)
  case (Lit w)
  have "yields (r_term_arg (interp E n)) (encode_integer w @ rest) c rest (Ok (Integer w))" if "1 \<le> n" for n rest
    using that yields_term_arg_literal[OF quiet] by (cases n) simp_all
  then show ?case by (intro exI[of _ 1]) (simp add: value_res_def)
next
  case (Var x)
  have "yields (r_term_arg (interp E n)) (var_byte x # rest) c rest (value_res (get_var s x))" if "1 \<le> n" for n rest
    using that Var yields_term_arg_var[OF quiet frame] by (cases n) simp_all
  then show ?case by (intro exI[of _ 1]) simp
next
  case (Bin b x y)
  from Bin obtain N1 N2 where N:
    "\<And>n rest. N1 \<le> n \<Longrightarrow> yields (r_term_arg (interp E n)) (encode_exp x @ rest) c rest (value_res (eval_exp M s x))"
    "\<And>n rest. N2 \<le> n \<Longrightarrow> yields (r_term_arg (interp E n)) (encode_exp y @ rest) c rest (value_res (eval_exp M s y))"
    by (metis exp_ok.simps(3))
  have "yields (r_term_arg (interp E n)) (encode_exp (Bin b x y) @ rest) c rest (value_res (eval_exp M s (Bin b x y)))"
    if n: "Suc (Suc (N1 + N2)) \<le> n" for n rest
  proof -
    from n obtain m where m: "n = Suc m" "N1 \<le> m" "N2 \<le> m" "0 < m" by (cases n) auto
    have "yields (then_parser (r_term_arg (interp E m)) (r_term_arg (interp E m)))
        (encode_exp x @ encode_exp y @ op_target b @ rest) c (op_target b @ rest) (pair_res (eval_exp M s x) (eval_exp M s y))"
      by (rule yields_operands) (rule N m)+
    from yields_op[OF quiet _ this, of E] m(4)
    have "yields (op_parser E (interp E m) b) (op_bytes b @ encode_exp x @ encode_exp y @ op_target b @ rest) c rest
        (value_res (eval_exp M s (Bin b x y)))" by (cases m) simp_all
    from yields_term_arg_expression[OF quiet this] show ?thesis by (simp add: m(1))
  qed
  then show ?case by blast
next
  case (Call p es)
  from Call.prems obtain f where p: "M p = Some (length es, f)" and es: "list_all (exp_ok M) es"
    by (auto split: option.splits)
  let ?r = "eval_all (map (eval_exp M s) es)"
  have "\<forall>e\<in>set es. \<exists>N. \<forall>n\<ge>N. \<forall>rest. yields (r_term_arg (interp E n)) (encode_exp e @ rest) c rest
      (value_res (eval_exp M s e))"
    using Call.IH es by (auto simp: list_all_iff)
  from yields_arguments[OF this] obtain N1 where N1:
    "yields (n_of (r_term_arg (interp E n)) (length es)) (concat (map encode_exp es) @ rest) c rest (values_res ?r)"
    if "N1 \<le> n" for n rest by blast
  have "\<exists>N. \<forall>n\<ge>N. \<forall>vs. ?r = Ok vs \<longrightarrow> invoke E n (abs_path p) (call_args vs) c = call_outcome (value_res (f vs)) c"
  proof (cases "\<exists>vs. ?r = Ok vs")
    case True
    then obtain vs where "?r = Ok vs" by blast
    with callee_runs[OF p, of vs "method_ctx c"] eval_all_length[of "map (eval_exp M s) es" vs] show ?thesis by simp
  qed auto
  then obtain N2 where N2: "invoke E n (abs_path p) (call_args vs) c = call_outcome (value_res (f vs)) c"
    if "N2 \<le> n" "?r = Ok vs" for n vs by blast
  have "yields (r_term_arg (interp E n)) (encode_exp (Call p es) @ rest) c rest (value_res (eval_exp M s (Call p es)))"
    if n: "Suc (N1 + N2) \<le> n" for n rest
  proof -
    from n obtain m where m: "n = Suc m" "N1 \<le> m" "N2 \<le> m" by (cases n) auto
    have "yields (method_invocation E (interp E m)) (0x5C # encode_path p @ concat (map encode_exp es) @ rest) c rest
        (value_res (and_then ?r f))"
      by (rule yields_invocation[OF p N1[OF m(2)]])
        (use N2[OF m(3)] eval_all_length in \<open>fastforce simp: invoke_def\<close>)
    from yields_term_arg_call[OF quiet this] show ?thesis by (simp add: m(1) p)
  qed
  then show ?case by blast
qed

end

lemma callees_none: "verbosity c = NoVerbosity \<Longrightarrow> callees E c Map.empty"
  by unfold_locales simp_all

text \<open>
  C4. Expressions are evaluated correctly: for every expression of integer constants, locals, arguments, additions
  modulo $2^{64}$, conjunctions, shifts, comparisons, logical disjunctions, and calls of methods and reads of named objects
  that behave as specified, running the interpreter on its byte code returns the value of the direct evaluator
  and leaves the bytes after it and the context alone; a shift by 64 or more, a local or argument that has no value
  and a local or argument outside of a method are the errors the sources name, and the error of a call is passed on. This
  holds for every large enough fuel.
\<close>

theorem expression_evaluates:
  assumes "callees E c M" "in_frame s c" "exp_ok M e"
  shows "\<exists>N. \<forall>n\<ge>N. \<forall>rest.
           (\<exists>v. eval_exp M s e = Ok v \<and>
              r_term_arg (interp E n) (encode_exp e @ rest) c = Ok (rest, c, num_value v))
         \<or> (\<exists>err i. eval_exp M s e = Err err \<and>
              r_term_arg (interp E n) (encode_exp e @ rest) c = Err (i, c, PErr err))"
proof -
  have "(\<exists>v. eval_exp M s e = Ok v \<and> r_term_arg (interp E n) (encode_exp e @ rest) c = Ok (rest, c, num_value v))
    \<or> (\<exists>err i. eval_exp M s e = Err err \<and> r_term_arg (interp E n) (encode_exp e @ rest) c = Err (i, c, PErr err))"
    if "yields (r_term_arg (interp E n)) (encode_exp e @ rest) c rest (value_res (eval_exp M s e))" for n rest
    using that by (cases rule: yields_cases) (auto simp: value_res_def and_then_eq_Ok and_then_eq_Err)
  with callees.yields_exp[OF assms] show ?thesis by blast
qed

text \<open>A namespace with the integer five under the name \<open>\A\<close>, read by an expression in a method.\<close>

definition five_spec :: mspec where
  "five_spec = [[seg_A] \<mapsto> (0, \<lambda>_. Ok (NumI 5))]"

definition five_frame :: frame where
  "five_frame = \<lparr>flocals = replicate 8 (Some (NumI 3)), fargs = replicate 7 None\<rparr>"

definition five_context :: aml_context where
  "five_context = blank_context\<lparr>ns := ns_with (Integer 5), method_ctx := Some (frame_ctx five_frame)\<rparr>"

interpretation five: callees std_env five_context five_spec
proof
  show "verbosity five_context = NoVerbosity" by (simp add: five_context_def blank_context_def)
  fix p k f assume "five_spec p = Some (k, f)"
  then have p: "p = [seg_A]" "k = 0" "f = (\<lambda>_. Ok (NumI 5))" by (auto simp: five_spec_def split: if_splits)
  show "is_absolute (current_scope five_context)" by (simp add: five_context_def blank_context_def root_name_def)
  show "p \<noteq> [] \<and> length p \<le> 255 \<and> list_all valid_seg p"
    by (simp add: p seg_A_def is_lead_name_char_def is_name_char_def)
  show "\<exists>v. get_by_path (ns five_context) (abs_path p) = Ok v \<and> callee_arity std_env v = k \<and> k \<le> 7"
    by (simp add: p five_context_def callee_arity_def)
  fix vs :: "anum list" and mc
  show "(\<exists>v. f vs = Ok v) \<or> (\<exists>e. f vs = Err e \<and> e \<noteq> WrongParser)" by (simp add: p)
  show "\<exists>N. \<forall>n\<ge>N. invoke std_env n (abs_path p) (call_args vs) (five_context\<lparr>method_ctx := mc\<rparr>)
      = call_outcome (value_res (f vs)) (five_context\<lparr>method_ctx := mc\<rparr>)"
    by (simp add: p invoke_def invoke_method_def act_bind_def reads_def five_context_def value_res_def)
qed

theorem expression_evaluates_witness:
  "\<exists>N. \<forall>n\<ge>N. r_term_arg (interp std_env n) (encode_exp (Bin AddOp (Call [seg_A] []) (Var (LocalV 1))) @ [0x99]) five_context
     = Ok ([0x99], five_context, Integer 8)"
proof -
  let ?e = "Bin AddOp (Call [seg_A] []) (Var (LocalV 1))"
  have "in_frame (Some five_frame) five_context"
    by (simp add: in_frame_def five_context_def five_frame_def frame_ok_def)
  moreover have "exp_ok five_spec ?e" by (simp add: five_spec_def)
  moreover have "eval_exp five_spec (Some five_frame) ?e = Ok (NumI 8)" by (simp add: five_spec_def five_frame_def)
  ultimately show ?thesis
    using expression_evaluates[OF five.callees_axioms, of "Some five_frame" ?e] by (auto simp del: encode_exp.simps interp.simps)
qed

subsection \<open>Resource templates\<close>

lemma byte_sum_eq: "byte_sum bs = sum_list bs"
proof -
  have "fold (\<lambda>byte checksum. checksum + byte) bs a = a + sum_list bs" for a :: u8
    by (induction bs arbitrary: a) (simp_all add: algebra_simps)
  then show ?thesis by (simp add: byte_sum_def)
qed

text \<open>
  Joining two resource templates in different buffers: the result is a new buffer that
  holds both without their end tags, followed by one end tag whose checksum makes the sum of
  all bytes zero; the two buffers are not changed. A buffer of one byte is refused.
\<close>

theorem concat_resources_correct:
  assumes "l \<noteq> r" "l < length (buffers c)" "r < length (buffers c)" "l \<notin> set (locked c)" "r \<notin> set (locked c)"
  defines "template \<equiv> \<lambda>i. butlast (butlast (buffers c ! i))"
  shows "concat_resources E (Suc n) (Buffer l) (Buffer r) c =
      (if length (buffers c ! l) = 1 \<or> length (buffers c ! r) = 1 then Err (ResourceDescriptorTooShort, c)
       else Ok (Buffer (length (buffers c)),
                c\<lparr>buffers := buffers c @ [concat_res_bytes (buffers c ! l) (buffers c ! r)]\<rparr>))
    \<and> (\<exists>chk. concat_res_bytes (buffers c ! l) (buffers c ! r) = template l @ template r @ [0x79, chk])
    \<and> sum_list (concat_res_bytes (buffers c ! l) (buffers c ! r)) = 0"
proof -
  have "strip_end_tag bs = butlast (butlast bs)" for bs
    by (simp add: strip_end_tag_def butlast_conv_take min_def numeral_2_eq_2)
  then have "\<exists>chk. concat_res_bytes (buffers c ! l) (buffers c ! r) = template l @ template r @ [0x79, chk]"
    by (simp add: concat_res_bytes_def template_def Let_def)
  moreover have "sum_list (concat_res_bytes (buffers c ! l) (buffers c ! r)) = 0"
    by (simp add: concat_res_bytes_def Let_def byte_sum_eq)
  moreover have "concat_resources E (Suc n) (Buffer l) (Buffer r) c =
      (if length (buffers c ! l) = 1 \<or> length (buffers c ! r) = 1 then Err (ResourceDescriptorTooShort, c)
       else Ok (Buffer (length (buffers c)),
                c\<lparr>buffers := buffers c @ [concat_res_bytes (buffers c ! l) (buffers c ! r)]\<rparr>))"
    using assms(1-5)
    by (auto simp: concat_resources_def act_bind_def ret_def fail_def with_lock_def buffer_data_def unlock_def
        new_buffer_def alloc_buffer_def)
  ultimately show ?thesis by blast
qed

theorem concat_resources_correct_witness:
  "concat_resources std_env (Suc 0) (Buffer 0) (Buffer 1)
     (blank_context\<lparr>buffers := [[0x22, 0x10, 0x00, 0x79, 0x00], [0x79, 0x00]]\<rparr>) =
   Ok (Buffer 2, blank_context\<lparr>buffers := [[0x22, 0x10, 0x00, 0x79, 0x00], [0x79, 0x00],
      concat_res_bytes [0x22, 0x10, 0x00, 0x79, 0x00] [0x79, 0x00]]\<rparr>)"
  using concat_resources_correct[of 0 1
      "blank_context\<lparr>buffers := [[0x22, 0x10, 0x00, 0x79, 0x00], [0x79, 0x00]]\<rparr>" std_env 0]
  by (simp add: blank_context_def numeral_2_eq_2)

text \<open>
  Two operators that the sources claim to cover stop the interpreter instead: joining a
  Boolean, which \<open>as_concat_type\<close> lets pass as an integer, panics, and so does incrementing a
  local that holds the largest integer, where the specification has it wrap around.
\<close>

theorem concat_boolean_and_increment_panic:
  assumes "verbosity c = NoVerbosity" "method_ctx c = Some mc" "length (locals mc) = 8"
    "locals mc ! 0 = Some (Integer (- 1))" "0 < r_fuel R"
  shows "concat_values E n (Boolean b) right c = Panic
       \<and> def_increment E R (0x75 # 0x60 # rest) c = Panic"
proof -
  have scopes: "indent_in v c = Ok c" "indent_out v c = Ok c" if "v \<noteq> NoVerbosity" for v
    using quiet_scope[OF assms(1) that] by simp_all
  have max: "unat (- 1 :: u64) + unat (1 :: u64) \<ge> 2 ^ 64" by (simp add: unsigned_minus_1_eq_mask mask_eq_exp_minus_1)
  have "super_name (0x60 # rest) c = Ok (rest, c, LocalTarget 0)"
    by (simp add: super_name_def comment_scope_def scopes map_parser_def debug_obj_def ext_opcode_def
        discard_result_def then_parser_def opcode_def simple_name_def arg_obj_def arg_parser_def local_obj_def
        local_parser_def id_parser_def)
  moreover have "as_integer E (r_fuel R) (Integer (- 1)) c = Ok (- 1, c)"
    using assms(5) by (cases "r_fuel R") (simp_all add: ret_def)
  ultimately show ?thesis
    using assms(2-4) max
    by (simp add: concat_values_def as_concat_type_def reads_def def_increment_def map_parser_def then_opcode
        comment_scope_def scopes map_with_context_def act_bind_def try_act_def read_target_def local_def add_u64_def)
qed

theorem concat_boolean_and_increment_panic_witness:
  "def_increment std_env (interp std_env 1) (0x75 # 0x60 # [])
     (blank_context\<lparr>method_ctx := Some \<lparr>locals = replicate 8 (Some (Integer (- 1))), margs = args_empty\<rparr>\<rparr>) = Panic"
  using concat_boolean_and_increment_panic[of
      "blank_context\<lparr>method_ctx := Some \<lparr>locals = replicate 8 (Some (Integer (- 1))), margs = args_empty\<rparr>\<rparr>"
      "\<lparr>locals = replicate 8 (Some (Integer (- 1))), margs = args_empty\<rparr>" "interp std_env 1" std_env 1 True
      "Integer 0" "[]"]
  by (simp add: blank_context_def)

end
