(* ===== verification/Method_Correct.thy ===== *)
theory Method_Correct
  imports Expression_Correct
begin

section \<open>Methods and tables\<close>

text \<open>
  Whole runs: what every call does around the body of its method, invoking the predefined
  method \<open>_OSI\<close>, the context a new interpreter starts with, and loading a table that defines a
  name. The caller's context is described completely, so that nothing a call does behind its
  result escapes the statements.
\<close>

subsection \<open>Streams of their own\<close>

lemma from_raw_length_whole: "from_raw_length stream (len_u32 stream) = Ok \<lparr>raw_length = len_u32 stream, end_offset = 0\<rparr>"
  by (simp add: from_raw_length_def checked_sub_u32_def)

lemma run_term_list_eq:
  "run_term_list (interp E (Suc n)) stream c =
     parse_in (term_list E (interp E n) \<lparr>raw_length = len_u32 stream, end_offset = 0\<rparr>) stream c"
  by (simp add: run_term_list_def from_raw_length_whole)

lemma still_parsing_whole:
  assumes "length stream < 2 ^ 32"
  shows "still_parsing \<lparr>raw_length = l, end_offset = 0\<rparr> stream \<longleftrightarrow> stream \<noteq> []"
  using assms
  by (simp add: still_parsing_def word_less_nat_alt)

subsection \<open>Statements by their opcodes\<close>

lemma mismatch_namespace_modifier:
  "b \<notin> {0x08, 0x10} \<Longrightarrow> mismatch (namespace_modifier E R) (b # input) c"
  unfolding namespace_modifier_def def_name_def def_scope_def
  by (intro mismatch_choice mismatch_map(3,4) mismatch_opcode(1)) simp_all

lemma mismatch_named_obj:
  assumes "verbosity c = NoVerbosity" "b \<notin> {0x5b, 0x8d, 0x8c, 0x8b, 0x8a, 0x8f, 0x14, 0x15}"
  shows "mismatch (named_obj E R) (b # input) c"
  unfolding named_obj_def def_create_bit_field_def def_create_byte_field_def def_create_word_field_def
    def_create_dword_field_def def_create_qword_field_def create_field_of_def def_create_field_def
    def_op_region_def def_field_def def_method_def def_external_def def_device_def def_processor_def
    def_power_res_def def_thermal_zone_def def_mutex_def
  by (intro mismatch_comment_scope assms mismatch_choice mismatch_map(3,4) mismatch_opcode(1)
      mismatch_ext_opcode) (use assms in simp_all)

lemma mismatch_statements:
  "b \<noteq> 0xa5 \<Longrightarrow> mismatch def_break (b # input) c"
  "b \<noteq> 0xcc \<Longrightarrow> mismatch def_breakpoint (b # input) c"
  "b \<noteq> 0x9f \<Longrightarrow> mismatch def_continue (b # input) c"
  "b \<noteq> 0x5b \<Longrightarrow> mismatch (def_fatal E R) (b # input) c"
  "b \<noteq> 0xa0 \<Longrightarrow> mismatch (def_if_else E R) (b # input) c"
  "b \<noteq> 0xa3 \<Longrightarrow> mismatch def_noop (b # input) c"
  unfolding def_break_def def_breakpoint_def def_continue_def def_fatal_def def_if_else_def def_noop_def
  by (intro mismatch_map(3,4) mismatch_opcode(1) mismatch_ext_opcode, assumption)+

subsection \<open>Calls\<close>

definition entered :: "aml_name \<Rightarrow> args \<Rightarrow> namespace \<Rightarrow> aml_context \<Rightarrow> aml_context" where
  "entered path a n c = c\<lparr>method_ctx := Some (method_context_new a), current_scope := path, ns := n\<rparr>"

lemma entered_simps [simp]:
  "ns (entered path a n c) = n" "verbosity (entered path a n c) = verbosity c"
  "(entered path a n c)\<lparr>method_ctx := Some (method_context_new a)\<rparr> = entered path a n c"
  "(entered path a n c)\<lparr>ns := ns c, method_ctx := method_ctx c, current_scope := current_scope c\<rparr> = c"
  by (simp_all add: entered_def)

lemma get_by_path_level:
  assumes "get_by_path n (abs_path (dir @ [seg])) = Ok v"
  shows "level_at n dir \<noteq> None"
  using assms by (auto simp: get_by_path_def handle_at_get_handle split: option.splits)

text \<open>
  A call, step by step: the level of the method is added, the body runs, the level is removed, and the caller's scope,
  arguments and locals are set again.
\<close>

lemma invoke_method_steps:
  assumes m: "get_by_path (ns c) p = Ok (Method flags code)" and add: "add_level (ns c) p MethodLocals = Ok ((), n)"
    and rem: "remove_level n p = Ok ((), n')"
    and body: "method_body E R code (entered p a n c) = call_outcome r ((entered p a n c)\<lparr>method_ctx := mc\<rparr>)"
  shows "invoke_method E R p a c = call_outcome r (c\<lparr>ns := n'\<rparr>)"
proof -
  have start: "act_bind (reads (\<lambda>c. get_by_path (ns c) p)) f c = f (Method flags code) c" for f :: "aml_value \<Rightarrow> aml_value act"
    using m by (simp add: act_bind_def reads_def)
  have "invoke_method E R p a c =
     act_bind (attempt (method_body E R code)) (\<lambda>return_value.
     act_bind (on_ns (\<lambda>s. remove_level s p)) (\<lambda>_.
     act_bind (leave_method (method_ctx c) (current_scope c)) (\<lambda>_.
       case return_value of Inr result \<Rightarrow> ret result | Inl err \<Rightarrow> fail err))) (entered p a n c)"
    unfolding invoke_method_def start
    by (simp add: act_bind_def enter_method_def on_ns_def add entered_def)
  moreover have "(entered p a n c)\<lparr>ns := n', method_ctx := method_ctx c, current_scope := current_scope c\<rparr> = c\<lparr>ns := n'\<rparr>"
    by (simp add: entered_def)
  ultimately show ?thesis
    using rem by (cases r) (simp_all add: act_bind_def attempt_def body on_ns_def leave_method_def ret_def fail_def)
qed

text \<open>A call whose body changes nothing but its locals and arguments gives the caller's context back.\<close>

lemma method_level_added:
  assumes "ns_wf n" "level_at n dir \<noteq> None" "level_at n (dir @ [seg]) = None"
  obtains m where "add_level n (abs_path (dir @ [seg])) MethodLocals = Ok ((), m)"
    "remove_level m (abs_path (dir @ [seg])) = Ok ((), n)"
proof -
  from assms(2) obtain level where level: "level_at n dir = Some level" by blast
  with assms(3) have none: "map_of (children level) seg = None" by (simp add: level_at_snoc)
  let ?m = "write_level n dir (with_children level (btree_insert seg (level_new MethodLocals) (children level)))"
  have add: "add_level n (abs_path (dir @ [seg])) MethodLocals = Ok ((), ?m)" by (simp add: add_level_abs level none)
  with remove_added_level[OF assms(1,3) _ add] level show thesis by (intro that) simp_all
qed

lemma invoke_method_frame_locals:
  assumes wf: "ns_wf (ns c)" and m: "get_by_path (ns c) (abs_path (dir @ [seg])) = Ok (Method flags code)"
    and free: "level_at (ns c) (dir @ [seg]) = None"
    and body: "\<And>n. add_level (ns c) (abs_path (dir @ [seg])) MethodLocals = Ok ((), n)
        \<Longrightarrow> method_body E R code (entered (abs_path (dir @ [seg])) a n c)
                   = call_outcome r ((entered (abs_path (dir @ [seg])) a n c)\<lparr>method_ctx := mc\<rparr>)"
  shows "invoke_method E R (abs_path (dir @ [seg])) a c = call_outcome r c"
proof (rule method_level_added[OF wf get_by_path_level[OF m] free])
  fix n assume n: "add_level (ns c) (abs_path (dir @ [seg])) MethodLocals = Ok ((), n)"
    "remove_level n (abs_path (dir @ [seg])) = Ok ((), ns c)"
  from invoke_method_steps[OF m n body[OF n(1)]] show ?thesis by simp
qed

lemma invoke_method_frame:
  assumes wf: "ns_wf (ns c)" and m: "get_by_path (ns c) (abs_path (dir @ [seg])) = Ok (Method flags code)"
    and free: "level_at (ns c) (dir @ [seg]) = None"
    and body: "\<And>n. method_body E R code (entered (abs_path (dir @ [seg])) a n c)
                   = call_outcome r (entered (abs_path (dir @ [seg])) a n c)"
  shows "invoke_method E R (abs_path (dir @ [seg])) a c = call_outcome r c"
  by (rule invoke_method_frame_locals[OF wf m free, where mc = "Some (method_context_new a)"])
    (simp add: body)

lemma r_fuel_interp [simp]: "r_fuel (interp E n) = n"
  by (cases n) simp_all

text \<open>
  The predefined method \<open>_OSI\<close>: calling it with a string returns all ones if the string is
  one of the names the interpreter claims to support and zero otherwise, and changes nothing.
\<close>

theorem osi_invocation:
  assumes "ns_wf (ns c)" "level_at (ns c) (dir @ [seg]) = None" "0 < n"
    "get_by_path (ns c) (abs_path (dir @ [seg])) = Ok (Method flags (Native OsiMethod))"
  shows "invoke E n (abs_path (dir @ [seg])) (Some (String s) # others) c =
           Ok (if s \<in> set osi_true then ones else zero, c)"
proof -
  have "method_body E (interp E n) (Native OsiMethod) (entered p (Some (String s) # others) m c)
      = call_outcome (Ok (if s \<in> set osi_true then ones else zero)) (entered p (Some (String s) # others) m c)" for m p
    using assms(3)
    by (cases n) (simp_all add: method_body_def run_native_def osi_method_def act_bind_def current_arg_def reads_def
        entered_def method_context_new_def args_arg_def ret_def del: interp.simps)
  from invoke_method_frame[OF assms(1,4,2) this] show ?thesis by (simp add: invoke_def)
qed

theorem osi_invocation_witness:
  "invoke std_env 1 (abs_path ([] @ [seg_A])) [Some (String ''Darwin'')]
     (blank_context\<lparr>ns := ns_with (Method (MethodFlags 1) (Native OsiMethod))\<rparr>)
   = Ok (ones, blank_context\<lparr>ns := ns_with (Method (MethodFlags 1) (Native OsiMethod))\<rparr>)"
  using osi_invocation[of "blank_context\<lparr>ns := ns_with (Method (MethodFlags 1) (Native OsiMethod))\<rparr>"
      "[]" seg_A 1 "MethodFlags 1" std_env "''Darwin''" "[]"]
  by (simp add: ns_with_wf blank_context_def osi_true_def)

lemma act_bind_eq_Ok: "act_bind m f c = Ok r \<longleftrightarrow> (\<exists>x c1. m c = Ok (x, c1) \<and> f x c1 = Ok r)"
  by (auto simp: act_bind_def and_then_eq_Ok)

lemma remove_level_gone:
  assumes "remove_level n (abs_path (dir @ [seg])) = Ok ((), n')"
  shows "level_at n' (dir @ [seg]) = None"
proof -
  from assms obtain level where l: "level_at n dir = Some level"
    "n' = write_level n dir (with_children level (btree_remove seg (children level)))"
    by (auto simp: remove_level_abs split: option.split_asm)
  show ?thesis
    using level_at_write_children[OF l(1), of "btree_remove seg (children level)" seg "[]"] by (simp add: l(2))
qed

text \<open>
  C12. However a method's body ends, and whatever it does to the namespace, a call that returns a
  value has given the caller its scope, arguments and locals back and has removed the level
  that held the method's own names.
\<close>

theorem invoke_restores_caller:
  assumes "get_by_path (ns c) (abs_path (dir @ [seg])) = Ok (Method flags code)"
    "invoke_method E R (abs_path (dir @ [seg])) a c = Ok (v, c')"
  shows "current_scope c' = current_scope c \<and> method_ctx c' = method_ctx c
       \<and> level_at (ns c') (dir @ [seg]) = None"
proof -
  let ?p = "abs_path (dir @ [seg])"
  from assms obtain c2 c3 and out :: "aml_error + aml_value" where
    rem: "on_ns (\<lambda>s. remove_level s ?p) c2 = Ok ((), c3)"
    and c': "act_bind (leave_method (method_ctx c) (current_scope c)) (\<lambda>_.
         case out of Inr result \<Rightarrow> ret result | Inl err \<Rightarrow> fail err) c3 = Ok (v, c')"
    by (auto simp: invoke_method_def act_bind_eq_Ok reads_def and_then_eq_Ok map_err_eq_Ok enter_method_def)
  from c' have "c' = c3\<lparr>method_ctx := method_ctx c, current_scope := current_scope c\<rparr>"
    by (auto simp: act_bind_def leave_method_def ret_def fail_def split: sum.split_asm)
  moreover from rem have "level_at (ns c3) (dir @ [seg]) = None"
    by (auto simp: on_ns_def and_then_eq_Ok map_err_eq_Ok dest: remove_level_gone)
  ultimately show ?thesis by simp
qed

theorem invoke_restores_caller_witness:
  "current_scope (blank_context\<lparr>ns := ns_with (Method (MethodFlags 1) (Native OsiMethod))\<rparr>) = root_name
   \<and> level_at (ns (blank_context\<lparr>ns := ns_with (Method (MethodFlags 1) (Native OsiMethod))\<rparr>)) ([] @ [seg_A]) = None"
proof -
  let ?c = "blank_context\<lparr>ns := ns_with (Method (MethodFlags 1) (Native OsiMethod))\<rparr>"
  have "method_body std_env (interp std_env 1) (Native OsiMethod) (entered p [Some (String s)] m ?c)
      = call_outcome (Ok (if s \<in> set osi_true then ones else zero)) (entered p [Some (String s)] m ?c)" for m p s
    by (simp add: method_body_def run_native_def osi_method_def act_bind_def current_arg_def reads_def
        entered_def method_context_new_def args_arg_def ret_def)
  from invoke_method_frame[of ?c "[]" seg_A "MethodFlags 1", OF _ _ _ this]
  have "invoke_method std_env (interp std_env 1) (abs_path ([] @ [seg_A])) [Some (String ''Darwin'')] ?c
      = Ok (if ''Darwin'' \<in> set osi_true then ones else zero, ?c)"
    by (simp add: ns_with_wf blank_context_def)
  from invoke_restores_caller[of ?c "[]" seg_A "MethodFlags 1", OF _ this] show ?thesis
    by (simp add: blank_context_def)
qed

subsection \<open>A new interpreter\<close>

abbreviation seg_of :: "u8 \<Rightarrow> u8 \<Rightarrow> u8 \<Rightarrow> name_seg" where
  "seg_of x y z \<equiv> NameSeg 0x5F x y z"

definition predefined_ns :: "'z crates_scheme \<Rightarrow> namespace" where
  "predefined_ns K =
     \<lparr>next_handle = 3,
      object_map = [(0, String ''Microsoft Windows NT''),
        (1, Method (MethodFlags (set_bits_u8 K (set_bit_u8 K (set_bits_u8 K 0 0 3 1) 3 False) 4 8 0)) (Native OsiMethod)),
        (2, Integer 2)],
      root_level = NamespaceLevel ScopeLevel
        [(seg_of 0x47 0x50 0x45, level_new ScopeLevel), (seg_of 0x50 0x52 0x5F, level_new ScopeLevel),
         (seg_of 0x53 0x42 0x5F, level_new ScopeLevel), (seg_of 0x53 0x49 0x5F, level_new ScopeLevel),
         (seg_of 0x54 0x5A 0x5F, level_new ScopeLevel)]
        [(seg_of 0x4F 0x53 0x49, 1), (seg_of 0x4F 0x53 0x5F, 0), (seg_of 0x52 0x45 0x56, 2)]\<rparr>"

lemma predefined_names:
  "from_str (CHR 0x5C # ''_GPE'') = Ok (abs_path [seg_of 0x47 0x50 0x45])"
  "from_str (CHR 0x5C # ''_SB'') = Ok (abs_path [seg_of 0x53 0x42 0x5F])"
  "from_str (CHR 0x5C # ''_SI'') = Ok (abs_path [seg_of 0x53 0x49 0x5F])"
  "from_str (CHR 0x5C # ''_PR'') = Ok (abs_path [seg_of 0x50 0x52 0x5F])"
  "from_str (CHR 0x5C # ''_TZ'') = Ok (abs_path [seg_of 0x54 0x5A 0x5F])"
  "from_str (CHR 0x5C # ''_OS'') = Ok (abs_path [seg_of 0x4F 0x53 0x5F])"
  "from_str (CHR 0x5C # ''_OSI'') = Ok (abs_path [seg_of 0x4F 0x53 0x49])"
  "from_str (CHR 0x5C # ''_REV'') = Ok (abs_path [seg_of 0x52 0x45 0x56])"
  by code_simp+

lemma top_level_ops:
  "add_level n (abs_path [seg]) t =
     Ok ((), if map_of (children (root_level n)) seg = None
             then n\<lparr>root_level := with_children (root_level n)
                    (btree_insert seg (level_new t) (children (root_level n)))\<rparr> else n)"
  "next_handle n \<noteq> - 1 \<Longrightarrow> map_of (level_values (root_level n)) seg = None \<Longrightarrow>
   add_value n (abs_path [seg]) v =
     Ok (next_handle n, n\<lparr>next_handle := next_handle n + 1,
          object_map := btree_insert (next_handle n) v (object_map n),
          root_level := with_values (root_level n)
             (btree_insert seg (next_handle n) (level_values (root_level n)))\<rparr>)"
  using add_level_abs[of n "[]" seg t] add_value_abs[OF _ refl, of n "[]" seg v]
  by (simp_all add: write_level_def Let_def handle_at_def)

lemma aml_context_new_eq:
  "aml_context_new K d = Ok ((), \<lparr>ns = predefined_ns K, method_ctx = None, current_scope = root_name,
      scope_indent = 0, verbosity = d, buffers = [], locked = [], io_log = []\<rparr>)"
  by (simp add: aml_context_new_def add_predefined_objects_def act_bind_def predef_level_def predef_value_def
      reads_def predefined_names on_ns_def top_level_ops namespace_new_def level_new_def with_children_def
      with_values_def native_method_value_def method_flags_new_def Let_def ret_def predefined_ns_def)

abbreviation new_context :: "'z crates_scheme \<Rightarrow> debug_verbosity \<Rightarrow> aml_context" where
  "new_context K d \<equiv> \<lparr>ns = predefined_ns K, method_ctx = None, current_scope = root_name,
      scope_indent = 0, verbosity = d, buffers = [], locked = [], io_log = []\<rparr>"

lemma ctx_ok_new: "ctx_ok (new_context K d)"
proof -
  have empty: "lookup_level (level_new t) dir = (if dir = [] then Some (level_new t) else None)" for t dir
    by (cases dir) (simp_all add: level_new_def)
  have "handle_at (predefined_ns K) dir s = Some h \<Longrightarrow> h \<in> {0, 1, 2}" for dir s h
    by (cases dir) (auto simp: handle_at_def predefined_ns_def empty split: option.splits if_splits,
        simp_all add: level_new_def)
  then have "ns_wf (predefined_ns K)"
    by (auto simp: ns_wf_def predefined_ns_def btree_ok_def split: if_splits)
  then show ?thesis
    by (auto simp: ctx_ok_def root_name_def) (auto simp: predefined_ns_def split: if_splits)
qed

text \<open>
  A new interpreter: creating the context always succeeds, whatever the crates do; the context
  satisfies the invariant, has the five predefined levels and the three predefined objects
  with the values the sources give them, and nothing else has a name.
\<close>

theorem new_interpreter:
  "\<exists>c. aml_context_new K d = Ok ((), c) \<and> ctx_ok c \<and> method_ctx c = None \<and> current_scope c = root_name
     \<and> {s. level_at (ns c) [s] \<noteq> None} =
        {seg_of 0x47 0x50 0x45, seg_of 0x53 0x42 0x5F, seg_of 0x53 0x49 0x5F, seg_of 0x50 0x52 0x5F,
         seg_of 0x54 0x5A 0x5F}
     \<and> get_by_path (ns c) (abs_path [seg_of 0x4F 0x53 0x5F]) = Ok (String ''Microsoft Windows NT'')
     \<and> (\<exists>flags. get_by_path (ns c) (abs_path [seg_of 0x4F 0x53 0x49]) = Ok (Method flags (Native OsiMethod)))
     \<and> get_by_path (ns c) (abs_path [seg_of 0x52 0x45 0x56]) = Ok (Integer 2)"
proof -
  have get: "get_by_path (predefined_ns K) (abs_path [s]) =
      (case map_of (level_values (root_level (predefined_ns K))) s of
         Some h \<Rightarrow> unwrap (ns_get (predefined_ns K) h) | None \<Rightarrow> Err (ValueDoesNotExist (abs_path [s])))" for s
    using handle_at_get_handle[of "predefined_ns K" "[]" s]
    by (auto simp: get_by_path_def handle_at_def split: option.splits)
  have levels: "{s. level_at (predefined_ns K) [s] \<noteq> None} =
        {seg_of 0x47 0x50 0x45, seg_of 0x53 0x42 0x5F, seg_of 0x53 0x49 0x5F, seg_of 0x50 0x52 0x5F,
         seg_of 0x54 0x5A 0x5F}"
    by (auto simp: predefined_ns_def split: option.splits if_splits)
  show ?thesis
    using ctx_ok_new[of K d] levels
    by (intro exI[of _ "new_context K d"])
      (simp add: aml_context_new_eq get, simp add: predefined_ns_def ns_get_def)
qed

subsection \<open>Calls that fail\<close>

text \<open>
  A call whose body ends, with a value or an error, but without the level of the method fails when it removes the level, and leaves
  the context as the body left it.
\<close>

lemma outer_call_fails:
  assumes "get_by_path (ns c) (abs_path (dir @ [seg])) = Ok (Method flags code)"
    "add_level (ns c) (abs_path (dir @ [seg])) MethodLocals = Ok ((), n)"
    "method_body E R code (entered (abs_path (dir @ [seg])) a n c) = call_outcome r c2"
    "(\<exists>v. r = Ok v) \<or> (\<exists>e. r = Err e)" "level_at (ns c2) dir \<noteq> None" "level_at (ns c2) (dir @ [seg]) = None"
  shows "invoke_method E R (abs_path (dir @ [seg])) a c
           = Err (LevelDoesNotExist (abs_path (dir @ [seg])), c2)"
proof -
  let ?p = "abs_path (dir @ [seg])"
  from assms(5) obtain level where level: "level_at (ns c2) dir = Some level" by blast
  with assms(6) have "map_of (children level) seg = None" by (simp add: level_at_snoc)
  then have rem: "remove_level (ns c2) ?p = Err (LevelDoesNotExist ?p, ns c2)"
    by (simp add: remove_level_abs level)
  have start: "act_bind (reads (\<lambda>c. get_by_path (ns c) ?p)) f c = f (Method flags code) c" for f :: "aml_value \<Rightarrow> aml_value act"
    using assms(1) by (simp add: act_bind_def reads_def)
  show ?thesis
    unfolding invoke_method_def start using assms(3,4)
    by (auto simp: act_bind_def enter_method_def on_ns_def assms(2) attempt_def entered_def rem)
qed

text \<open>
  An \<open>If\<close> without an \<open>Else\<close> that is the last thing in its stream, as the last statement of a
  method or table is, fails with the error for an unexpected end, whatever its predicate and
  body: the choice between an \<open>Else\<close> and nothing looks for the opcode first and treats the end
  of the stream as an error.
\<close>

theorem if_without_else_at_end_fails:
  assumes "bit_field_crate E" "verbosity c = NoVerbosity" "0 < m"
    "n < 2 ^ 28" "n = length (encode_pkg_length n @ encode_integer w @ body)"
  shows "\<exists>i. def_if_else E (interp E m) (0xa0 # encode_pkg_length n @ encode_integer w @ body) c
            = Err (i, c, PErr UnexpectedEndOfStream)"
proof -
  let ?input = "encode_pkg_length n @ encode_integer w @ body"
  have n32: "length ?input < 2 ^ 32" using assms(4,5) by simp
  have un: "unat (word_of_nat n :: u32) = n" using assms(4) by (simp add: unat_of_nat)
  have len: "len_u32 ?input = word_of_nat n" unfolding len_u32_def using assms(5) by simp
  have pkg: "pkg_length_parser E ?input c
      = Ok (encode_integer w @ body, c, \<lparr>raw_length = word_of_nat n, end_offset = 0\<rparr>)"
    using raw_pkg_length_encode[OF assms(1,4), of "encode_integer w @ body" c] n32
    by (simp add: pkg_length_parser_def from_raw_length_def checked_sub_u32_def len)
  have arg: "r_term_arg (interp E m) (encode_integer w @ body) c = Ok (body, c, Integer w)"
    using yields_term_arg_literal[OF assms(2), of E _ w body] assms(3) by (cases m) (auto simp: yields_def)
  have take: "take_to_end_of_pkglength \<lparr>raw_length = word_of_nat n, end_offset = 0\<rparr> body c = Ok ([], c, body)"
    using n32 by (simp add: take_to_end_of_pkglength_def checked_sub_u32_def take_n_def)
  show ?thesis
    by (simp add: def_if_else_def discard_result_def then_opcode comment_scope_def quiet_scope[OF assms(2)]
        map_with_context_def then_parser_def feed_def pkg arg map_parser_def take perr_def else_branch_def opcode_def)
qed

theorem if_without_else_at_end_fails_witness:
  "\<exists>i. def_if_else std_env (interp std_env 1) (0xa0 # encode_pkg_length 3 @ encode_integer 1 @ [0xa3]) blank_context
        = Err (i, blank_context, PErr UnexpectedEndOfStream)"
  by (rule if_without_else_at_end_fails[OF env_bf.bit_field_crate_axioms])
    (simp_all add: encode_pkg_length_def encode_integer_def blank_context_def)

subsection \<open>Loading a table\<close>

lemma yields_data_ref_object:
  assumes "verbosity c = NoVerbosity" "0 < m"
  shows "r_data_ref_object (interp E m) (encode_integer w @ rest) c = Ok (rest, c, Integer w)"
proof -
  obtain k where m: "m = Suc k" using assms(2) by (cases m) auto
  have "\<exists>b bs. encode_integer w @ rest = b # bs \<and> b \<noteq> 0x12 \<and> b \<noteq> 0x5b"
    by (simp add: encode_integer_def Let_def)
  then obtain b bs where b: "encode_integer w @ rest = b # bs" "b \<noteq> 0x12" "b \<noteq> 0x5b" by blast
  have "yields const_parser (b # bs) c rest (Ok (Integer w))"
    using const_parser_integer[of w rest c] by (simp add: yields_def b(1))
  then have "yields (data_ref_object E (interp E k)) (b # bs) c rest (Ok (Integer w))"
    unfolding data_ref_object_def data_object_def computational_data_def
    by (intro yields_comment_scope assms)
      (simp, rule yields_choice(1), intro yields_comment_scope assms, simp,
       rule yields_choice(2), rule mismatch_operators, rule b(2), rule yields_choice(1),
       intro yields_comment_scope assms, simp, rule yields_choice(2), intro mismatch_map mismatch_ext_opcode b(3),
       rule yields_choice(1))
  then show ?thesis by (auto simp: m b(1) yields_def)
qed

text \<open>One definition: the object is added under the name in the current scope.\<close>

definition encode_name :: "name_seg \<Rightarrow> u64 \<Rightarrow> bytes" where
  "encode_name s w = 0x08 # seg_bytes s @ encode_integer w"

lemma name_object_added:
  assumes "verbosity c = NoVerbosity" "scope_indent c + 2 < 2 ^ 64" "current_scope c = abs_path dir"
    and "valid_seg s" "0 < m" "add_value (ns c) (abs_path (dir @ [s])) (Integer w) = Ok (h, n')"
  shows "term_object E (interp E m) (encode_name s w @ rest) c = Ok (rest, c\<lparr>ns := n'\<rparr>, None)"
proof -
  have name: "name_string (seg_bytes s @ encode_integer w @ rest) c = Ok (encode_integer w @ rest, c, [Segment s])"
    using name_string_encode[of "[s]" "[]" 0 c "encode_integer w @ rest"] assms(2,4) by simp
  have data: "r_data_ref_object (interp E m) (encode_integer w @ rest) c = Ok (rest, c, Integer w)"
    using yields_data_ref_object[OF assms(1,5)] by simp
  have here: "add_value_here [Segment s] (Integer w) c = Ok (h, c\<lparr>ns := n'\<rparr>)"
    by (simp add: add_value_here_def try_act_def on_ns_def add_value_at_resolved_path_def assms(3,6))
  have quiet': "verbosity (c\<lparr>ns := n'\<rparr>) = NoVerbosity" using assms(1) by simp
  note quiet = quiet_scope[OF assms(1)] quiet_scope[OF quiet']
  show ?thesis
    by (simp add: encode_name_def term_object_def comment_scope_def quiet map_parser_def namespace_modifier_def
        def_name_def discard_result_def opcode_def map_with_context_def then_parser_def name data act_bind_def here ret_def)
qed

text \<open>
  A list of definitions, and what it makes of a namespace: one new object for each definition, the constant, under its
  name; no other name, object or level is added or changed.
\<close>

definition encode_names :: "(name_seg \<times> u64) list \<Rightarrow> bytes" where
  "encode_names defs = concat (map (\<lambda>(s, w). encode_name s w) defs)"

definition names_added :: "name_seg list \<Rightarrow> (name_seg \<times> u64) list \<Rightarrow> namespace \<Rightarrow> namespace \<Rightarrow> bool" where
  "names_added dir defs n n' \<longleftrightarrow>
     ns_wf n' \<and> level_at n' dir \<noteq> None
     \<and> (\<forall>d s. d \<noteq> dir \<or> s \<notin> fst ` set defs \<longrightarrow> handle_at n' d s = handle_at n d s)
     \<and> (\<forall>d. level_at n' d = None \<longleftrightarrow> level_at n d = None)
     \<and> (\<exists>hs. length hs = length defs \<and> distinct hs \<and> set hs \<inter> dom (object_at n) = {}
          \<and> (\<forall>i < length defs. handle_at n' dir (fst (defs ! i)) = Some (hs ! i))
          \<and> object_at n' = (object_at n)(hs [\<mapsto>] map (Integer \<circ> snd) defs))"

lemma map_upds_nth:
  "distinct hs \<Longrightarrow> length vs = length hs \<Longrightarrow> i < length hs \<Longrightarrow> (m(hs [\<mapsto>] vs)) (hs ! i) = Some (vs ! i)"
proof (induction hs arbitrary: m vs i)
  case (Cons h hs)
  then show ?case by (cases vs; cases i) (auto simp: map_upds_apply_nontin)
qed simp

lemma names_added_get:
  assumes "names_added dir defs n n'" "(s, w) \<in> set defs"
  shows "get_by_path n' (abs_path (dir @ [s])) = Ok (Integer w)"
proof -
  from assms(2) obtain i where i: "i < length defs" "defs ! i = (s, w)" by (auto simp: in_set_conv_nth)
  with assms(1) obtain h where "handle_at n' dir s = Some h" "object_at n' h = Some (Integer w)"
    by (fastforce simp: names_added_def map_upds_nth)
  with assms(1) show ?thesis by (auto simp: names_added_def get_by_path_def handle_at_get_handle ns_get_def)
qed

lemma names_added_old:
  "names_added dir defs n n' \<Longrightarrow> object_at n h = Some v \<Longrightarrow> object_at n' h = Some v"
  unfolding names_added_def
  by (elim conjE exE) (simp only:, subst map_upds_apply_nontin, auto)

lemma add_value_free:
  assumes "ns_wf n" "level_at n dir \<noteq> None" "handle_at n dir s = None" "next_handle n \<noteq> - 1"
  obtains h n' where "add_value n (abs_path (dir @ [s])) v = Ok (h, n')" "level_at n' dir \<noteq> None"
    "next_handle n' = next_handle n + 1" "ns_wf n'" "\<And>d. level_at n' d = None \<longleftrightarrow> level_at n d = None"
proof -
  from assms(2) obtain level where level: "level_at n dir = Some level" by blast
  let ?n1 = "n\<lparr>next_handle := next_handle n + 1, object_map := btree_insert (next_handle n) v (object_map n)\<rparr>"
  let ?n' = "write_level ?n1 dir (with_values level (btree_insert s (next_handle n) (level_values level)))"
  have add: "add_value n (abs_path (dir @ [s])) v = Ok (next_handle n, ?n')"
    using add_value_abs[OF assms(4) refl, of dir s v] assms(3) level by simp
  moreover have "ns_wf ?n'" using add_value_wf[OF assms(1), of "abs_path (dir @ [s])" v] by (simp add: add)
  moreover have levels: "level_at ?n' d = None \<longleftrightarrow> level_at n d = None" for d
    using level_at_write_values[of ?n1 dir level] level by simp
  ultimately show thesis by (intro that[of "next_handle n" ?n']) (simp_all only: levels, simp_all add: level)
qed

lemma names_added_Cons:
  assumes "ns_wf n" "add_value n (abs_path (dir @ [s])) (Integer w) = Ok (h, n1)" "s \<notin> fst ` set defs"
    and "\<And>d. level_at n1 d = None \<longleftrightarrow> level_at n d = None" "names_added dir defs n1 n'"
  shows "names_added dir ((s, w) # defs) n n'"
proof -
  note add = add_value_success[OF assms(1,2)]
  from assms(5) obtain hs where hs: "length hs = length defs" "distinct hs" "set hs \<inter> dom (object_at n1) = {}"
    "\<And>i. i < length defs \<Longrightarrow> handle_at n' dir (fst (defs ! i)) = Some (hs ! i)"
    "object_at n' = (object_at n1)(hs [\<mapsto>] map (Integer \<circ> snd) defs)"
    by (auto simp: names_added_def)
  have "handle_at n' dir s = Some h" using assms(3,5) add(3) by (simp add: names_added_def)
  then have "\<forall>i < length ((s, w) # defs). handle_at n' dir (fst (((s, w) # defs) ! i)) = Some ((h # hs) ! i)"
    using hs(4) by (auto simp: nth_Cons split: nat.split)
  moreover have "distinct (h # hs)" "set (h # hs) \<inter> dom (object_at n) = {}" using hs(2,3) add(2,4) by auto
  moreover have "object_at n' = (object_at n)(h # hs [\<mapsto>] map (Integer \<circ> snd) ((s, w) # defs))"
    using hs(5) add(4) by simp
  moreover have "length (h # hs) = length ((s, w) # defs)" using hs(1) by simp
  ultimately have "\<exists>hs. length hs = length ((s, w) # defs) \<and> distinct hs \<and> set hs \<inter> dom (object_at n) = {}
      \<and> (\<forall>i < length ((s, w) # defs). handle_at n' dir (fst (((s, w) # defs) ! i)) = Some (hs ! i))
      \<and> object_at n' = (object_at n)(hs [\<mapsto>] map (Integer \<circ> snd) ((s, w) # defs))" by blast
  moreover have "\<forall>d t. d \<noteq> dir \<or> t \<notin> fst ` set ((s, w) # defs) \<longrightarrow> handle_at n' d t = handle_at n d t"
    using assms(5) add(3) by (auto simp: names_added_def)
  moreover have "ns_wf n' \<and> level_at n' dir \<noteq> None" using assms(5) unfolding names_added_def by (elim conjE) (intro conjI)
  moreover have "\<forall>d. level_at n' d = None \<longleftrightarrow> level_at n d = None" using assms(4,5) by (simp add: names_added_def)
  ultimately show ?thesis unfolding names_added_def by (elim conjE, intro conjI)
qed

lemma names_loop:
  assumes "ns_wf (ns c)" "verbosity c = NoVerbosity" "scope_indent c + 2 < 2 ^ 64" "current_scope c = abs_path dir"
    and "level_at (ns c) dir \<noteq> None" "distinct (map fst defs)"
    and "list_all (\<lambda>(s, w). valid_seg s \<and> handle_at (ns c) dir s = None) defs"
    and "unat (next_handle (ns c)) + length defs < 2 ^ 32" "length (encode_names defs) < 2 ^ 32" "0 < m" "length defs < k"
  shows "\<exists>n'. term_list_loop k E (interp E m) \<lparr>raw_length = l, end_offset = 0\<rparr> (encode_names defs) c
      = Ok ([], c\<lparr>ns := n'\<rparr>, ()) \<and> names_added dir defs (ns c) n'"
  using assms
proof (induction defs arbitrary: c k)
  case Nil
  from Nil.prems(11) obtain j where "k = Suc j" by (cases k) auto
  then show ?case
    using Nil.prems(1,5) still_parsing_whole[of "[]" l]
    by (intro exI[of _ "ns c"]) (simp add: encode_names_def names_added_def)
next
  case (Cons d defs)
  obtain s w where d: "d = (s, w)" by (cases d)
  from Cons.prems(11) obtain j where k: "k = Suc j" "length defs < j" by (cases k) auto
  have "unat (- 1 :: u32) = 2 ^ 32 - 1" by (simp add: unsigned_minus_1_eq_mask mask_eq_exp_minus_1)
  then have "next_handle (ns c) \<noteq> - 1" using Cons.prems(8) by (auto simp: d)
  from add_value_free[OF Cons.prems(1,5) _ this, of s "Integer w"] Cons.prems(7)
  obtain h n1 where n1: "add_value (ns c) (abs_path (dir @ [s])) (Integer w) = Ok (h, n1)"
    "level_at n1 dir \<noteq> None" "next_handle n1 = next_handle (ns c) + 1" "ns_wf n1"
    "\<And>d. level_at n1 d = None \<longleftrightarrow> level_at (ns c) d = None"
    by (auto simp: d)
  let ?c = "c\<lparr>ns := n1\<rparr>"
  have enc: "encode_names (d # defs) = encode_name s w @ encode_names defs" by (simp add: encode_names_def d)
  have fresh: "s \<notin> fst ` set defs" using Cons.prems(6) by (simp add: d)
  then have free: "list_all (\<lambda>(s, w). valid_seg s \<and> handle_at (ns ?c) dir s = None) defs"
    using Cons.prems(7) add_value_success(3)[OF Cons.prems(1) n1(1)] by (force simp: list_all_iff)
  have room: "unat (next_handle (ns ?c)) + length defs < 2 ^ 32"
    using Cons.prems(8) n1(3) by (simp add: unat_word_ariths)
  obtain n' where n': "term_list_loop j E (interp E m) \<lparr>raw_length = l, end_offset = 0\<rparr> (encode_names defs) ?c
      = Ok ([], ?c\<lparr>ns := n'\<rparr>, ())" "names_added dir defs (ns ?c) n'"
    using Cons.IH[of ?c j] n1 free room Cons.prems(2-4,6,9,10) k(2) by (auto simp: enc)
  have "still_parsing \<lparr>raw_length = l, end_offset = 0\<rparr> (encode_names (d # defs))"
    using still_parsing_whole[OF Cons.prems(9), of l] by (simp add: enc encode_name_def)
  moreover have "term_object E (interp E m) (encode_names (d # defs)) c = Ok (encode_names defs, ?c, None)"
    using name_object_added[OF Cons.prems(2-4) _ Cons.prems(10) n1(1)] Cons.prems(7) unfolding enc by (simp add: d)
  ultimately show ?case
    using n' names_added_Cons[OF Cons.prems(1) n1(1) fresh n1(5), of n'] by (auto simp: k(1) d)
qed

text \<open>A table of definitions, as a whole.\<close>

lemma names_table_loads:
  assumes "ns_wf (ns c)" "verbosity c = NoVerbosity" "scope_indent c + 2 < 2 ^ 64" "current_scope c = abs_path dir"
    and "level_at (ns c) dir \<noteq> None" "distinct (map fst defs)"
    and "list_all (\<lambda>(s, w). valid_seg s \<and> handle_at (ns c) dir s = None) defs"
    and "unat (next_handle (ns c)) + length defs < 2 ^ 32" "length (encode_names defs) < 2 ^ 32"
    and "defs \<noteq> []" "length defs < n"
  shows "\<exists>n'. parse_table E n (encode_names defs) c = Ok ((), c\<lparr>ns := n'\<rparr>) \<and> names_added dir defs (ns c) n'"
proof -
  from assms(10,11) obtain m where n: "n = Suc m" "0 < m" "length defs < Suc m" by (cases n; cases defs) auto
  have fuel: "r_fuel (interp E m) = m" using n(2) by (cases m) simp_all
  from names_loop[OF assms(1-9) n(2,3), of E "len_u32 (encode_names defs)"] obtain n' where
    "term_list_loop (Suc m) E (interp E m) \<lparr>raw_length = len_u32 (encode_names defs), end_offset = 0\<rparr> (encode_names defs) c
      = Ok ([], c\<lparr>ns := n'\<rparr>, ())" and added: "names_added dir defs (ns c) n'" by blast
  then have "run_term_list (interp E n) (encode_names defs) c = Ok ((), c\<lparr>ns := n'\<rparr>)"
    by (simp add: n(1) run_term_list_eq parse_in_def term_list_def fuel del: interp.simps term_list_loop.simps)
  moreover have "encode_names defs \<noteq> []"
    using assms(10) by (cases defs) (auto simp: encode_names_def encode_name_def split: prod.split)
  ultimately have "parse_table E n (encode_names defs) c = Ok ((), c\<lparr>ns := n'\<rparr>)"
    by (simp add: parse_table_def act_bind_def attempt_def ret_def)
  with added show ?thesis by blast
qed

text \<open>
  C5. Loading a table of name definitions, each an integer constant under a name of one segment: when the names are different
  and free, the interpreter makes exactly one object for each definition, with a handle of its own that no object had before
  and that its name in the current scope stands for, even where two constants are equal; there is no other new object.
  Each name can be looked up afterwards, every other name, object and level is as before, and nothing else of the
  context changes. Fuel for one more round than there are definitions is enough.
\<close>

theorem table_defines_names:
  assumes "ns_wf (ns c)" "verbosity c = NoVerbosity" "scope_indent c + 2 < 2 ^ 64" "current_scope c = abs_path dir"
    and "level_at (ns c) dir \<noteq> None" "distinct (map fst defs)"
    and "list_all (\<lambda>(s, w). valid_seg s \<and> handle_at (ns c) dir s = None) defs"
    and "unat (next_handle (ns c)) + length defs < 2 ^ 32" "length (encode_names defs) < 2 ^ 32"
    and "defs \<noteq> []" "length defs < n"
  shows "\<exists>n'. parse_table E n (encode_names defs) c = Ok ((), c\<lparr>ns := n'\<rparr>) \<and> ns_wf n'
    \<and> (\<forall>s w. (s, w) \<in> set defs \<longrightarrow> get_by_path n' (abs_path (dir @ [s])) = Ok (Integer w))
    \<and> (\<forall>d s. d \<noteq> dir \<or> s \<notin> fst ` set defs \<longrightarrow> handle_at n' d s = handle_at (ns c) d s)
    \<and> (\<forall>h v. object_at (ns c) h = Some v \<longrightarrow> object_at n' h = Some v)
    \<and> (\<forall>d. level_at n' d = None \<longleftrightarrow> level_at (ns c) d = None)
    \<and> (\<exists>hs. length hs = length defs \<and> distinct hs \<and> set hs \<inter> dom (object_at (ns c)) = {}
         \<and> (\<forall>i < length defs. handle_at n' dir (fst (defs ! i)) = Some (hs ! i))
         \<and> object_at n' = (object_at (ns c))(hs [\<mapsto>] map (Integer \<circ> snd) defs))"
proof -
  from names_table_loads[OF assms] obtain n' where
    n': "parse_table E n (encode_names defs) c = Ok ((), c\<lparr>ns := n'\<rparr>)" "names_added dir defs (ns c) n'" by blast
  from names_added_get[OF n'(2)] names_added_old[OF n'(2)] n' show ?thesis
    by (intro exI[of _ n']) (simp add: names_added_def)
qed

theorem table_defines_names_witness:
  "\<exists>n'. parse_table std_env 3 (encode_names [(seg_A, 5), (NameSeg 0x42 0x5F 0x5F 0x5F, 300)]) blank_context
       = Ok ((), blank_context\<lparr>ns := n'\<rparr>)
     \<and> get_by_path n' (abs_path [seg_A]) = Ok (Integer 5)
     \<and> get_by_path n' (abs_path [NameSeg 0x42 0x5F 0x5F 0x5F]) = Ok (Integer 300)"
proof -
  let ?defs = "[(seg_A, 5), (NameSeg 0x42 0x5F 0x5F 0x5F, 300)]"
  have c: "ns blank_context = namespace_new" "verbosity blank_context = NoVerbosity" "scope_indent blank_context = 0"
    "current_scope blank_context = abs_path []" "next_handle namespace_new = 0"
    by (simp_all add: blank_context_def root_name_abs namespace_new_def)
  have free: "handle_at namespace_new [] s = None" for s
    by (simp add: namespace_new_def handle_at_def level_new_def)
  have "valid_seg seg_A" "valid_seg (NameSeg 0x42 0x5F 0x5F 0x5F)"
    by (simp_all add: seg_A_def is_lead_name_char_def is_name_char_def)
  moreover have "length (encode_names ?defs) < 2 ^ 32"
    by (simp add: encode_names_def encode_name_def seg_A_def encode_integer_def Let_def)
  moreover have "seg_A \<noteq> NameSeg 0x42 0x5F 0x5F 0x5F" by (simp add: seg_A_def)
  ultimately show ?thesis
    using table_defines_names[of blank_context "[]" ?defs 3 std_env] free by (auto simp: c)
qed

end
