(* ===== verification/Program_Correct.thy ===== *)
theory Program_Correct
  imports Method_Correct
begin

section \<open>Programs\<close>

text \<open>
  Structured programs: assignments to locals and arguments, branches, loops with \<open>Break\<close> and \<open>Continue\<close>, and
  \<open>Return\<close>, over expressions that may call methods. Their meaning is a big-step relation on the values of the
  variables; their byte code is what a compiler of the grammar writes. The interpreter run on the byte code of a program and the relation agree: the
  outcome of the relation is what the interpreter returns with every large enough fuel, and a program to which the
  relation gives no outcome runs out of every fuel.
\<close>

subsection \<open>Statements and their byte code\<close>

datatype stmt =
    Assign avar aexp
  | IfThen aexp "stmt list"
  | IfElse aexp "stmt list" "stmt list"
  | While aexp "stmt list"
  | Return aexp
  | Break
  | Continue
  | Noop

text \<open>The size of a package counts its own bytes.\<close>

definition pkg_size :: "nat \<Rightarrow> nat" where
  "pkg_size b = (if b + 1 < 64 then b + 1 else if b + 2 < 2 ^ 12 then b + 2
                 else if b + 3 < 2 ^ 20 then b + 3 else b + 4)"

definition encode_pkg :: "bytes \<Rightarrow> bytes" where
  "encode_pkg body = encode_pkg_length (pkg_size (length body)) @ body"

fun encode_stmt :: "stmt \<Rightarrow> bytes" where
  "encode_stmt (Assign x e) = 0x70 # encode_exp e @ [var_byte x]"
| "encode_stmt (IfThen e t) = 0xa0 # encode_pkg (encode_exp e @ concat (map encode_stmt t))"
| "encode_stmt (IfElse e t f) =
     0xa0 # encode_pkg (encode_exp e @ concat (map encode_stmt t)) @ 0xa1 # encode_pkg (concat (map encode_stmt f))"
| "encode_stmt (While e b) = 0xa2 # encode_pkg (encode_exp e @ concat (map encode_stmt b))"
| "encode_stmt (Return e) = 0xa4 # encode_exp e"
| "encode_stmt Break = [0xa5]"
| "encode_stmt Continue = [0x9f]"
| "encode_stmt Noop = [0xa3]"

definition encode_block :: "stmt list \<Rightarrow> bytes" where
  "encode_block p = concat (map encode_stmt p)"

lemma encode_block_simps [simp]:
  "encode_block [] = []" "encode_block (st # p) = encode_stmt st @ encode_block p"
  by (simp_all add: encode_block_def)

lemmas encode_stmt_block = encode_stmt.simps[folded encode_block_def]

declare encode_stmt.simps [simp del] encode_stmt_block [simp]

text \<open>
  The variables exist, and no block ends in a branch without an \<open>Else\<close> part: the interpreter looks for one at the
  end of the stream and fails (\<open>if_without_else_at_end_fails\<close>).
\<close>

fun ends_in_if :: "stmt list \<Rightarrow> bool" where
  "ends_in_if [] = False"
| "ends_in_if [IfThen e t] = True"
| "ends_in_if (_ # p) = ends_in_if p"

fun stmt_ok :: "mspec \<Rightarrow> stmt \<Rightarrow> bool" where
  "stmt_ok M (Assign x e) = (var_ok x \<and> exp_ok M e)"
| "stmt_ok M (IfThen e t) = (exp_ok M e \<and> list_all (stmt_ok M) t \<and> \<not> ends_in_if t)"
| "stmt_ok M (IfElse e t f) =
     (exp_ok M e \<and> list_all (stmt_ok M) t \<and> \<not> ends_in_if t \<and> list_all (stmt_ok M) f \<and> \<not> ends_in_if f)"
| "stmt_ok M (While e b) = (exp_ok M e \<and> list_all (stmt_ok M) b \<and> \<not> ends_in_if b)"
| "stmt_ok M (Return e) = exp_ok M e"
| "stmt_ok M Break = True"
| "stmt_ok M Continue = True"
| "stmt_ok M Noop = True"

definition block_ok :: "mspec \<Rightarrow> stmt list \<Rightarrow> bool" where
  "block_ok M p \<longleftrightarrow> list_all (stmt_ok M) p \<and> \<not> ends_in_if p"

subsection \<open>What programs do\<close>

datatype outcome = Normal | Broke | Continued | Returned anum | Failed aml_error

fun set_var :: "frame \<Rightarrow> avar \<Rightarrow> anum \<Rightarrow> frame" where
  "set_var s (LocalV i) v = s\<lparr>flocals := (flocals s)[i := Some v]\<rparr>"
| "set_var s (ArgV i) v = s\<lparr>fargs := (fargs s)[i := Some v]\<rparr>"

inductive exec_stmt :: "mspec \<Rightarrow> stmt \<Rightarrow> frame \<Rightarrow> outcome \<Rightarrow> frame \<Rightarrow> bool"
  and exec_loop :: "mspec \<Rightarrow> aexp \<Rightarrow> stmt list \<Rightarrow> frame \<Rightarrow> outcome \<Rightarrow> frame \<Rightarrow> bool"
  and exec_block :: "mspec \<Rightarrow> stmt list \<Rightarrow> frame \<Rightarrow> outcome \<Rightarrow> frame \<Rightarrow> bool"
  for M :: mspec where
  Assign: "eval_exp M (Some s) e = Ok v \<Longrightarrow> exec_stmt M (Assign x e) s Normal (set_var s x v)"
| AssignErr: "eval_exp M (Some s) e = Err err \<Longrightarrow> exec_stmt M (Assign x e) s (Failed err) s"
| IfThen: "eval_exp M (Some s) e = Ok v \<Longrightarrow> exec_block M (if num_bool v then t else []) s r s'
    \<Longrightarrow> exec_stmt M (IfThen e t) s r s'"
| IfThenErr: "eval_exp M (Some s) e = Err err \<Longrightarrow> exec_stmt M (IfThen e t) s (Failed err) s"
| IfElse: "eval_exp M (Some s) e = Ok v \<Longrightarrow> exec_block M (if num_bool v then t else f) s r s'
    \<Longrightarrow> exec_stmt M (IfElse e t f) s r s'"
| IfElseErr: "eval_exp M (Some s) e = Err err \<Longrightarrow> exec_stmt M (IfElse e t f) s (Failed err) s"
| While: "exec_loop M e b s r s' \<Longrightarrow> exec_stmt M (While e b) s r s'"
| Return: "eval_exp M (Some s) e = Ok v \<Longrightarrow> exec_stmt M (Return e) s (Returned v) s"
| ReturnErr: "eval_exp M (Some s) e = Err err \<Longrightarrow> exec_stmt M (Return e) s (Failed err) s"
| Break: "exec_stmt M Break s Broke s"
| Continue: "exec_stmt M Continue s Continued s"
| Noop: "exec_stmt M Noop s Normal s"
| LoopErr: "eval_exp M (Some s) e = Err err \<Longrightarrow> exec_loop M e b s (Failed err) s"
| LoopDone: "eval_exp M (Some s) e = Ok v \<Longrightarrow> \<not> num_bool v \<Longrightarrow> exec_loop M e b s Normal s"
| LoopBreak: "eval_exp M (Some s) e = Ok v \<Longrightarrow> num_bool v \<Longrightarrow> exec_block M b s Broke s' \<Longrightarrow> exec_loop M e b s Normal s'"
| LoopNext: "eval_exp M (Some s) e = Ok v \<Longrightarrow> num_bool v \<Longrightarrow> exec_block M b s r s1 \<Longrightarrow> r = Normal \<or> r = Continued
    \<Longrightarrow> exec_loop M e b s1 r' s' \<Longrightarrow> exec_loop M e b s r' s'"
| LoopLeave: "eval_exp M (Some s) e = Ok v \<Longrightarrow> num_bool v \<Longrightarrow> exec_block M b s r s'
    \<Longrightarrow> (\<exists>u. r = Returned u) \<or> (\<exists>err. r = Failed err) \<Longrightarrow> exec_loop M e b s r s'"
| Nil: "exec_block M [] s Normal s"
| Seq: "exec_stmt M st s Normal s1 \<Longrightarrow> exec_block M p s1 r s' \<Longrightarrow> exec_block M (st # p) s r s'"
| Stop: "exec_stmt M st s r s' \<Longrightarrow> r \<noteq> Normal \<Longrightarrow> exec_block M (st # p) s r s'"

inductive_simps exec_stmt_simps [simp]:
  "exec_stmt M (Assign x e) s r s'" "exec_stmt M (IfThen e t) s r s'" "exec_stmt M (IfElse e t f) s r s'"
  "exec_stmt M (While e b) s r s'" "exec_stmt M (Return e) s r s'" "exec_stmt M Break s r s'" "exec_stmt M Continue s r s'"
  "exec_stmt M Noop s r s'" "exec_block M [] s r s'" "exec_block M (st # p) s r s'"

subsection \<open>Outcomes of parsers\<close>

text \<open>What leaves a term list for an outcome, and parsers and actions that have the outcome.\<close>

fun leaves :: "outcome \<Rightarrow> propagate option" where
  "leaves Normal = None"
| "leaves Broke = Some PBreak"
| "leaves Continued = Some PContinue"
| "leaves (Returned v) = Some (PReturn (num_value v))"
| "leaves (Failed e) = Some (PErr e)"

definition runs :: "'r parser \<Rightarrow> bytes \<Rightarrow> aml_context \<Rightarrow> bytes \<Rightarrow> aml_context \<Rightarrow> outcome \<Rightarrow> bool" where
  "runs p input c rest c' r \<longleftrightarrow>
     r \<noteq> Failed WrongParser
     \<and> (case leaves r of None \<Rightarrow> \<exists>v. p input c = Ok (rest, c', v) | Some e \<Rightarrow> \<exists>i. p input c = Err (i, c', e))"

fun act_result :: "outcome \<Rightarrow> aml_context \<Rightarrow> (unit \<times> aml_context, propagate \<times> aml_context) res" where
  "act_result Normal c = Ok ((), c)"
| "act_result Broke c = Err (PBreak, c)"
| "act_result Continued c = Err (PContinue, c)"
| "act_result (Returned v) c = Err (PReturn (num_value v), c)"
| "act_result (Failed e) c = Err (PErr e, c)"

lemma act_result_leaves: "act_result r c = (case leaves r of None \<Rightarrow> Ok ((), c) | Some e \<Rightarrow> Err (e, c))"
  by (cases r) simp_all

lemma leaves_simps [simp]:
  "leaves r = None \<longleftrightarrow> r = Normal" "leaves r = Some (PErr e) \<longleftrightarrow> r = Failed e"
  "None = leaves r \<longleftrightarrow> r = Normal" "leaves r = Some PBreak \<longleftrightarrow> r = Broke" "leaves r = Some PContinue \<longleftrightarrow> r = Continued"
  by (cases r; auto)+

lemma runs_choice:
  "runs p input c rest c' r \<Longrightarrow> runs (choice (p # ps)) input c rest c' r"
  "mismatch p input c \<Longrightarrow> runs (choice ps) input c rest c' r \<Longrightarrow> runs (choice (p # ps)) input c rest c' r"
  by (auto simp: runs_def mismatch_def split: option.splits)

lemma runs_comment_scope:
  assumes "verbosity c = NoVerbosity" "verbosity c' = NoVerbosity" "v \<noteq> NoVerbosity" "runs p input c rest c' r"
  shows "runs (comment_scope v p) input c rest c' r"
  using assms(4)
  by (auto simp: runs_def comment_scope_def quiet_scope[OF assms(1,3)] quiet_scope[OF assms(2,3)] split: option.splits)

lemma runs_map: "runs p input c rest c' r \<Longrightarrow> runs (map_parser p (\<lambda>v. Ok (f v))) input c rest c' r"
  by (auto simp: runs_def map_parser_def split: option.splits)

lemma runs_discard: "runs p input c rest c' r \<Longrightarrow> runs (discard_result p) input c rest c' r"
  by (auto simp: runs_def discard_result_def split: option.splits)

lemma runs_then_opcode: "runs p input c rest c' r \<Longrightarrow> runs (then_parser (opcode b) p) (b # input) c rest c' r"
  by (auto simp: runs_def then_opcode split: option.splits)

lemma runs_map_with_context:
  "p input c = Ok (rest, c1, v) \<Longrightarrow> f v c1 = act_result r c' \<Longrightarrow> r \<noteq> Failed WrongParser
    \<Longrightarrow> runs (map_with_context p f) input c rest c' r"
  "p input c = Err (i, c, PErr e) \<Longrightarrow> e \<noteq> WrongParser \<Longrightarrow> runs (map_with_context p f) input c rest c (Failed e)"
  by (auto simp: runs_def map_with_context_def act_result_leaves split: option.splits)

subsection \<open>Statements of the interpreter\<close>

lemma length_encode_pkg: "length (encode_pkg body) = pkg_size (length body)"
  by (simp add: encode_pkg_def encode_pkg_length_def pkg_size_def follow_bytes_def)

lemma encode_pkg_parsed:
  assumes "bit_field_crate E" "length (encode_pkg (a @ b)) < 2 ^ 28" "length (encode_pkg (a @ b) @ rest) < 2 ^ 32"
  obtains n where "pkg_length_parser E (encode_pkg (a @ b) @ rest) c = Ok (a @ b @ rest, c, n)"
    "take_to_end_of_pkglength n (b @ rest) c = Ok (rest, c, b)"
proof -
  let ?n = "\<lparr>raw_length = word_of_nat (pkg_size (length (a @ b))), end_offset = word_of_nat (length rest)\<rparr>"
  have "pkg_length_parser E (encode_pkg (a @ b) @ rest) c = Ok (a @ b @ rest, c, ?n)"
    using pkg_length_encode[OF assms(1), of "pkg_size (length (a @ b))" "a @ b" rest c] assms(2,3)
      length_encode_pkg[of "a @ b"]
    by (simp add: encode_pkg_def)
  moreover have "take_to_end_of_pkglength ?n (b @ rest) c = Ok (rest, c, b)"
    by (rule take_to_end_encode) (use assms(3) in \<open>simp add: encode_pkg_def\<close>)
  ultimately show thesis by (rule that)
qed

lemma mismatch_while: "b \<noteq> 0xa2 \<Longrightarrow> mismatch (def_while E R) (b # input) c"
  "b \<noteq> 0xa4 \<Longrightarrow> mismatch (def_return R) (b # input) c"
  unfolding def_while_def def_return_def by (intro mismatch_map(3,4) mismatch_opcode(1), assumption)+

text \<open>A statement is found behind the definitions of names, and an assignment behind the statements.\<close>

definition not_a_name :: "u8 \<Rightarrow> bool" where
  "not_a_name b \<longleftrightarrow> b \<notin> {0x08, 0x10, 0x5b, 0x8d, 0x8c, 0x8b, 0x8a, 0x8f, 0x14, 0x15}"

lemma runs_term_object:
  assumes quiet: "verbosity c = NoVerbosity" "verbosity c' = NoVerbosity" and b: "not_a_name b"
    and p: "runs (statement_opcode E R) (b # input) c rest c' r
          \<or> mismatch (statement_opcode E R) (b # input) c \<and> runs (expression_opcode E R) (b # input) c rest c' r"
  shows "runs (term_object E R) (b # input) c rest c' r"
proof -
  have 1: "mismatch (map_parser (namespace_modifier E R) (\<lambda>_. Ok None)) (b # input) c"
    using b by (intro mismatch_map(1) mismatch_namespace_modifier) (simp add: not_a_name_def)
  have 2: "mismatch (map_parser (named_obj E R) (\<lambda>_. Ok None)) (b # input) c"
    using b by (intro mismatch_map(1) mismatch_named_obj quiet) (simp add: not_a_name_def)
  have "runs (choice [map_parser (statement_opcode E R) (\<lambda>_. Ok None),
      map_parser (expression_opcode E R) (\<lambda>value. Ok (Some value))]) (b # input) c rest c' r"
    using p
    by (elim disjE conjE)
      (rule runs_choice(1), rule runs_map, assumption,
       rule runs_choice(2), rule mismatch_map(1), assumption, rule runs_choice(1), rule runs_map, assumption)
  then show ?thesis
    unfolding term_object_def by (intro runs_comment_scope quiet runs_choice(2)[OF 1] runs_choice(2)[OF 2]) simp
qed

lemma runs_statement_opcode:
  assumes quiet: "verbosity c = NoVerbosity" "verbosity c' = NoVerbosity"
  shows "runs def_break (0xa5 # input) c rest c' r \<Longrightarrow> runs (statement_opcode E R) (0xa5 # input) c rest c' r"
    "runs def_continue (0x9f # input) c rest c' r \<Longrightarrow> runs (statement_opcode E R) (0x9f # input) c rest c' r"
    "runs (def_if_else E R) (0xa0 # input) c rest c' r \<Longrightarrow> runs (statement_opcode E R) (0xa0 # input) c rest c' r"
    "runs def_noop (0xa3 # input) c rest c' r \<Longrightarrow> runs (statement_opcode E R) (0xa3 # input) c rest c' r"
    "runs (def_return R) (0xa4 # input) c rest c' r \<Longrightarrow> runs (statement_opcode E R) (0xa4 # input) c rest c' r"
    "runs (def_while E R) (0xa2 # input) c rest c' r \<Longrightarrow> runs (statement_opcode E R) (0xa2 # input) c rest c' r"
  unfolding statement_opcode_def
  by (rule runs_comment_scope[OF quiet], simp,
      (rule runs_choice(1), assumption | (rule runs_choice(2), rule mismatch_statements mismatch_while, simp))+)+

lemma mismatch_statement_opcode:
  assumes "verbosity c = NoVerbosity" "b \<notin> {0xa5, 0xcc, 0x9f, 0x5b, 0xa0, 0xa3, 0xa4, 0xa2}"
  shows "mismatch (statement_opcode E R) (b # input) c"
  unfolding statement_opcode_def
  by (intro mismatch_comment_scope assms mismatch_choice mismatch_statements mismatch_while) (use assms(2) in auto)

lemma runs_def_return:
  assumes "verbosity c = NoVerbosity" "yields (r_term_arg R) input c rest (value_res a)"
  shows "runs (def_return R) (0xa4 # input) c rest c (case a of Ok v \<Rightarrow> Returned v | Err e \<Rightarrow> Failed e)"
  using assms(2)
  by (cases rule: yields_cases)
    (auto simp: value_res_def and_then_eq_Ok and_then_eq_Err runs_def def_return_def discard_result_def then_opcode
        comment_scope_def quiet_scope[OF assms(1)] map_parser_def)

lemma runs_def_break:
  assumes "verbosity c = NoVerbosity"
  shows "runs def_break (0xa5 # input) c input c Broke" "runs def_continue (0x9f # input) c input c Continued"
    "runs def_noop (0xa3 # input) c input c Normal"
  by (simp_all add: runs_def def_break_def def_continue_def def_noop_def discard_result_def then_opcode
      comment_scope_def quiet_scope[OF assms] map_parser_def id_parser_def)

text \<open>Assignments: the target is the variable, and storing writes it and nothing else.\<close>

abbreviation at :: "aml_context \<Rightarrow> frame \<Rightarrow> aml_context" where
  "at c s \<equiv> c\<lparr>method_ctx := Some (frame_ctx s)\<rparr>"

fun var_target :: "avar \<Rightarrow> target" where
  "var_target (LocalV i) = LocalTarget (word_of_nat i)"
| "var_target (ArgV i) = ArgTarget (word_of_nat i)"

lemma super_name_var:
  assumes "verbosity c = NoVerbosity" "var_ok x"
  shows "super_name (var_byte x # rest) c = Ok (rest, c, var_target x)"
proof -
  have "mismatch debug_obj (var_byte x # rest) c"
    unfolding debug_obj_def by (rule mismatch_ext_opcode) (use variable_bytes(1)[OF assms(2)] in auto)
  moreover have "mismatch arg_obj (var_byte x # rest) c" if "x = LocalV i" for i
    by (rule mismatch_objs(1)) (rule variable_bytes(2)[OF assms(2) that])
  ultimately show ?thesis
    using assms(2) variable_objs[OF assms(1), of _ rest]
    by (cases x) (auto simp: super_name_def simple_name_def comment_scope_def quiet_scope[OF assms(1)] map_parser_def
        mismatch_def)
qed

lemma store_var:
  assumes "frame_ok s" "var_ok x"
  shows "store E k (var_target x) (num_value v) (at c s) = Ok (num_value v, at c (set_var s x v))"
  using assms word_of_index
  by (cases x) (simp_all add: store_def act_bind_def reads_def frame_ctx_def frame_ok_def set_method_ctx_def
      args_store_arg_def map_update not_less)

lemma runs_def_store:
  assumes quiet: "verbosity c = NoVerbosity" and x: "var_ok x" and s: "frame_ok s"
    and arg: "yields (r_term_arg R) (input @ var_byte x # rest) (at c s) (var_byte x # rest) (value_res a)"
  shows "runs (def_store E R) (0x70 # input @ var_byte x # rest) (at c s) rest
    (case a of Ok v \<Rightarrow> at c (set_var s x v) | _ \<Rightarrow> at c s) (case a of Ok v \<Rightarrow> Normal | Err e \<Rightarrow> Failed e)"
proof -
  have q: "verbosity (at c s) = NoVerbosity" using quiet by simp
  from arg show ?thesis
    by (cases rule: yields_cases)
      (auto simp: value_res_def and_then_eq_Ok and_then_eq_Err runs_def def_store_def map_with_context_def then_opcode
        comment_scope_def quiet_scope[OF q] then_Ok super_name_var[OF q x] try_act_def store_var[OF s x])
qed

lemma runs_expression_store:
  assumes quiet: "verbosity c = NoVerbosity" "verbosity c' = NoVerbosity"
    and r: "runs (def_store E R) (0x70 # input) c rest c' r"
  shows "runs (expression_opcode E R) (0x70 # input) c rest c' r"
  unfolding expression_opcode_def
  by (rule runs_comment_scope[OF quiet], simp)
    (rule runs_choice(1)[OF r] | (rule runs_choice(2), rule mismatch_operators mismatch_negated, simp))+

subsection \<open>Branches and loops of the interpreter\<close>

text \<open>The bytes of the second branch, and what may follow a statement without one.\<close>

definition else_bytes :: "bytes option \<Rightarrow> bytes" where
  "else_bytes f = (case f of None \<Rightarrow> [] | Some body \<Rightarrow> 0xa1 # encode_pkg body)"

definition no_else :: "bytes \<Rightarrow> bool" where
  "no_else rest \<longleftrightarrow> (\<exists>b bs. rest = b # bs \<and> b \<noteq> 0xa1)"

lemma else_branch_encode:
  assumes "bit_field_crate E" "verbosity c = NoVerbosity" "f = None \<longrightarrow> no_else rest"
    and "length (else_bytes f) < 2 ^ 28" "length (else_bytes f @ rest) < 2 ^ 32"
  shows "else_branch E (else_bytes f @ rest) c = Ok (rest, c, case f of None \<Rightarrow> [] | Some body \<Rightarrow> body)"
proof (cases f)
  case None
  then obtain b bs where "rest = b # bs" "b \<noteq> 0xa1" using assms(3) by (auto simp: no_else_def)
  then show ?thesis by (simp add: None else_bytes_def else_branch_def map_parser_def then_parser_def opcode_def)
next
  case (Some body)
  have len: "length (encode_pkg body) < 2 ^ 28" "length (encode_pkg body @ rest) < 2 ^ 32"
    using assms(4,5) by (simp_all add: Some else_bytes_def)
  obtain n where n: "pkg_length_parser E (encode_pkg body @ rest) c = Ok (body @ rest, c, n)"
    "take_to_end_of_pkglength n (body @ rest) c = Ok (rest, c, body)"
    by (rule encode_pkg_parsed[OF assms(1), of "[]" body rest c]) (use len in simp_all)
  show ?thesis
    by (simp add: Some else_bytes_def else_branch_def map_parser_def then_opcode comment_scope_def
        quiet_scope[OF assms(2)] feed_def n)
qed

lemma runs_def_if_else:
  assumes E: "bit_field_crate E" and quiet: "verbosity c = NoVerbosity" "verbosity c' = NoVerbosity"
    and f: "f = None \<longrightarrow> no_else rest"
    and len: "length (encode_pkg (e @ t)) < 2 ^ 28" "length (else_bytes f) < 2 ^ 28"
      "length (encode_pkg (e @ t) @ else_bytes f @ rest) < 2 ^ 32"
    and arg: "yields (r_term_arg R) (e @ t @ else_bytes f @ rest) c (t @ else_bytes f @ rest) (value_res a)"
    and body: "\<And>v. a = Ok v \<Longrightarrow>
      run_term_list R (if num_bool v then t else case f of None \<Rightarrow> [] | Some body \<Rightarrow> body) c = act_result r c'
      \<and> r \<noteq> Failed WrongParser"
    and err: "\<And>e. a = Err e \<Longrightarrow> r = Failed e \<and> c' = c"
  shows "runs (def_if_else E R) (0xa0 # encode_pkg (e @ t) @ else_bytes f @ rest) c rest c' r"
proof -
  let ?tail = "else_bytes f @ rest"
  obtain n where pkg: "pkg_length_parser E (encode_pkg (e @ t) @ ?tail) c = Ok (e @ t @ ?tail, c, n)"
    and take: "take_to_end_of_pkglength n (t @ ?tail) c = Ok (?tail, c, t)"
    by (rule encode_pkg_parsed[OF E len(1,3), of c])
  have els: "else_branch E ?tail c = Ok (rest, c, case f of None \<Rightarrow> [] | Some body \<Rightarrow> body)"
    by (rule else_branch_encode[OF E quiet(1) f len(2)]) (use len(3) in simp)
  show ?thesis
    unfolding def_if_else_def
  proof (intro runs_discard runs_then_opcode runs_comment_scope quiet)
    show "runs (map_with_context
       (then_parser
         (feed (then_parser (pkg_length_parser E) (r_term_arg R))
           (\<lambda>(len, predicate_arg). map_parser (take_to_end_of_pkglength len)
              (\<lambda>then_branch. and_then (perr (as_bool predicate_arg)) (\<lambda>predicate. Ok (predicate, then_branch)))))
         (else_branch E))
       (\<lambda>((predicate, then_branch), else_branch). run_term_list R (if predicate then then_branch else else_branch)))
       (encode_pkg (e @ t) @ ?tail) c rest c' r"
      using arg
    proof (cases rule: yields_cases)
      case (Ok v)
      then obtain u where u: "a = Ok u" "v = num_value u" by (auto simp: value_res_def and_then_eq_Ok)
      note run = body[OF u(1), THEN conjunct1]
      show ?thesis
        by (rule runs_map_with_context(1)[where ?c1.0 = c and
              v = "((num_bool u, t), case f of None \<Rightarrow> [] | Some body \<Rightarrow> body)"])
          (simp add: feed_def then_parser_def pkg map_parser_def take Ok(2) u(2) num_as_bool perr_def els,
           simp only: prod.case run, rule body[OF u(1), THEN conjunct2])
    next
      case (Err e' i)
      then have "a = Err e'" by (auto simp: value_res_def and_then_eq_Err)
      with err have r: "r = Failed e'" "c' = c" by auto
      from Err show ?thesis
        unfolding r by (intro runs_map_with_context(2)) (simp_all add: feed_def then_parser_def pkg)
    qed
  qed simp_all
qed

text \<open>A round of a loop: the predicate, and the body if it holds.\<close>

definition check_loop :: "nat \<Rightarrow> rec_parsers \<Rightarrow> bytes \<Rightarrow> bytes \<Rightarrow> unit pact" where
  "check_loop k R e b =
     act_bind (parse_in (comment_scope AllScopes (r_term_arg R)) e) (\<lambda>result.
     act_bind (pure_res (perr (as_bool result))) (\<lambda>predicate. if predicate then while_loop k R e b else ret ()))"

lemma while_loop_check:
  assumes "run_term_list R b c = act_result r c'"
  shows "while_loop (Suc k) R e b c =
    (case r of Broke \<Rightarrow> Ok ((), c') | Normal \<Rightarrow> check_loop k R e b c' | Continued \<Rightarrow> check_loop k R e b c'
     | _ \<Rightarrow> act_result r c')"
  by (cases r) (simp_all add: assms act_bind_def attempt_def check_loop_def fail_def)

lemma check_loop_eval:
  assumes "verbosity c = NoVerbosity" "yields (r_term_arg R) e c [] (value_res a)"
  shows "check_loop k R e b c =
    (case a of Ok v \<Rightarrow> if num_bool v then while_loop k R e b c else Ok ((), c) | Err err \<Rightarrow> Err (PErr err, c))"
  using assms(2)
  by (cases rule: yields_cases)
    (auto simp: check_loop_def value_res_def and_then_eq_Ok and_then_eq_Err act_bind_def parse_in_def comment_scope_def
      quiet_scope[OF assms(1)] num_as_bool perr_def reads_def)

lemma runs_def_while:
  assumes E: "bit_field_crate E" and quiet: "verbosity c = NoVerbosity" "verbosity c' = NoVerbosity"
    and len: "length (encode_pkg (e @ b)) < 2 ^ 28" "length (encode_pkg (e @ b) @ rest) < 2 ^ 32"
    and arg: "yields (r_term_arg R) (e @ b @ rest) c (b @ rest) (value_res a)"
    and same: "yields (r_term_arg R) e c [] (value_res a)"
    and body: "check_loop (r_fuel R) R e b c = act_result r c'" and r: "r \<noteq> Failed WrongParser"
  shows "runs (def_while E R) (0xa2 # encode_pkg (e @ b) @ rest) c rest c' r"
proof -
  obtain n where pkg: "pkg_length_parser E (encode_pkg (e @ b) @ rest) c = Ok (e @ b @ rest, c, n)"
    and take: "take_to_end_of_pkglength n (b @ rest) c = Ok (rest, c, b)"
    by (rule encode_pkg_parsed[OF E len, of c])
  note loop = body[unfolded check_loop_eval[OF quiet(1) same]]
  show ?thesis
    unfolding def_while_def
  proof (intro runs_discard runs_then_opcode runs_comment_scope quiet)
    show "runs (map_with_context
           (feed (then_parser (pkg_length_parser E) (extract_parser (r_term_arg R)))
             (\<lambda>(len, (first_predicate, predicate_stream)).
                map_parser (take_to_end_of_pkglength len)
                  (\<lambda>body. Ok (first_predicate, predicate_stream, body))))
           (\<lambda>(first_predicate, predicate_stream, body).
              run_while R first_predicate predicate_stream body)) (encode_pkg (e @ b) @ rest) c rest c' r"
      using arg
    proof (cases rule: yields_cases)
      case (Ok v)
      then obtain u where u: "a = Ok u" "v = num_value u" by (auto simp: value_res_def and_then_eq_Ok)
      have "run_while R (num_value u) e b c = act_result r c'"
        using loop by (auto simp: u(1) run_while_def act_bind_def perr_def num_as_bool reads_def)
      with Ok(2) r show ?thesis
        by (intro runs_map_with_context(1)[where ?c1.0 = c and v = "(num_value u, e, b)"])
          (simp_all add: feed_def then_parser_def pkg extract_parser_def map_parser_def take u(2))
    next
      case (Err e' i)
      then have "a = Err e'" by (auto simp: value_res_def and_then_eq_Err)
      with loop have "r = Failed e'" "c' = c" by (cases r; simp)+
      with Err show ?thesis
        by (auto intro!: runs_map_with_context(2) simp: feed_def then_parser_def pkg extract_parser_def)
    qed
  qed simp_all
qed

subsection \<open>The interpreter does what the program means\<close>

text \<open>
  What is to be shown of a statement, a loop and a block: with every large enough fuel, and enough rounds, the
  interpreter has the outcome of the relation.
\<close>

definition stmt_runs :: "aml_env \<Rightarrow> aml_context \<Rightarrow> mspec \<Rightarrow> stmt \<Rightarrow> frame \<Rightarrow> outcome \<Rightarrow> frame \<Rightarrow> bool" where
  "stmt_runs E c M st s r s' \<longleftrightarrow>
     (stmt_ok M st \<and> frame_ok s \<and> length (encode_stmt st) < 2 ^ 28 \<longrightarrow>
       (\<exists>N. \<forall>n\<ge>N. \<forall>rest. length (encode_stmt st @ rest) < 2 ^ 32 \<and> (ends_in_if [st] \<longrightarrow> no_else rest) \<longrightarrow>
         runs (term_object E (interp E n)) (encode_stmt st @ rest) (at c s) rest (at c s') r))"

definition loop_runs :: "aml_env \<Rightarrow> aml_context \<Rightarrow> mspec \<Rightarrow> aexp \<Rightarrow> stmt list \<Rightarrow> frame \<Rightarrow> outcome \<Rightarrow> frame \<Rightarrow> bool" where
  "loop_runs E c M e b s r s' \<longleftrightarrow>
     (exp_ok M e \<and> block_ok M b \<and> frame_ok s \<and> length (encode_block b) < 2 ^ 28 \<longrightarrow>
       (\<exists>N. \<forall>n\<ge>N. \<forall>k\<ge>N. check_loop k (interp E n) (encode_exp e) (encode_block b) (at c s) = act_result r (at c s')
         \<and> r \<noteq> Failed WrongParser))"

definition block_runs :: "aml_env \<Rightarrow> aml_context \<Rightarrow> mspec \<Rightarrow> stmt list \<Rightarrow> frame \<Rightarrow> outcome \<Rightarrow> frame \<Rightarrow> bool" where
  "block_runs E c M p s r s' \<longleftrightarrow>
     (block_ok M p \<and> frame_ok s \<and> length (encode_block p) < 2 ^ 28 \<longrightarrow>
       (\<exists>N. \<forall>n\<ge>N. \<forall>k\<ge>N. \<forall>l. runs (term_list_loop k E (interp E n) \<lparr>raw_length = l, end_offset = 0\<rparr>)
         (encode_block p) (at c s) [] (at c s') r))"

lemma exec_frame_ok:
  shows "exec_stmt M st s r s' \<Longrightarrow> frame_ok s \<Longrightarrow> frame_ok s'"
    and "exec_loop M e b s r s' \<Longrightarrow> frame_ok s \<Longrightarrow> frame_ok s'"
    and "exec_block M p s r s' \<Longrightarrow> frame_ok s \<Longrightarrow> frame_ok s'"
proof (induction rule: exec_stmt_exec_loop_exec_block.inducts)
  case (Assign s e v x)
  then show ?case by (cases x) (simp_all add: frame_ok_def)
qed blast+

lemma yields_exp_at:
  assumes "callees E c M" "frame_ok s" "exp_ok M e"
  shows "\<exists>N. \<forall>n\<ge>N. \<forall>rest. yields (r_term_arg (interp E n)) (encode_exp e @ rest) (at c s) rest
    (value_res (eval_exp M (Some s) e))"
  by (rule callees.yields_exp[OF callees.at_method_ctx[OF assms(1)] _ assms(3)]) (simp add: in_frame_def assms(2))

text \<open>A block whose run is known, run as a stream of its own.\<close>

lemma block_runs_stream:
  assumes "block_runs E c M p s r s'" "block_ok M p" "frame_ok s" "length (encode_block p) < 2 ^ 28"
  shows "\<exists>N. \<forall>n\<ge>N. run_term_list (interp E n) (encode_block p) (at c s) = act_result r (at c s')
           \<and> r \<noteq> Failed WrongParser"
proof -
  from assms obtain N where N: "runs (term_list_loop k E (interp E n) \<lparr>raw_length = l, end_offset = 0\<rparr>)
         (encode_block p) (at c s) [] (at c s') r" if "N \<le> n" "N \<le> k" for n k l
    unfolding block_runs_def by blast
  have "run_term_list (interp E n) (encode_block p) (at c s) = act_result r (at c s')" if "Suc N \<le> n" for n
  proof -
    from that obtain m where m: "n = Suc m" "N \<le> m" by (cases n) auto
    from N[of m "Suc m" "len_u32 (encode_block p)"] m(2) show ?thesis
      by (cases r) (auto simp: m(1) run_term_list_eq parse_in_def term_list_def runs_def
          simp del: interp.simps term_list_loop.simps)
  qed
  moreover have "r \<noteq> Failed WrongParser" using N[of N N] by (simp add: runs_def)
  ultimately show ?thesis by blast
qed

lemma assign_runs:
  assumes calls: "callees E c M"
  shows "eval_exp M (Some s) e = Ok v \<Longrightarrow> stmt_runs E c M (Assign x e) s Normal (set_var s x v)"
    and "eval_exp M (Some s) e = Err err \<Longrightarrow> stmt_runs E c M (Assign x e) s (Failed err) s"
proof -
  note quiet = callees.quiet[OF calls]
  let ?c' = "case eval_exp M (Some s) e of Ok v \<Rightarrow> at c (set_var s x v) | _ \<Rightarrow> at c s"
  let ?r = "case eval_exp M (Some s) e of Ok v \<Rightarrow> Normal | Err e \<Rightarrow> Failed e"
  have q: "verbosity (at c s) = NoVerbosity" "verbosity ?c' = NoVerbosity" using quiet by (simp_all split: res.split)
  have "runs (term_object E (interp E n)) (encode_stmt (Assign x e) @ rest) (at c s) rest ?c' ?r"
    if ok: "stmt_ok M (Assign x e)" "frame_ok s"
      and arg: "\<And>rest. yields (r_term_arg (interp E n)) (encode_exp e @ rest) (at c s) rest (value_res (eval_exp M (Some s) e))"
    for n rest
  proof -
    have "mismatch (statement_opcode E (interp E n)) (0x70 # encode_exp e @ var_byte x # rest) (at c s)"
      by (rule mismatch_statement_opcode[OF q(1)]) simp
    moreover from ok have "runs (def_store E (interp E n)) (0x70 # encode_exp e @ var_byte x # rest) (at c s) rest ?c' ?r"
      by (intro runs_def_store quiet arg) simp_all
    ultimately show ?thesis
      using runs_term_object[OF q, of "0x70" E "interp E n"] runs_expression_store[OF q]
      by (simp add: not_a_name_def del: interp.simps)
  qed
  with yields_exp_at[OF calls, of s e]
  have run: "stmt_ok M (Assign x e) \<Longrightarrow> frame_ok s \<Longrightarrow>
      \<exists>N. \<forall>n\<ge>N. \<forall>rest. runs (term_object E (interp E n)) (encode_stmt (Assign x e) @ rest) (at c s) rest ?c' ?r"
    by (metis stmt_ok.simps(1))
  show "eval_exp M (Some s) e = Ok v \<Longrightarrow> stmt_runs E c M (Assign x e) s Normal (set_var s x v)"
    and "eval_exp M (Some s) e = Err err \<Longrightarrow> stmt_runs E c M (Assign x e) s (Failed err) s"
    using run unfolding stmt_runs_def by fastforce+
qed

lemma return_runs:
  assumes calls: "callees E c M"
  shows "eval_exp M (Some s) e = Ok v \<Longrightarrow> stmt_runs E c M (Return e) s (Returned v) s"
    and "eval_exp M (Some s) e = Err err \<Longrightarrow> stmt_runs E c M (Return e) s (Failed err) s"
proof -
  have q: "verbosity (at c s) = NoVerbosity" using callees.quiet[OF calls] by simp
  let ?r = "case eval_exp M (Some s) e of Ok v \<Rightarrow> Returned v | Err e \<Rightarrow> Failed e"
  have "runs (term_object E (interp E n)) (encode_stmt (Return e) @ rest) (at c s) rest (at c s) ?r"
    if "\<And>rest. yields (r_term_arg (interp E n)) (encode_exp e @ rest) (at c s) rest (value_res (eval_exp M (Some s) e))"
    for n rest
    using that[of rest] runs_term_object[OF q q, of "0xa4" E "interp E n"] runs_statement_opcode(5)[OF q q]
      runs_def_return[OF q, of "interp E n" "encode_exp e @ rest"]
    by (simp add: not_a_name_def del: interp.simps)
  with yields_exp_at[OF calls, of s e]
  have run: "stmt_ok M (Return e) \<Longrightarrow> frame_ok s \<Longrightarrow>
      \<exists>N. \<forall>n\<ge>N. \<forall>rest. runs (term_object E (interp E n)) (encode_stmt (Return e) @ rest) (at c s) rest (at c s) ?r"
    by (metis stmt_ok.simps(5))
  show "eval_exp M (Some s) e = Ok v \<Longrightarrow> stmt_runs E c M (Return e) s (Returned v) s"
    and "eval_exp M (Some s) e = Err err \<Longrightarrow> stmt_runs E c M (Return e) s (Failed err) s"
    using run unfolding stmt_runs_def by fastforce+
qed

lemma leave_runs:
  assumes "verbosity c = NoVerbosity"
  shows "stmt_runs E c M Break s Broke s" "stmt_runs E c M Continue s Continued s" "stmt_runs E c M Noop s Normal s"
proof -
  have q: "verbosity (at c s) = NoVerbosity" using assms by simp
  show "stmt_runs E c M Break s Broke s" "stmt_runs E c M Continue s Continued s" "stmt_runs E c M Noop s Normal s"
    unfolding stmt_runs_def
    using runs_term_object[OF q q] runs_statement_opcode[OF q q] runs_def_break[OF q]
    by (simp_all add: not_a_name_def)
qed

lemma length_pkg_parts:
  "length (encode_pkg (a @ b)) < n \<Longrightarrow> length b < n" "length (encode_pkg b) < n \<Longrightarrow> length b < n"
  by (simp_all add: encode_pkg_def)

text \<open>Branches: both forms are a package with the predicate and the first branch, and the bytes of the second.\<close>

lemma branch_runs:
  assumes E: "bit_field_crate E" and calls: "callees E c M"
    and ok: "exp_ok M e" "frame_ok s" "block_ok M t" "block_ok M f"
    and els: "els = None \<and> f = [] \<or> els = Some (encode_block f)"
    and len: "length (encode_pkg (encode_exp e @ encode_block t)) < 2 ^ 28" "length (else_bytes els) < 2 ^ 28"
    and body: "\<And>v. eval_exp M (Some s) e = Ok v \<Longrightarrow> block_runs E c M (if num_bool v then t else f) s r s'"
    and err: "\<And>err. eval_exp M (Some s) e = Err err \<Longrightarrow> r = Failed err \<and> s' = s"
  shows "\<exists>N. \<forall>n\<ge>N. \<forall>rest.
      length (0xa0 # encode_pkg (encode_exp e @ encode_block t) @ else_bytes els @ rest) < 2 ^ 32 \<and> (els = None \<longrightarrow> no_else rest) \<longrightarrow>
      runs (term_object E (interp E n)) (0xa0 # encode_pkg (encode_exp e @ encode_block t) @ else_bytes els @ rest)
        (at c s) rest (at c s') r"
proof -
  have q: "verbosity (at c s) = NoVerbosity" for s using callees.quiet[OF calls] by simp
  from yields_exp_at[OF calls ok(2,1)] obtain K where
    K: "yields (r_term_arg (interp E n)) (encode_exp e @ rest) (at c s) rest (value_res (eval_exp M (Some s) e))"
    if "K \<le> n" for n rest by blast
  have lens: "length (encode_block t) < 2 ^ 28" "length (encode_block f) < 2 ^ 28"
    using length_pkg_parts(1)[OF len(1)] els len(2) length_pkg_parts(2)[of "encode_block f" "2 ^ 28"]
    by (auto simp: else_bytes_def)
  have "\<exists>N. \<forall>n\<ge>N. \<forall>v. eval_exp M (Some s) e = Ok v \<longrightarrow>
      run_term_list (interp E n) (encode_block (if num_bool v then t else f)) (at c s) = act_result r (at c s')
      \<and> r \<noteq> Failed WrongParser"
  proof (cases "\<exists>v. eval_exp M (Some s) e = Ok v")
    case True
    then obtain v where v: "eval_exp M (Some s) e = Ok v" by blast
    let ?p = "if num_bool v then t else f"
    have p: "block_ok M ?p" "length (encode_block ?p) < 2 ^ 28" using ok lens by simp_all
    from block_runs_stream[OF body[OF v] p(1) ok(2) p(2)] show ?thesis by (simp add: v)
  qed auto
  then obtain N where N: "run_term_list (interp E n) (encode_block (if num_bool v then t else f)) (at c s)
      = act_result r (at c s') \<and> r \<noteq> Failed WrongParser" if "N \<le> n" "eval_exp M (Some s) e = Ok v" for n v by blast
  have enc: "encode_block (if num_bool v then t else f)
      = (if num_bool v then encode_block t else case els of None \<Rightarrow> [] | Some body \<Rightarrow> body)" for v
    using els by auto
  show ?thesis
  proof (intro exI[of _ "max N K"] allI impI)
    fix n rest
    assume n: "max N K \<le> n"
      and rest: "length (0xa0 # encode_pkg (encode_exp e @ encode_block t) @ else_bytes els @ rest) < 2 ^ 32
        \<and> (els = None \<longrightarrow> no_else rest)"
    have "runs (def_if_else E (interp E n)) (0xa0 # encode_pkg (encode_exp e @ encode_block t) @ else_bytes els @ rest)
        (at c s) rest (at c s') r"
    proof (rule runs_def_if_else[OF E q q])
      show "yields (r_term_arg (interp E n)) (encode_exp e @ encode_block t @ else_bytes els @ rest) (at c s)
          (encode_block t @ else_bytes els @ rest) (value_res (eval_exp M (Some s) e))"
        by (rule K) (use n in simp)
      show "run_term_list (interp E n) (if num_bool v then encode_block t else case els of None \<Rightarrow> [] | Some body \<Rightarrow> body)
          (at c s) = act_result r (at c s') \<and> r \<noteq> Failed WrongParser" if "eval_exp M (Some s) e = Ok v" for v
        using N[OF _ that, of n] n by (simp only: enc) simp
    qed (use rest len err in auto)
    then show "runs (term_object E (interp E n))
        (0xa0 # encode_pkg (encode_exp e @ encode_block t) @ else_bytes els @ rest) (at c s) rest (at c s') r"
      by (intro runs_term_object[OF q q] disjI1 runs_statement_opcode(3)[OF q q]) (simp add: not_a_name_def)
  qed
qed

lemma branches_run:
  assumes "bit_field_crate E" "callees E c M"
    and "\<And>v. eval_exp M (Some s) e = Ok v \<Longrightarrow> block_runs E c M (if num_bool v then t else f) s r s'"
    and "\<And>err. eval_exp M (Some s) e = Err err \<Longrightarrow> r = Failed err \<and> s' = s"
  shows "stmt_runs E c M (IfElse e t f) s r s'" "f = [] \<Longrightarrow> stmt_runs E c M (IfThen e t) s r s'"
proof -
  show "stmt_runs E c M (IfElse e t f) s r s'"
    using branch_runs[OF assms(1,2), of e s t f "Some (encode_block f)", OF _ _ _ _ _ _ _ assms(3,4)]
    by (auto simp: stmt_runs_def block_ok_def else_bytes_def)
  show "stmt_runs E c M (IfThen e t) s r s'" if "f = []"
    using branch_runs[OF assms(1,2), of e s t f None, OF _ _ _ _ _ _ _ assms(3,4)] that
    by (auto simp: stmt_runs_def block_ok_def else_bytes_def)
qed

lemma while_runs:
  assumes E: "bit_field_crate E" and calls: "callees E c M" and loop: "loop_runs E c M e b s r s'"
  shows "stmt_runs E c M (While e b) s r s'"
  unfolding stmt_runs_def
proof (intro impI)
  assume "stmt_ok M (While e b) \<and> frame_ok s \<and> length (encode_stmt (While e b)) < 2 ^ 28"
  then have ok: "exp_ok M e" "block_ok M b" "frame_ok s" "length (encode_pkg (encode_exp e @ encode_block b)) < 2 ^ 28"
    by (auto simp: block_ok_def)
  have q: "verbosity (at c s) = NoVerbosity" for s using callees.quiet[OF calls] by simp
  from yields_exp_at[OF calls ok(3,1)] obtain K where
    K: "yields (r_term_arg (interp E n)) (encode_exp e @ rest) (at c s) rest (value_res (eval_exp M (Some s) e))"
    if "K \<le> n" for n rest by blast
  from loop ok length_pkg_parts(1)[OF ok(4)] obtain N where
    N: "check_loop k (interp E n) (encode_exp e) (encode_block b) (at c s) = act_result r (at c s')"
      "r \<noteq> Failed WrongParser" if "N \<le> n" "N \<le> k" for n k
    unfolding loop_runs_def by blast
  have "runs (term_object E (interp E n)) (0xa2 # encode_pkg (encode_exp e @ encode_block b) @ rest) (at c s) rest (at c s') r"
    if n: "max N K \<le> n" and rest: "length (encode_pkg (encode_exp e @ encode_block b) @ rest) < 2 ^ 32"
    for n rest
  proof -
    have arg: "yields (r_term_arg (interp E n)) (encode_exp e @ input) (at c s) input (value_res (eval_exp M (Some s) e))"
      for input
      by (rule K) (use n in simp)
    have "runs (def_while E (interp E n)) (0xa2 # encode_pkg (encode_exp e @ encode_block b) @ rest) (at c s) rest (at c s') r"
      by (rule runs_def_while[OF E q q ok(4) rest arg])
        (use arg[of "[]"] N[of n n] n in \<open>simp_all del: interp.simps\<close>)
    then show ?thesis
      by (intro runs_term_object[OF q q] disjI1 runs_statement_opcode(6)[OF q q]) (simp add: not_a_name_def)
  qed
  then show "\<exists>N. \<forall>n\<ge>N. \<forall>rest. length (encode_stmt (While e b) @ rest) < 2 ^ 32
      \<and> (ends_in_if [While e b] \<longrightarrow> no_else rest) \<longrightarrow>
      runs (term_object E (interp E n)) (encode_stmt (While e b) @ rest) (at c s) rest (at c s') r"
    by (intro exI[of _ "max N K"]) simp
qed

text \<open>The predicate of a loop, and a round whose body is known.\<close>

lemma check_loop_at:
  assumes "callees E c M" "frame_ok s" "exp_ok M e"
  shows "\<exists>N. \<forall>n\<ge>N. \<forall>k b. check_loop k (interp E n) (encode_exp e) b (at c s) =
    (case eval_exp M (Some s) e of
       Ok v \<Rightarrow> if num_bool v then while_loop k (interp E n) (encode_exp e) b (at c s) else Ok ((), at c s)
     | Err err \<Rightarrow> Err (PErr err, at c s))"
proof -
  have q: "verbosity (at c s) = NoVerbosity" using callees.quiet[OF assms(1)] by simp
  from yields_exp_at[OF assms] obtain N where
    "yields (r_term_arg (interp E n)) (encode_exp e @ []) (at c s) [] (value_res (eval_exp M (Some s) e))"
    if "N \<le> n" for n by blast
  with check_loop_eval[OF q] show ?thesis by (metis append_Nil2)
qed

lemma eval_exp_outcome:
  assumes "callees E c M" "exp_ok M e" "frame_ok s"
  shows "(\<exists>v. eval_exp M (Some s) e = Ok v) \<or> (\<exists>err. eval_exp M (Some s) e = Err err \<and> err \<noteq> WrongParser)"
proof -
  from yields_exp_at[OF assms(1,3,2)] obtain n where
    "yields (r_term_arg (interp E n)) (encode_exp e @ []) (at c s) [] (value_res (eval_exp M (Some s) e))" by blast
  then show ?thesis by (auto simp: yields_def value_res_def and_then_eq_Ok and_then_eq_Err simp del: interp.simps)
qed

lemma loop_ends_runs:
  assumes calls: "callees E c M"
  shows "eval_exp M (Some s) e = Err err \<Longrightarrow> loop_runs E c M e b s (Failed err) s"
    and "eval_exp M (Some s) e = Ok v \<Longrightarrow> \<not> num_bool v \<Longrightarrow> loop_runs E c M e b s Normal s"
  unfolding loop_runs_def
  using check_loop_at[OF calls, of s e] eval_exp_outcome[OF calls, of e s] by (fastforce simp del: interp.simps)+

lemma loop_round_runs:
  assumes calls: "callees E c M"
    and v: "eval_exp M (Some s) e = Ok v" "num_bool v" and body: "block_runs E c M b s r1 s1" and s1: "frame_ok s \<Longrightarrow> frame_ok s1"
    and out: "case r1 of Broke \<Rightarrow> r = Normal \<and> s' = s1 | Normal \<Rightarrow> loop_runs E c M e b s1 r s'
      | Continued \<Rightarrow> loop_runs E c M e b s1 r s' | _ \<Rightarrow> r = r1 \<and> s' = s1"
  shows "loop_runs E c M e b s r s'"
  unfolding loop_runs_def
proof (intro impI)
  assume ok: "exp_ok M e \<and> block_ok M b \<and> frame_ok s \<and> length (encode_block b) < 2 ^ 28"
  with block_runs_stream[OF body] obtain N where
    N: "run_term_list (interp E n) (encode_block b) (at c s) = act_result r1 (at c s1)" "r1 \<noteq> Failed WrongParser"
    if "N \<le> n" for n by blast
  from check_loop_at[OF calls, of s e] ok obtain K where
    K: "check_loop k (interp E n) (encode_exp e) b (at c s) =
      (case eval_exp M (Some s) e of
         Ok v \<Rightarrow> if num_bool v then while_loop k (interp E n) (encode_exp e) b (at c s) else Ok ((), at c s)
       | Err err \<Rightarrow> Err (PErr err, at c s))" if "K \<le> n" for n k b by blast
  have step: "check_loop (Suc k) (interp E n) (encode_exp e) (encode_block b) (at c s) =
      (case r1 of Broke \<Rightarrow> Ok ((), at c s1) | Normal \<Rightarrow> check_loop k (interp E n) (encode_exp e) (encode_block b) (at c s1)
       | Continued \<Rightarrow> check_loop k (interp E n) (encode_exp e) (encode_block b) (at c s1) | _ \<Rightarrow> act_result r1 (at c s1))"
    if "max N K \<le> n" for n k
    using that while_loop_check[OF N(1), of n k "encode_exp e"]
    by (simp add: K v del: while_loop.simps)
  from out ok s1 obtain J where
    J: "(case r1 of Broke \<Rightarrow> Ok ((), at c s1) | Normal \<Rightarrow> check_loop k (interp E n) (encode_exp e) (encode_block b) (at c s1)
       | Continued \<Rightarrow> check_loop k (interp E n) (encode_exp e) (encode_block b) (at c s1) | _ \<Rightarrow> act_result r1 (at c s1))
      = act_result r (at c s') \<and> r \<noteq> Failed WrongParser" if "J \<le> n" "J \<le> k" for n k
    using N(2)[of N] by (cases r1) (auto simp: loop_runs_def)
  have "check_loop k (interp E n) (encode_exp e) (encode_block b) (at c s) = act_result r (at c s') \<and> r \<noteq> Failed WrongParser"
    if "Suc (max (max N K) J) \<le> n" "Suc (max (max N K) J) \<le> k" for n k
  proof -
    from that(2) obtain j where j: "k = Suc j" "J \<le> j" by (cases k) auto
    have n: "max N K \<le> n" "J \<le> n" using that(1) by linarith+
    show ?thesis unfolding j(1) step[OF n(1)] by (rule J[OF n(2) j(2)])
  qed
  then show "\<exists>N. \<forall>n\<ge>N. \<forall>k\<ge>N. check_loop k (interp E n) (encode_exp e) (encode_block b) (at c s) = act_result r (at c s')
      \<and> r \<noteq> Failed WrongParser" by blast
qed

text \<open>Blocks: the first statement is found by its first byte, which is never that of an \<open>Else\<close>.\<close>

lemma encode_stmt_head: "\<exists>b bs. encode_stmt st = b # bs \<and> b \<noteq> 0xa1"
  by (cases st) simp_all

lemma ends_in_if_Cons: "ends_in_if (st # p) = (if p = [] then ends_in_if [st] else ends_in_if p)"
  by (cases p; cases st) simp_all

lemma no_else_block:
  assumes "p \<noteq> []"
  shows "no_else (encode_block p)"
proof -
  obtain st q where "p = st # q" using assms by (cases p) auto
  moreover obtain b bs where "encode_stmt st = b # bs" "b \<noteq> 0xa1" using encode_stmt_head[of st] by blast
  ultimately show ?thesis by (simp add: no_else_def)
qed

lemma block_ok_Cons:
  "block_ok M (st # p) \<longleftrightarrow> stmt_ok M st \<and> block_ok M p \<and> (p = [] \<longrightarrow> \<not> ends_in_if [st])"
  unfolding block_ok_def ends_in_if_Cons[of st p] by auto

lemma nil_runs: "block_runs E c M [] s Normal s"
  unfolding block_runs_def
proof (intro impI exI[of _ 1] allI)
  fix n k :: nat and l assume "1 \<le> k"
  then obtain j where "k = Suc j" by (cases k) auto
  then show "runs (term_list_loop k E (interp E n) \<lparr>raw_length = l, end_offset = 0\<rparr>) (encode_block []) (at c s) [] (at c s) Normal"
    using still_parsing_whole[of "[]" l] by (simp add: runs_def)
qed

lemma cons_runs:
  assumes st: "stmt_runs E c M st s r1 s1" and s1: "frame_ok s \<Longrightarrow> frame_ok s1"
    and p: "if r1 = Normal then block_runs E c M p s1 r s' else r = r1 \<and> s' = s1"
  shows "block_runs E c M (st # p) s r s'"
  unfolding block_runs_def
proof (intro impI)
  assume ok: "block_ok M (st # p) \<and> frame_ok s \<and> length (encode_block (st # p)) < 2 ^ 28"
  have len: "length (encode_stmt st @ encode_block p) < 2 ^ 32" using ok by simp
  have "ends_in_if [st] \<longrightarrow> no_else (encode_block p)"
    using ok no_else_block[of p] by (auto simp: block_ok_Cons)
  moreover have "stmt_ok M st \<and> frame_ok s \<and> length (encode_stmt st) < 2 ^ 28" using ok by (simp add: block_ok_Cons)
  ultimately obtain N where N: "runs (term_object E (interp E n)) (encode_stmt st @ encode_block p) (at c s)
      (encode_block p) (at c s1) r1" if "N \<le> n" for n
    using st len unfolding stmt_runs_def by blast
  have "encode_stmt st @ encode_block p \<noteq> []" using encode_stmt_head[of st] by auto
  with still_parsing_whole[OF len] have more: "still_parsing \<lparr>raw_length = l, end_offset = 0\<rparr> (encode_stmt st @ encode_block p)"
    for l by simp
  from p ok s1 obtain J where
    J: "r1 = Normal \<Longrightarrow> runs (term_list_loop k E (interp E n) \<lparr>raw_length = l, end_offset = 0\<rparr>) (encode_block p) (at c s1) [] (at c s') r"
    if "J \<le> n" "J \<le> k" for n k l
    by (cases "r1 = Normal") (auto simp: block_runs_def block_ok_Cons)
  have "runs (term_list_loop k E (interp E n) \<lparr>raw_length = l, end_offset = 0\<rparr>) (encode_block (st # p)) (at c s) [] (at c s') r"
    if "Suc (max N J) \<le> n" "Suc (max N J) \<le> k" for n k l
  proof -
    from that(2) obtain j where j: "k = Suc j" "J \<le> j" by (cases k) auto
    have n: "N \<le> n" "J \<le> n" using that(1) by linarith+
    show ?thesis
      using N[OF n(1)] J[OF n(2) j(2), of l] p more[of l]
      by (cases "r1 = Normal") (auto simp: runs_def j(1) split: option.splits)
  qed
  then show "\<exists>N. \<forall>n\<ge>N. \<forall>k\<ge>N. \<forall>l. runs (term_list_loop k E (interp E n) \<lparr>raw_length = l, end_offset = 0\<rparr>)
      (encode_block (st # p)) (at c s) [] (at c s') r" by blast
qed

lemma exec_runs:
  assumes E: "bit_field_crate E" and calls: "callees E c M"
  shows "exec_stmt M st s r s' \<Longrightarrow> stmt_runs E c M st s r s'"
    and "exec_loop M e b s r s' \<Longrightarrow> loop_runs E c M e b s r s'"
    and "exec_block M p s r s' \<Longrightarrow> block_runs E c M p s r s'"
proof (induction rule: exec_stmt_exec_loop_exec_block.inducts)
  case (LoopBreak s e v b s')
  then show ?case by (intro loop_round_runs[OF calls, of s e v b Broke s']) (simp_all add: exec_frame_ok)
next
  case (LoopNext s e v b r s1 r' s')
  then show ?case by (intro loop_round_runs[OF calls, of s e v b r s1]) (auto simp: exec_frame_ok)
next
  case (LoopLeave s e v b r s')
  then show ?case by (intro loop_round_runs[OF calls, of s e v b r s']) (auto simp: exec_frame_ok)
next
  case (Seq st s s1 p r s')
  then show ?case by (intro cons_runs[of E c M st s Normal s1]) (auto simp: exec_frame_ok)
next
  case (Stop st s r s' p)
  then show ?case by (intro cons_runs[of E c M st s r s']) (auto simp: exec_frame_ok)
qed (auto intro!: assign_runs[OF calls] return_runs[OF calls] leave_runs[OF callees.quiet[OF calls]]
    branches_run[OF E calls] while_runs[OF E calls] loop_ends_runs[OF calls] nil_runs)

lemma program_runs:
  assumes "bit_field_crate E" "callees E c M" "block_ok M p" "frame_ok s" "length (encode_block p) < 2 ^ 28"
    and "exec_block M p s r s'"
  shows "\<exists>N. \<forall>n\<ge>N. run_term_list (interp E n) (encode_block p) (at c s) = act_result r (at c s')"
  using block_runs_stream[OF exec_runs(3)[OF assms(1,2,6)] assms(3-5)] by blast

fun call_result :: "outcome \<Rightarrow> (aml_value, aml_error) res" where
  "call_result Normal = Ok (Integer 0)"
| "call_result (Returned v) = Ok (num_value v)"
| "call_result Broke = Err BreakInInvalidPosition"
| "call_result Continued = Err ContinueInInvalidPosition"
| "call_result (Failed e) = Err e"

text \<open>A method starts with its arguments and without values for its locals.\<close>

definition first_frame :: "anum option list \<Rightarrow> frame" where
  "first_frame a = \<lparr>flocals = replicate 8 None, fargs = a\<rparr>"

definition arg_values :: "anum option list \<Rightarrow> args" where
  "arg_values a = map (map_option num_value) a"

lemma method_body_outcome:
  assumes "run_term_list (interp E n) stream c = act_result r c'"
  shows "method_body E (interp E n) (Aml stream) c = call_outcome (call_result r) c'"
  using assms by (cases r) (simp_all add: method_body_def act_bind_def attempt_def ret_def fail_def)

lemma method_body_program:
  assumes "run_term_list (interp E n) (encode_block p) (at c s) = act_result r (at c s')"
  shows "method_body E (interp E n) (Aml (encode_block p)) (at c s) = call_outcome (call_result r) (at c s')"
  using assms by (rule method_body_outcome)

lemma entered_first_frame: "entered path (arg_values a) m c = at (entered path (arg_values a) m c) (first_frame a)"
  by (simp add: entered_def method_context_new_def frame_ctx_def first_frame_def arg_values_def)

text \<open>A call of a method whose body is a program, where the body is entered with what it calls as specified.\<close>

lemma method_runs:
  assumes "bit_field_crate E" "ns_wf (ns c)" "level_at (ns c) (dir @ [seg]) = None"
    "get_by_path (ns c) (abs_path (dir @ [seg])) = Ok (Method flags (Aml (encode_block p)))"
    "block_ok M p" "length (encode_block p) < 2 ^ 28" "length a = 7" "exec_block M p (first_frame a) r s'"
    "\<And>m. add_level (ns c) (abs_path (dir @ [seg])) MethodLocals = Ok ((), m)
       \<Longrightarrow> callees E (entered (abs_path (dir @ [seg])) (arg_values a) m c) M"
  shows "\<exists>N. \<forall>n\<ge>N. invoke E n (abs_path (dir @ [seg])) (arg_values a) c = call_outcome (call_result r) c"
proof -
  let ?p = "abs_path (dir @ [seg])"
  have frame: "frame_ok (first_frame a)" using assms(7) by (simp add: frame_ok_def first_frame_def)
  have "\<exists>N. \<forall>n\<ge>N. \<forall>m. add_level (ns c) ?p MethodLocals = Ok ((), m) \<longrightarrow>
      run_term_list (interp E n) (encode_block p) (entered ?p (arg_values a) m c)
        = act_result r (at (entered ?p (arg_values a) m c) s')"
  proof (cases "\<exists>m. add_level (ns c) ?p MethodLocals = Ok ((), m)")
    case True
    then obtain m where m: "add_level (ns c) ?p MethodLocals = Ok ((), m)" by blast
    from program_runs[OF assms(1) assms(9)[OF m] assms(5) frame assms(6,8)] show ?thesis
      by (simp add: m flip: entered_first_frame)
  qed auto
  then obtain N where N: "run_term_list (interp E n) (encode_block p) (entered ?p (arg_values a) m c)
        = act_result r (at (entered ?p (arg_values a) m c) s')"
    if "N \<le> n" "add_level (ns c) ?p MethodLocals = Ok ((), m)" for n m by blast
  have "invoke E n ?p (arg_values a) c = call_outcome (call_result r) c" if "N \<le> n" for n
    unfolding invoke_def
  proof (rule invoke_method_frame_locals[OF assms(2,4,3), where mc = "Some (frame_ctx s')"])
    fix m assume m: "add_level (ns c) ?p MethodLocals = Ok ((), m)"
    show "method_body E (interp E n) (Aml (encode_block p)) (entered ?p (arg_values a) m c)
        = call_outcome (call_result r) (at (entered ?p (arg_values a) m c) s')"
      using method_body_program[of E n p "first_frame a" "entered ?p (arg_values a) m c" r s'] N[OF that m]
      by (simp flip: entered_first_frame)
  qed
  then show ?thesis by blast
qed

subsection \<open>An example\<close>

text \<open>The sum of the numbers up to the first argument, by a loop that counts down.\<close>

definition sum_test :: aexp where
  "sum_test = Bin GtOp (Var (LocalV 1)) (Lit 0)"

definition sum_step :: "stmt list" where
  "sum_step = [Assign (LocalV 0) (Bin AddOp (Var (LocalV 0)) (Var (LocalV 1))),
     Assign (LocalV 1) (Bin AddOp (Var (LocalV 1)) (Lit (- 1)))]"

definition sum_program :: "stmt list" where
  "sum_program = [Assign (LocalV 0) (Lit 0), Assign (LocalV 1) (Bin AddOp (Var (ArgV 0)) (Lit 0)),
     While sum_test sum_step, Return (Var (LocalV 0))]"

definition sum_args :: "anum \<Rightarrow> anum option list" where
  "sum_args v = [Some v, None, None, None, None, None, None]"

definition sum_frame :: "u64 \<Rightarrow> nat \<Rightarrow> anum option list \<Rightarrow> frame" where
  "sum_frame a k args = \<lparr>flocals = [Some (NumI a), Some (NumI (word_of_nat k)), None, None, None, None, None, None], fargs = args\<rparr>"

lemma sum_loop:
  "k < 2 ^ 64 \<Longrightarrow> exec_loop M sum_test sum_step (sum_frame a k args) Normal (sum_frame (a + word_of_nat (\<Sum>{..k})) 0 args)"
proof (induction k arbitrary: a)
  case 0
  have "exec_loop M sum_test sum_step (sum_frame a 0 args) Normal (sum_frame a 0 args)"
    by (rule LoopDone[of M _ _ "NumB False"]) (simp_all add: sum_test_def sum_frame_def)
  then show ?case by simp
next
  case (Suc k)
  have pos: "(0 :: u64) < word_of_nat (Suc k)" using Suc.prems by (simp add: word_less_nat_alt unat_of_nat del: of_nat_Suc)
  have "exec_block M sum_step (sum_frame a (Suc k) args) Normal (sum_frame (a + word_of_nat (Suc k)) k args)"
    by (simp add: sum_step_def sum_frame_def)
  moreover have "exec_loop M sum_test sum_step (sum_frame (a + word_of_nat (Suc k)) k args) Normal
      (sum_frame (a + word_of_nat (\<Sum>{..Suc k})) 0 args)"
    using Suc.IH[of "a + word_of_nat (Suc k)"] Suc.prems by (simp add: algebra_simps)
  moreover have "eval_exp M (Some (sum_frame a (Suc k) args)) sum_test = Ok (NumB True)"
    using pos by (simp add: sum_test_def sum_frame_def)
  ultimately show ?case by (intro LoopNext[of M "sum_frame a (Suc k) args" sum_test "NumB True"]) auto
qed

definition sum_of :: "anum \<Rightarrow> u64" where
  "sum_of v = word_of_nat (\<Sum>{..unat (num_int v)})"

lemma sum_program_exec:
  "exec_block M sum_program (first_frame (sum_args v)) (Returned (NumI (sum_of v))) (sum_frame (sum_of v) 0 (sum_args v))"
proof -
  have "set_var (set_var (first_frame (sum_args v)) (LocalV 0) (NumI 0)) (LocalV 1) (NumI (num_int v))
      = sum_frame 0 (unat (num_int v)) (sum_args v)"
    by (simp add: first_frame_def sum_frame_def eval_nat_numeral)
  moreover have "unat (num_int v) < 2 ^ 64" using unsigned_less[of "num_int v", where ?'a = nat] by simp
  ultimately show ?thesis
    using sum_loop[of "unat (num_int v)" M 0 "sum_args v"]
    by (auto simp: sum_program_def first_frame_def sum_args_def sum_frame_def sum_of_def)
qed

lemma sum_program_ok: "block_ok M sum_program" "length (encode_block sum_program) < 2 ^ 28"
  by (simp_all add: block_ok_def sum_program_def sum_test_def sum_step_def encode_pkg_def encode_pkg_length_def
      pkg_size_def encode_integer_def Let_def)

end
