(* ===== verification/Program_Equiv.thy ===== *)
theory Program_Equiv
  imports Program_Correct Aml_Fuel
begin

section \<open>Programs that do not end\<close>

text \<open>
  The other direction: where the big-step relation gives no outcome, the interpreter runs out of every fuel. Together with
  \<open>Program_Correct\<close>, interpreter and relation are equivalent on the byte code of structured programs.
\<close>

subsection \<open>Parsers that run out of fuel\<close>

definition starves :: "'r parser \<Rightarrow> bytes \<Rightarrow> aml_context \<Rightarrow> bool" where
  "starves p input c \<longleftrightarrow> p input c = OutOfFuel"

lemma starves_choice:
  "starves p input c \<Longrightarrow> starves (choice (p # ps)) input c"
  "mismatch p input c \<Longrightarrow> starves (choice ps) input c \<Longrightarrow> starves (choice (p # ps)) input c"
  by (auto simp: starves_def mismatch_def)

lemma starves_combinators:
  "starves p input c \<Longrightarrow> starves (map_parser p f) input c"
  "starves p input c \<Longrightarrow> starves (map_with_context p g) input c"
  "starves p input c \<Longrightarrow> starves (discard_result p) input c"
  "starves p input c \<Longrightarrow> starves (then_parser (opcode b) p) (b # input) c"
  "p input c = Ok (rest, c1, v) \<Longrightarrow> g v c1 = OutOfFuel \<Longrightarrow> starves (map_with_context p g) input c"
  by (auto simp: starves_def map_parser_def map_with_context_def discard_result_def then_opcode)

lemma starves_comment_scope:
  assumes "verbosity c = NoVerbosity" "v \<noteq> NoVerbosity" "starves p input c"
  shows "starves (comment_scope v p) input c"
  using assms(3) by (simp add: starves_def comment_scope_def quiet_scope[OF assms(1,2)])

lemma starves_statement:
  assumes quiet: "verbosity c = NoVerbosity"
  shows "starves (def_if_else E R) (0xa0 # input) c \<Longrightarrow> starves (term_object E R) (0xa0 # input) c"
    and "starves (def_while E R) (0xa2 # input) c \<Longrightarrow> starves (term_object E R) (0xa2 # input) c"
proof -
  have term_object: "starves (term_object E R) (b # input) c" if "starves (statement_opcode E R) (b # input) c" "not_a_name b" for b
    unfolding term_object_def
    by (intro starves_comment_scope[OF quiet] starves_choice(2)[OF mismatch_map(1)[OF mismatch_namespace_modifier]]
        starves_choice(2)[OF mismatch_map(1)[OF mismatch_named_obj[OF quiet]]] starves_choice(1) starves_combinators(1) that(1))
      (use that(2) in \<open>auto simp: not_a_name_def\<close>)
  show "starves (def_if_else E R) (0xa0 # input) c \<Longrightarrow> starves (term_object E R) (0xa0 # input) c"
    and "starves (def_while E R) (0xa2 # input) c \<Longrightarrow> starves (term_object E R) (0xa2 # input) c"
    by (rule term_object, unfold statement_opcode_def, rule starves_comment_scope[OF quiet], simp,
        (rule starves_choice(1), assumption | (rule starves_choice(2), rule mismatch_statements mismatch_while, simp))+,
        simp add: not_a_name_def)+
qed

subsection \<open>Branches and loops\<close>

lemma starves_def_if_else:
  assumes E: "bit_field_crate E" and quiet: "verbosity c = NoVerbosity" and f: "f = None \<longrightarrow> no_else rest"
    and len: "length (encode_pkg (e @ t)) < 2 ^ 28" "length (else_bytes f) < 2 ^ 28"
      "length (encode_pkg (e @ t) @ else_bytes f @ rest) < 2 ^ 32"
    and arg: "starves (r_term_arg R) (e @ t @ else_bytes f @ rest) c
      \<or> yields (r_term_arg R) (e @ t @ else_bytes f @ rest) c (t @ else_bytes f @ rest) (Ok (num_value v))"
    and body: "run_term_list R (if num_bool v then t else case f of None \<Rightarrow> [] | Some body \<Rightarrow> body) c = OutOfFuel"
  shows "starves (def_if_else E R) (0xa0 # encode_pkg (e @ t) @ else_bytes f @ rest) c"
proof -
  let ?tail = "else_bytes f @ rest"
  obtain n where pkg: "pkg_length_parser E (encode_pkg (e @ t) @ ?tail) c = Ok (e @ t @ ?tail, c, n)"
    and take: "take_to_end_of_pkglength n (t @ ?tail) c = Ok (?tail, c, t)"
    by (rule encode_pkg_parsed[OF E len(1,3), of c])
  have els: "else_branch E ?tail c = Ok (rest, c, case f of None \<Rightarrow> [] | Some body \<Rightarrow> body)"
    by (rule else_branch_encode[OF E quiet f len(2)]) (use len(3) in simp)
  show ?thesis
    using arg
  proof
    assume "starves (r_term_arg R) (e @ t @ else_bytes f @ rest) c"
    then show ?thesis
      unfolding def_if_else_def
      by (intro starves_combinators starves_comment_scope[OF quiet])
        (simp_all add: starves_def feed_def then_parser_def pkg)
  next
    assume "yields (r_term_arg R) (e @ t @ else_bytes f @ rest) c (t @ else_bytes f @ rest) (Ok (num_value v))"
    then have "r_term_arg R (e @ t @ else_bytes f @ rest) c = Ok (t @ else_bytes f @ rest, c, num_value v)"
      by (simp add: yields_def)
    then show ?thesis
      unfolding def_if_else_def
      by (intro starves_combinators(3,4) starves_comment_scope[OF quiet]
          starves_combinators(5)[where ?c1.0 = c and v = "((num_bool v, t), case f of None \<Rightarrow> [] | Some body \<Rightarrow> body)"])
        (simp, simp add: feed_def then_parser_def pkg map_parser_def take num_as_bool perr_def els,
         simp only: prod.case body)
  qed
qed

lemma starves_def_while:
  assumes E: "bit_field_crate E" and quiet: "verbosity c = NoVerbosity"
    and len: "length (encode_pkg (e @ b)) < 2 ^ 28" "length (encode_pkg (e @ b) @ rest) < 2 ^ 32"
    and arg: "starves (r_term_arg R) (e @ b @ rest) c
      \<or> yields (r_term_arg R) (e @ b @ rest) c (b @ rest) (Ok (num_value v))"
    and body: "num_bool v" "while_loop (r_fuel R) R e b c = OutOfFuel"
  shows "starves (def_while E R) (0xa2 # encode_pkg (e @ b) @ rest) c"
proof -
  obtain n where pkg: "pkg_length_parser E (encode_pkg (e @ b) @ rest) c = Ok (e @ b @ rest, c, n)"
    and take: "take_to_end_of_pkglength n (b @ rest) c = Ok (rest, c, b)"
    by (rule encode_pkg_parsed[OF E len, of c])
  show ?thesis
    using arg
  proof
    assume "starves (r_term_arg R) (e @ b @ rest) c"
    then show ?thesis
      unfolding def_while_def
      by (intro starves_combinators starves_comment_scope[OF quiet])
        (simp_all add: starves_def feed_def then_parser_def pkg extract_parser_def)
  next
    assume "yields (r_term_arg R) (e @ b @ rest) c (b @ rest) (Ok (num_value v))"
    then have "r_term_arg R (e @ b @ rest) c = Ok (b @ rest, c, num_value v)" by (simp add: yields_def)
    moreover have "run_while R (num_value v) e b c = OutOfFuel"
      using body by (simp add: run_while_def act_bind_def perr_def num_as_bool reads_def)
    ultimately show ?thesis
      unfolding def_while_def
      by (intro starves_combinators(3,4) starves_comment_scope[OF quiet]
          starves_combinators(5)[where ?c1.0 = c and v = "(num_value v, e, b)"])
        (simp_all add: feed_def then_parser_def pkg extract_parser_def map_parser_def take)
  qed
qed

subsection \<open>Any fuel at all\<close>

text \<open>By \<open>Aml_Fuel\<close>, with any fuel a parser or an action has run out of it or done what it does with more.\<close>

lemma exp_or_starves:
  assumes "callees E c M" "frame_ok s" "exp_ok M e"
  shows "starves (r_term_arg (interp E n)) (encode_exp e @ rest) (at c s)
    \<or> yields (r_term_arg (interp E n)) (encode_exp e @ rest) (at c s) rest (value_res (eval_exp M (Some s) e))"
proof -
  from yields_exp_at[OF assms] obtain N where
    N: "yields (r_term_arg (interp E m)) (encode_exp e @ rest) (at c s) rest (value_res (eval_exp M (Some s) e))"
    if "N \<le> m" for m by blast
  let ?m = "max n N"
  have "rec_le (interp E n) (interp E ?m)" by (rule interp_mono) simp
  then have "flat_le (r_term_arg (interp E n) (encode_exp e @ rest) (at c s))
      (r_term_arg (interp E ?m) (encode_exp e @ rest) (at c s))"
    by (intro pmonoD rec_leD)
  moreover have "yields (r_term_arg (interp E ?m)) (encode_exp e @ rest) (at c s) rest (value_res (eval_exp M (Some s) e))"
    by (rule N) simp
  ultimately show ?thesis by (auto simp: flat_le_def starves_def yields_def)
qed

lemma stmt_or_starves:
  assumes "bit_field_crate E" "callees E c M" "exec_stmt M st s r s'" "stmt_ok M st" "frame_ok s"
    and "length (encode_stmt st) < 2 ^ 28" "length (encode_stmt st @ rest) < 2 ^ 32" "ends_in_if [st] \<longrightarrow> no_else rest"
  shows "starves (term_object E (interp E n)) (encode_stmt st @ rest) (at c s)
    \<or> runs (term_object E (interp E n)) (encode_stmt st @ rest) (at c s) rest (at c s') r"
proof -
  from exec_runs(1)[OF assms(1-3)] assms(4-8) obtain N where
    N: "runs (term_object E (interp E m)) (encode_stmt st @ rest) (at c s) rest (at c s') r" if "N \<le> m" for m
    unfolding stmt_runs_def by blast
  have "rec_le (interp E n) (interp E (max n N))" by (rule interp_mono) simp
  then have "flat_le (term_object E (interp E n) (encode_stmt st @ rest) (at c s))
      (term_object E (interp E (max n N)) (encode_stmt st @ rest) (at c s))"
    by (intro pmonoD pmono_term_object)
  with N[of "max n N"] show ?thesis by (auto simp: flat_le_def starves_def runs_def split: option.splits)
qed

lemma stream_or_starves:
  assumes "bit_field_crate E" "callees E c M" "exec_block M p s r s'" "block_ok M p" "frame_ok s"
    and "length (encode_block p) < 2 ^ 28"
  shows "run_term_list (interp E n) (encode_block p) (at c s) = OutOfFuel
    \<or> run_term_list (interp E n) (encode_block p) (at c s) = act_result r (at c s')"
proof -
  from program_runs[OF assms(1,2,4-6,3)] obtain N where
    N: "run_term_list (interp E m) (encode_block p) (at c s) = act_result r (at c s')" if "N \<le> m" for m by blast
  have "rec_le (interp E n) (interp E (max n N))" by (rule interp_mono) simp
  then have "flat_le (run_term_list (interp E n) (encode_block p) (at c s))
      (run_term_list (interp E (max n N)) (encode_block p) (at c s))"
    using amono_run_term_list by (auto simp: amono_def)
  with N[of "max n N"] show ?thesis by (simp add: flat_le_def)
qed

subsection \<open>No outcome, no end\<close>

definition no_end :: "aml_env \<Rightarrow> nat \<Rightarrow> aml_context \<Rightarrow> mspec \<Rightarrow> stmt list \<Rightarrow> frame \<Rightarrow> bool" where
  "no_end E n c M p s \<longleftrightarrow>
     (block_ok M p \<and> frame_ok s \<and> length (encode_block p) < 2 ^ 28 \<and> (\<nexists>r s'. exec_block M p s r s') \<longrightarrow>
       run_term_list (interp E n) (encode_block p) (at c s) = OutOfFuel)"

lemma check_loop_starves:
  assumes calls: "callees E c M" and ok: "frame_ok s" "exp_ok M e" and v: "eval_exp M (Some s) e = Ok v" "num_bool v"
    and loop: "while_loop k (interp E n) (encode_exp e) b (at c s) = OutOfFuel"
  shows "check_loop k (interp E n) (encode_exp e) b (at c s) = OutOfFuel"
proof -
  have q: "verbosity (at c s) = NoVerbosity" using callees.quiet[OF calls] by simp
  from exp_or_starves[OF calls ok, of n "[]"] show ?thesis
  proof
    assume "starves (r_term_arg (interp E n)) (encode_exp e @ []) (at c s)"
    then show ?thesis
      by (simp add: starves_def check_loop_def act_bind_def parse_in_def comment_scope_def quiet_scope[OF q])
  next
    assume "yields (r_term_arg (interp E n)) (encode_exp e @ []) (at c s) [] (value_res (eval_exp M (Some s) e))"
    from check_loop_eval[OF q, of "interp E n" "encode_exp e"] this v loop show ?thesis by simp
  qed
qed

lemma loop_starves:
  assumes E: "bit_field_crate E" and calls: "callees E c M" and inner: "\<And>s. no_end E n c M b s"
    and ok: "exp_ok M e" "block_ok M b" "length (encode_block b) < 2 ^ 28"
  shows "frame_ok s \<Longrightarrow> (\<nexists>r s'. exec_loop M e b s r s') \<Longrightarrow>
    \<exists>v. eval_exp M (Some s) e = Ok v \<and> num_bool v
      \<and> while_loop k (interp E n) (encode_exp e) (encode_block b) (at c s) = OutOfFuel"
proof (induction k arbitrary: s)
  case 0
  obtain v where v: "eval_exp M (Some s) e = Ok v" "num_bool v"
    using eval_exp_outcome[OF calls ok(1) 0(1)] 0(2) LoopErr LoopDone by blast
  then show ?case by (simp add: reads_def)
next
  case (Suc k)
  obtain v where v: "eval_exp M (Some s) e = Ok v" "num_bool v"
    using eval_exp_outcome[OF calls ok(1) Suc.prems(1)] Suc.prems(2) LoopErr LoopDone by blast
  show ?case
  proof (cases "\<exists>r s'. exec_block M b s r s'")
    case False
    with inner[of s] ok Suc.prems(1) have "run_term_list (interp E n) (encode_block b) (at c s) = OutOfFuel"
      by (simp add: no_end_def)
    with v show ?thesis by (simp add: act_bind_def attempt_def)
  next
    case True
    then obtain r s1 where body: "exec_block M b s r s1" by blast
    have frame: "frame_ok s1" by (rule exec_frame_ok(3)[OF body Suc.prems(1)])
    have r: "r = Normal \<or> r = Continued"
      using Suc.prems(2) LoopBreak[OF v] LoopLeave[OF v body] body by (cases r) blast+
    then have "\<nexists>r s'. exec_loop M e b s1 r s'" using Suc.prems(2) LoopNext[OF v body] by blast
    from Suc.IH[OF frame this] obtain v1 where v1: "eval_exp M (Some s1) e = Ok v1" "num_bool v1"
      "while_loop k (interp E n) (encode_exp e) (encode_block b) (at c s1) = OutOfFuel" by blast
    note check = check_loop_starves[OF calls frame ok(1) v1]
    from stream_or_starves[OF E calls body ok(2) Suc.prems(1) ok(3), of n] show ?thesis
    proof
      assume "run_term_list (interp E n) (encode_block b) (at c s) = OutOfFuel"
      with v show ?thesis by (simp add: act_bind_def attempt_def)
    next
      assume "run_term_list (interp E n) (encode_block b) (at c s) = act_result r (at c s1)"
      from while_loop_check[OF this, of k "encode_exp e"] r check v show ?thesis by auto
    qed
  qed
qed

lemma branch_starves:
  assumes E: "bit_field_crate E" and calls: "callees E c M" and inner: "\<And>p s. no_end E n c M p s"
    and ok: "exp_ok M e" "frame_ok s" "block_ok M t" "block_ok M f"
    and v: "eval_exp M (Some s) e = Ok v" and none: "\<nexists>r s'. exec_block M (if num_bool v then t else f) s r s'"
    and els: "els = None \<and> f = [] \<and> no_else rest \<or> els = Some (encode_block f)"
    and len: "length (0xa0 # encode_pkg (encode_exp e @ encode_block t) @ else_bytes els) < 2 ^ 28"
      "length (0xa0 # encode_pkg (encode_exp e @ encode_block t) @ else_bytes els @ rest) < 2 ^ 32"
  shows "starves (term_object E (interp E n)) (0xa0 # encode_pkg (encode_exp e @ encode_block t) @ else_bytes els @ rest) (at c s)"
proof -
  let ?p = "if num_bool v then t else f"
  have q: "verbosity (at c s) = NoVerbosity" using callees.quiet[OF calls] by simp
  have "length (encode_block t) < 2 ^ 28" "length (encode_block f) < 2 ^ 28"
    using els len(1) by (auto simp: encode_pkg_def else_bytes_def)
  with ok(3,4) have p: "block_ok M ?p" "length (encode_block ?p) < 2 ^ 28" by simp_all
  have "encode_block ?p = (if num_bool v then encode_block t else case els of None \<Rightarrow> [] | Some body \<Rightarrow> body)"
    using els by auto
  then have "run_term_list (interp E n)
      (if num_bool v then encode_block t else case els of None \<Rightarrow> [] | Some body \<Rightarrow> body) (at c s) = OutOfFuel"
    using inner[of ?p s] p ok(2) none by (simp only: no_end_def) blast
  moreover have "starves (r_term_arg (interp E n)) (encode_exp e @ encode_block t @ else_bytes els @ rest) (at c s)
      \<or> yields (r_term_arg (interp E n)) (encode_exp e @ encode_block t @ else_bytes els @ rest) (at c s)
          (encode_block t @ else_bytes els @ rest) (Ok (num_value v))"
    using exp_or_starves[OF calls ok(2,1), of n "encode_block t @ else_bytes els @ rest"] by (simp add: v value_res_def)
  ultimately have "starves (def_if_else E (interp E n))
      (0xa0 # encode_pkg (encode_exp e @ encode_block t) @ else_bytes els @ rest) (at c s)"
    using els len by (intro starves_def_if_else[OF E q]) auto
  then show ?thesis by (rule starves_statement(1)[OF q])
qed

lemma exec_simple:
  assumes "callees E c M"
  shows "exp_ok M e \<Longrightarrow> frame_ok s \<Longrightarrow> \<exists>r s'. exec_stmt M (Assign x e) s r s'"
    and "exp_ok M e \<Longrightarrow> frame_ok s \<Longrightarrow> \<exists>r s'. exec_stmt M (Return e) s r s'"
    and "\<exists>r s'. exec_stmt M Break s r s'" "\<exists>r s'. exec_stmt M Continue s r s'" "\<exists>r s'. exec_stmt M Noop s r s'"
  using eval_exp_outcome[OF assms, of e s] exec_stmt_exec_loop_exec_block.intros(1,2,8-12)[where M = M] by blast+

lemma stmt_starves:
  assumes E: "bit_field_crate E" and calls: "callees E c M" and inner: "\<And>p s. no_end E n c M p s"
    and ok: "stmt_ok M st" "frame_ok s" "length (encode_stmt st) < 2 ^ 28"
    and rest: "length (encode_stmt st @ rest) < 2 ^ 32" "ends_in_if [st] \<longrightarrow> no_else rest"
    and none: "\<nexists>r s'. exec_stmt M st s r s'"
  shows "starves (term_object E (interp E n)) (encode_stmt st @ rest) (at c s)"
proof -
  have q: "verbosity (at c s) = NoVerbosity" using callees.quiet[OF calls] by simp
  note branch = branch_starves[OF E calls inner _ ok(2)]
  note outcome = eval_exp_outcome[OF calls _ ok(2)]
  show ?thesis
  proof (cases st)
    case (IfThen e t)
    obtain v where v: "eval_exp M (Some s) e = Ok v" using outcome[of e] none ok(1) by (auto simp: IfThen dest: IfThenErr)
    have "\<nexists>r s'. exec_block M (if num_bool v then t else []) s r s'"
      using none exec_stmt_exec_loop_exec_block.IfThen[OF v] unfolding IfThen by blast
    with branch[of e t "[]" v None rest] ok rest v show ?thesis by (simp add: IfThen else_bytes_def block_ok_def)
  next
    case (IfElse e t f)
    obtain v where v: "eval_exp M (Some s) e = Ok v" using outcome[of e] none ok(1) by (auto simp: IfElse dest: IfElseErr)
    have "\<nexists>r s'. exec_block M (if num_bool v then t else f) s r s'"
      using none exec_stmt_exec_loop_exec_block.IfElse[OF v] unfolding IfElse by blast
    with branch[of e t f v "Some (encode_block f)" rest] ok rest v show ?thesis by (simp add: IfElse else_bytes_def block_ok_def)
  next
    case (While e b)
    have "\<nexists>r s'. exec_loop M e b s r s'" using none exec_stmt_exec_loop_exec_block.While unfolding While by blast
    then obtain v where v: "eval_exp M (Some s) e = Ok v" "num_bool v"
      "while_loop (r_fuel (interp E n)) (interp E n) (encode_exp e) (encode_block b) (at c s) = OutOfFuel"
      using loop_starves[OF E calls inner, of e b s "r_fuel (interp E n)"] ok by (auto simp: While block_ok_def encode_pkg_def)
    have "starves (def_while E (interp E n)) (0xa2 # encode_pkg (encode_exp e @ encode_block b) @ rest) (at c s)"
      by (rule starves_def_while[OF E q _ _ _ v(2,3)])
        (use ok rest exp_or_starves[OF calls ok(2), of e n "encode_block b @ rest"] v(1) in \<open>simp_all add: While value_res_def\<close>)
    then show ?thesis by (simp add: While starves_statement(2)[OF q])
  next
    case (Assign x e)
    then show ?thesis using exec_simple(1)[OF calls, of e s x] none ok by auto
  next
    case (Return e)
    then show ?thesis using exec_simple(2)[OF calls, of e s] none ok by auto
  qed (use none exec_simple(3-5)[OF calls] in auto)
qed

lemma block_starves:
  assumes E: "bit_field_crate E" and calls: "callees E c M" and inner: "\<And>p s. no_end E n c M p s"
  shows "block_ok M p \<Longrightarrow> frame_ok s \<Longrightarrow> length (encode_block p) < 2 ^ 28 \<Longrightarrow> (\<nexists>r s'. exec_block M p s r s') \<Longrightarrow>
    term_list_loop k E (interp E n) \<lparr>raw_length = l, end_offset = 0\<rparr> (encode_block p) (at c s) = OutOfFuel"
proof (induction p arbitrary: s k)
  case Nil
  then show ?case using exec_stmt_exec_loop_exec_block.Nil by blast
next
  case (Cons st p)
  show ?case
  proof (cases k)
    case (Suc j)
    have ok: "stmt_ok M st" "block_ok M p" "length (encode_stmt st) < 2 ^ 28" "length (encode_block p) < 2 ^ 28"
      using Cons.prems by (simp_all add: block_ok_Cons)
    have rest: "length (encode_stmt st @ encode_block p) < 2 ^ 32" "ends_in_if [st] \<longrightarrow> no_else (encode_block p)"
      using Cons.prems(1,3) no_else_block[of p] by (auto simp: block_ok_Cons)
    have "encode_stmt st @ encode_block p \<noteq> []" using encode_stmt_head[of st] by auto
    with still_parsing_whole[OF rest(1)]
    have more: "still_parsing \<lparr>raw_length = l, end_offset = 0\<rparr> (encode_stmt st @ encode_block p)" by simp
    show ?thesis
    proof (cases "starves (term_object E (interp E n)) (encode_stmt st @ encode_block p) (at c s)")
      case True
      with more show ?thesis by (simp add: Suc starves_def)
    next
      case False
      with stmt_starves[OF E calls inner ok(1) Cons.prems(2) ok(3) rest] obtain r s1 where st: "exec_stmt M st s r s1" by blast
      from stmt_or_starves[OF E calls st ok(1) Cons.prems(2) ok(3) rest, of n] False
      have runs: "runs (term_object E (interp E n)) (encode_stmt st @ encode_block p) (at c s) (encode_block p) (at c s1) r" by blast
      have r: "r = Normal" using Stop[OF st] Cons.prems(4) by blast
      with Seq[of M st s s1 p] st Cons.prems(4) have "\<nexists>r s'. exec_block M p s1 r s'" by blast
      with Cons.IH[OF ok(2) exec_frame_ok(1)[OF st Cons.prems(2)] ok(4), of j] runs more show ?thesis
        by (auto simp: r runs_def Suc)
    qed
  qed simp
qed

lemma no_end_all:
  assumes "bit_field_crate E" "callees E c M"
  shows "no_end E n c M p s"
proof (induction n arbitrary: p s)
  case 0
  show ?case by (simp add: no_end_def run_term_list_def parse_in_def from_raw_length_whole)
next
  case (Suc n)
  show ?case
    unfolding no_end_def run_term_list_eq
    using block_starves[OF assms Suc] by (auto simp: parse_in_def term_list_def simp del: term_list_loop.simps)
qed

lemma num_value_inject: "num_value u = num_value v \<longleftrightarrow> u = v"
  by (cases u; cases v) simp_all

lemma frame_ctx_inject: "frame_ctx s = frame_ctx s' \<longleftrightarrow> s = s'"
proof
  have "inj (map_option num_value)" by (intro injI option.inj_map_strong[where fa = num_value]) (auto simp: num_value_inject)
  then have "inj (map (map_option num_value))" by simp
  then show "frame_ctx s = frame_ctx s' \<Longrightarrow> s = s'" by (auto simp: frame_ctx_def dest: injD)
qed simp

lemma act_result_inject: "act_result r c = act_result r' c' \<longleftrightarrow> r = r' \<and> c = c'"
  by (cases r; cases r') (auto simp: num_value_inject)

text \<open>
  C2. The interpreter implements the meaning of structured programs exactly. On the byte code of a program of
  assignments to locals and arguments, branches, loops with \<open>Break\<close> and \<open>Continue\<close>, and \<open>Return\<close>, over expressions
  that may call methods and read named objects which behave as specified, run in a method
  with the given values of its variables, the big-step semantics gives an outcome and final values of the variables
  if and only if the interpreter ends with just these for every large enough fuel; nothing else of the context
  changes. A program without an outcome never ends: every amount of fuel runs out.
\<close>

theorem program_equivalence:
  assumes "bit_field_crate E" "callees E c M" "block_ok M p" "frame_ok s" "length (encode_block p) < 2 ^ 28"
    and "method_ctx c = Some (frame_ctx s)"
  shows "(exec_block M p s r s' \<longleftrightarrow>
      (\<exists>N. \<forall>n\<ge>N. run_term_list (interp E n) (encode_block p) c = act_result r (c\<lparr>method_ctx := Some (frame_ctx s')\<rparr>)))
    \<and> ((\<exists>r s'. exec_block M p s r s') \<longleftrightarrow> (\<exists>n. run_term_list (interp E n) (encode_block p) c \<noteq> OutOfFuel))"
proof -
  have c: "at c s = c" using assms(6) by simp
  have run: "\<exists>N. \<forall>n\<ge>N. run_term_list (interp E n) (encode_block p) c = act_result r (at c s')"
    if "exec_block M p s r s'" for r s'
    using program_runs[OF assms(1-5) that] by (simp only: c)
  have ends: "\<exists>r s'. exec_block M p s r s'" if "run_term_list (interp E n) (encode_block p) c \<noteq> OutOfFuel" for n
    using no_end_all[OF assms(1,2), of n p s] that assms(3-5) unfolding no_end_def c by blast
  have fuel: "act_result r c' \<noteq> OutOfFuel" for r c' by (cases r) simp_all
  have "exec_block M p s r s'" if N: "\<forall>n\<ge>N. run_term_list (interp E n) (encode_block p) c = act_result r (at c s')" for N
  proof -
    from N fuel have "run_term_list (interp E N) (encode_block p) c \<noteq> OutOfFuel" by simp
    from ends[OF this] obtain r2 s2 where 2: "exec_block M p s r2 s2" by blast
    from run[OF this] obtain K where
      "\<forall>n\<ge>K. run_term_list (interp E n) (encode_block p) c = act_result r2 (at c s2)" by blast
    then have "run_term_list (interp E (max N K)) (encode_block p) c = act_result r2 (at c s2)" by simp
    moreover have "run_term_list (interp E (max N K)) (encode_block p) c = act_result r (at c s')" using N by simp
    ultimately have "r = r2 \<and> at c s' = at c s2" by (simp add: act_result_inject)
    moreover from this have "s' = s2"
      by (metis aml_context.select_convs(2) aml_context.surjective aml_context.update_convs(2) frame_ctx_inject option.inject)
    ultimately show ?thesis using 2 by simp
  qed
  with run ends fuel show ?thesis by (metis order_refl)
qed

text \<open>A loop that never ends has no outcome, so it is not run to its end with any fuel.\<close>

lemma endless_loop: "exec_loop M e b s r s' \<Longrightarrow> e = Lit 1 \<Longrightarrow> b = [Noop] \<Longrightarrow> False"
  by (induction arbitrary: rule: exec_stmt_exec_loop_exec_block.inducts(2)
      [where ?P1.0 = "\<lambda>_ _ _ _. True" and ?P3.0 = "\<lambda>_ _ _ _. True"]) auto

theorem program_equivalence_witness:
  "(\<exists>N. \<forall>n\<ge>N. run_term_list (interp std_env n) (encode_block sum_program)
       (blank_context\<lparr>method_ctx := Some (frame_ctx (first_frame (sum_args (NumI 4))))\<rparr>)
     = Err (PReturn (Integer 10), blank_context\<lparr>method_ctx := Some (frame_ctx (sum_frame 10 0 (sum_args (NumI 4))))\<rparr>))
   \<and> (\<forall>n. run_term_list (interp std_env n) (encode_block [While (Lit 1) [Noop]])
       (blank_context\<lparr>method_ctx := Some (frame_ctx (first_frame (sum_args (NumI 4))))\<rparr>) = OutOfFuel)"
proof
  let ?c = "blank_context\<lparr>method_ctx := Some (frame_ctx (first_frame (sum_args (NumI 4))))\<rparr>"
  have sum: "\<Sum>{..4::nat} = 10" by (simp add: eval_nat_numeral)
  have c: "callees std_env ?c Map.empty" "frame_ok (first_frame (sum_args (NumI 4)))"
    "method_ctx ?c = Some (frame_ctx (first_frame (sum_args (NumI 4))))"
    by (rule callees_none) (simp_all add: blank_context_def frame_ok_def first_frame_def sum_args_def)
  have "exec_block Map.empty sum_program (first_frame (sum_args (NumI 4))) (Returned (NumI 10)) (sum_frame 10 0 (sum_args (NumI 4)))"
    using sum_program_exec[of Map.empty "NumI 4"] sum by (simp add: sum_of_def)
  with program_equivalence[OF env_bf.bit_field_crate_axioms c(1) sum_program_ok(1) c(2) sum_program_ok(2) c(3),
      of "Returned (NumI 10)" "sum_frame 10 0 (sum_args (NumI 4))"]
  show "\<exists>N. \<forall>n\<ge>N. run_term_list (interp std_env n) (encode_block sum_program) ?c
     = Err (PReturn (Integer 10), blank_context\<lparr>method_ctx := Some (frame_ctx (sum_frame 10 0 (sum_args (NumI 4))))\<rparr>)"
    by simp
  have p: "block_ok Map.empty [While (Lit 1) [Noop]]" "length (encode_block [While (Lit 1) [Noop]]) < 2 ^ 28"
    by (simp_all add: block_ok_def encode_pkg_def encode_pkg_length_def pkg_size_def encode_integer_def Let_def)
  have "\<not> exec_block Map.empty [While (Lit 1) [Noop]] s r s'" for s r s' using endless_loop[OF _ refl refl] by auto
  with program_equivalence[OF env_bf.bit_field_crate_axioms c(1) p(1) c(2) p(2) c(3)]
  show "\<forall>n. run_term_list (interp std_env n) (encode_block [While (Lit 1) [Noop]]) ?c = OutOfFuel" by blast
qed

end
