(* ===== verification/Program_Calls.thy ===== *)
theory Program_Calls
  imports Program_Correct
begin

section \<open>Libraries of methods\<close>

text \<open>
  What expressions and programs rely on when they call is the contract \<open>callees\<close>. Here it is established for
  libraries: named numbers and methods with structured bodies, where every method calls only what comes after it in
  the library. A method that does what its specification says, if what it calls does, can be called by every method
  before it, at any depth of calls. A method that calls itself is outside of this contract, and the last section shows
  what becomes of it.
\<close>

subsection \<open>Entering a method\<close>

lemma added_level:
  assumes "level_at n (dir @ [seg]) = None" "add_level n (abs_path (dir @ [seg])) typ = Ok ((), m)"
  shows "handle_at m = handle_at n" "object_map m = object_map n"
    and "level_at n p = None \<Longrightarrow> p \<noteq> dir @ [seg] \<Longrightarrow> level_at m p = None"
proof -
  from assms obtain level where level: "level_at n dir = Some level" and none: "map_of (children level) seg = None"
    by (auto simp: add_level_abs level_at_snoc split: option.splits)
  let ?cs = "btree_insert seg (level_new typ) (children level)"
  from assms(2) level none have m: "m = write_level n dir (with_children level ?cs)" by (simp add: add_level_abs)
  show "handle_at m = handle_at n" unfolding m by (rule handle_at_new_child[OF level none])
  show "object_map m = object_map n" by (simp add: m write_level_def)
  have under: "level_at m (dir @ t # r) = (if t = seg then lookup_level (level_new typ) r else level_at n (dir @ t # r))" for t r
    using level_at_write_children[OF level, of ?cs t r] level
    by (simp add: m btree_simps lookup_level_append)
  show "level_at n p = None \<Longrightarrow> p \<noteq> dir @ [seg] \<Longrightarrow> level_at m p = None"
  proof (cases "prefix dir p")
    case True
    assume p: "level_at n p = None" "p \<noteq> dir @ [seg]"
    then obtain t r where "p = dir @ t # r" using True level by (cases "drop (length dir) p") (auto simp: prefix_def)
    with under[of t r] p show ?thesis by (cases r) (auto simp: level_new_def)
  next
    case False
    assume "level_at n p = None"
    with False show ?thesis by (simp add: m write_level_def lookup_update_aside_None)
  qed
qed

lemma get_by_path_added:
  assumes "level_at n (dir @ [seg]) = None" "add_level n (abs_path (dir @ [seg])) typ = Ok ((), m)"
    and "get_by_path n (abs_path (d @ [s])) = Ok v"
  shows "get_by_path m (abs_path (d @ [s])) = Ok v"
proof -
  from assms(3) obtain h where "handle_at n d s = Some h" and v: "ns_get n h = Ok v"
    by (auto simp: get_by_path_def handle_at_get_handle and_then_eq_Ok unwrap_def split: option.splits res.splits)
  with added_level(1)[OF assms(1,2)] have "handle_at m d s = Some h" by simp
  then have "get_handle m (abs_path (d @ [s])) = Ok h"
    by (auto simp: handle_at_get_handle handle_at_def split: option.splits)
  with v added_level(2)[OF assms(1,2)] show ?thesis by (simp add: get_by_path_def ns_get_def)
qed

subsection \<open>Libraries and what they promise\<close>

datatype entry = Data anum | Proc method_flags "stmt list" "anum list \<Rightarrow> (anum, aml_error) res"

type_synonym library = "(name_seg list \<times> entry) list"

fun entry_value :: "entry \<Rightarrow> aml_value" where
  "entry_value (Data v) = num_value v"
| "entry_value (Proc flags p f) = Method flags (Aml (encode_block p))"

fun entry_spec :: "aml_env \<Rightarrow> entry \<Rightarrow> nat \<times> (anum list \<Rightarrow> (anum, aml_error) res)" where
  "entry_spec E (Data v) = (0, \<lambda>_. Ok v)"
| "entry_spec E (Proc flags p f) = (unat (arg_count E flags), f)"

fun lib_spec :: "aml_env \<Rightarrow> library \<Rightarrow> mspec" where
  "lib_spec E [] = Map.empty"
| "lib_spec E ((path, e) # L) = (lib_spec E L)(path \<mapsto> entry_spec E e)"

text \<open>The arguments of a call, filled up to the seven that a method has.\<close>

definition padded :: "anum list \<Rightarrow> anum option list" where
  "padded vs = map Some vs @ replicate (7 - length vs) None"

text \<open>A method is as specified if its body, with the methods it calls as specified, returns the specified result.\<close>

fun entry_ok :: "aml_env \<Rightarrow> mspec \<Rightarrow> entry \<Rightarrow> bool" where
  "entry_ok E M (Data v) = True"
| "entry_ok E M (Proc flags p f) \<longleftrightarrow>
     block_ok M p \<and> length (encode_block p) < 2 ^ 28 \<and> unat (arg_count E flags) \<le> 7
     \<and> (\<forall>vs. length vs = unat (arg_count E flags) \<longrightarrow>
          (\<exists>r s'. exec_block M p (first_frame (padded vs)) r s' \<and> call_result r = value_res (f vs)))"

fun library_ok :: "aml_env \<Rightarrow> library \<Rightarrow> bool" where
  "library_ok E [] = True"
| "library_ok E ((path, e) # L) \<longleftrightarrow>
     path \<notin> fst ` set L \<and> path \<noteq> [] \<and> length path \<le> 255 \<and> list_all valid_seg path
     \<and> entry_ok E (lib_spec E L) e \<and> library_ok E L"

text \<open>The namespace has the objects of the library, and none of its methods is running.\<close>

definition has_library :: "aml_context \<Rightarrow> library \<Rightarrow> bool" where
  "has_library c L \<longleftrightarrow>
     verbosity c = NoVerbosity \<and> is_absolute (current_scope c) \<and> ns_wf (ns c)
     \<and> (\<forall>(path, e) \<in> set L. get_by_path (ns c) (abs_path path) = Ok (entry_value e) \<and> level_at (ns c) path = None)"

lemma lib_spec_cases:
  "lib_spec E L p = Some (k, f) \<Longrightarrow> \<exists>e. (p, e) \<in> set L \<and> entry_spec E e = (k, f)"
  by (induction L rule: lib_spec.induct) (auto split: if_splits)

lemma library_paths:
  "library_ok E L \<Longrightarrow> p \<in> fst ` set L \<Longrightarrow> p \<noteq> [] \<and> length p \<le> 255 \<and> list_all valid_seg p"
  by (induction L rule: lib_spec.induct) auto

lemma call_args_padded: "call_args vs = arg_values (padded vs)"
  by (simp add: call_args_def arg_values_def padded_def)

text \<open>A library stays in place when another method is entered.\<close>

lemma has_library_entered:
  assumes L: "library_ok E L" "has_library c L" and q: "dir @ [seg] \<notin> fst ` set L" "level_at (ns c) (dir @ [seg]) = None"
    and m: "add_level (ns c) (abs_path (dir @ [seg])) typ = Ok ((), m)"
  shows "has_library (entered (abs_path (dir @ [seg])) a m c) L"
proof -
  have "ns_wf m" using add_level_wf[of "ns c" "abs_path (dir @ [seg])" "typ"] L(2) by (simp add: m has_library_def)
  moreover have "get_by_path m (abs_path path) = Ok (entry_value e) \<and> level_at m path = None" if e: "(path, e) \<in> set L" for path e
  proof -
    have path: "get_by_path (ns c) (abs_path path) = Ok (entry_value e)" "level_at (ns c) path = None"
      using L(2) e by (auto simp: has_library_def)
    moreover have "path \<noteq> []" using library_paths[OF L(1), of path] e by force
    then obtain d s where "path = d @ [s]" by (cases path rule: rev_cases) auto
    moreover have "path \<noteq> dir @ [seg]" using q(1) e by force
    ultimately show ?thesis using get_by_path_added[OF q(2) m, of d s] added_level(3)[OF q(2) m, of path] by simp
  qed
  ultimately show ?thesis using L(2) by (auto simp: has_library_def entered_def abs_path_def)
qed

lemma data_callee:
  assumes "get_by_path (ns c) path = Ok (num_value v)"
  shows "invoke E n path a c = Ok (num_value v, c)"
  using assms by (cases v) (simp_all add: invoke_def invoke_method_def act_bind_def reads_def)

lemma data_arity: "callee_arity E (num_value v) = 0"
  by (cases v) (simp_all add: callee_arity_def)

lemma call_result_shape: "call_result r = value_res x \<Longrightarrow> (\<exists>v. x = Ok v) \<or> (\<exists>e. x = Err e)"
  by (cases x; cases r) (simp_all add: value_res_def)

lemma callees_update:
  assumes "callees E c M" "is_absolute (current_scope c)" "p \<noteq> [] \<and> length p \<le> 255 \<and> list_all valid_seg p"
    and "get_by_path (ns c) (abs_path p) = Ok v" "callee_arity E v = k" "k \<le> 7"
    and "\<And>vs. length vs = k \<Longrightarrow> (\<exists>v. f vs = Ok v) \<or> (\<exists>e. f vs = Err e \<and> e \<noteq> WrongParser)"
    and "\<And>vs mc. length vs = k \<Longrightarrow> \<exists>N. \<forall>n\<ge>N. invoke E n (abs_path p) (call_args vs) (c\<lparr>method_ctx := mc\<rparr>)
            = call_outcome (value_res (f vs)) (c\<lparr>method_ctx := mc\<rparr>)"
  shows "callees E c (M(p \<mapsto> (k, f)))"
proof -
  note M = callees.quiet[OF assms(1)] callees.callee_scope[OF assms(1)] callees.callee_path[OF assms(1)]
    callees.callee_object[OF assms(1)] callees.callee_result[OF assms(1)] callees.callee_runs[OF assms(1)]
  show ?thesis by unfold_locales (use assms(2-8) M in \<open>auto split: if_splits\<close>)
qed

lemma exec_not_wrong_parser:
  assumes "bit_field_crate E" "callees E c M" "block_ok M p" "frame_ok s" "length (encode_block p) < 2 ^ 28" "exec_block M p s r s'"
  shows "r \<noteq> Failed WrongParser"
  using block_runs_stream[OF exec_runs(3)[OF assms(1,2,6)] assms(3-5)] by blast

lemma frame_ok_padded: "length vs \<le> 7 \<Longrightarrow> frame_ok (first_frame (padded vs))"
  by (simp add: frame_ok_def first_frame_def padded_def)

text \<open>A call of a method is the run of its body, with the library behind it in place.\<close>

lemma proc_callee:
  assumes E: "bit_field_crate E" and calls: "\<And>c. has_library c L \<Longrightarrow> callees E c (lib_spec E L)"
    and ok: "library_ok E ((path, Proc flags p f) # L)" and c: "has_library c ((path, Proc flags p f) # L)"
    and vs: "length vs = unat (arg_count E flags)"
  shows "(\<exists>v. f vs = Ok v) \<or> (\<exists>e. f vs = Err e \<and> e \<noteq> WrongParser)"
    and "\<exists>N. \<forall>n\<ge>N. invoke E n (abs_path path) (call_args vs) c = call_outcome (value_res (f vs)) c"
proof -
  let ?M = "lib_spec E L"
  have body: "block_ok ?M p" "length (encode_block p) < 2 ^ 28" "length vs \<le> 7" and L: "library_ok E L" "path \<notin> fst ` set L"
    using ok vs by auto
  from ok vs obtain r s' where run: "exec_block ?M p (first_frame (padded vs)) r s'" "call_result r = value_res (f vs)" by auto
  have lib: "has_library c L" and c': "ns_wf (ns c)" "level_at (ns c) path = None"
    "get_by_path (ns c) (abs_path path) = Ok (Method flags (Aml (encode_block p)))"
    using c by (auto simp: has_library_def)
  have "r \<noteq> Failed WrongParser"
    by (rule exec_not_wrong_parser[OF E calls[OF lib] body(1) frame_ok_padded[OF body(3)] body(2) run(1)])
  with run(2) call_result_shape[OF run(2)] show "(\<exists>v. f vs = Ok v) \<or> (\<exists>e. f vs = Err e \<and> e \<noteq> WrongParser)"
    by (cases r) (auto simp: value_res_def)
  from ok obtain dir seg where path: "path = dir @ [seg]" by (cases path rule: rev_cases) auto
  have "callees E (entered (abs_path (dir @ [seg])) (arg_values (padded vs)) m c) ?M"
    if "add_level (ns c) (abs_path (dir @ [seg])) MethodLocals = Ok ((), m)" for m
    by (rule calls, rule has_library_entered[OF L(1) lib _ _ that]) (use L(2) c'(2) path in simp_all)
  with method_runs[OF E c'(1) c'(2,3)[unfolded path] body(1,2) _ run(1)] body(3) run(2)
  show "\<exists>N. \<forall>n\<ge>N. invoke E n (abs_path path) (call_args vs) c = call_outcome (value_res (f vs)) c"
    by (simp add: path call_args_padded padded_def)
qed

lemma callees_library:
  assumes E: "bit_field_crate E"
  shows "library_ok E L \<Longrightarrow> has_library c L \<Longrightarrow> callees E c (lib_spec E L)"
proof (induction L arbitrary: c)
  case Nil
  then show ?case by (simp add: has_library_def callees_none)
next
  case (Cons pe L)
  obtain path e where pe: "pe = (path, e)" by (cases pe) auto
  have lib: "library_ok E L" "has_library c L" using Cons.prems by (auto simp: pe has_library_def)
  have at: "has_library (c\<lparr>method_ctx := mc\<rparr>) (pe # L)" for mc using Cons.prems(2) by (simp add: has_library_def)
  have obj: "is_absolute (current_scope c)" "path \<noteq> [] \<and> length path \<le> 255 \<and> list_all valid_seg path"
    "get_by_path (ns c) (abs_path path) = Ok (entry_value e)"
    using Cons.prems by (auto simp: pe has_library_def)
  note step = callees_update[OF Cons.IH[OF lib] obj]
  show ?case
  proof (cases e)
    case (Data v)
    have "callees E c ((lib_spec E L)(path \<mapsto> (0, \<lambda>_. Ok v)))"
      by (rule step) (use obj(3) in \<open>simp_all add: Data data_arity data_callee value_res_def\<close>)
    then show ?thesis unfolding pe Data lib_spec.simps entry_spec.simps .
  next
    case (Proc flags p f)
    note proc = proc_callee[OF E Cons.IH[OF lib(1)], of path flags p f]
    have "callees E c ((lib_spec E L)(path \<mapsto> (unat (arg_count E flags), f)))"
      by (rule step) (use proc Cons.prems at in \<open>auto simp: Proc pe callee_arity_def\<close>)
    then show ?thesis unfolding pe Proc lib_spec.simps entry_spec.simps .
  qed
qed

text \<open>
  C3. Calling a method whose body is a structured program, in a namespace with a library of named numbers and methods
  that do what their specifications say: whatever the program means by its big-step semantics, where a call of a
  method of the library means its specification, with every large enough fuel the call returns exactly that (the
  value of the \<open>Return\<close>, zero at the end of the body, an error for a \<open>Break\<close> or \<open>Continue\<close> outside of a loop, the
  error of an expression), and the context afterwards is exactly the caller's: scope, arguments, locals and namespace.
\<close>

theorem method_runs_program:
  assumes "bit_field_crate E" "library_ok E L" "has_library c L" "dir @ [seg] \<notin> fst ` set L"
    "level_at (ns c) (dir @ [seg]) = None"
    "get_by_path (ns c) (abs_path (dir @ [seg])) = Ok (Method flags (Aml (encode_block p)))"
    "block_ok (lib_spec E L) p" "length (encode_block p) < 2 ^ 28" "length a = 7"
    "exec_block (lib_spec E L) p (first_frame a) r s'"
  shows "\<exists>N. \<forall>n\<ge>N. invoke E n (abs_path (dir @ [seg])) (arg_values a) c = call_outcome (call_result r) c"
proof (rule method_runs[OF assms(1) _ assms(5-10)])
  show "ns_wf (ns c)" using assms(3) by (simp add: has_library_def)
  show "callees E (entered (abs_path (dir @ [seg])) (arg_values a) m c) (lib_spec E L)"
    if "add_level (ns c) (abs_path (dir @ [seg])) MethodLocals = Ok ((), m)" for m
    by (rule callees_library[OF assms(1,2) has_library_entered[OF assms(2-5) that]])
qed

subsection \<open>An example\<close>

text \<open>A library with the method that sums up to its argument, and a method that calls it twice.\<close>

definition seg_B :: name_seg where
  "seg_B = NameSeg 0x42 0x5F 0x5F 0x5F"

definition sum_flags :: method_flags where
  "sum_flags = MethodFlags 1"

definition sum_entry :: entry where
  "sum_entry = Proc sum_flags sum_program (\<lambda>vs. Ok (NumI (sum_of (hd vs))))"

definition twice_program :: "stmt list" where
  "twice_program = [Return (Bin AddOp (Call [seg_A] [Var (ArgV 0)]) (Call [seg_A] [Lit 3]))]"

definition twice_context :: aml_context where
  "twice_context = blank_context\<lparr>ns := \<lparr>next_handle = 2,
     object_map = [(0, entry_value sum_entry), (1, Method sum_flags (Aml (encode_block twice_program)))],
     root_level = NamespaceLevel ScopeLevel [] [(seg_A, 0), (seg_B, 1)]\<rparr>\<rparr>"

lemma sum_arity: "unat (arg_count std_env sum_flags) = 1"
  by (simp add: sum_flags_def env_bf.get_bits_u8)

lemma sum_of_simps: "sum_of (NumI 4) = 10" "sum_of (NumI 3) = 6"
proof -
  have "\<Sum>{..4::nat} = 10" "\<Sum>{..3::nat} = 6" by (simp_all add: eval_nat_numeral)
  moreover have "unat (4 :: u64) = 4" "unat (3 :: u64) = 3" by simp_all
  ultimately show "sum_of (NumI 4) = 10" "sum_of (NumI 3) = 6" by (simp_all add: sum_of_def del: of_nat_sum)
qed

lemma sum_library_ok: "library_ok std_env [([seg_A], sum_entry)]"
proof -
  have "\<exists>r s'. exec_block Map.empty sum_program (first_frame (padded vs)) r s'
      \<and> call_result r = value_res (Ok (NumI (sum_of (hd vs))))" if "length vs = 1" for vs
  proof -
    have "padded vs = sum_args (hd vs)"
      using that by (auto simp: padded_def sum_args_def length_Suc_conv eval_nat_numeral)
    with sum_program_exec[of Map.empty "hd vs"] show ?thesis
      by (intro exI[of _ "Returned (NumI (sum_of (hd vs)))"]) (auto simp: value_res_def)
  qed
  with sum_program_ok show ?thesis
    by (auto simp: sum_entry_def sum_arity seg_A_def is_lead_name_char_def is_name_char_def)
qed

lemma twice_lookup:
  "get_by_path (ns twice_context) (abs_path ([] @ [seg_A])) = Ok (entry_value sum_entry)"
  "get_by_path (ns twice_context) (abs_path ([] @ [seg_B])) = Ok (Method sum_flags (Aml (encode_block twice_program)))"
  by (simp_all add: get_by_path_def handle_at_get_handle handle_at_def ns_get_def twice_context_def seg_A_def seg_B_def
      del: append_Nil)

lemma twice_has_library: "has_library twice_context [([seg_A], sum_entry)]"
proof -
  have "level_at (ns twice_context) dir = (if dir = [] then Some (root_level (ns twice_context)) else None)" for dir
    by (cases dir) (simp_all add: twice_context_def)
  then have "ns_wf (ns twice_context)"
    by (auto simp: ns_wf_def handle_at_def twice_context_def btree_ok_def seg_A_def seg_B_def
        split: if_splits)
  then show ?thesis
    using twice_lookup(1) by (simp add: has_library_def twice_context_def blank_context_def root_name_def)
qed

interpretation twice: callees std_env twice_context "lib_spec std_env [([seg_A], sum_entry)]"
  by (rule callees_library[OF env_bf.bit_field_crate_axioms sum_library_ok twice_has_library])

theorem method_runs_program_witness:
  "\<exists>N. \<forall>n\<ge>N. invoke std_env n (abs_path ([] @ [seg_B])) (arg_values (sum_args (NumI 4))) twice_context
     = Ok (Integer 16, twice_context)"
proof -
  let ?M = "lib_spec std_env [([seg_A], sum_entry)]"
  have "exec_block ?M twice_program (first_frame (sum_args (NumI 4))) (Returned (NumI 16)) (first_frame (sum_args (NumI 4)))"
    by (simp add: twice_program_def sum_entry_def first_frame_def sum_args_def sum_of_simps)
  moreover have "block_ok ?M twice_program" "length (encode_block twice_program) < 2 ^ 28"
    by (simp_all add: twice_program_def block_ok_def sum_entry_def sum_arity encode_integer_def seg_A_def)
  moreover have "length (sum_args (NumI 4)) = 7" by (simp add: sum_args_def)
  moreover have "[] @ [seg_B] \<notin> fst ` set [([seg_A], sum_entry)]" "level_at (ns twice_context) ([] @ [seg_B]) = None"
    by (simp_all add: twice_context_def seg_A_def seg_B_def)
  ultimately show ?thesis
    using method_runs_program[OF env_bf.bit_field_crate_axioms sum_library_ok twice_has_library _ _ twice_lookup(2),
        of "sum_args (NumI 4)" "Returned (NumI 16)" "first_frame (sum_args (NumI 4))"] by simp
qed

subsection \<open>Recursion\<close>

text \<open>
  Calls that change the context of the caller: \<open>gives\<close> is \<open>yields\<close> with the context afterwards.
\<close>

definition gives :: "'r parser \<Rightarrow> bytes \<Rightarrow> aml_context \<Rightarrow> bytes \<Rightarrow> aml_context \<Rightarrow> ('r, aml_error) res \<Rightarrow> bool" where
  "gives p input c rest c' r \<longleftrightarrow>
     (\<exists>v. r = Ok v \<and> p input c = Ok (rest, c', v))
     \<or> (\<exists>e i. r = Err e \<and> e \<noteq> WrongParser \<and> p input c = Err (i, c', PErr e))"

lemma gives_choice:
  "gives p input c rest c' r \<Longrightarrow> gives (choice (p # ps)) input c rest c' r"
  "mismatch p input c \<Longrightarrow> gives (choice ps) input c rest c' r \<Longrightarrow> gives (choice (p # ps)) input c rest c' r"
  by (auto simp: gives_def mismatch_def)

lemma gives_comment_scope:
  assumes "verbosity c = NoVerbosity" "verbosity c' = NoVerbosity" "v \<noteq> NoVerbosity" "gives p input c rest c' r"
  shows "gives (comment_scope v p) input c rest c' r"
  using assms(4)
  by (auto simp: gives_def comment_scope_def quiet_scope[OF assms(1,3)] quiet_scope[OF assms(2,3)])

lemma gives_term_arg_call:
  assumes quiet: "verbosity c = NoVerbosity" "verbosity c' = NoVerbosity"
    and call: "gives (method_invocation E R) (0x5C # input) c rest c' r"
  shows "gives (term_arg E R) (0x5C # input) c rest c' r"
proof -
  have "gives (expression_opcode E R) (0x5C # input) c rest c' r"
    unfolding expression_opcode_def
    by (rule gives_comment_scope[OF quiet], simp)
      (rule gives_choice(1)[OF call]
        | (rule gives_choice(2), rule mismatch_operators mismatch_negated mismatch_call, simp))+
  moreover have "mismatch (data_object E R) (0x5C # input) c" by (rule mismatch_data_object[OF quiet(1)]) simp
  moreover have "mismatch arg_obj (0x5C # input) c" "mismatch local_obj (0x5C # input) c"
    by (rule mismatch_objs, simp)+
  ultimately show ?thesis
    unfolding term_arg_def
    by (intro gives_comment_scope[OF quiet] gives_choice(2)[OF mismatch_map(2)] gives_choice(2) gives_choice(1)) simp_all
qed

text \<open>A call with one constant argument.\<close>

lemma gives_constant_call:
  assumes quiet: "verbosity c = NoVerbosity" "verbosity c' = NoVerbosity" and scope: "is_absolute (current_scope c)"
    and path: "list_all valid_seg p" "length p \<le> 255"
    and m: "get_by_path (ns c) (abs_path p) = Ok (Method flags code)" "unat (arg_count E flags) = 1" and k: "0 < k"
    and run: "invoke_method E (interp E k) (abs_path p) (call_args [NumI w]) c = call_outcome (value_res a) c'"
    and a: "(\<exists>v. a = Ok v) \<or> (\<exists>e. a = Err e \<and> e \<noteq> WrongParser)"
  shows "gives (r_term_arg (interp E (Suc k))) (encode_exp (Call p [Lit w]) @ rest) c rest c' (value_res a)"
proof -
  let ?count = "Some (arg_count E flags)"
  from search_abs[OF m(1) scope] obtain h where
    "search (ns c) (abs_path p) (current_scope c) = Ok (abs_path p, h)" "ns_get (ns c) h = Ok (Method flags code)" by blast
  then have "method_head E (abs_path p) c = Ok ((abs_path p, ?count), c)"
    by (simp add: method_head_def act_bind_def try_act_def reads_def)
  with name_string_root[OF quiet(1) path, of "encode_integer w @ rest"]
  have head: "map_with_context name_string (method_head E) (0x5C # encode_path p @ encode_integer w @ rest) c
      = Ok (encode_integer w @ rest, c, (abs_path p, ?count))"
    by (simp add: map_with_context_def)
  have "r_term_arg (interp E k) (encode_integer w @ rest) c = Ok (rest, c, Integer w)"
    using yields_term_arg_literal[OF quiet(1), of E _ w rest] k by (cases k) (auto simp: yields_def)
  then have args: "n_of (r_term_arg (interp E k)) 1 (encode_integer w @ rest) c = Ok (rest, c, map num_value [NumI w])"
    by (simp add: One_nat_def del: interp.simps)
  have "method_call E (interp E k) (abs_path p) ?count (map num_value [NumI w]) c = call_outcome (map_err PErr (value_res a)) c'"
    using method_call_invoke[OF m(1), of "[NumI w]" E "interp E k"] run m(2) a
    by (auto simp: callee_arity_def try_act_def value_res_def simp del: interp.simps)
  then have "gives (map_with_context (n_of (r_term_arg (interp E k)) 1) (method_call E (interp E k) (abs_path p) ?count))
      (encode_integer w @ rest) c rest c' (value_res a)"
    using a args by (auto simp: gives_def map_with_context_def value_res_def simp del: interp.simps n_of.simps)
  then have "gives (feed (map_with_context name_string (method_head E)) (\<lambda>(path, num_args).
          map_with_context (n_of (r_term_arg (interp E k)) (case num_args of Some n \<Rightarrow> unat n | None \<Rightarrow> 0))
            (method_call E (interp E k) path num_args))) (0x5C # encode_path p @ encode_integer w @ rest) c rest c' (value_res a)"
    by (simp add: gives_def feed_def head m(2) del: interp.simps n_of.simps)
  then have "gives (method_invocation E (interp E k)) (0x5C # encode_path p @ encode_integer w @ rest) c rest c' (value_res a)"
    unfolding method_invocation_def by (intro gives_comment_scope[OF quiet]) simp
  from gives_term_arg_call[OF quiet this] show ?thesis by simp
qed

text \<open>A stream of one statement, and of one \<open>Return\<close> of a call.\<close>

lemma single_statement_stream:
  assumes "runs (term_object E (interp E n)) input c [] c' r" "input \<noteq> []" "length input < 2 ^ 32" "1 \<le> n"
  shows "run_term_list (interp E (Suc n)) input c = act_result r c'"
proof -
  obtain m where m: "n = Suc m" using assms(4) by (cases n) auto
  have "still_parsing \<lparr>raw_length = l, end_offset = 0\<rparr> input" "\<not> still_parsing \<lparr>raw_length = l, end_offset = 0\<rparr> []" for l
    using still_parsing_whole[OF assms(3), of l] still_parsing_whole[of "[]" l] assms(2) by simp_all
  with assms(1) have "runs (term_list_loop (Suc n) E (interp E n) \<lparr>raw_length = l, end_offset = 0\<rparr>) input c [] c' r" for l
    by (cases r) (auto simp: runs_def m simp del: interp.simps split: option.splits)
  from this[of "len_u32 input"] show ?thesis
    by (cases r) (auto simp: run_term_list_eq parse_in_def term_list_def runs_def
        simp del: interp.simps term_list_loop.simps)
qed

lemma return_stream:
  assumes quiet: "verbosity c = NoVerbosity" "verbosity c' = NoVerbosity" and len: "length (0xa4 # input) < 2 ^ 32" and n: "1 \<le> n"
    and arg: "gives (r_term_arg (interp E n)) input c [] c' (value_res a)"
  shows "run_term_list (interp E (Suc n)) (0xa4 # input) c
    = act_result (case a of Ok v \<Rightarrow> Returned v | Err e \<Rightarrow> Failed e) c'"
proof (rule single_statement_stream[OF _ _ len n])
  let ?r = "case a of Ok v \<Rightarrow> Returned v | Err e \<Rightarrow> Failed e"
  have "runs (def_return (interp E n)) (0xa4 # input) c [] c' ?r"
    using arg
    by (auto simp: gives_def value_res_def and_then_eq_Ok and_then_eq_Err runs_def def_return_def discard_result_def
        then_opcode comment_scope_def quiet_scope[OF quiet(1)] quiet_scope[OF quiet(2)] map_parser_def simp del: interp.simps)
  then show "runs (term_object E (interp E n)) (0xa4 # input) c [] c' ?r"
    by (intro runs_term_object[OF quiet] disjI1 runs_statement_opcode(5)[OF quiet]) (simp add: not_a_name_def)
qed simp

text \<open>
  A recursive method: with a first argument other than zero it returns what it returns itself for zero, and for zero it runs the
  program \<open>q\<close>.
\<close>

definition recursive_program :: "name_seg list \<Rightarrow> stmt list \<Rightarrow> stmt list" where
  "recursive_program path q = [IfElse (Var (ArgV 0)) [Return (Call path [Lit 0])] q]"

lemma recursive_body:
  assumes E: "bit_field_crate E" and quiet: "verbosity c = NoVerbosity" "verbosity c' = NoVerbosity"
    and len: "length (encode_block (recursive_program path q)) < 2 ^ 28" and n: "1 \<le> n" and s: "frame_ok s" "hd (fargs s) = Some v"
    and body: "run_term_list (interp E n) (if num_bool v then encode_block [Return (Call path [Lit 0])] else encode_block q)
        (at c s) = act_result r c'" "r \<noteq> Failed WrongParser"
  shows "run_term_list (interp E (Suc n)) (encode_block (recursive_program path q)) (at c s) = act_result r c'"
proof -
  let ?t = "encode_block [Return (Call path [Lit 0])]"
  let ?e = "encode_exp (Var (ArgV 0))"
  have q: "verbosity (at c s) = NoVerbosity" using quiet(1) by simp
  have enc: "encode_block (recursive_program path q) = 0xa0 # encode_pkg (?e @ ?t) @ else_bytes (Some (encode_block q)) @ []"
    by (simp add: recursive_program_def else_bytes_def)
  obtain xs where xs: "fargs s = Some v # xs" using s by (cases "fargs s") (auto simp: frame_ok_def)
  obtain m where m: "n = Suc m" using n by (cases n) auto
  have "yields (r_term_arg (interp E n)) (?e @ rest) (at c s) rest (value_res (Ok v))" for rest
    using yields_term_arg_var[OF q, of "Some s" "ArgV 0"] s(1) by (simp add: m xs in_frame_def)
  then have "runs (def_if_else E (interp E n)) (0xa0 # encode_pkg (?e @ ?t) @ else_bytes (Some (encode_block q)) @ [])
      (at c s) [] c' r"
    using body len by (intro runs_def_if_else[OF E q quiet(2), where a = "Ok v"]) (auto simp: enc simp del: interp.simps)
  then have "runs (term_object E (interp E n)) (encode_block (recursive_program path q)) (at c s) [] c' r"
    unfolding enc by (intro runs_term_object[OF q quiet(2)] disjI1 runs_statement_opcode(3)[OF q quiet(2)])
      (simp add: not_a_name_def)
  then show ?thesis by (rule single_statement_stream) (use len n in \<open>simp_all add: enc\<close>)
qed

text \<open>The call for zero, made while the level of the method is there or not: it removes the level.\<close>

lemma base_call:
  assumes E: "bit_field_crate E" and q: "block_ok M q" "length (encode_block (recursive_program path q)) < 2 ^ 28"
    "exec_block M q (first_frame (padded [NumI 0])) r s'"
    and m: "get_by_path (ns c) (abs_path path) = Ok (Method flags (Aml (encode_block (recursive_program path q))))"
    and level: "add_level (ns c) (abs_path path) MethodLocals = Ok ((), n)" "remove_level n (abs_path path) = Ok ((), n')"
    and calls: "callees E (entered (abs_path path) (call_args [NumI 0]) n c) M"
  shows "\<exists>N. \<forall>k\<ge>N. invoke E k (abs_path path) (call_args [NumI 0]) c = call_outcome (call_result r) (c\<lparr>ns := n'\<rparr>)"
    and "call_result r \<noteq> Err WrongParser"
proof -
  let ?p = "abs_path path" and ?s = "first_frame (padded [NumI 0])"
  let ?c = "entered ?p (call_args [NumI 0]) n c"
  have at: "at ?c ?s = ?c" by (simp only: call_args_padded flip: entered_first_frame)
  have s: "frame_ok ?s" "hd (fargs ?s) = Some (NumI 0)" by (simp_all add: frame_ok_padded) (simp add: first_frame_def padded_def)
  have quiet: "verbosity ?c = NoVerbosity" "verbosity (at ?c s') = NoVerbosity" using callees.quiet[OF calls] by simp_all
  have len: "length (encode_block q) < 2 ^ 28"
    using q(2) length_pkg_parts(2)[of "encode_block q" "2 ^ 28"] by (simp add: recursive_program_def)
  from block_runs_stream[OF exec_runs(3)[OF E calls q(3)] q(1) s(1) len] obtain N where
    N: "run_term_list (interp E k) (encode_block q) (at ?c ?s) = act_result r (at ?c s')" "r \<noteq> Failed WrongParser"
    if "N \<le> k" for k by blast
  show "call_result r \<noteq> Err WrongParser" using N(2)[of N] by (cases r) simp_all
  have "invoke E k ?p (call_args [NumI 0]) c = call_outcome (call_result r) (c\<lparr>ns := n'\<rparr>)" if k: "N + 2 \<le> k" for k
    unfolding invoke_def
  proof (rule invoke_method_steps[OF m level, where mc = "Some (frame_ctx s')"])
    from k obtain j where j: "k = Suc j" "N \<le> j" "1 \<le> j" by (cases k) auto
    have "run_term_list (interp E k) (encode_block (recursive_program path q)) (at ?c ?s) = act_result r (at ?c s')"
      unfolding j(1) by (rule recursive_body[OF E quiet q(2) j(3) s]) (use N[OF j(2)] in simp_all)
    from method_body_program[OF this]
    show "method_body E (interp E k) (Aml (encode_block (recursive_program path q))) ?c
        = call_outcome (call_result r) (at ?c s')" by (simp only: at)
  qed
  then show "\<exists>N. \<forall>k\<ge>N. invoke E k ?p (call_args [NumI 0]) c = call_outcome (call_result r) (c\<lparr>ns := n'\<rparr>)" by blast
qed

lemma level_there_again:
  assumes "add_level n (abs_path (dir @ [seg])) t = Ok ((), m)" "level_at n (dir @ [seg]) = None"
  shows "add_level m (abs_path (dir @ [seg])) t = Ok ((), m)"
proof -
  from assms obtain level where level: "level_at n dir = Some level"
    "m = write_level n dir (with_children level (btree_insert seg (level_new t) (children level)))"
    by (auto simp: add_level_abs level_at_snoc split: option.split_asm)
  have "level_at m (dir @ [seg]) \<noteq> None"
    using level_at_write_children[OF level(1), of "btree_insert seg (level_new t) (children level)" seg "[]"]
    by (simp add: level(2) btree_simps)
  then show ?thesis by (cases "level_at m dir") (auto simp: add_level_abs level_at_snoc)
qed

lemma call_result_value:
  assumes "call_result r \<noteq> Err WrongParser"
  obtains a where "call_result r = value_res a" "(\<exists>v. a = Ok v) \<or> (\<exists>e. a = Err e \<and> e \<noteq> WrongParser)"
proof -
  let ?a = "case r of Normal \<Rightarrow> Ok (NumI 0) | Returned v \<Rightarrow> Ok v | Broke \<Rightarrow> Err BreakInInvalidPosition
    | Continued \<Rightarrow> Err ContinueInInvalidPosition | Failed e \<Rightarrow> Err e"
  show thesis by (rule that[of ?a]) (use assms in \<open>cases r; simp add: value_res_def\<close>)+
qed

text \<open>The outer call, when the inner one has removed the level.\<close>

lemma recursive_outer:
  assumes E: "bit_field_crate E" and c: "verbosity c = NoVerbosity" "level_at (ns c) (dir @ [seg]) = None"
    and path: "list_all valid_seg (dir @ [seg])" "length (dir @ [seg]) \<le> 255"
    and m: "get_by_path (ns c) (abs_path (dir @ [seg])) = Ok (Method flags (Aml (encode_block (recursive_program (dir @ [seg]) q))))"
      "unat (arg_count E flags) = 1" "length (encode_block (recursive_program (dir @ [seg]) q)) < 2 ^ 28"
    and n: "add_level (ns c) (abs_path (dir @ [seg])) MethodLocals = Ok ((), n)" and w: "w \<noteq> 0" and k: "0 < k"
    and inner: "invoke_method E (interp E k) (abs_path (dir @ [seg])) (call_args [NumI 0])
        (entered (abs_path (dir @ [seg])) (call_args [NumI w]) n c)
          = call_outcome (value_res a) (entered (abs_path (dir @ [seg])) (call_args [NumI w]) (ns c) c)"
    and a: "(\<exists>v. a = Ok v) \<or> (\<exists>e. a = Err e \<and> e \<noteq> WrongParser)"
  shows "invoke E (Suc (Suc (Suc k))) (abs_path (dir @ [seg])) (call_args [NumI w]) c
    = Err (LevelDoesNotExist (abs_path (dir @ [seg])), entered (abs_path (dir @ [seg])) (call_args [NumI w]) (ns c) c)"
proof -
  let ?path = "dir @ [seg]" and ?s = "first_frame (padded [NumI w])"
  let ?p = "abs_path ?path"
  let ?c1 = "entered ?p (call_args [NumI w]) n c" and ?c2 = "entered ?p (call_args [NumI w]) (ns c) c"
  let ?r = "case a of Ok v \<Rightarrow> Returned v | Err e \<Rightarrow> Failed e"
  have at: "at ?c1 ?s = ?c1" by (simp only: call_args_padded flip: entered_first_frame)
  have s: "frame_ok ?s" "hd (fargs ?s) = Some (NumI w)" by (simp_all add: frame_ok_padded) (simp add: first_frame_def padded_def)
  have quiet: "verbosity ?c1 = NoVerbosity" "verbosity ?c2 = NoVerbosity" using c(1) by simp_all
  have "is_absolute (current_scope ?c1)" by (simp add: entered_def abs_path_def)
  moreover have "get_by_path (ns ?c1) ?p = Ok (Method flags (Aml (encode_block (recursive_program ?path q))))"
    using get_by_path_added[OF c(2) n m(1)] by simp
  ultimately have "gives (r_term_arg (interp E (Suc k))) (encode_exp (Call ?path [Lit 0]) @ []) ?c1 [] ?c2 (value_res a)"
    by (rule gives_constant_call[OF quiet _ path _ m(2) k inner a])
  moreover have "length (encode_block [Return (Call ?path [Lit 0])]) < 2 ^ 32"
    using m(3) length_pkg_parts(1)[of "encode_exp (Var (ArgV 0))" "encode_block [Return (Call ?path [Lit 0])]" "2 ^ 28"]
    by (simp add: recursive_program_def)
  ultimately have "run_term_list (interp E (Suc (Suc k))) (encode_block [Return (Call ?path [Lit 0])]) (at ?c1 ?s) = act_result ?r ?c2"
    unfolding at using return_stream[OF quiet, of "encode_exp (Call ?path [Lit 0])" "Suc k" E a] by simp
  then have "run_term_list (interp E (Suc (Suc (Suc k)))) (encode_block (recursive_program ?path q)) (at ?c1 ?s) = act_result ?r ?c2"
    by (intro recursive_body[OF E quiet m(3) _ s]) (use w a in \<open>auto simp del: interp.simps\<close>)
  from method_body_outcome[OF this[unfolded at]] have
    "method_body E (interp E (Suc (Suc (Suc k)))) (Aml (encode_block (recursive_program ?path q))) ?c1 = call_outcome (call_result ?r) ?c2" .
  from outer_call_fails[OF m(1) n this] show ?thesis
    using a c(2) get_by_path_level[OF m(1)] by (auto simp: invoke_def simp del: interp.simps)
qed

text \<open>
  C33. Recursion does not work: a method that calls itself. Called with zero it runs the program \<open>q\<close> and returns its result, with the
  context exactly the caller's. Called with any other number it calls itself with zero; that call runs \<open>q\<close>, removes the level
  that both calls share and returns to the body of the outer call. Whatever the result was, the outer call then fails
  because the level it removes is not there, and returns with the method's own path as the current scope and the method's own
  arguments and locals in place of the caller's; the namespace is as before.
\<close>

theorem recursive_call_fails:
  assumes "bit_field_crate E" "library_ok E L" "has_library c L" "dir @ [seg] \<notin> fst ` set L"
    "level_at (ns c) (dir @ [seg]) = None" "list_all valid_seg (dir @ [seg])" "length (dir @ [seg]) \<le> 255"
    "get_by_path (ns c) (abs_path (dir @ [seg])) = Ok (Method flags (Aml (encode_block (recursive_program (dir @ [seg]) q))))"
    "unat (arg_count E flags) = 1" "block_ok (lib_spec E L) q" "length (encode_block (recursive_program (dir @ [seg]) q)) < 2 ^ 28"
    "exec_block (lib_spec E L) q (first_frame (padded [NumI 0])) r s'"
  shows "(\<exists>N. \<forall>n\<ge>N. invoke E n (abs_path (dir @ [seg])) (call_args [NumI 0]) c = call_outcome (call_result r) c)
    \<and> (\<forall>w. w \<noteq> 0 \<longrightarrow> (\<exists>N. \<forall>n\<ge>N. invoke E n (abs_path (dir @ [seg])) (call_args [NumI w]) c
        = Err (LevelDoesNotExist (abs_path (dir @ [seg])),
            c\<lparr>method_ctx := Some (method_context_new (call_args [NumI w])), current_scope := abs_path (dir @ [seg])\<rparr>)))"
proof -
  let ?path = "dir @ [seg]" and ?q = "recursive_program (dir @ [seg]) q" and ?M = "lib_spec E L"
  let ?p = "abs_path ?path" and ?code = "Aml (encode_block ?q)"
  note E = assms(1) and m = assms(8)
  have c: "verbosity c = NoVerbosity" "ns_wf (ns c)" using assms(3) by (simp_all add: has_library_def)
  obtain n where n: "add_level (ns c) ?p MethodLocals = Ok ((), n)" "remove_level n ?p = Ok ((), ns c)"
    by (rule method_level_added[OF c(2) get_by_path_level[OF m] assms(5)])
  have lib: "has_library (entered ?p a n c) L" for a by (rule has_library_entered[OF assms(2-5) n(1)])
  have calls: "callees E (entered ?p a n c) ?M" for a by (rule callees_library[OF E assms(2) lib])
  have inner_calls: "callees E (entered ?p (call_args [NumI 0]) n (entered ?p a n c)) ?M" for a
    using calls[of "call_args [NumI 0]"] by (simp add: entered_def)
  note inner = level_there_again[OF n(1) assms(5)] get_by_path_added[OF assms(5) n(1) m]
  have outer: "\<exists>N. \<forall>k\<ge>N. invoke E k ?p (call_args [NumI w]) c
      = Err (LevelDoesNotExist ?p, entered ?p (call_args [NumI w]) (ns c) c)" if w: "w \<noteq> 0" for w
  proof -
    let ?c1 = "entered ?p (call_args [NumI w]) n c"
    have "get_by_path (ns ?c1) ?p = Ok (Method flags ?code)" "add_level (ns ?c1) ?p MethodLocals = Ok ((), n)"
      using inner by simp_all
    note base = base_call[OF E assms(10-12) this n(2) inner_calls]
    obtain a where a: "call_result r = value_res a" "(\<exists>v. a = Ok v) \<or> (\<exists>e. a = Err e \<and> e \<noteq> WrongParser)"
      by (rule call_result_value[OF base(2)])
    from base(1) obtain N where N: "invoke E k ?p (call_args [NumI 0]) ?c1
        = call_outcome (value_res a) (entered ?p (call_args [NumI w]) (ns c) c)" if "N \<le> k" for k
      by (auto simp: a(1) entered_def)
    have "invoke E k ?p (call_args [NumI w]) c = Err (LevelDoesNotExist ?p, entered ?p (call_args [NumI w]) (ns c) c)"
      if k: "N + 4 \<le> k" for k
    proof -
      from k obtain j where j: "k = Suc (Suc (Suc j))" "0 < j" "N \<le> j"
        by (intro that[of "k - 3"]) auto
      show ?thesis
        unfolding j(1) by (rule recursive_outer[OF E c(1) assms(5-9,11) n(1) w j(2) N[OF j(3), unfolded invoke_def] a(2)])
    qed
    then show ?thesis by blast
  qed
  with base_call(1)[OF E assms(10-12) m n calls] show ?thesis by (simp add: entered_def)
qed

definition rec_context :: aml_context where
  "rec_context = blank_context\<lparr>ns :=
     ns_with (Method sum_flags (Aml (encode_block (recursive_program [seg_A] [Return (Lit 7)]))))\<rparr>"

theorem recursive_call_fails_witness:
  "(\<exists>N. \<forall>n\<ge>N. invoke std_env n (abs_path [seg_A]) (call_args [NumI 0]) rec_context = Ok (Integer 7, rec_context))
   \<and> (\<exists>N. \<forall>n\<ge>N. invoke std_env n (abs_path [seg_A]) (call_args [NumI 1]) rec_context
        = Err (LevelDoesNotExist (abs_path [seg_A]),
            rec_context\<lparr>method_ctx := Some (method_context_new (call_args [NumI 1])), current_scope := abs_path [seg_A]\<rparr>))"
proof -
  let ?q = "[Return (Lit 7)]"
  have "exec_block Map.empty ?q (first_frame (padded [NumI 0])) (Returned (NumI 7)) (first_frame (padded [NumI 0]))" by simp
  moreover have "block_ok Map.empty ?q" "length (encode_block (recursive_program ([] @ [seg_A]) ?q)) < 2 ^ 28"
    by (simp_all add: block_ok_def recursive_program_def encode_pkg_def encode_pkg_length_def pkg_size_def
        encode_integer_def seg_A_def)
  moreover have "has_library rec_context []"
    by (simp add: has_library_def rec_context_def blank_context_def root_name_def ns_with_wf)
  moreover have "list_all valid_seg ([] @ [seg_A])" by (simp add: seg_A_def is_lead_name_char_def is_name_char_def)
  moreover have "level_at (ns rec_context) ([] @ [seg_A]) = None"
    "get_by_path (ns rec_context) (abs_path ([] @ [seg_A]))
       = Ok (Method sum_flags (Aml (encode_block (recursive_program ([] @ [seg_A]) ?q))))"
    by (simp_all add: rec_context_def)
  ultimately show ?thesis
    using recursive_call_fails[OF env_bf.bit_field_crate_axioms, of "[]" rec_context "[]" seg_A sum_flags ?q "Returned (NumI 7)"]
      sum_arity by simp
qed

end
