(* ===== verification/Resource.thy ===== *)
theory Resource
  imports Aml_Value
begin

section \<open>Resource descriptors\<close>

text \<open>
  \<open>resource.rs\<close>: the resources a device reports, decoded from the bytes of a resource template.
  Indexing and slicing out of range panic, as do the descriptors the sources leave
  unimplemented.
\<close>

datatype interrupt_trigger = EdgeTrigger | LevelTrigger

datatype interrupt_polarity = ActiveHigh | ActiveLow

datatype address_space_resource_type = MemoryRangeType | IORangeType | BusNumberRangeType

datatype address_space_decode_type = Additive | Subtractive

record address_space_descriptor =
  resource_type :: address_space_resource_type
  is_maximum_address_fixed :: bool
  is_minimum_address_fixed :: bool
  decode_type :: address_space_decode_type
  granularity :: u64
  address_range :: "u64 \<times> u64"
  translation_offset :: u64
  as_length :: u64

datatype memory_range_descriptor = FixedLocation bool u32 u32 \<comment> \<open>writable, base address, length\<close>

record irq_descriptor =
  is_consumer :: bool
  trigger :: interrupt_trigger
  polarity :: interrupt_polarity
  is_shared :: bool
  is_wake_capable :: bool
  irq :: u32

datatype dma_supported_speed = CompatibilityMode | TypeA | TypeB | TypeF

datatype dma_transfer_type_preference = Only8Bit | Both8And16Bit | Only16Bit

record dma_descriptor =
  channel_mask :: u8
  supported_speeds :: dma_supported_speed
  is_bus_master :: bool
  transfer_type_preference :: dma_transfer_type_preference

record io_port_descriptor =
  decodes_full_address :: bool
  memory_range :: "u16 \<times> u16"
  base_alignment :: u8
  range_length :: u8

datatype resource =
    Irq irq_descriptor
  | AddressSpace address_space_descriptor
  | MemoryRange memory_range_descriptor
  | IOPort io_port_descriptor
  | Dma dma_descriptor

subsection \<open>The descriptors\<close>

text \<open>A slice \<open>bytes[a..b]\<close>, an index \<open>bytes[i]\<close> and \<open>split_at\<close>.\<close>

definition slice :: "bytes \<Rightarrow> nat \<Rightarrow> nat \<Rightarrow> (bytes, 'e) res" where
  "slice bs a b = (if a \<le> b \<and> b \<le> length bs then Ok (take (b - a) (drop a bs)) else Panic)"

definition byte_at :: "bytes \<Rightarrow> nat \<Rightarrow> (u8, 'e) res" where
  "byte_at bs i = (if i < length bs then Ok (bs ! i) else Panic)"

definition split_at :: "bytes \<Rightarrow> nat \<Rightarrow> (bytes \<times> bytes, 'e) res" where
  "split_at bs n = (if n \<le> length bs then Ok (take n bs, drop n bs) else Panic)"

definition slice_u16 :: "'z crates_scheme \<Rightarrow> bytes \<Rightarrow> nat \<Rightarrow> (u16, 'e) res" where
  "slice_u16 K bs a = and_then (slice bs a (a + 2)) (\<lambda>s. unwrap_option (le_read_u16 K s))"

definition slice_u32 :: "'z crates_scheme \<Rightarrow> bytes \<Rightarrow> nat \<Rightarrow> (u32, 'e) res" where
  "slice_u32 K bs a = and_then (slice bs a (a + 4)) (\<lambda>s. unwrap_option (le_read_u32 K s))"

definition fixed_memory_descriptor :: "'z crates_scheme \<Rightarrow> bytes \<Rightarrow> (resource, aml_error) res" where
  "fixed_memory_descriptor K bs =
     (if length bs < 12 then Err ResourceDescriptorTooShort
      else if length bs > 12 then Err ResourceDescriptorTooLong
      else
        and_then (byte_at bs 3) (\<lambda>information.
        and_then (slice_u32 K bs 4) (\<lambda>base_address.
        and_then (slice_u32 K bs 8) (\<lambda>range_length.
          Ok (MemoryRange (FixedLocation (get_bit_u8 K information 0) base_address range_length))))))"

text \<open>The \<open>i\<close>-th of the chunks of \<open>size\<close> bytes after the first six bytes.\<close>

definition address_field :: "'z crates_scheme \<Rightarrow> bytes \<Rightarrow> nat \<Rightarrow> nat \<Rightarrow> (u64, 'e) res" where
  "address_field K bs width i =
     (if 6 + width * Suc i \<le> length bs
      then unwrap_option (le_read_uint K (take width (drop (6 + width * i) bs)) width)
      else Panic)"

definition address_space_type :: "u8 \<Rightarrow> (address_space_resource_type, aml_error) res" where
  "address_space_type b =
     (if b = 0 then Ok MemoryRangeType
      else if b = 1 then Ok IORangeType
      else if b = 2 then Ok BusNumberRangeType
      else if b \<le> 191 then Err ReservedResourceType
      else Panic)"

definition address_space_of :: "'z crates_scheme \<Rightarrow> nat \<Rightarrow> bytes \<Rightarrow> (resource, aml_error) res" where
  "address_space_of K width bs =
     (if length bs < 6 + width * 5 then Err ResourceDescriptorTooShort
      else
        and_then (and_then (byte_at bs 3) address_space_type) (\<lambda>typ.
        and_then (byte_at bs 4) (\<lambda>general_flags.
        and_then (address_field K bs width 0) (\<lambda>gran.
        and_then (address_field K bs width 1) (\<lambda>address_range_min.
        and_then (address_field K bs width 2) (\<lambda>address_range_max.
        and_then (address_field K bs width 3) (\<lambda>offset.
        and_then (address_field K bs width 4) (\<lambda>len.
          Ok (AddressSpace
               \<lparr>resource_type = typ,
                is_maximum_address_fixed = get_bit_u8 K general_flags 3,
                is_minimum_address_fixed = get_bit_u8 K general_flags 2,
                decode_type = (if get_bit_u8 K general_flags 1 then Subtractive else Additive),
                granularity = gran,
                address_range = (address_range_min, address_range_max),
                translation_offset = offset,
                as_length = len\<rparr>)))))))))"

definition irq_format_descriptor :: "'z crates_scheme \<Rightarrow> bytes \<Rightarrow> (resource, aml_error) res" where
  "irq_format_descriptor K bs =
     (if length bs \<le> 2 then Err ResourceDescriptorTooShort
      else if length bs = 3 then
        and_then (slice_u16 K bs 1) (\<lambda>n.
          Ok (Irq \<lparr>is_consumer = False, trigger = EdgeTrigger, polarity = ActiveHigh,
                   is_shared = False, is_wake_capable = False, irq = ucast n\<rparr>))
      else if length bs = 4 then
        and_then (slice_u16 K bs 1) (\<lambda>n.
        and_then (byte_at bs 3) (\<lambda>information.
          Ok (Irq \<lparr>is_consumer = False,
                   trigger = (if get_bit_u8 K information 0 then EdgeTrigger else LevelTrigger),
                   polarity = (if get_bit_u8 K information 3 then ActiveLow else ActiveHigh),
                   is_shared = get_bit_u8 K information 4,
                   is_wake_capable = get_bit_u8 K information 5,
                   irq = ucast n\<rparr>)))
      else Err ResourceDescriptorTooLong)"

definition dma_speed :: "u8 \<Rightarrow> (dma_supported_speed, 'e) res" where
  "dma_speed b =
     (if b = 0 then Ok CompatibilityMode
      else if b = 1 then Ok TypeA
      else if b = 2 then Ok TypeB
      else if b = 3 then Ok TypeF
      else Panic)"

definition dma_preference :: "u8 \<Rightarrow> (dma_transfer_type_preference, 'e) res" where
  "dma_preference b =
     (if b = 0 then Ok Only8Bit
      else if b = 1 then Ok Both8And16Bit
      else if b = 2 then Ok Only16Bit
      else Panic)"

definition dma_format_descriptor :: "'z crates_scheme \<Rightarrow> bytes \<Rightarrow> (resource, aml_error) res" where
  "dma_format_descriptor K bs =
     (if length bs < 3 then Err ResourceDescriptorTooShort
      else if length bs > 3 then Err ResourceDescriptorTooLong
      else
        and_then (byte_at bs 1) (\<lambda>mask.
        and_then (byte_at bs 2) (\<lambda>options.
        and_then (dma_speed (get_bits_u8 K options 5 7)) (\<lambda>speeds.
        and_then (dma_preference (get_bits_u8 K options 0 2)) (\<lambda>preference.
          Ok (Dma \<lparr>channel_mask = mask, supported_speeds = speeds,
                   is_bus_master = get_bit_u8 K options 2,
                   transfer_type_preference = preference\<rparr>))))))"

definition io_port_descriptor_of :: "'z crates_scheme \<Rightarrow> bytes \<Rightarrow> (resource, aml_error) res" where
  "io_port_descriptor_of K bs =
     (if length bs < 8 then Err ResourceDescriptorTooShort
      else if length bs > 8 then Err ResourceDescriptorTooLong
      else
        and_then (byte_at bs 1) (\<lambda>information.
        and_then (slice_u16 K bs 2) (\<lambda>memory_range_min.
        and_then (slice_u16 K bs 4) (\<lambda>memory_range_max.
        and_then (byte_at bs 6) (\<lambda>alignment.
        and_then (byte_at bs 7) (\<lambda>len.
          Ok (IOPort \<lparr>decodes_full_address = get_bit_u8 K information 0,
                      memory_range = (memory_range_min, memory_range_max),
                      base_alignment = alignment, range_length = len\<rparr>)))))))"

definition extended_interrupt_descriptor :: "'z crates_scheme \<Rightarrow> bytes \<Rightarrow> (resource, aml_error) res" where
  "extended_interrupt_descriptor K bs =
     (if length bs < 9 then Err ResourceDescriptorTooShort
      else
        and_then (byte_at bs 4) (\<lambda>number_of_interrupts.
          if number_of_interrupts \<noteq> 1 then Panic
          else
            and_then (slice_u32 K bs 5) (\<lambda>n.
            and_then (byte_at bs 3) (\<lambda>flags.
              Ok (Irq \<lparr>is_consumer = get_bit_u8 K flags 0,
                       trigger = (if get_bit_u8 K flags 1 then EdgeTrigger else LevelTrigger),
                       polarity = (if get_bit_u8 K flags 2 then ActiveLow else ActiveHigh),
                       is_shared = get_bit_u8 K flags 3,
                       is_wake_capable = get_bit_u8 K flags 4,
                       irq = n\<rparr>)))))"

subsection \<open>The choice of a descriptor and the list\<close>

definition large_descriptor :: "'z crates_scheme \<Rightarrow> u8 \<Rightarrow> bytes \<Rightarrow> (resource, aml_error) res" where
  "large_descriptor K descriptor_type bs =
     (if descriptor_type = 0x06 then fixed_memory_descriptor K bs
      else if descriptor_type = 0x07 then address_space_of K 4 bs
      else if descriptor_type = 0x08 then address_space_of K 2 bs
      else if descriptor_type = 0x09 then extended_interrupt_descriptor K bs
      else if descriptor_type = 0x0a then address_space_of K 8 bs
      else if 0x01 \<le> descriptor_type \<and> descriptor_type \<le> 0x12 then Panic
      else if descriptor_type \<le> 0x7f then Err ReservedResourceType
      else Panic)"

text \<open>\<open>None\<close> stands for the end tag.\<close>

definition small_descriptor :: "'z crates_scheme \<Rightarrow> u8 \<Rightarrow> bytes \<Rightarrow> (resource option, aml_error) res" where
  "small_descriptor K descriptor_type bs =
     (if descriptor_type \<le> 0x03 then Err ReservedResourceType
      else if descriptor_type = 0x04 then and_then (irq_format_descriptor K bs) (\<lambda>d. Ok (Some d))
      else if descriptor_type = 0x05 then and_then (dma_format_descriptor K bs) (\<lambda>d. Ok (Some d))
      else if descriptor_type = 0x08 then and_then (io_port_descriptor_of K bs) (\<lambda>d. Ok (Some d))
      else if 0x0B \<le> descriptor_type \<and> descriptor_type \<le> 0x0D then Err ReservedResourceType
      else if descriptor_type = 0x0F then Ok None
      else Panic)"

definition resource_descriptor :: "'z crates_scheme \<Rightarrow> bytes \<Rightarrow> (resource option \<times> bytes, aml_error) res" where
  "resource_descriptor K bs =
     and_then (byte_at bs 0) (\<lambda>b0.
       if get_bit_u8 K b0 7 then
         and_then (slice_u16 K bs 1) (\<lambda>len.
         and_then (split_at bs (unat len + 3)) (\<lambda>(descriptor_bytes, remaining_bytes).
         and_then (large_descriptor K (get_bits_u8 K b0 0 7) descriptor_bytes) (\<lambda>descriptor.
           Ok (Some descriptor, remaining_bytes))))
       else
         and_then (split_at bs (unat (get_bits_u8 K b0 0 3) + 1)) (\<lambda>(descriptor_bytes, remaining_bytes).
         and_then (small_descriptor K (get_bits_u8 K b0 3 7) descriptor_bytes) (\<lambda>descriptor.
           case descriptor of
             Some d \<Rightarrow> Ok (Some d, remaining_bytes)
           | None \<Rightarrow> Ok (None, []))))"

lemma split_at_shorter:
  "split_at bs (n + Suc k) = Ok (ds, rest) \<Longrightarrow> length rest < length bs"
  by (auto simp: split_at_def split: if_splits)

lemma resource_descriptor_shorter:
  assumes "resource_descriptor K bs = Ok (Some d, rest)"
  shows "length rest < length bs"
  using assms split_at_shorter[of bs _ 2] split_at_shorter[of bs _ 0]
  by (auto simp: resource_descriptor_def res_elims split: if_splits option.split_asm)

function resource_loop :: "'z crates_scheme \<Rightarrow> bytes \<Rightarrow> resource list \<Rightarrow> (resource list, aml_error) res" where
  "resource_loop K bs descriptors =
     (if length bs > 0 then
        and_then (resource_descriptor K bs) (\<lambda>(descriptor, remaining_bytes).
          case descriptor of
            Some d \<Rightarrow> resource_loop K remaining_bytes (descriptors @ [d])
          | None \<Rightarrow> Ok descriptors)
      else Ok descriptors)"
  by pat_completeness auto
termination
  by (relation "measure (\<lambda>(_, bs, _). length bs)") (auto dest: resource_descriptor_shorter)

declare resource_loop.simps [simp del]

definition resource_descriptor_list :: "'z crates_scheme \<Rightarrow> aml_value \<Rightarrow> resource list act" where
  "resource_descriptor_list K descriptor =
     (case descriptor of
        Buffer r \<Rightarrow> with_lock r (\<lambda>bs. pure_res (resource_loop K bs []))
      | _ \<Rightarrow> fail (IncompatibleValueConversion (type_of descriptor) BufferType))"

end
