(* ===== verification/Unit_Tests.thy ===== *)
theory Unit_Tests
  imports Method_Correct Resource
begin

section \<open>The unit tests of the sources\<close>

text \<open>
  The tests in the modules \<open>test\<close> and \<open>tests\<close> of the crate \<open>aml\<close>, with the helpers of \<open>test_utils.rs\<close> they use,
  translated and run on the model. A test is true if none of its checks fails. They tie the definitions to the sources from
  another side than their text: what the authors expect of the code holds of the model, errors and the
  bytes that are left over included. The crates are the reference crates of \<open>std_env\<close>; the handler is \<open>TestHandler\<close>, which
  panics on every call.
\<close>

subsection \<open>Helpers\<close>

fun test_handler :: "io_event \<Rightarrow> bool" where
  "test_handler (MemRead _ _) = False"
| "test_handler (MemWrite _ _ _) = False"
| "test_handler (IoRead _ _) = False"
| "test_handler (IoWrite _ _ _) = False"
| "test_handler (PciRead _ _ _ _ _ _) = False"
| "test_handler (PciWrite _ _ _ _ _ _ _) = False"
| "test_handler (FatalEvent _ _ _) = False"

definition test_env :: aml_env where
  "test_env = std_env\<lparr>h_returns := \<lambda>_. test_handler\<rparr>"

interpretation test_bf: bit_field_crate test_env
  by unfold_locales
    (simp_all add: test_env_def env_bf.get_bit_u8 env_bf.get_bits_u8 env_bf.set_bit_u8 env_bf.set_bits_u8 env_bf.get_bit_u64
      env_bf.get_bits_u64 env_bf.get_bits_u64_range env_bf.set_bits_u64 env_bf.set_bits_u64_large)

interpretation test_bo: byteorder_crate test_env
  by unfold_locales
    (simp_all add: test_env_def env_bo.le_read_u16 env_bo.le_read_u16_short env_bo.le_read_u32
      env_bo.le_read_u32_short env_bo.le_read_uint env_bo.le_read_uint_short)

text \<open>
  \<open>crudely_cmp_values\<close> locks the buffers it compares, and a package is compared as far as the shorter of the
  two goes, because the elements are zipped.
\<close>

function (sequential) crudely_cmp_values :: "aml_value \<Rightarrow> aml_value \<Rightarrow> bool act"
  and crudely_cmp_zipped :: "aml_value list \<Rightarrow> aml_value list \<Rightarrow> bool act" where
  "crudely_cmp_values (Boolean a) b = ret (case b of Boolean b \<Rightarrow> a = b | _ \<Rightarrow> False)"
| "crudely_cmp_values (Integer a) b = ret (case b of Integer b \<Rightarrow> a = b | _ \<Rightarrow> False)"
| "crudely_cmp_values (String a) b = ret (case b of String b \<Rightarrow> a = b | _ \<Rightarrow> False)"
| "crudely_cmp_values (OpRegion region offset len parent_device) b =
     ret (case b of
            OpRegion b_region b_offset b_len b_parent_device \<Rightarrow>
              region = b_region \<and> offset = b_offset \<and> len = b_len \<and> parent_device = b_parent_device
          | _ \<Rightarrow> False)"
| "crudely_cmp_values (Field region flags offset len) b =
     ret (case b of
            Field b_region b_flags b_offset b_len \<Rightarrow>
              region = b_region \<and> flags = b_flags \<and> offset = b_offset \<and> len = b_len
          | _ \<Rightarrow> False)"
| "crudely_cmp_values Device b = ret (case b of Device \<Rightarrow> True | _ \<Rightarrow> False)"
| "crudely_cmp_values (Method flags code) b =
     (case b of
        Method b_flags b_code \<Rightarrow>
          if flags \<noteq> b_flags then ret False
          else (case (code, b_code) of
                  (Aml a, Aml b) \<Rightarrow> ret (a = b)
                | (Aml _, Native _) \<Rightarrow> ret False
                | (Native _, Aml _) \<Rightarrow> ret False
                | (Native _, Native _) \<Rightarrow> pure_res Panic)
      | _ \<Rightarrow> ret False)"
| "crudely_cmp_values (Buffer a) b =
     (case b of Buffer b \<Rightarrow> with_lock a (\<lambda>x. with_lock b (\<lambda>y. ret (x = y))) | _ \<Rightarrow> ret False)"
| "crudely_cmp_values (BufferField data offset len) b =
     ret (case b of
            BufferField b_data b_offset b_len \<Rightarrow>
              data = b_data \<and> offset = b_offset \<and> len = b_len
          | _ \<Rightarrow> False)"
| "crudely_cmp_values (Processor proc_id pblk_address pblk_len) b =
     ret (case b of
            Processor b_id b_pblk_address b_pblk_len \<Rightarrow>
              proc_id = b_id \<and> pblk_address = b_pblk_address \<and> pblk_len = b_pblk_len
          | _ \<Rightarrow> False)"
| "crudely_cmp_values (Mutex level) b = ret (case b of Mutex b_level \<Rightarrow> level = b_level | _ \<Rightarrow> False)"
| "crudely_cmp_values (Package a) b = (case b of Package b \<Rightarrow> crudely_cmp_zipped a b | _ \<Rightarrow> ret False)"
| "crudely_cmp_values (PowerResource system_level resource_order) b =
     ret (case b of
            PowerResource b_system_level b_resource_order \<Rightarrow>
              system_level = b_system_level \<and> resource_order = b_resource_order
          | _ \<Rightarrow> False)"
| "crudely_cmp_values ThermalZone b = ret (case b of ThermalZone \<Rightarrow> True | _ \<Rightarrow> False)"
| "crudely_cmp_zipped (a # as) (b # bs) =
     act_bind (crudely_cmp_values a b) (\<lambda>same. if same = False then ret False else crudely_cmp_zipped as bs)"
| "crudely_cmp_zipped _ _ = ret True"
  by pat_completeness auto
termination
  by (relation "measure (\<lambda>x. case x of Inl (a, _) \<Rightarrow> size a | Inr (as, _) \<Rightarrow> size_list size as)") auto

definition make_test_context :: "'z crates_scheme \<Rightarrow> (unit \<times> aml_context, aml_error \<times> aml_context) res" where
  "make_test_context K = aml_context_new K NoVerbosity"

text \<open>The macros: what the parser has returned, against the expected result and the expected rest of the stream.\<close>

fun check_err :: "(bytes \<times> aml_context \<times> 'r, bytes \<times> aml_context \<times> propagate) res \<Rightarrow> aml_error \<Rightarrow> bytes \<Rightarrow> bool" where
  "check_err (Err (remains, _, PErr err)) error expected = (err = error \<and> remains = expected)"
| "check_err _ error expected = False"

fun check_ok :: "(bytes \<times> aml_context \<times> 'r, bytes \<times> aml_context \<times> propagate) res \<Rightarrow> 'r \<Rightarrow> bytes \<Rightarrow> bool" where
  "check_ok (Ok (remains, _, result)) value expected = (remains = expected \<and> result = value)"
| "check_ok _ value expected = False"

fun check_ok_value :: "(bytes \<times> aml_context \<times> aml_value, bytes \<times> aml_context \<times> propagate) res
    \<Rightarrow> aml_value \<Rightarrow> bytes \<Rightarrow> bool" where
  "check_ok_value (Ok (remains, c, result)) value expected =
     (remains = expected \<and> (case crudely_cmp_values result value c of Ok (same, _) \<Rightarrow> same | _ \<Rightarrow> False))"
| "check_ok_value _ value expected = False"

text \<open>The body of a test with the test context, and with the value of an \<open>unwrap\<close>.\<close>

definition in_test_context :: "(aml_context \<Rightarrow> bool) \<Rightarrow> bool" where
  "in_test_context f = (case make_test_context test_env of Ok (_, c) \<Rightarrow> f c | _ \<Rightarrow> False)"

definition unwrapped :: "('a, 'e) res \<Rightarrow> ('a \<Rightarrow> bool) \<Rightarrow> bool" where
  "unwrapped r f = (case r of Ok x \<Rightarrow> f x | _ \<Rightarrow> False)"

abbreviation root_str :: "string \<Rightarrow> string" where
  "root_str s \<equiv> CHR 0x5C # s"

subsection \<open>Names\<close>

definition test_aml_name_from_str :: bool where
  "test_aml_name_from_str \<longleftrightarrow>
     from_str '''' = Err EmptyNamesAreInvalid
     \<and> from_str (root_str '''') = Ok root_name
     \<and> from_str (root_str ''_SB.PCI0'')
         = Ok [Root, Segment (NameSeg 0x5F 0x53 0x42 0x5F), Segment (NameSeg 0x50 0x43 0x49 0x30)]
     \<and> from_str (root_str ''_SB.^^^PCI0'')
         = Ok [Root, Segment (NameSeg 0x5F 0x53 0x42 0x5F), Prefix, Prefix, Prefix,
               Segment (NameSeg 0x50 0x43 0x49 0x30)]"

definition test_is_normal :: bool where
  "test_is_normal \<longleftrightarrow>
     is_normal root_name
     \<and> unwrapped (from_str (root_str ''_SB.PCI0.VGA'')) is_normal
     \<and> unwrapped (from_str (root_str ''_SB.^PCI0.VGA'')) (\<lambda>n. \<not> is_normal n)
     \<and> unwrapped (from_str (root_str ''^_SB.^^PCI0.VGA'')) (\<lambda>n. \<not> is_normal n)
     \<and> unwrapped (from_str ''_SB.^^PCI0.VGA'') (\<lambda>n. \<not> is_normal n)
     \<and> unwrapped (from_str ''_SB.PCI0.VGA'') is_normal"

definition normalizes_to :: "string \<Rightarrow> string \<Rightarrow> bool" where
  "normalizes_to s t = unwrapped (from_str s) (\<lambda>n. unwrapped (from_str t) (\<lambda>m. normalize_name n = Ok m))"

definition normalize_fails :: "string \<Rightarrow> bool" where
  "normalize_fails s = unwrapped (from_str s) (\<lambda>n. normalize_name n = Err (InvalidNormalizedName n))"

definition test_normalization :: bool where
  "test_normalization \<longleftrightarrow>
     normalizes_to (root_str ''_SB.PCI0'') (root_str ''_SB.PCI0'')
     \<and> normalizes_to (root_str ''_SB.^PCI0'') (root_str ''PCI0'')
     \<and> normalizes_to (root_str ''_SB.PCI0.^^FOO'') (root_str ''FOO'')
     \<and> normalizes_to ''_SB.PCI0.^FOO.BAR'' ''_SB.FOO.BAR''
     \<and> normalize_fails (root_str ''^_SB'')
     \<and> normalize_fails (root_str ''_SB.PCI0.FOO.^^^^BAR'')"

definition test_is_absolute :: bool where
  "test_is_absolute \<longleftrightarrow>
     is_absolute root_name
     \<and> unwrapped (from_str (root_str ''_SB.PCI0.VGA'')) is_absolute
     \<and> unwrapped (from_str (root_str ''_SB.^PCI0.VGA'')) is_absolute
     \<and> unwrapped (from_str (root_str ''^_SB.^^PCI0.VGA'')) is_absolute
     \<and> unwrapped (from_str ''_SB.^^PCI0.VGA'') (\<lambda>n. \<not> is_absolute n)
     \<and> unwrapped (from_str ''_SB.PCI0.VGA'') (\<lambda>n. \<not> is_absolute n)"

definition test_search_rules_apply :: bool where
  "test_search_rules_apply \<longleftrightarrow>
     \<not> search_rules_apply root_name
     \<and> unwrapped (from_str (root_str ''_SB'')) (\<lambda>n. \<not> search_rules_apply n)
     \<and> unwrapped (from_str ''^VGA'') (\<lambda>n. \<not> search_rules_apply n)
     \<and> unwrapped (from_str ''_SB.PCI0.VGA'') (\<lambda>n. \<not> search_rules_apply n)
     \<and> unwrapped (from_str ''VGA'') search_rules_apply
     \<and> unwrapped (from_str ''_SB'') search_rules_apply"

definition test_aml_name_parent :: bool where
  "test_aml_name_parent \<longleftrightarrow>
     unwrapped (from_str (root_str '''')) (\<lambda>n. parent n = Err RootHasNoParent)
     \<and> unwrapped (from_str (root_str ''_SB'')) (\<lambda>n. parent n = Ok root_name)
     \<and> unwrapped (from_str (root_str ''_SB.PCI0'')) (\<lambda>n.
         unwrapped (from_str (root_str ''_SB'')) (\<lambda>m. parent n = Ok m))
     \<and> unwrapped (from_str (root_str ''_SB.PCI0'')) (\<lambda>n. unwrapped (parent n) (\<lambda>m. parent m = Ok root_name))"

lemma name_tests:
  test_aml_name_from_str test_is_normal test_normalization test_is_absolute test_search_rules_apply
  test_aml_name_parent
  by code_simp+

subsection \<open>The namespace\<close>

text \<open>A level is added and that is \<open>Ok(())\<close>; a value is added and that \<open>is_ok\<close>; the test goes on with the namespace.\<close>

definition level_added :: "string \<Rightarrow> level_type \<Rightarrow> (namespace \<Rightarrow> bool) \<Rightarrow> namespace \<Rightarrow> bool" where
  "level_added path typ f n =
     unwrapped (from_str path) (\<lambda>path. case add_level n path typ of Ok (_, n') \<Rightarrow> f n' | _ \<Rightarrow> False)"

definition value_added :: "string \<Rightarrow> aml_value \<Rightarrow> (namespace \<Rightarrow> bool) \<Rightarrow> namespace \<Rightarrow> bool" where
  "value_added path value f n =
     unwrapped (from_str path) (\<lambda>path. case add_value n path value of Ok (_, n') \<Rightarrow> f n' | _ \<Rightarrow> False)"

definition value_found :: "string \<Rightarrow> aml_value \<Rightarrow> namespace \<Rightarrow> bool" where
  "value_found path value n =
     unwrapped (from_str path) (\<lambda>path.
     unwrapped (get_by_path n path) (\<lambda>found.
     unwrapped (crudely_cmp_values found value
         \<lparr>ns = n, method_ctx = None, current_scope = root_name, scope_indent = 0, verbosity = NoVerbosity,
          buffers = [], locked = [], io_log = []\<rparr>) fst))"

definition search_gives :: "string \<Rightarrow> string \<Rightarrow> string \<Rightarrow> namespace \<Rightarrow> bool" where
  "search_gives path scope expected n =
     unwrapped (from_str path) (\<lambda>path.
     unwrapped (from_str scope) (\<lambda>scope.
     unwrapped (search n path scope) (\<lambda>(name, _).
     unwrapped (from_str expected) (\<lambda>expected. name = expected))))"

definition test_namespace :: bool where
  "test_namespace =
     (level_added (root_str '''') ScopeLevel
     (level_added (root_str ''_SB'') ScopeLevel
     (level_added (root_str ''_SB'') ScopeLevel
     (level_added (root_str ''_SB.PCI0'') DeviceLevel
     (level_added (root_str ''FOO'') ScopeLevel
     (level_added (root_str ''FOO.BAR'') ScopeLevel
     (level_added (root_str ''FOO.BAR.BAZ'') ScopeLevel
     (level_added (root_str ''FOO.BAR.BAZ'') ScopeLevel
     (level_added (root_str ''FOO.BAR.BAZ.QUX'') ScopeLevel
     (value_added (root_str ''MOO'') (Boolean True)
     (value_added (root_str ''FOO.BAR.A'') (Integer 12345)
     (value_added (root_str ''FOO.BAR.B'') (Integer 6)
     (value_added (root_str ''FOO.BAR.C'') (String ''hello, world!'') (\<lambda>n.
        value_found (root_str ''MOO'') (Boolean True) n
        \<and> value_found (root_str ''FOO.BAR.A'') (Integer 12345) n
        \<and> value_found (root_str ''FOO.BAR.B'') (Integer 6) n
        \<and> value_found (root_str ''FOO.BAR.C'') (String ''hello, world!'') n
        \<and> search_gives ''MOO'' (root_str ''FOO.BAR.BAZ'') (root_str ''MOO'') n
        \<and> search_gives ''A'' (root_str ''FOO.BAR'') (root_str ''FOO.BAR.A'') n
        \<and> search_gives ''A'' (root_str ''FOO.BAR.BAZ.QUX'') (root_str ''FOO.BAR.A'') n)))))))))))))) namespace_new"

definition last_seg_is :: "string \<Rightarrow> string \<Rightarrow> namespace \<Rightarrow> bool" where
  "last_seg_is path seg n =
     unwrapped (from_str path) (\<lambda>path.
     unwrapped (get_level_for_path n path) (\<lambda>(_, last_seg).
     unwrapped (name_seg_from_str seg) (\<lambda>seg. last_seg = seg)))"

definition test_get_level_for_path :: bool where
  "test_get_level_for_path =
     (level_added (root_str ''FOO'') ScopeLevel
     (level_added (root_str ''FOO.BAR'') ScopeLevel
     (level_added (root_str ''FOO.BAR.BAZ'') ScopeLevel
     (level_added (root_str ''FOO.BAR.BAZ'') ScopeLevel
     (level_added (root_str ''FOO.BAR.BAZ.QUX'') ScopeLevel (\<lambda>n.
        last_seg_is (root_str ''FOO.BAR.BAZ'') ''BAZ'' n \<and> last_seg_is (root_str ''FOO'') ''FOO'' n)))))) namespace_new"

lemma namespace_tests: test_namespace test_get_level_for_path
  by code_simp+

subsection \<open>Parsers\<close>

definition test_take_n :: bool where
  "test_take_n = in_test_context (\<lambda>c.
     check_err (take_n 1 [] c) UnexpectedEndOfStream []
     \<and> check_err (take_n 2 [0xf5] c) UnexpectedEndOfStream [0xf5]
     \<and> check_ok (take_n 1 [0xff] c) [0xff] []
     \<and> check_ok (take_n 1 [0xff, 0xf8] c) [0xff] [0xf8]
     \<and> check_ok (take_n 2 [0xff, 0xf8] c) [0xff, 0xf8] [])"

definition test_take_ux :: bool where
  "test_take_ux = in_test_context (\<lambda>c.
     check_err (take_u16 [0x34] c) UnexpectedEndOfStream [0x34]
     \<and> check_ok (take_u16 [0x34, 0x12] c) 0x1234 []
     \<and> check_err (take_u32 [0x34, 0x12] c) UnexpectedEndOfStream [0x34, 0x12]
     \<and> check_ok (take_u32 [0x34, 0x12, 0xf4, 0xc3, 0x3e] c) 0xc3f41234 [0x3e]
     \<and> check_err (take_u64 [0x34] c) UnexpectedEndOfStream [0x34]
     \<and> check_ok (take_u64 [0x34, 0x12, 0x35, 0x76, 0xd4, 0x43, 0xa3, 0xb6, 0xff, 0x00] c) 0xb6a343d476351234 [0xff, 0x00])"

definition test_correct_pkglength :: "bytes \<Rightarrow> u32 \<Rightarrow> bytes \<Rightarrow> bool" where
  "test_correct_pkglength stream expected_raw_length expected_leftover = in_test_context (\<lambda>c.
     unwrapped (from_raw_length stream expected_raw_length) (\<lambda>expected.
       check_ok (pkg_length_parser test_env stream c) expected expected_leftover))"

definition test_raw_pkg_length :: bool where
  "test_raw_pkg_length = in_test_context (\<lambda>c.
     check_ok (raw_pkg_length test_env [0b01000101, 0x14] c) 325 []
     \<and> check_ok (raw_pkg_length test_env [0b01000111, 0x14, 0x46] c) 327 [0x46]
     \<and> check_ok (raw_pkg_length test_env [0b10000111, 0x14, 0x46] c) 287047 [])"

definition test_pkg_length :: bool where
  "test_pkg_length = in_test_context (\<lambda>c.
     check_err (pkg_length_parser test_env [] c) UnexpectedEndOfStream []
     \<and> test_correct_pkglength [0x00] 0 []
     \<and> test_correct_pkglength [0x05, 0xf5, 0x7f, 0x3e, 0x54, 0x03] 5 [0xf5, 0x7f, 0x3e, 0x54, 0x03]
     \<and> check_ok (feed (pkg_length_parser test_env) take_to_end_of_pkglength
           [0x05, 0x01, 0x02, 0x03, 0x04, 0xff, 0xff, 0xff] c) [0x01, 0x02, 0x03, 0x04] [0xff, 0xff, 0xff])"

definition not_enough_pkglength :: bool where
  "not_enough_pkglength = in_test_context (\<lambda>c.
     check_err (pkg_length_parser test_env [0b11000000, 0xff, 0x4f] c) UnexpectedEndOfStream [0b11000000, 0xff, 0x4f])"

definition not_enough_stream :: bool where
  "not_enough_stream = in_test_context (\<lambda>c.
     check_err (pkg_length_parser test_env [0x05, 0xf5] c) InvalidPkgLength [0x05, 0xf5])"

lemma in_test_context_new: "in_test_context f = f (new_context test_env NoVerbosity)"
  by (simp add: in_test_context_def make_test_context_def aml_context_new_eq)

lemma take_tests: test_take_n test_take_ux
  by (simp_all add: test_take_n_def test_take_ux_def in_test_context_new take_n_def take_u16_def take_u32_def take_u64_def
      len_u32_def)

lemma pkg_length_tests: test_raw_pkg_length test_pkg_length not_enough_pkglength not_enough_stream
  by (simp_all add: test_raw_pkg_length_def test_pkg_length_def test_correct_pkglength_def not_enough_pkglength_def
    not_enough_stream_def in_test_context_new raw_pkg_length_def pkg_length_parser_def take_parser_def
    test_bf.get_bits_u8 from_raw_length_def checked_sub_u32_def len_u32_def take_n_def feed_def
    take_to_end_of_pkglength_def unwrapped_def)


definition test_name_seg :: bool where
  "test_name_seg = in_test_context (\<lambda>c.
     check_ok (name_seg_parser [0x41, 0x46, 0x33, 0x5A] c) (NameSeg 0x41 0x46 0x33 0x5A) []
     \<and> check_ok (name_seg_parser [0x41, 0x46, 0x33, 0x5A, 0xff] c) (NameSeg 0x41 0x46 0x33 0x5A) [0xff]
     \<and> check_err (name_seg_parser [0xff, 0x45, 0x41, 0x37] c) (UnexpectedByte 0xff) [0xff, 0x45, 0x41, 0x37]
     \<and> check_err (name_seg_parser [] c) UnexpectedEndOfStream [])"

definition test_name_path :: bool where
  "test_name_path = in_test_context (\<lambda>c.
     check_err (name_path [] c) UnexpectedEndOfStream []
     \<and> check_ok (name_path [0x00] c) [] []
     \<and> check_ok (name_path [0x00, 0x00] c) [] [0x00]
     \<and> check_err (name_path [0x2e, 0x41] c) UnexpectedEndOfStream [0x2e, 0x41]
     \<and> check_ok (name_path [0x2e, 0x41, 0x42, 0x43, 0x44, 0x45, 0x5F, 0x46, 0x47] c)
         [Segment (NameSeg 0x41 0x42 0x43 0x44), Segment (NameSeg 0x45 0x5F 0x46 0x47)] [])"

definition test_prefix_path :: bool where
  "test_prefix_path = in_test_context (\<lambda>c.
     unwrapped (from_str ''^ABCD'') (\<lambda>name. check_ok (name_string [0x5E, 0x41, 0x42, 0x43, 0x44] c) name [])
     \<and> unwrapped (from_str ''^^^ABCD'') (\<lambda>name.
         check_ok (name_string [0x5E, 0x5E, 0x5E, 0x41, 0x42, 0x43, 0x44] c) name []))"

definition opcode_test_empty :: bool where
  "opcode_test_empty = in_test_context (\<lambda>c.
     check_err (opcode NULL_NAME [] c) UnexpectedEndOfStream []
     \<and> check_err (ext_opcode EXT_DEF_FIELD_OP [] c) UnexpectedEndOfStream [])"

definition simple_opcodes :: bool where
  "simple_opcodes = in_test_context (\<lambda>c.
     check_ok (opcode DEF_SCOPE_OP [DEF_SCOPE_OP] c) () []
     \<and> check_ok (opcode DEF_NAME_OP [DEF_NAME_OP, 0x31, 0x55, 0xf3] c) () [0x31, 0x55, 0xf3])"

definition extended_opcodes :: bool where
  "extended_opcodes = in_test_context (\<lambda>c.
     check_err (ext_opcode EXT_DEF_FIELD_OP [EXT_DEF_FIELD_OP, EXT_DEF_FIELD_OP] c) WrongParser
       [EXT_DEF_FIELD_OP, EXT_DEF_FIELD_OP]
     \<and> check_ok (ext_opcode EXT_DEF_FIELD_OP [EXT_OPCODE_PREFIX, EXT_DEF_FIELD_OP] c) () [])"

lemma opcode_tests: opcode_test_empty simple_opcodes extended_opcodes
  by (simp_all add: opcode_test_empty_def simple_opcodes_def extended_opcodes_def in_test_context_new opcode_def
      ext_opcode_def discard_result_def then_parser_def)

lemmas name_object_simps = name_seg_parser_def consume_def is_lead_name_char_def is_name_char_def is_digit_char_def
  name_path_def null_name_def dual_name_path_def multi_name_path_def map_parser_def then_parser_def opcode_def take_parser_def

lemma name_object_tests: test_name_seg test_name_path
  by (simp_all add: test_name_seg_def test_name_path_def in_test_context_new name_object_simps)

lemma prefix_path_test: test_prefix_path
proof -
  let ?s = "NameSeg 0x41 0x42 0x43 0x44"
  have "from_str ''^ABCD'' = Ok [Prefix, Segment ?s]" "from_str ''^^^ABCD'' = Ok [Prefix, Prefix, Prefix, Segment ?s]"
    by code_simp+
  moreover have "valid_seg ?s" by (simp add: is_lead_name_char_def is_name_char_def)
  ultimately show ?thesis
    using name_string_encode[of "[?s]" "replicate 1 Prefix" 1 "new_context test_env NoVerbosity" "[]"]
      name_string_encode[of "[?s]" "replicate 3 Prefix" 3 "new_context test_env NoVerbosity" "[]"]
    by (simp add: test_prefix_path_def in_test_context_new unwrapped_def numeral_3_eq_3)
qed

subsection \<open>Values and resources\<close>

definition test_computational_data :: bool where
  "test_computational_data = in_test_context (\<lambda>c.
     let parse = \<lambda>stream. computational_data test_env (interp test_env 1) stream c in
     check_ok_value (parse [0x00, 0x34, 0x12]) (Integer 0) [0x34, 0x12]
     \<and> check_ok_value (parse [0x01, 0x18, 0xf3]) (Integer 1) [0x18, 0xf3]
     \<and> check_ok_value (parse [0xff, 0x98, 0xc3]) (Integer (- 1)) [0x98, 0xc3]
     \<and> check_ok_value (parse [0x5b, 0x30]) (Integer aml_interpreter_revision) []
     \<and> check_ok_value (parse [0x0a, 0xf3, 0x35]) (Integer 0xf3) [0x35]
     \<and> check_ok_value (parse [0x0b, 0xf3, 0x35]) (Integer 0x35f3) []
     \<and> check_ok_value (parse [0x0c, 0xf3, 0x35, 0x12, 0x65, 0xff, 0x00]) (Integer 0x651235f3) [0xff, 0x00]
     \<and> check_ok_value (parse [0x0e, 0xf3, 0x35, 0x12, 0x65, 0xff, 0x00, 0x67, 0xde, 0x28])
         (Integer 0xde6700ff651235f3) [0x28]
     \<and> check_ok_value (parse [0x0d, 0x41, 0x42, 0x43, 0x44, 0x00, 0xff, 0xf5]) (String ''ABCD'') [0xff, 0xf5])"

definition test_object_cmp :: bool where
  "test_object_cmp = in_test_context (\<lambda>c.
     unwrapped (value_cmp test_env 1 (Integer 76) (Integer 89) c) (\<lambda>(r, _). r = Less)
     \<and> unwrapped (value_cmp test_env 1 (Integer 11) (Integer 11) c) (\<lambda>(r, _). r = Equal)
     \<and> unwrapped (value_cmp test_env 1 (Integer 8362836690) (Integer 1) c) (\<lambda>(r, _). r = Greater))"

lemma value_tests: test_computational_data test_object_cmp
proof -
  have abcd: "string_of_bytes [0x41, 0x42, 0x43, 0x44] = ''ABCD''" by code_simp
  show test_computational_data test_object_cmp
    by (simp_all add: test_computational_data_def test_object_cmp_def in_test_context_new unwrapped_def value_cmp_def
      act_bind_def cmp_ord_def computational_data_def comment_scope_def indent_in_def indent_out_def map_parser_def
      ext_opcode_def opcode_def discard_result_def then_parser_def const_parser_def take_parser_def take_u16_def
      take_u32_def take_u64_def string_parser_def Let_def zero_def one_def ones_def abcd del: interp.simps)
qed


text \<open>The resources of a buffer with the given bytes.\<close>

definition resources_are :: "bytes \<Rightarrow> resource list \<Rightarrow> bool" where
  "resources_are bs expected =
     unwrapped (resource_descriptor_list test_env (Buffer 0) (blank_context\<lparr>buffers := [bs]\<rparr>)) (\<lambda>(resources, _).
       resources = expected)"

definition test_parses_keyboard_crs :: bool where
  "test_parses_keyboard_crs =
     resources_are
       [0x47, 0x01, 0x60, 0x00, 0x60, 0x00, 0x01, 0x01,
        0x47, 0x01, 0x64, 0x00, 0x64, 0x00, 0x01, 0x01,
        0x22, 0x02, 0x00,
        0x79, 0x00]
       [IOPort \<lparr>decodes_full_address = True, memory_range = (0x60, 0x60), base_alignment = 1, range_length = 1\<rparr>,
        IOPort \<lparr>decodes_full_address = True, memory_range = (0x64, 0x64), base_alignment = 1, range_length = 1\<rparr>,
        Irq \<lparr>is_consumer = False, trigger = EdgeTrigger, polarity = ActiveHigh, is_shared = False,
             is_wake_capable = False, irq = push_bit 1 1\<rparr>]"

definition test_pci_crs :: bool where
  "test_pci_crs =
     resources_are
       [0x88, 0x0D, 0x00, 0x02, 0x0C, 0x00, 0x00, 0x00, 0x00, 0x00, 0xFF, 0x00, 0x00, 0x00, 0x00, 0x01,
        0x47, 0x01, 0xF8, 0x0C, 0xF8, 0x0C, 0x01, 0x08,
        0x88, 0x0D, 0x00, 0x01, 0x0C, 0x03, 0x00, 0x00, 0x00, 0x00, 0xF7, 0x0C, 0x00, 0x00, 0xF8, 0x0C,
        0x88, 0x0D, 0x00, 0x01, 0x0C, 0x03, 0x00, 0x00, 0x00, 0x0D, 0xFF, 0xFF, 0x00, 0x00, 0x00, 0xF3,
        0x87, 0x17, 0x00, 0x00, 0x0C, 0x03, 0x00, 0x00, 0x00, 0x00, 0x00, 0x00, 0x0A, 0x00, 0xFF, 0xFF, 0x0B,
        0x00, 0x00, 0x00, 0x00, 0x00, 0x00, 0x00, 0x02, 0x00,
        0x87, 0x17, 0x00, 0x00, 0x0C, 0x01, 0x00, 0x00, 0x00, 0x00, 0x00, 0x00, 0x00, 0xE0, 0xFF, 0xFF, 0xBF,
        0xFE, 0x00, 0x00, 0x00, 0x00, 0x00, 0x00, 0xC0, 0x1E,
        0x79, 0x00]
       [AddressSpace \<lparr>resource_type = BusNumberRangeType, is_maximum_address_fixed = True,
          is_minimum_address_fixed = True, decode_type = Additive, granularity = 0, address_range = (0x00, 0xFF),
          translation_offset = 0, as_length = 0x100\<rparr>,
        IOPort \<lparr>decodes_full_address = True, memory_range = (0xCF8, 0xCF8), base_alignment = 1, range_length = 8\<rparr>,
        AddressSpace \<lparr>resource_type = IORangeType, is_maximum_address_fixed = True,
          is_minimum_address_fixed = True, decode_type = Additive, granularity = 0, address_range = (0x0000, 0x0CF7),
          translation_offset = 0, as_length = 0xCF8\<rparr>,
        AddressSpace \<lparr>resource_type = IORangeType, is_maximum_address_fixed = True,
          is_minimum_address_fixed = True, decode_type = Additive, granularity = 0, address_range = (0x0D00, 0xFFFF),
          translation_offset = 0, as_length = 0xF300\<rparr>,
        AddressSpace \<lparr>resource_type = MemoryRangeType, is_maximum_address_fixed = True,
          is_minimum_address_fixed = True, decode_type = Additive, granularity = 0, address_range = (0xA0000, 0xBFFFF),
          translation_offset = 0, as_length = 0x20000\<rparr>,
        AddressSpace \<lparr>resource_type = MemoryRangeType, is_maximum_address_fixed = True,
          is_minimum_address_fixed = True, decode_type = Additive, granularity = 0,
          address_range = (0xE0000000, 0xFEBFFFFF), translation_offset = 0, as_length = 0x1EC00000\<rparr>]"

definition test_fdc_crs :: bool where
  "test_fdc_crs =
     resources_are
       [0x47, 0x01, 0xF2, 0x03, 0xF2, 0x03, 0x00, 0x04,
        0x47, 0x01, 0xF7, 0x03, 0xF7, 0x03, 0x00, 0x01,
        0x22, 0x40, 0x00,
        0x2A, 0x04, 0x00,
        0x79, 0x00]
       [IOPort \<lparr>decodes_full_address = True, memory_range = (0x03F2, 0x03F2), base_alignment = 0, range_length = 4\<rparr>,
        IOPort \<lparr>decodes_full_address = True, memory_range = (0x03F7, 0x03F7), base_alignment = 0, range_length = 1\<rparr>,
        Irq \<lparr>is_consumer = False, trigger = EdgeTrigger, polarity = ActiveHigh, is_shared = False,
             is_wake_capable = False, irq = push_bit 6 1\<rparr>,
        Dma \<lparr>channel_mask = push_bit 2 1, supported_speeds = CompatibilityMode, is_bus_master = False,
             transfer_type_preference = Only8Bit\<rparr>]"


lemma resource_loop_step:
  "resource_descriptor K (b # bs) = Ok (Some d, rest) \<Longrightarrow> resource_loop K (b # bs) ds = resource_loop K rest (ds @ [d])"
  "resource_descriptor K (b # bs) = Ok (None, rest) \<Longrightarrow> resource_loop K (b # bs) ds = Ok ds"
  by (subst resource_loop.simps, simp)+

lemmas descriptor_simps = resource_descriptor_def byte_at_def slice_u16_def slice_u32_def slice_def split_at_def
  large_descriptor_def small_descriptor_def address_space_of_def address_space_type_def address_field_def
  irq_format_descriptor_def dma_format_descriptor_def dma_speed_def dma_preference_def io_port_descriptor_of_def
  test_bf.get_bit_u8 test_bf.get_bits_u8 test_bo.le_read_u16 test_bo.le_read_u32 test_bo.le_read_uint unwrap_option_def

lemma resource_tests: test_parses_keyboard_crs test_fdc_crs test_pci_crs
  by (simp_all add: test_parses_keyboard_crs_def test_fdc_crs_def test_pci_crs_def resources_are_def unwrapped_def
      resource_descriptor_list_def with_lock_def buffer_data_def blank_context_def reads_def unlock_def
      resource_loop_step descriptor_simps)

subsection \<open>All tests\<close>

definition tests_of_namespace :: "bool list" where
  "tests_of_namespace = [test_aml_name_from_str, test_is_normal, test_normalization, test_is_absolute,
     test_search_rules_apply, test_aml_name_parent, test_namespace, test_get_level_for_path]"

definition tests_of_parsers :: "bool list" where
  "tests_of_parsers = [test_take_n, test_take_ux, test_raw_pkg_length, test_pkg_length, not_enough_pkglength,
     not_enough_stream, test_name_seg, test_name_path, test_prefix_path, opcode_test_empty, simple_opcodes,
     extended_opcodes, test_computational_data]"

definition tests_of_values :: "bool list" where
  "tests_of_values = [test_object_cmp, test_parses_keyboard_crs, test_pci_crs, test_fdc_crs]"

text \<open>
  Every unit test of the crate \<open>aml\<close> passes on the model: names and the namespace with its search rules,
  the parsers of names, package lengths, opcodes and constants with the errors and the rest of the stream that the
  authors expect, the comparison of integers, and the resources of three real devices.
\<close>

lemma unit_tests_pass: "list_all id (tests_of_namespace @ tests_of_parsers @ tests_of_values)"
  by (simp add: tests_of_namespace_def tests_of_parsers_def tests_of_values_def name_tests namespace_tests take_tests
      pkg_length_tests name_object_tests prefix_path_test opcode_tests value_tests resource_tests)

text \<open>Values that the crude comparison can tell apart: no buffer and no native method inside, and no package.\<close>

fun crude_scalar :: "aml_value \<Rightarrow> bool" where
  "crude_scalar (Buffer _) = False"
| "crude_scalar (Package _) = False"
| "crude_scalar (Method _ (Native _)) = False"
| "crude_scalar _ = True"

text \<open>
  What the comparison of the tests decides. On values without buffers, packages and native methods it is
  equality. Packages are compared only as far as the shorter one goes, so that a package passes for any of its
  prefixes, the empty package for every package; two native methods make it panic, and a buffer compared with itself
  makes it wait forever for its own lock.
\<close>

lemma crude_comparison:
  shows "crude_scalar a \<Longrightarrow> crudely_cmp_values a b c = Ok (a = b, c)"
    and "crudely_cmp_values (Package []) (Package bs) c = Ok (True, c)"
    and "list_all crude_scalar as \<Longrightarrow> crudely_cmp_values (Package as) (Package (as @ bs)) c = Ok (True, c)"
    and "crudely_cmp_values (Method flags (Native f)) (Method flags (Native g)) c = Panic"
    and "r \<notin> set (locked c) \<Longrightarrow> crudely_cmp_values (Buffer r) (Buffer r) c = Deadlock"
proof -
  show scalar: "crude_scalar a \<Longrightarrow> crudely_cmp_values a b c = Ok (a = b, c)" for a b
    by (cases a rule: crude_scalar.cases; cases b; auto split: method_code.splits prod.splits)
  have zipped: "list_all crude_scalar as \<Longrightarrow> crudely_cmp_zipped as (as @ bs) c = Ok (True, c)" for as bs
    by (induction as) (simp_all add: act_bind_def scalar)
  show "crudely_cmp_values (Package []) (Package bs) c = Ok (True, c)" using zipped[of "[]" bs] by simp
  show "list_all crude_scalar as \<Longrightarrow> crudely_cmp_values (Package as) (Package (as @ bs)) c = Ok (True, c)"
    using zipped[of as bs] by simp
  show "crudely_cmp_values (Method flags (Native f)) (Method flags (Native g)) c = Panic" by (simp add: reads_def)
  show "r \<notin> set (locked c) \<Longrightarrow> crudely_cmp_values (Buffer r) (Buffer r) c = Deadlock" by (simp add: with_lock_def)
qed

end
