(* ===== verification/Aml_Tester.thy ===== *)
theory Aml_Tester
  imports Method_Correct
begin

section \<open>The tester of byte code\<close>

text \<open>
  \<open>aml_tester/src/main.rs\<close>: the tool compiles the \<open>.asl\<close> files of a directory that are newer than their \<open>.aml\<close> files and
  loads every \<open>.aml\<close> file into a new interpreter, counting the tables that load and those that fail. The directory is
  a state: its listing and its files. The compiler \<open>iasl\<close> is a parameter, the locale \<open>asl_compiler\<close> what is known of it.
  Arguments of the command line are arguments of the definition; of what is printed, the counts are
  the result. The listing is read once, before the files are compiled.
\<close>

subsection \<open>Names of files\<close>

text \<open>\<open>Path::extension\<close> and \<open>Path::with_extension\<close> of the standard library, on the bytes of a file name.\<close>

type_synonym file_name = bytes

definition rsplit_file_at_dot :: "file_name \<Rightarrow> file_name option \<times> file_name option" where
  "rsplit_file_at_dot file =
     (if file = [0x2E, 0x2E] then (Some file, None)
      else if 0x2E \<notin> set file then (None, Some file)
      else let after = rev (takeWhile (\<lambda>b. b \<noteq> 0x2E) (rev file));
               before = rev (tl (dropWhile (\<lambda>b. b \<noteq> 0x2E) (rev file)))
           in if before = [] then (Some file, None) else (Some before, Some after))"

definition file_extension :: "file_name \<Rightarrow> file_name option" where
  "file_extension file = (case rsplit_file_at_dot file of (Some _, Some after) \<Rightarrow> Some after | _ \<Rightarrow> None)"

definition file_stem :: "file_name \<Rightarrow> file_name" where
  "file_stem file =
     (case rsplit_file_at_dot file of (Some before, _) \<Rightarrow> before | (None, Some after) \<Rightarrow> after | _ \<Rightarrow> file)"

definition with_extension :: "file_name \<Rightarrow> file_name \<Rightarrow> file_name" where
  "with_extension file ext = file_stem file @ (if ext = [] then [] else 0x2E # ext)"

abbreviation ext_asl :: file_name where "ext_asl \<equiv> [0x61, 0x73, 0x6C]"
abbreviation ext_aml :: file_name where "ext_aml \<equiv> [0x61, 0x6D, 0x6C]"

subsection \<open>Directory and compiler\<close>

datatype io_error = IoError

record file_info =
  file_regular :: bool
  file_modified :: "nat option"
  file_contents :: "bytes option"

record directory =
  listing :: "file_name option list option"
  file_at :: "file_name \<Rightarrow> file_info option"

text \<open>\<open>iasl\<close>: whether it runs at all, and what it does with a file; \<open>None\<close> if it cannot be started.\<close>

record compiler =
  iasl_version :: "bool option"
  iasl_compile :: "file_name \<Rightarrow> directory \<Rightarrow> (bool \<times> directory) option"

definition read_dir :: "directory \<Rightarrow> (file_name option list, io_error) res" where
  "read_dir d = (case listing d of None \<Rightarrow> Err IoError | Some entries \<Rightarrow> Ok entries)"

definition with_ext :: "file_name \<Rightarrow> file_name option list \<Rightarrow> file_name list" where
  "with_ext ext entries = filter (\<lambda>name. file_extension name = Some ext) (List.map_filter id entries)"

definition is_file :: "directory \<Rightarrow> file_name \<Rightarrow> bool" where
  "is_file d name = (case file_at d name of None \<Rightarrow> False | Some f \<Rightarrow> file_regular f)"

definition last_modified :: "directory \<Rightarrow> file_name \<Rightarrow> (nat, io_error) res" where
  "last_modified d name = ok_or IoError (Option.bind (file_at d name) file_modified)"

subsection \<open>Compiling\<close>

definition up_to_date :: "directory \<Rightarrow> file_name \<Rightarrow> (bool, io_error) res" where
  "up_to_date d name =
     (let aml_path = with_extension name ext_aml in
      if is_file d aml_path then
        and_then (last_modified d name) (\<lambda>asl_last_modified.
        and_then (last_modified d aml_path) (\<lambda>aml_last_modified. Ok (asl_last_modified \<le> aml_last_modified)))
      else Ok False)"

definition inc_u32 :: "u32 \<Rightarrow> (u32, 'e) res" where
  "inc_u32 k = (if k = - 1 then Panic else Ok (k + 1))"

fun compile_loop :: "compiler \<Rightarrow> file_name list \<Rightarrow> u32 \<Rightarrow> u32 \<Rightarrow> directory \<Rightarrow> ((u32 \<times> u32) \<times> directory, io_error) res" where
  "compile_loop iasl [] passed failed d = Ok ((passed, failed), d)"
| "compile_loop iasl (name # names) passed failed d =
     and_then (up_to_date d name) (\<lambda>skip.
       if skip then compile_loop iasl names passed failed d
       else if \<not> utf8_valid name then Panic
       else case iasl_compile iasl name d of
              None \<Rightarrow> Err IoError
            | Some (success, d') \<Rightarrow>
                if success then and_then (inc_u32 passed) (\<lambda>passed. compile_loop iasl names passed failed d')
                else and_then (inc_u32 failed) (\<lambda>failed. compile_loop iasl names passed failed d'))"

definition compile_asl_files :: "compiler \<Rightarrow> directory \<Rightarrow> ((u32 \<times> u32) \<times> directory, io_error) res" where
  "compile_asl_files iasl d =
     and_then (read_dir d) (\<lambda>entries.
       let asl_files = with_ext ext_asl entries in
       if asl_files \<noteq> [] \<and> iasl_version iasl \<noteq> Some True then Panic
       else compile_loop iasl asl_files 0 0 d)"

subsection \<open>Testing\<close>

text \<open>The handler panics on every call.\<close>

fun tester_handler :: "io_event \<Rightarrow> bool" where
  "tester_handler (MemRead _ _) = False"
| "tester_handler (MemWrite _ _ _) = False"
| "tester_handler (IoRead _ _) = False"
| "tester_handler (IoWrite _ _ _) = False"
| "tester_handler (PciRead _ _ _ _ _ _) = False"
| "tester_handler (PciWrite _ _ _ _ _ _ _) = False"
| "tester_handler (FatalEvent _ _ _) = False"

definition tester_env :: "aml_env \<Rightarrow> aml_env" where
  "tester_env E = E\<lparr>h_returns := \<lambda>_. tester_handler\<rparr>"

definition aml_table_header_length :: nat where
  "aml_table_header_length = 36"

definition test_file :: "aml_env \<Rightarrow> nat \<Rightarrow> directory \<Rightarrow> file_name \<Rightarrow> (bool, io_error) res" where
  "test_file E n d name =
     (case Option.bind (file_at d name) file_contents of
        None \<Rightarrow> Panic
      | Some contents \<Rightarrow>
          if length contents < aml_table_header_length then Panic
          else and_then (unwrap (aml_context_new (tester_env E) NoVerbosity)) (\<lambda>(_, context).
                 case parse_table (tester_env E) n (drop aml_table_header_length contents) context of
                   Ok _ \<Rightarrow> Ok True
                 | Err _ \<Rightarrow> Ok False
                 | Panic \<Rightarrow> Panic
                 | Deadlock \<Rightarrow> Deadlock
                 | OutOfFuel \<Rightarrow> OutOfFuel))"

definition inc_i32 :: "int \<Rightarrow> (int, 'e) res" where
  "inc_i32 k = (if k < 2 ^ 31 - 1 then Ok (k + 1) else Panic)"

fun test_loop :: "aml_env \<Rightarrow> nat \<Rightarrow> directory \<Rightarrow> file_name list \<Rightarrow> int \<Rightarrow> int \<Rightarrow> (int \<times> int, io_error) res" where
  "test_loop E n d [] passed failed = Ok (passed, failed)"
| "test_loop E n d (name # names) passed failed =
     and_then (test_file E n d name) (\<lambda>ok.
       if ok then and_then (inc_i32 passed) (\<lambda>passed. test_loop E n d names passed failed)
       else and_then (inc_i32 failed) (\<lambda>failed. test_loop E n d names passed failed))"

definition aml_tester :: "aml_env \<Rightarrow> nat \<Rightarrow> compiler \<Rightarrow> bool \<Rightarrow> directory \<Rightarrow> ((int \<times> int) \<times> directory, io_error) res" where
  "aml_tester E n iasl no_compile d =
     and_then (if no_compile then Ok d else and_then (compile_asl_files iasl d) (\<lambda>(_, d'). Ok d')) (\<lambda>d.
     and_then (read_dir d) (\<lambda>entries.
     and_then (test_loop E n d (with_ext ext_aml entries) 0 0) (\<lambda>counts. Ok (counts, d))))"

subsection \<open>Extensions\<close>

lemma rsplit_with_dot:
  assumes "0x2E \<notin> set ext" "stem \<noteq> []" "stem @ 0x2E # ext \<noteq> [0x2E, 0x2E]"
  shows "rsplit_file_at_dot (stem @ 0x2E # ext) = (Some stem, Some ext)"
proof -
  have no_dot: "b \<noteq> 0x2E" if "b \<in> set (rev ext)" for b using assms(1) that by auto
  have "takeWhile (\<lambda>b. b \<noteq> 0x2E) (rev (stem @ 0x2E # ext)) = rev ext"
    "dropWhile (\<lambda>b. b \<noteq> 0x2E) (rev (stem @ 0x2E # ext)) = 0x2E # rev stem"
    using takeWhile_append2[of "rev ext" "\<lambda>b. b \<noteq> 0x2E" "0x2E # rev stem"]
      dropWhile_append2[of "rev ext" "\<lambda>b. b \<noteq> 0x2E" "0x2E # rev stem"] no_dot by simp_all
  then show ?thesis using assms(2,3) by (simp add: rsplit_file_at_dot_def Let_def)
qed

lemma asl_name:
  assumes "file_extension name = Some ext"
  shows "name = file_stem name @ 0x2E # ext \<and> file_stem name \<noteq> []"
proof -
  have dot: "0x2E \<in> set (rev name)" using assms by (auto simp: file_extension_def rsplit_file_at_dot_def split: if_splits)
  have "dropWhile (\<lambda>b. b \<noteq> 0x2E) (rev name) \<noteq> []" using dot by (simp add: dropWhile_eq_Nil_conv)
  then obtain r where r: "dropWhile (\<lambda>b. b \<noteq> 0x2E) (rev name) = 0x2E # r"
    using hd_dropWhile[of "\<lambda>b. b \<noteq> 0x2E" "rev name"] by (cases "dropWhile (\<lambda>b. b \<noteq> 0x2E) (rev name)") auto
  have "rev name = takeWhile (\<lambda>b. b \<noteq> 0x2E) (rev name) @ 0x2E # r"
    using takeWhile_dropWhile_id[of "\<lambda>b. b \<noteq> 0x2E" "rev name"] by (simp add: r)
  then have "name = rev r @ 0x2E # rev (takeWhile (\<lambda>b. b \<noteq> 0x2E) (rev name))" by (metis append.assoc append_Cons append_Nil rev.simps(2) rev_append rev_rev_ident)
  with assms r show ?thesis
    by (auto simp: file_extension_def file_stem_def rsplit_file_at_dot_def Let_def split: if_splits)
qed

lemma with_extension_aml:
  assumes "file_extension name = Some ext_asl"
  shows "with_extension name ext_aml = file_stem name @ 0x2E # ext_aml" "file_extension (with_extension name ext_aml) = Some ext_aml"
proof -
  show 1: "with_extension name ext_aml = file_stem name @ 0x2E # ext_aml" by (simp add: with_extension_def)
  from asl_name[OF assms] show "file_extension (with_extension name ext_aml) = Some ext_aml"
    unfolding 1 by (simp add: file_extension_def rsplit_with_dot)
qed

lemma aml_path_inject:
  assumes "file_extension a = Some ext_asl" "file_extension b = Some ext_asl" "with_extension a ext_aml = with_extension b ext_aml"
  shows "a = b"
  using assms asl_name[of a] asl_name[of b] by (metis append_same_eq with_extension_aml(1))

subsection \<open>What the tool does\<close>

lemma compile_loop_ConsE:
  assumes "compile_loop iasl (name # names) passed failed d = Ok r"
  obtains (Skip) "up_to_date d name = Ok True" "compile_loop iasl names passed failed d = Ok r"
    | (Run) ok d1 passed' failed' where "iasl_compile iasl name d = Some (ok, d1)"
        "compile_loop iasl names passed' failed' d1 = Ok r" "failed \<le> failed'" "\<not> ok \<Longrightarrow> failed < failed'"
proof -
  from assms obtain skip where "up_to_date d name = Ok skip" by (auto simp: and_then_eq_Ok)
  with assms handle_less_increment[of failed] that show thesis
    by (auto simp: and_then_eq_Ok inc_u32_def split: if_splits option.splits)
qed

lemma compile_loop_skips:
  "(\<And>name. name \<in> set names \<Longrightarrow> up_to_date d name = Ok True) \<Longrightarrow> compile_loop iasl names p f d = Ok ((p, f), d)"
  by (induction names) auto

text \<open>
  What is documented of \<open>iasl\<close>: the file it writes is the one that the \<open>DefinitionBlock\<close> of the source names, or the one with the
  name of the source and the extension \<open>.aml\<close> if the block names none. \<open>declared\<close> is the name in the block, from the
  contents of the source, and \<open>clock\<close> is the time at which the file system stamps what is written. When the compiler succeeds it has written that file;
  it changes no other \<open>.asl\<close> or \<open>.aml\<close> file, and no source appears or disappears unless the block names one.
\<close>

definition source_of :: "directory \<Rightarrow> file_name \<Rightarrow> bytes option" where
  "source_of d name = Option.bind (file_at d name) file_contents"

definition output_file :: "(bytes \<Rightarrow> file_name) \<Rightarrow> file_name \<Rightarrow> bytes \<Rightarrow> file_name" where
  "output_file declared name src = (if declared src = [] then with_extension name ext_aml else declared src)"

text \<open>
  Sources as those in \<open>src/tests\<close>: each can be read and is not from the future, and its block names no file or the one with the name of the
  source, which is where the tool looks for the byte code.
\<close>

definition sources_ok :: "(bytes \<Rightarrow> file_name) \<Rightarrow> (directory \<Rightarrow> nat) \<Rightarrow> file_name list \<Rightarrow> directory \<Rightarrow> bool" where
  "sources_ok declared clock names d \<longleftrightarrow> (\<forall>name\<in>set names. file_extension name = Some ext_asl
     \<and> (\<exists>t\<le>clock d. last_modified d name = Ok t)
     \<and> (\<exists>src. source_of d name = Some src \<and> output_file declared name src = with_extension name ext_aml))"

locale asl_compiler =
  fixes iasl :: compiler and declared :: "bytes \<Rightarrow> file_name" and clock :: "directory \<Rightarrow> nat"
  assumes writes_output: "iasl_compile iasl name d = Some (True, d') \<Longrightarrow> source_of d name = Some src \<Longrightarrow>
        is_file d' (output_file declared name src) \<and> (\<exists>t\<ge>clock d. last_modified d' (output_file declared name src) = Ok t)"
    and keeps_others: "iasl_compile iasl name d = Some (ok, d') \<Longrightarrow> source_of d name = Some src \<Longrightarrow>
        file_extension other \<in> {Some ext_asl, Some ext_aml} \<Longrightarrow>
        other \<noteq> output_file declared name src \<Longrightarrow> file_at d' other = file_at d other"
    and keeps_sources: "iasl_compile iasl name d = Some (ok, d') \<Longrightarrow> source_of d name = Some src \<Longrightarrow>
        file_extension (output_file declared name src) \<noteq> Some ext_asl \<Longrightarrow>
        map_option (with_ext ext_asl) (listing d') = map_option (with_ext ext_asl) (listing d)"
    and time_passes: "iasl_compile iasl name d = Some (ok, d') \<Longrightarrow> clock d \<le> clock d'"
begin

lemma compile_step:
  assumes run: "iasl_compile iasl name d = Some (ok, d')" and name: "sources_ok declared clock [name] d"
  shows "file_extension other = Some ext_asl \<Longrightarrow> file_at d' other = file_at d other"
    and "file_extension other = Some ext_asl \<Longrightarrow> other \<noteq> name \<Longrightarrow> up_to_date d' other = up_to_date d other"
    and "ok \<Longrightarrow> up_to_date d' name = Ok True"
    and "map_option (with_ext ext_asl) (listing d') = map_option (with_ext ext_asl) (listing d)"
proof -
  obtain t src where ext: "file_extension name = Some ext_asl" and t: "last_modified d name = Ok t" "t \<le> clock d"
    and src: "source_of d name = Some src" and out: "output_file declared name src = with_extension name ext_aml"
    using name by (auto simp: sources_ok_def)
  have asl: "file_at d' x = file_at d x" if "file_extension x = Some ext_asl" for x
    by (rule keeps_others[OF run src]) (use that with_extension_aml(2)[OF ext] in \<open>auto simp: out\<close>)
  then show "file_extension other = Some ext_asl \<Longrightarrow> file_at d' other = file_at d other" .
  have "file_at d' (with_extension x ext_aml) = file_at d (with_extension x ext_aml)"
    if "file_extension x = Some ext_asl" "x \<noteq> name" for x
    by (rule keeps_others[OF run src])
      (use that with_extension_aml(2)[of x] aml_path_inject[OF that(1) ext] in \<open>auto simp: out\<close>)
  with asl show "file_extension other = Some ext_asl \<Longrightarrow> other \<noteq> name \<Longrightarrow> up_to_date d' other = up_to_date d other"
    by (simp add: up_to_date_def Let_def is_file_def last_modified_def)
  show "up_to_date d' name = Ok True" if "ok"
    using writes_output[of name d d' src] run that t src asl[OF ext]
    by (fastforce simp: up_to_date_def Let_def out last_modified_def)
  show "map_option (with_ext ext_asl) (listing d') = map_option (with_ext ext_asl) (listing d)"
    by (rule keeps_sources[OF run src]) (simp add: out with_extension_aml(2)[OF ext])
qed

lemma sources_ok_step:
  assumes "sources_ok declared clock (name # names) d" "iasl_compile iasl name d = Some (ok, d')"
  shows "sources_ok declared clock names d'"
proof -
  have "sources_ok declared clock [name] d" using assms(1) by (simp add: sources_ok_def)
  from compile_step(1)[OF assms(2) this] time_passes[OF assms(2)] assms(1) show ?thesis
    by (fastforce simp: sources_ok_def last_modified_def source_of_def)
qed

text \<open>A source that names another file as its output is not up to date after it has been compiled.\<close>

lemma other_output_stale:
  assumes "iasl_compile iasl name d = Some (ok, d')" "source_of d name = Some src" "file_extension name = Some ext_asl"
    and "output_file declared name src \<noteq> with_extension name ext_aml" "\<not> is_file d (with_extension name ext_aml)"
  shows "up_to_date d' name = Ok False"
  using keeps_others[OF assms(1,2), of "with_extension name ext_aml"] assms(4,5) with_extension_aml(2)[OF assms(3)]
  by (simp add: up_to_date_def Let_def is_file_def)

text \<open>What the loop leaves alone: what is not among its files stays as it was, and the counter of failures only grows.\<close>

lemma compile_loop_keeps:
  "compile_loop iasl names passed failed d = Ok ((p, f), d') \<Longrightarrow> sources_ok declared clock names d \<Longrightarrow>
     failed \<le> f \<and> map_option (with_ext ext_asl) (listing d') = map_option (with_ext ext_asl) (listing d)
     \<and> (\<forall>other. file_extension other = Some ext_asl \<and> other \<notin> set names \<longrightarrow> up_to_date d' other = up_to_date d other)"
proof (induction names arbitrary: passed failed d)
  case (Cons name names)
  have src: "sources_ok declared clock names d" "sources_ok declared clock [name] d"
    using Cons.prems(2) by (auto simp: sources_ok_def)
  from Cons.prems(1) show ?case
  proof (cases rule: compile_loop_ConsE)
    case Skip
    from Cons.IH[OF Skip(2) src(1)] show ?thesis by auto
  next
    case (Run ok d1 passed' failed')
    note step = compile_step(2,4)[OF Run(1) src(2)]
    from Cons.IH[OF Run(2) sources_ok_step[OF Cons.prems(2) Run(1)]] Run(3) step show ?thesis by auto
  qed
qed auto

lemma compile_loop_all:
  "compile_loop iasl names passed failed d = Ok ((p, 0), d') \<Longrightarrow> sources_ok declared clock names d \<Longrightarrow> distinct names \<Longrightarrow>
   name \<in> set names \<Longrightarrow> up_to_date d' name = Ok True"
proof (induction names arbitrary: passed failed d)
  case (Cons x names)
  have src: "sources_ok declared clock names d" "sources_ok declared clock [x] d" "x \<notin> set names" "distinct names"
    "file_extension x = Some ext_asl"
    using Cons.prems(2,3) by (auto simp: sources_ok_def)
  from Cons.prems(1) show ?case
  proof (cases rule: compile_loop_ConsE)
    case Skip
    with compile_loop_keeps[OF Skip(2) src(1)] Cons.IH[OF Skip(2) src(1,4)] Cons.prems(4) src show ?thesis by auto
  next
    case (Run ok d1 passed' failed')
    note src1 = sources_ok_step[OF Cons.prems(2) Run(1)]
    have "failed' = 0" using compile_loop_keeps[OF Run(2) src1] by simp
    with Run(4) have "ok" by auto
    with compile_step(3)[OF Run(1) src(2)] have "up_to_date d1 x = Ok True" by simp
    with compile_loop_keeps[OF Run(2) src1] Cons.IH[OF Run(2) src1 src(4)] Cons.prems(4) src show ?thesis by auto
  qed
qed simp

lemma compile_again:
  assumes run: "compile_asl_files iasl d = Ok ((p, 0), d')" and entries: "read_dir d = Ok entries"
    and src: "sources_ok declared clock (with_ext ext_asl entries) d" "distinct (with_ext ext_asl entries)"
  shows "compile_asl_files iasl d' = Ok ((0, 0), d')"
proof -
  let ?names = "with_ext ext_asl entries"
  from run entries have loop: "compile_loop iasl ?names 0 0 d = Ok ((p, 0), d')" and tool: "?names \<noteq> [] \<longrightarrow> iasl_version iasl = Some True"
    by (auto simp: compile_asl_files_def Let_def split: if_splits)
  from compile_loop_keeps[OF loop src(1)] entries obtain entries' where
    "read_dir d' = Ok entries'" "with_ext ext_asl entries' = ?names"
    by (auto simp: read_dir_def split: option.splits)
  with tool compile_loop_skips[of ?names d' iasl 0 0] compile_loop_all[OF loop src] show ?thesis
    by (auto simp: compile_asl_files_def Let_def)
qed

end

text \<open>A file can be tested if it can be read, is not shorter than the header, and loading its table ends.\<close>

definition tested :: "aml_env \<Rightarrow> nat \<Rightarrow> bytes \<Rightarrow> (unit \<times> aml_context, aml_error \<times> aml_context) res" where
  "tested E n table = parse_table (tester_env E) n table (new_context (tester_env E) NoVerbosity)"

definition table_loads :: "aml_env \<Rightarrow> nat \<Rightarrow> bytes \<Rightarrow> bool" where
  "table_loads E n table = (case tested E n table of Ok _ \<Rightarrow> True | _ \<Rightarrow> False)"

definition table_of :: "directory \<Rightarrow> file_name \<Rightarrow> bytes" where
  "table_of d name = drop 36 (the (file_contents (the (file_at d name))))"

definition testable :: "aml_env \<Rightarrow> nat \<Rightarrow> directory \<Rightarrow> file_name \<Rightarrow> bool" where
  "testable E n d name \<longleftrightarrow>
     (\<exists>f bs. file_at d name = Some f \<and> file_contents f = Some bs \<and> 36 \<le> length bs)
     \<and> tested E n (table_of d name) \<notin> {Panic, Deadlock, OutOfFuel}"

lemma test_file_testable:
  "testable E n d name \<Longrightarrow> test_file E n d name = Ok (table_loads E n (table_of d name))"
  by (auto simp: test_file_def testable_def table_loads_def tested_def table_of_def aml_context_new_eq unwrap_def
      aml_table_header_length_def split: res.splits)

lemma test_loop_counts:
  assumes "\<forall>name\<in>set names. testable E n d name" "0 \<le> p" "0 \<le> f" "p + f + int (length names) < 2 ^ 31"
  shows "test_loop E n d names p f =
    Ok (p + int (length (filter (\<lambda>name. table_loads E n (table_of d name)) names)),
        f + int (length (filter (\<lambda>name. \<not> table_loads E n (table_of d name)) names)))"
  using assms by (induction names arbitrary: p f) (auto simp: test_file_testable inc_i32_def)

text \<open>
  C40. The tester of byte code, on sources whose \<open>DefinitionBlock\<close> names no file or the one with the name of the source, and with a
  compiler that writes the file that the block names, or the one with the name of the source if it names none, with the time at which it is
  written: after a run in which no file failed to compile, every source is up to date and compiling again does nothing. The tables
  tested are those of the directory after the compilation, each file is tested once in an interpreter of its own, and the counts
  that are reported are the numbers of tables that load and that fail.
\<close>

theorem tester_correct:
  assumes "asl_compiler iasl declared clock" "read_dir d = Ok entries"
    and "sources_ok declared clock (with_ext ext_asl entries) d" "distinct (with_ext ext_asl entries)"
    and "compile_asl_files iasl d = Ok ((p, 0), d')" "read_dir d' = Ok entries'"
    and "length entries' < 2 ^ 31" "\<forall>name\<in>set (with_ext ext_aml entries'). testable E n d' name"
  shows "compile_asl_files iasl d' = Ok ((0, 0), d')
    \<and> aml_tester E n iasl False d =
        Ok ((int (length (filter (\<lambda>name. table_loads E n (table_of d' name)) (with_ext ext_aml entries'))),
             int (length (filter (\<lambda>name. \<not> table_loads E n (table_of d' name)) (with_ext ext_aml entries')))), d')"
proof
  show "compile_asl_files iasl d' = Ok ((0, 0), d')"
    by (rule asl_compiler.compile_again[OF assms(1,5,2,3,4)])
  have "length (with_ext ext_aml entries') \<le> length entries'"
    unfolding with_ext_def by (rule le_trans[OF length_filter_le]) (simp add: List.map_filter_def)
  with assms(7) have "int (length (with_ext ext_aml entries')) < 2 ^ 31" by simp
  with test_loop_counts[OF assms(8), of 0 0] assms(5,6)
  show "aml_tester E n iasl False d =
        Ok ((int (length (filter (\<lambda>name. table_loads E n (table_of d' name)) (with_ext ext_aml entries'))),
             int (length (filter (\<lambda>name. \<not> table_loads E n (table_of d' name)) (with_ext ext_aml entries')))), d')"
    by (simp add: aml_tester_def)
qed

subsection \<open>An example\<close>

text \<open>
  A compiler that writes the same table for every source, at the time ten, to the file that the first line of the source
  names.
\<close>

definition sample_table :: bytes where
  "sample_table = encode_names [(seg_A, 5)]"

definition first_line :: "bytes \<Rightarrow> file_name" where
  "first_line = takeWhile (\<lambda>b. b \<noteq> 0x0A)"

definition sample_iasl :: compiler where
  "sample_iasl = \<lparr>iasl_version = Some True, iasl_compile = \<lambda>name d.
     case source_of d name of None \<Rightarrow> None | Some src \<Rightarrow>
       let out = output_file first_line name src in
       Some (True, d\<lparr>listing := map_option (\<lambda>l. l @ [Some out]) (listing d),
         file_at := (file_at d)(out \<mapsto>
           \<lparr>file_regular = True, file_modified = Some 10, file_contents = Some (replicate 36 0 @ sample_table)\<rparr>)\<rparr>)\<rparr>"

interpretation sample: asl_compiler sample_iasl first_line "\<lambda>_. 10"
proof
  fix name d d' src ok other
  assume src: "source_of d name = Some src"
  show "is_file d' (output_file first_line name src) \<and> (\<exists>t\<ge>10. last_modified d' (output_file first_line name src) = Ok t)"
    if "iasl_compile sample_iasl name d = Some (True, d')"
    using that src by (auto simp: sample_iasl_def is_file_def last_modified_def Let_def)
  show "file_at d' other = file_at d other" if "iasl_compile sample_iasl name d = Some (ok, d')" "other \<noteq> output_file first_line name src"
    using that src by (auto simp: sample_iasl_def Let_def)
  show "map_option (with_ext ext_asl) (listing d') = map_option (with_ext ext_asl) (listing d)"
    if "iasl_compile sample_iasl name d = Some (ok, d')" "file_extension (output_file first_line name src) \<noteq> Some ext_asl"
    using that src
    by (auto simp: sample_iasl_def with_ext_def List.map_filter_def comp_def map_option_case Let_def split: option.splits)
qed simp

definition sample_dir :: directory where
  "sample_dir = \<lparr>listing = Some [Some [0x61, 0x2E, 0x61, 0x73, 0x6C]],
     file_at = [[0x61, 0x2E, 0x61, 0x73, 0x6C] \<mapsto> \<lparr>file_regular = True, file_modified = Some 7,
       file_contents = Some [0x61, 0x2E, 0x61, 0x6D, 0x6C, 0x0A]\<rparr>]\<rparr>"

lemma sample_names:
  "file_extension [0x61, 0x2E, 0x61, 0x73, 0x6C] = Some ext_asl"
  "with_extension [0x61, 0x2E, 0x61, 0x73, 0x6C] ext_aml = [0x61, 0x2E, 0x61, 0x6D, 0x6C]"
  "file_extension [0x61, 0x2E, 0x61, 0x6D, 0x6C] = Some ext_aml"
  by (simp_all add: file_extension_def with_extension_def file_stem_def rsplit_file_at_dot_def)

definition sample_dir' :: directory where
  "sample_dir' = \<lparr>listing = Some [Some [0x61, 0x2E, 0x61, 0x73, 0x6C], Some [0x61, 0x2E, 0x61, 0x6D, 0x6C]],
     file_at = (file_at sample_dir)([0x61, 0x2E, 0x61, 0x6D, 0x6C] \<mapsto>
       \<lparr>file_regular = True, file_modified = Some 10, file_contents = Some (replicate 36 0 @ sample_table)\<rparr>)\<rparr>"

lemma sample_compile: "compile_asl_files sample_iasl sample_dir = Ok ((1, 0), sample_dir')"
  by (simp add: compile_asl_files_def read_dir_def sample_dir_def with_ext_def List.map_filter_def sample_names up_to_date_def
      is_file_def sample_iasl_def inc_u32_def sample_dir'_def source_of_def output_file_def first_line_def Let_def)

lemma sample_loads: "\<exists>c. tested std_env 2 sample_table = Ok ((), c)"
proof -
  let ?c = "new_context (tester_env std_env) NoVerbosity"
  have "ns_wf (ns ?c)" using ctx_ok_new[of "tester_env std_env" NoVerbosity] by (simp add: ctx_ok_def)
  moreover have "handle_at (ns ?c) [] seg_A = None" "unat (next_handle (ns ?c)) + 1 < 2 ^ 32" "level_at (ns ?c) [] \<noteq> None"
    by (simp_all add: predefined_ns_def handle_at_def seg_A_def)
  moreover have "valid_seg seg_A" by (simp add: seg_A_def is_lead_name_char_def is_name_char_def)
  moreover have "length (encode_names [(seg_A, 5)]) < 2 ^ 32"
    by (simp add: encode_names_def encode_name_def seg_A_def encode_integer_def Let_def)
  ultimately show ?thesis
    using names_table_loads[of ?c "[]" "[(seg_A, 5)]" 2 "tester_env std_env"]
    by (auto simp: tested_def sample_table_def root_name_abs)
qed

theorem tester_correct_witness:
  "compile_asl_files sample_iasl sample_dir' = Ok ((0, 0), sample_dir')
   \<and> aml_tester std_env 2 sample_iasl False sample_dir = Ok ((1, 0), sample_dir')"
proof -
  have names: "with_ext ext_asl (the (listing sample_dir)) = [[0x61, 0x2E, 0x61, 0x73, 0x6C]]"
    "with_ext ext_aml (the (listing sample_dir')) = [[0x61, 0x2E, 0x61, 0x6D, 0x6C]]"
    by (simp_all add: sample_dir_def sample_dir'_def with_ext_def List.map_filter_def sample_names)
  have table: "table_of sample_dir' [0x61, 0x2E, 0x61, 0x6D, 0x6C] = sample_table" by (simp add: table_of_def sample_dir'_def)
  have "sources_ok first_line (\<lambda>_. 10) [[0x61, 0x2E, 0x61, 0x73, 0x6C]] sample_dir"
    by (simp add: sources_ok_def sample_names last_modified_def sample_dir_def source_of_def output_file_def first_line_def Let_def)
  moreover have "testable std_env 2 sample_dir' [0x61, 0x2E, 0x61, 0x6D, 0x6C]"
    unfolding testable_def table using sample_loads by (auto simp: sample_dir'_def)
  moreover have "table_loads std_env 2 sample_table" using sample_loads by (auto simp: table_loads_def)
  moreover have "read_dir sample_dir = Ok (the (listing sample_dir))" "read_dir sample_dir' = Ok (the (listing sample_dir'))"
    "length (the (listing sample_dir')) < 2 ^ 31"
    by (simp_all add: read_dir_def sample_dir_def sample_dir'_def)
  ultimately show ?thesis
    using tester_correct[OF sample.asl_compiler_axioms _ _ _ sample_compile, of "the (listing sample_dir)"
        "the (listing sample_dir')" std_env 2] by (simp add: names table)
qed

end
