(* ===== verification/Acpi_Dumper.thy ===== *)
theory Acpi_Dumper
  imports Aml_Tester
begin

section \<open>The dumper of tables\<close>

text \<open>
  \<open>acpi-dumper/src/main.rs\<close>: the tool copies the tables that the kernel shows in a directory, and what \<open>lshw\<close> says, to files of a new
  directory. The system is a parameter: the directory of the tables, the answers of \<open>lshw\<close>, the user, and which files can
  be created. The result is the files that were written, in their order, or the exit of the tool.
\<close>

subsection \<open>The tool\<close>

record dump_system =
  ds_name :: "bytes option"
  ds_lshw_version :: "bytes option"
  ds_is_root :: bool
  ds_create :: "bytes \<Rightarrow> bool"
  ds_tables :: directory
  ds_write :: "file_name \<Rightarrow> bool"
  ds_lshw :: "bytes option"

datatype dump_result = ExitFailure | Dumped "(file_name \<times> bytes) list"

abbreviation sig_ssdt :: bytes where "sig_ssdt \<equiv> [0x53, 0x53, 0x44, 0x54]"
abbreviation dot_bin :: bytes where "dot_bin \<equiv> [0x2E, 0x62, 0x69, 0x6E]"
abbreviation lshw_txt :: bytes where "lshw_txt \<equiv> [0x6C, 0x73, 0x68, 0x77, 0x2E, 0x74, 0x78, 0x74]"

text \<open>\<open>&s[..k]\<close> of a string: a panic unless \<open>k\<close> is the start of a character or the end of the string.\<close>

definition str_take :: "nat \<Rightarrow> bytes \<Rightarrow> (bytes, 'e) res" where
  "str_take k s =
     (if k = length s \<or> k < length s \<and> \<not> is_cont (s ! k) then Ok (take k s) else Panic)"

definition dumps_table :: "bytes \<Rightarrow> (bool, 'e) res" where
  "dumps_table table_signature =
     (if length table_signature = 4 then Ok True
      else and_then (str_take 4 table_signature) (\<lambda>start. Ok (start \<noteq> sig_ssdt)))"

definition write_file :: "dump_system \<Rightarrow> file_name \<Rightarrow> bytes \<Rightarrow> (file_name \<times> bytes) list
    \<Rightarrow> ((file_name \<times> bytes) list, 'e) res" where
  "write_file S name data out = (if ds_write S name then Ok (out @ [(name, data)]) else Panic)"

text \<open>An entry of the listing that cannot be read is ignored.\<close>

fun dump_tables :: "dump_system \<Rightarrow> file_name option list \<Rightarrow> (file_name \<times> bytes) list
    \<Rightarrow> ((file_name \<times> bytes) list, 'e) res" where
  "dump_tables S [] out = Ok out"
| "dump_tables S (None # entries) out = dump_tables S entries out"
| "dump_tables S (Some name # entries) out =
     (case file_at (ds_tables S) name of
        None \<Rightarrow> Panic
      | Some f \<Rightarrow>
          if \<not> file_regular f then dump_tables S entries out
          else if \<not> utf8_valid name then Panic
          else and_then (dumps_table name) (\<lambda>dump.
            if dump then
              (case file_contents f of
                 None \<Rightarrow> Panic
               | Some data \<Rightarrow> and_then (write_file S (name @ dot_bin) data out) (\<lambda>out. dump_tables S entries out))
            else dump_tables S entries out))"

definition acpi_dumper :: "dump_system \<Rightarrow> (dump_result, 'e) res" where
  "acpi_dumper S =
     (case ds_name S of
        None \<Rightarrow> Ok ExitFailure
      | Some name \<Rightarrow>
     (case ds_lshw_version S of
        None \<Rightarrow> Ok ExitFailure
      | Some version \<Rightarrow>
        if \<not> utf8_valid version then Panic
        else if \<not> ds_is_root S then Ok ExitFailure
        else if \<not> ds_create S name then Panic
        else case listing (ds_tables S) of
               None \<Rightarrow> Panic
             | Some entries \<Rightarrow>
                 and_then (dump_tables S entries []) (\<lambda>out.
                   case ds_lshw S of
                     None \<Rightarrow> Panic
                   | Some lshw_info \<Rightarrow>
                       if \<not> utf8_valid lshw_info then Panic
                       else and_then (write_file S lshw_txt lshw_info out) (\<lambda>out. Ok (Dumped out)))))"

subsection \<open>What is dumped\<close>

text \<open>The regular files of the listing whose name is four bytes long or does not start with the signature of an SSDT.\<close>

definition dumped_names :: "dump_system \<Rightarrow> file_name option list \<Rightarrow> file_name list" where
  "dumped_names S entries =
     filter (\<lambda>name. is_file (ds_tables S) name \<and> (length name = 4 \<or> take 4 name \<noteq> sig_ssdt)) (List.map_filter id entries)"

definition table_ok :: "dump_system \<Rightarrow> file_name \<Rightarrow> bool" where
  "table_ok S name \<longleftrightarrow>
     list_all (\<lambda>b. b \<le> 0x7F) name \<and> 4 \<le> length name \<and> ds_write S (name @ dot_bin)
     \<and> (\<exists>f data. file_at (ds_tables S) name = Some f \<and> file_contents f = Some data)"

definition copy_of :: "dump_system \<Rightarrow> file_name \<Rightarrow> file_name \<times> bytes" where
  "copy_of S name = (name @ dot_bin, the (file_contents (the (file_at (ds_tables S) name))))"

lemma ascii_name:
  assumes "list_all (\<lambda>b. b \<le> 0x7F) name" "4 \<le> length name"
  shows "utf8_valid name" "dumps_table name = Ok (length name = 4 \<or> take 4 name \<noteq> sig_ssdt)"
proof -
  show "utf8_valid name" using assms(1) by (induction name) auto
  have "\<not> is_cont (name ! 4)" if "4 < length name"
  proof -
    have "name ! 4 \<le> 0x7F" using assms(1) that by (simp add: list_all_length)
    then show ?thesis by (auto simp: is_cont_def word_le_nat_alt)
  qed
  with assms(2) show "dumps_table name = Ok (length name = 4 \<or> take 4 name \<noteq> sig_ssdt)"
    by (auto simp: dumps_table_def str_take_def)
qed

lemma dump_tables_eq:
  "\<forall>name. Some name \<in> set entries \<longrightarrow> table_ok S name \<Longrightarrow>
   dump_tables S entries out = Ok (out @ map (copy_of S) (dumped_names S entries))"
proof (induction entries arbitrary: out)
  case (Cons entry entries)
  have "\<forall>name. Some name \<in> set entries \<longrightarrow> table_ok S name" using Cons.prems by simp
  note IH = Cons.IH[OF this]
  show ?case
  proof (cases entry)
    case (Some name)
    then obtain f data where f: "file_at (ds_tables S) name = Some f" "file_contents f = Some data"
      and ok: "list_all (\<lambda>b. b \<le> 0x7F) name" "4 \<le> length name" "ds_write S (name @ dot_bin)"
      using Cons.prems by (auto simp: table_ok_def)
    show ?thesis
      by (auto simp: Some f IH ascii_name[OF ok(1,2)] ok(3) write_file_def dumped_names_def is_file_def copy_of_def
          List.map_filter_simps)
  qed (simp add: IH dumped_names_def List.map_filter_simps)
qed (simp add: dumped_names_def List.map_filter_simps)

text \<open>
  The dumper writes a copy of every table in the listing, in its order, and what \<open>lshw\<close> says; a table whose name starts with
  \<open>SSDT\<close> and goes on, which is how the kernel names all SSDTs but one, is left out.
\<close>

theorem dumper_copies:
  assumes "ds_name S = Some name" "ds_lshw_version S = Some version" "utf8_valid version" "ds_is_root S" "ds_create S name"
    and "listing (ds_tables S) = Some entries" "\<forall>name. Some name \<in> set entries \<longrightarrow> table_ok S name"
    and "ds_lshw S = Some info" "utf8_valid info" "ds_write S lshw_txt"
  shows "acpi_dumper S = Ok (Dumped (map (copy_of S) (dumped_names S entries) @ [(lshw_txt, info)]))
    \<and> (\<forall>k. k \<noteq> [] \<longrightarrow> (sig_ssdt @ k) @ dot_bin \<notin> fst ` set (map (copy_of S) (dumped_names S entries)))"
proof
  show "acpi_dumper S = Ok (Dumped (map (copy_of S) (dumped_names S entries) @ [(lshw_txt, info)]))"
    using assms by (simp add: acpi_dumper_def dump_tables_eq write_file_def)
  show "\<forall>k. k \<noteq> [] \<longrightarrow> (sig_ssdt @ k) @ dot_bin \<notin> fst ` set (map (copy_of S) (dumped_names S entries))"
  proof (intro allI impI notI)
    fix k assume k: "k \<noteq> []" "(sig_ssdt @ k) @ dot_bin \<in> fst ` set (map (copy_of S) (dumped_names S entries))"
    then obtain x where "x \<in> set (dumped_names S entries)" "x @ dot_bin = (sig_ssdt @ k) @ dot_bin"
      by (auto simp: copy_of_def simp del: append_assoc)
    then have "x \<in> set (dumped_names S entries)" "x = sig_ssdt @ k" by (simp_all only: append_same_eq)
    with k(1) show False by (auto simp: dumped_names_def)
  qed
qed

theorem dumper_copies_witness:
  "acpi_dumper \<lparr>ds_name = Some [0x61], ds_lshw_version = Some [], ds_is_root = True, ds_create = (\<lambda>_. True),
       ds_tables = \<lparr>listing = Some [Some [0x46, 0x41, 0x43, 0x50], Some [0x53, 0x53, 0x44, 0x54, 0x31]],
         file_at = (\<lambda>_. Some \<lparr>file_regular = True, file_modified = None, file_contents = Some [7]\<rparr>)\<rparr>,
       ds_write = (\<lambda>_. True), ds_lshw = Some []\<rparr>
   = Ok (Dumped [([0x46, 0x41, 0x43, 0x50, 0x2E, 0x62, 0x69, 0x6E], [7]), (lshw_txt, [])])"
  using dumper_copies[of "\<lparr>ds_name = Some [0x61], ds_lshw_version = Some [], ds_is_root = True, ds_create = (\<lambda>_. True),
       ds_tables = \<lparr>listing = Some [Some [0x46, 0x41, 0x43, 0x50], Some [0x53, 0x53, 0x44, 0x54, 0x31]],
         file_at = (\<lambda>_. Some \<lparr>file_regular = True, file_modified = None, file_contents = Some [7]\<rparr>)\<rparr>,
       ds_write = (\<lambda>_. True), ds_lshw = Some []\<rparr>" "[0x61]" "[]" "[Some [0x46, 0x41, 0x43, 0x50], Some [0x53, 0x53, 0x44, 0x54, 0x31]]" "[]"]
  by (auto simp: table_ok_def dumped_names_def is_file_def copy_of_def List.map_filter_simps)

end
