(* ===== verification/Pci_Routing.thy ===== *)
theory Pci_Routing
  imports Aml_Interp Resource
begin

section \<open>PCI interrupt routing\<close>

text \<open>
  \<open>pci_routing.rs\<close>: the table made of the packages a \<open>_PRT\<close> object evaluates to, and the
  interrupt a pin of a device is wired to, taken from the table or from the \<open>_CRS\<close> object of a link
  device. The methods the two operations invoke are run with the fuel \<open>n\<close> of the interpreter.
\<close>

datatype pin = IntA | IntB | IntC | IntD

datatype pci_route_type = Gsi u32 | LinkObject aml_name

record pci_route =
  pr_device :: u16
  pr_function :: u16
  pr_pin :: pin
  pr_route_type :: pci_route_type

type_synonym pci_routing_table = "pci_route list"

definition package_at :: "aml_value list \<Rightarrow> nat \<Rightarrow> (aml_value, 'e) res" where
  "package_at vs i = (if i < length vs then Ok (vs ! i) else Panic)"

definition bits_u16 :: "'z crates_scheme \<Rightarrow> u64 \<Rightarrow> nat \<Rightarrow> nat \<Rightarrow> (u16, aml_error) res" where
  "bits_u16 K w a b =
     and_then (unwrap_option (get_bits_u64 K w a b)) (\<lambda>bits.
       if unat bits < 2 ^ 16 then Ok (ucast bits) else Err PrtInvalidAddress)"

definition pin_of :: "u64 \<Rightarrow> (pin, aml_error) res" where
  "pin_of w =
     (if w = 0 then Ok IntA
      else if w = 1 then Ok IntB
      else if w = 2 then Ok IntC
      else if w = 3 then Ok IntD
      else Err PrtInvalidPin)"

definition gsi_of :: "u64 \<Rightarrow> (u32, aml_error) res" where
  "gsi_of w = (if unat w < 2 ^ 32 then Ok (ucast w) else Err PrtInvalidGsi)"

definition route_source :: "aml_env \<Rightarrow> nat \<Rightarrow> aml_name \<Rightarrow> aml_value list \<Rightarrow> pci_route_type act" where
  "route_source E n prt_path pin_package =
     act_bind (pure_res (package_at pin_package 2)) (\<lambda>source.
       case source of
         Integer w \<Rightarrow>
           if w = 0 then
             act_bind (pure_res (package_at pin_package 3)) (\<lambda>index.
             act_bind (as_integer E n index) (\<lambda>gsi.
             act_bind (pure_res (gsi_of gsi)) (\<lambda>gsi'. ret (Gsi gsi'))))
           else fail PrtInvalidSource
       | String name \<Rightarrow>
           act_bind (pure_res (from_str name)) (\<lambda>link.
           act_bind (reads (\<lambda>c. search_for_level (ns c) link prt_path)) (\<lambda>link_object_name.
             ret (LinkObject link_object_name)))
       | _ \<Rightarrow> fail PrtInvalidSource)"

definition route_entry :: "aml_env \<Rightarrow> nat \<Rightarrow> aml_name \<Rightarrow> aml_value list \<Rightarrow> pci_route act" where
  "route_entry E n prt_path pin_package =
     act_bind (pure_res (package_at pin_package 0)) (\<lambda>address_value.
     act_bind (as_integer E n address_value) (\<lambda>address.
     act_bind (pure_res (bits_u16 E address 16 32)) (\<lambda>dev.
     act_bind (pure_res (bits_u16 E address 0 16)) (\<lambda>func.
     act_bind (pure_res (package_at pin_package 1)) (\<lambda>pin_value.
     act_bind (as_integer E n pin_value) (\<lambda>pin_number.
     act_bind (pure_res (pin_of pin_number)) (\<lambda>p.
     act_bind (route_source E n prt_path pin_package) (\<lambda>source.
       ret \<lparr>pr_device = dev, pr_function = func, pr_pin = p, pr_route_type = source\<rparr>))))))))"

fun route_entries :: "aml_env \<Rightarrow> nat \<Rightarrow> aml_name \<Rightarrow> aml_value list \<Rightarrow> pci_route list \<Rightarrow> pci_routing_table act" where
  "route_entries E n prt_path [] entries = ret entries"
| "route_entries E n prt_path (v # vs) entries =
     (case v of
        Package pin_package \<Rightarrow>
          act_bind (route_entry E n prt_path pin_package) (\<lambda>entry.
            route_entries E n prt_path vs (entries @ [entry]))
      | _ \<Rightarrow> fail (IncompatibleValueConversion (type_of v) PackageType))"

definition from_prt_path :: "aml_env \<Rightarrow> nat \<Rightarrow> aml_name \<Rightarrow> pci_routing_table act" where
  "from_prt_path E n prt_path =
     act_bind (invoke E n prt_path args_empty) (\<lambda>prt.
       case prt of
         Package inner_values \<Rightarrow> route_entries E n prt_path inner_values []
       | _ \<Rightarrow> fail (IncompatibleValueConversion (type_of prt) PackageType))"

definition route_matches :: "u16 \<Rightarrow> u16 \<Rightarrow> pin \<Rightarrow> pci_route \<Rightarrow> bool" where
  "route_matches dev func p entry \<longleftrightarrow>
     pr_device entry = dev \<and> (pr_function entry = 0xffff \<or> pr_function entry = func) \<and> pr_pin entry = p"

definition route :: "aml_env \<Rightarrow> nat \<Rightarrow> pci_routing_table \<Rightarrow> u16 \<Rightarrow> u16 \<Rightarrow> pin \<Rightarrow> irq_descriptor act" where
  "route E n entries dev func p =
     act_bind (pure_res (ok_or PrtNoEntry (find (route_matches dev func p) entries))) (\<lambda>entry.
       case pr_route_type entry of
         Gsi gsi \<Rightarrow>
           ret \<lparr>is_consumer = True, trigger = LevelTrigger, polarity = ActiveLow, is_shared = True,
                is_wake_capable = False, irq = gsi\<rparr>
       | LinkObject name \<Rightarrow>
           act_bind (invoke_at E n ''_CRS'' name) (\<lambda>link_crs.
           act_bind (resource_descriptor_list E link_crs) (\<lambda>resources.
             case resources of
               [Irq descriptor] \<Rightarrow> ret descriptor
             | _ \<Rightarrow> fail UnexpectedResourceType)))"

end
