(* ===== verification/Resource_Correct.thy ===== *)
theory Resource_Correct
  imports Resource Aml_Examples
begin

section \<open>Resource templates are decoded as they were encoded\<close>

text \<open>
  The wire format of the descriptors as an inductive relation between bytes and resources, and
  the proof that a template made of such encodings and an end tag is decoded to the list of its
  resources.
\<close>

subsection \<open>The wire format\<close>

definition speed_code :: "dma_supported_speed \<Rightarrow> u8" where
  "speed_code s = (case s of CompatibilityMode \<Rightarrow> 0 | TypeA \<Rightarrow> 1 | TypeB \<Rightarrow> 2 | TypeF \<Rightarrow> 3)"

definition preference_code :: "dma_transfer_type_preference \<Rightarrow> u8" where
  "preference_code p = (case p of Only8Bit \<Rightarrow> 0 | Both8And16Bit \<Rightarrow> 1 | Only16Bit \<Rightarrow> 2)"

definition space_code :: "address_space_resource_type \<Rightarrow> u8" where
  "space_code t = (case t of MemoryRangeType \<Rightarrow> 0 | IORangeType \<Rightarrow> 1 | BusNumberRangeType \<Rightarrow> 2)"

definition address_tag :: "nat \<Rightarrow> u8" where
  "address_tag width = (if width = 2 then 0x88 else if width = 4 then 0x87 else 0x8A)"

definition address_bytes :: "nat \<Rightarrow> address_space_descriptor \<Rightarrow> bytes" where
  "address_bytes width d =
     concat (map (\<lambda>w. to_le_bytes width (unat w))
       [granularity d, fst (address_range d), snd (address_range d), translation_offset d, as_length d])"

inductive encodes :: "bytes \<Rightarrow> resource \<Rightarrow> bool" where
  memory: "encodes ([0x86, 9, 0, info] @ to_le_bytes 4 (unat base) @ to_le_bytes 4 (unat len))
             (MemoryRange (FixedLocation (bit info 0) base len))"
| address: "width \<in> {2, 4, 8} \<Longrightarrow>
     list_all (\<lambda>w. unat w < 256 ^ width)
       [granularity d, fst (address_range d), snd (address_range d), translation_offset d, as_length d] \<Longrightarrow>
     bit flags 3 = is_maximum_address_fixed d \<Longrightarrow>
     bit flags 2 = is_minimum_address_fixed d \<Longrightarrow>
     bit flags 1 = (decode_type d = Subtractive) \<Longrightarrow>
     encodes ([address_tag width, word_of_nat (5 * width + 3), 0, space_code (resource_type d), flags, specific]
               @ address_bytes width d) (AddressSpace d)"
| irq_no_flags: "encodes (0x22 # to_le_bytes 2 (unat (n :: u16)))
     (Irq \<lparr>is_consumer = False, trigger = EdgeTrigger, polarity = ActiveHigh, is_shared = False,
           is_wake_capable = False, irq = ucast n\<rparr>)"
| irq_flags: "encodes (0x23 # to_le_bytes 2 (unat (n :: u16)) @ [info])
     (Irq \<lparr>is_consumer = False, trigger = (if bit info 0 then EdgeTrigger else LevelTrigger),
           polarity = (if bit info 3 then ActiveLow else ActiveHigh), is_shared = bit info 4,
           is_wake_capable = bit info 5, irq = ucast n\<rparr>)"
| irq_extended: "encodes ([0x89, 6, 0, info, 1] @ to_le_bytes 4 (unat n))
     (Irq \<lparr>is_consumer = bit info 0, trigger = (if bit info 1 then EdgeTrigger else LevelTrigger),
           polarity = (if bit info 2 then ActiveLow else ActiveHigh), is_shared = bit info 3,
           is_wake_capable = bit info 4, irq = n\<rparr>)"
| dma: "encodes [0x2A, channels, 32 * speed_code s + 4 * of_bool master + preference_code p]
     (Dma \<lparr>channel_mask = channels, supported_speeds = s, is_bus_master = master, transfer_type_preference = p\<rparr>)"
| io_port: "encodes ([0x47, info] @ to_le_bytes 2 (unat low) @ to_le_bytes 2 (unat high) @ [align, len])
     (IOPort \<lparr>decodes_full_address = bit info 0, memory_range = (low, high), base_alignment = align,
              range_length = len\<rparr>)"

text \<open>The end tag with its checksum byte.\<close>

definition end_tag :: "u8 \<Rightarrow> bytes" where
  "end_tag check = [0x79, check]"

subsection \<open>Reading fields\<close>

lemma to_le_bytes_unroll:
  "to_le_bytes 2 x = [word_of_nat x, word_of_nat (x div 256)]"
  "to_le_bytes 4 x = [word_of_nat x, word_of_nat (x div 256), word_of_nat (x div 256 ^ 2), word_of_nat (x div 256 ^ 3)]"
  by (simp_all add: to_le_bytes_def upt_rec)

lemma word_of_le_bytes:
  assumes "unat w < 256 ^ n"
  shows "word_of_nat (le_value (to_le_bytes n (unat w))) = (w :: 'a::len word)"
  using assms by (simp add: le_value_to_le_bytes)

context byteorder_crate
begin

lemma slice_u16_at:
  "length pre = a \<Longrightarrow> slice_u16 K (pre @ to_le_bytes 2 (unat n) @ post) a = Ok n"
  using unsigned_less[of n, where 'a = nat] by (simp add: slice_u16_def slice_def le_read_u16 word_of_le_bytes)

lemma slice_u32_at:
  "length pre = a \<Longrightarrow> slice_u32 K (pre @ to_le_bytes 4 (unat n) @ post) a = Ok n"
  using unsigned_less[of n, where 'a = nat] by (simp add: slice_u32_def slice_def le_read_u32 word_of_le_bytes)

lemma address_field_at:
  assumes "length pre = 6 + width * i" "1 \<le> width" "width \<le> 8" "unat w < 256 ^ width"
  shows "address_field K (pre @ to_le_bytes width (unat w) @ post) width i = Ok w"
  using assms by (simp add: address_field_def le_read_uint word_of_le_bytes)

end

subsection \<open>One descriptor\<close>

locale resource_crates = bit_field_crate + byteorder_crate
begin

lemma large_item:
  assumes "bit b0 7" "unat len + 3 = length bs" "bs = b0 # to_le_bytes 2 (unat (len :: u16)) @ body"
    and "large_descriptor K (take_bit 7 b0) bs = Ok d"
  shows "resource_descriptor K (bs @ rest) = Ok (Some d, rest)"
proof -
  have "slice_u16 K (bs @ rest) 1 = (Ok len :: (u16, aml_error) res)"
    using slice_u16_at[of "[b0]" 1 len "body @ rest"] assms(3) by simp
  moreover have "split_at (bs @ rest) (unat len + 3) = (Ok (bs, rest) :: (_, aml_error) res)" using assms(2) by (simp add: split_at_def)
  ultimately show ?thesis
    using assms(1,3,4) by (simp add: resource_descriptor_def byte_at_def get_bit_u8 get_bits_u8)
qed

lemma small_item:
  assumes "\<not> bit b0 7" "unat (take_bit 3 b0) = length body"
    and "small_descriptor K (take_bit 4 (drop_bit 3 b0)) (b0 # body) = Ok (Some d)"
  shows "resource_descriptor K ((b0 # body) @ rest) = Ok (Some d, rest)"
  using assms by (simp add: resource_descriptor_def byte_at_def get_bit_u8 get_bits_u8 split_at_def)

lemma end_item: "resource_descriptor K (end_tag check) = Ok (None, [])"
  by (simp add: resource_descriptor_def byte_at_def get_bit_u8 get_bits_u8 split_at_def end_tag_def
      small_descriptor_def)

lemma decode_memory:
  "resource_descriptor K (([0x86, 9, 0, info] @ to_le_bytes 4 (unat base) @ to_le_bytes 4 (unat len)) @ rest)
     = Ok (Some (MemoryRange (FixedLocation (bit info 0) base len)), rest)"
proof (rule large_item[where len = 9])
  let ?bs = "[0x86, 9, 0, info] @ to_le_bytes 4 (unat base) @ to_le_bytes 4 (unat len)"
  have "slice_u32 K ?bs 4 = (Ok base :: (u32, aml_error) res)"
    by (rule slice_u32_at) simp
  moreover have "slice_u32 K ?bs 8 = (Ok len :: (u32, aml_error) res)"
    using slice_u32_at[of "[0x86, 9, 0, info] @ to_le_bytes 4 (unat base)" 8 len "[]"] by simp
  ultimately show "large_descriptor K (take_bit 7 0x86) ?bs
      = Ok (MemoryRange (FixedLocation (bit info 0) base len))"
    by (simp add: large_descriptor_def fixed_memory_descriptor_def byte_at_def get_bit_u8)
qed (simp_all add: to_le_bytes_unroll)

lemma decode_irq_extended:
  "resource_descriptor K (([0x89, 6, 0, info, 1] @ to_le_bytes 4 (unat n)) @ rest)
     = Ok (Some (Irq \<lparr>is_consumer = bit info 0, trigger = (if bit info 1 then EdgeTrigger else LevelTrigger),
           polarity = (if bit info 2 then ActiveLow else ActiveHigh), is_shared = bit info 3,
           is_wake_capable = bit info 4, irq = n\<rparr>), rest)" (is "_ = Ok (Some ?d, _)")
proof (rule large_item[where len = 6])
  let ?bs = "[0x89, 6, 0, info, 1] @ to_le_bytes 4 (unat n)"
  have "slice_u32 K ?bs 5 = (Ok n :: (u32, aml_error) res)"
    using slice_u32_at[of "[0x89, 6, 0, info, 1]" 5 n "[]"] by simp
  then show "large_descriptor K (take_bit 7 0x89) ?bs = Ok ?d"
    by (simp add: large_descriptor_def extended_interrupt_descriptor_def byte_at_def get_bit_u8)
qed (simp_all add: to_le_bytes_unroll)

lemma decode_irq_no_flags:
  "resource_descriptor K ((0x22 # to_le_bytes 2 (unat (n :: u16))) @ rest)
     = Ok (Some (Irq \<lparr>is_consumer = False, trigger = EdgeTrigger, polarity = ActiveHigh, is_shared = False,
           is_wake_capable = False, irq = ucast n\<rparr>), rest)"
  by (rule small_item)
    (simp_all add: small_descriptor_def irq_format_descriptor_def slice_u16_at[of "[0x22]" 1 n "[]", simplified])

lemma decode_irq_flags:
  "resource_descriptor K ((0x23 # to_le_bytes 2 (unat (n :: u16)) @ [info]) @ rest)
     = Ok (Some (Irq \<lparr>is_consumer = False, trigger = (if bit info 0 then EdgeTrigger else LevelTrigger),
           polarity = (if bit info 3 then ActiveLow else ActiveHigh), is_shared = bit info 4,
           is_wake_capable = bit info 5, irq = ucast n\<rparr>), rest)"
  by (rule small_item)
    (simp_all add: slice_u16_at[of "[0x23]" 1 n "[info]", simplified] small_descriptor_def irq_format_descriptor_def byte_at_def get_bit_u8 nth_append)

lemma decode_dma:
  "resource_descriptor K ([0x2A, channels, 32 * speed_code s + 4 * of_bool master + preference_code p] @ rest)
     = Ok (Some (Dma \<lparr>channel_mask = channels, supported_speeds = s, is_bus_master = master,
                      transfer_type_preference = p\<rparr>), rest)"
proof -
  let ?options = "32 * speed_code s + 4 * of_bool master + preference_code p"
  have "take_bit 2 (drop_bit 5 ?options) = speed_code s" "take_bit 2 ?options = preference_code p"
    "bit ?options 2 = master"
    by (cases s; cases p; cases master; simp add: speed_code_def preference_code_def)+
  then have "dma_format_descriptor K [0x2A, channels, ?options]
      = Ok (Dma \<lparr>channel_mask = channels, supported_speeds = s, is_bus_master = master,
                 transfer_type_preference = p\<rparr>)"
    by (simp add: dma_format_descriptor_def byte_at_def get_bit_u8 get_bits_u8 speed_code_def
        preference_code_def dma_speed_def dma_preference_def
        split: dma_supported_speed.split dma_transfer_type_preference.split)
  then show ?thesis
    using small_item[of "0x2A" "[channels, ?options]" _ rest] by (simp add: small_descriptor_def)
qed

lemma decode_io_port:
  "resource_descriptor K (([0x47, info] @ to_le_bytes 2 (unat low) @ to_le_bytes 2 (unat high) @ [align, len]) @ rest)
     = Ok (Some (IOPort \<lparr>decodes_full_address = bit info 0, memory_range = (low, high),
                         base_alignment = align, range_length = len\<rparr>), rest)" (is "_ = Ok (Some ?d, _)")
proof -
  let ?body = "info # to_le_bytes 2 (unat low) @ to_le_bytes 2 (unat high) @ [align, len]"
  have "slice_u16 K (0x47 # ?body) 2 = (Ok low :: (u16, aml_error) res)"
    using slice_u16_at[of "[0x47, info]" 2 low] by simp
  moreover have "slice_u16 K (0x47 # ?body) 4 = (Ok high :: (u16, aml_error) res)"
    using slice_u16_at[of "[0x47, info] @ to_le_bytes 2 (unat low)" 4 high] by simp
  ultimately have "small_descriptor K (take_bit 4 (drop_bit 3 0x47)) (0x47 # ?body) = Ok (Some ?d)"
    by (simp add: small_descriptor_def io_port_descriptor_of_def byte_at_def get_bit_u8 nth_append)
  then show ?thesis using small_item[of "0x47" ?body ?d rest] by simp
qed

lemma address_space_type_code: "address_space_type (space_code t) = Ok t"
  by (cases t) (simp_all add: address_space_type_def space_code_def)

lemma address_fields:
  assumes len: "length pre = 6" and w: "1 \<le> width" "width \<le> 8"
    and fits: "list_all (\<lambda>w. unat w < 256 ^ width) ws" and i: "i < length ws"
  shows "address_field K (pre @ concat (map (\<lambda>w. to_le_bytes width (unat w)) ws)) width i = Ok (ws ! i)"
proof -
  let ?enc = "\<lambda>ws. concat (map (\<lambda>w. to_le_bytes width (unat (w :: u64))) ws)"
  have "length (?enc ws') = width * length ws'" for ws' by (induction ws') simp_all
  moreover have "?enc ws = ?enc (take i ws) @ to_le_bytes width (unat (ws ! i)) @ ?enc (drop (Suc i) ws)"
    using i by (subst id_take_nth_drop[OF i]) simp
  ultimately show ?thesis
    using address_field_at[of "pre @ ?enc (take i ws)" width i "ws ! i" "?enc (drop (Suc i) ws)"]
      fits i w len by (simp add: list_all_length)
qed

lemma decode_address:
  assumes "width \<in> {2, 4, 8}"
    and fits: "list_all (\<lambda>w. unat w < 256 ^ width)
       [granularity d, fst (address_range d), snd (address_range d), translation_offset d, as_length d]"
    and "bit flags 3 = is_maximum_address_fixed d" "bit flags 2 = is_minimum_address_fixed d"
    and "bit flags 1 = (decode_type d = Subtractive)"
  shows "resource_descriptor K (([address_tag width, word_of_nat (5 * width + 3), 0,
           space_code (resource_type d), flags, specific] @ address_bytes width d) @ rest)
       = Ok (Some (AddressSpace d), rest)"
proof -
  let ?pre = "[address_tag width, word_of_nat (5 * width + 3), 0, space_code (resource_type d), flags, specific]"
  let ?bs = "?pre @ address_bytes width d"
  let ?ws = "[granularity d, fst (address_range d), snd (address_range d), translation_offset d, as_length d]"
  have field: "address_field K ?bs width i = (Ok (?ws ! i) :: (_, aml_error) res)" if "i < 5" for i
    unfolding address_bytes_def using that assms(1) by (intro address_fields fits) auto
  have len: "length ?bs = 6 + width * 5" by (simp add: address_bytes_def)
  have "address_space_of K width ?bs = Ok (AddressSpace d)"
    using assms(3-5) field[of 0] field[of 1] field[of 2] field[of 3] field[of 4] len
    by (cases d, cases "decode_type d")
      (auto simp: address_space_of_def byte_at_def get_bit_u8 address_space_type_code)
  then have "large_descriptor K (take_bit 7 (address_tag width)) ?bs = Ok (AddressSpace d)"
    using assms(1) by (auto simp: large_descriptor_def address_tag_def)
  moreover have "bit (address_tag width) 7" by (simp add: address_tag_def)
  moreover have "unat (word_of_nat (5 * width + 3) :: u16) + 3 = length ?bs"
    using len assms(1) by auto
  moreover have "?bs = address_tag width # to_le_bytes 2 (unat (word_of_nat (5 * width + 3) :: u16)) @
       (space_code (resource_type d) # flags # specific # address_bytes width d)"
    using assms(1) by (auto simp: to_le_bytes_unroll)
  ultimately show ?thesis by (intro large_item)
qed

lemma decode_encoded: "encodes bs d \<Longrightarrow> resource_descriptor K (bs @ rest) = Ok (Some d, rest)"
  by (induction rule: encodes.induct)
    (rule decode_memory decode_address decode_irq_no_flags decode_irq_flags decode_irq_extended
      decode_dma decode_io_port | assumption)+

lemma decode_template:
  assumes "list_all2 encodes encoded ds"
  shows "resource_loop K (concat encoded @ end_tag check) acc = Ok (acc @ ds)"
  using assms
proof (induction arbitrary: acc)
  case Nil
  then show ?case by (simp add: resource_loop.simps end_item)
next
  case (Cons bs encoded d ds)
  have "resource_loop K (bs @ concat encoded @ end_tag check) acc
      = resource_loop K (concat encoded @ end_tag check) (acc @ [d])"
    by (subst resource_loop.simps) (simp add: decode_encoded[OF Cons.hyps(1)] end_tag_def)
  then show ?case using Cons.IH by simp
qed

end

interpretation env_rc: resource_crates std_env
  by unfold_locales

subsection \<open>The template of a buffer\<close>

lemma template_list:
  assumes "resource_crates K" "list_all2 encodes encoded ds"
    and "buffer_data c r = concat encoded @ end_tag check" "r \<notin> set (locked c)"
  shows "resource_descriptor_list K (Buffer r) c = Ok (ds, c)"
  using assms
  by (simp add: resource_descriptor_list_def with_lock_def unlock_def reads_def
      resource_crates.decode_template)

text \<open>
  C24. A buffer that holds encoded descriptors of the kinds the code supports followed by an end tag is
  decoded to the list of their resources, in order; the context is left as it was. The format is that of the specification of ACPI and of
  the code with two remarks. In an extended interrupt descriptor a set bit 2 of the flags is an active low interrupt, as the
  specification has it, although the comment above the code says active high. The two bytes of an \<open>IRQ\<close> descriptor are taken as the
  number of the interrupt, as the code and its tests do, where the specification and the comment have a mask with one bit for
  each interrupt.
\<close>

theorem resource_template_roundtrip:
  assumes "bit_field_crate K" "byteorder_crate K"
    and "list_all2 encodes encoded ds"
    and "buffer_data c r = concat encoded @ end_tag check" "r \<notin> set (locked c)"
  shows "resource_descriptor_list K (Buffer r) c = Ok (ds, c)"
  using template_list[OF resource_crates.intro[OF assms(1,2)] assms(3-5)] .

theorem resource_template_roundtrip_witness:
  "resource_descriptor_list std_env (Buffer 0)
     (blank_context\<lparr>buffers := [[0x23, 0x0B, 0x00, 0x18, 0x2A, 0x04, 0x25, 0x79, 0x00]]\<rparr>)
   = Ok ([Irq \<lparr>is_consumer = False, trigger = LevelTrigger, polarity = ActiveLow, is_shared = True,
               is_wake_capable = False, irq = 11\<rparr>,
          Dma \<lparr>channel_mask = 4, supported_speeds = TypeA, is_bus_master = True,
               transfer_type_preference = Both8And16Bit\<rparr>],
       blank_context\<lparr>buffers := [[0x23, 0x0B, 0x00, 0x18, 0x2A, 0x04, 0x25, 0x79, 0x00]]\<rparr>)"
proof (rule resource_template_roundtrip[OF env_bf.bit_field_crate_axioms env_bo.byteorder_crate_axioms])
  have "encodes [0x23, 0x0B, 0x00, 0x18]
      (Irq \<lparr>is_consumer = False, trigger = LevelTrigger, polarity = ActiveLow, is_shared = True,
               is_wake_capable = False, irq = 11\<rparr>)"
    using encodes.irq_flags[of 11 "0x18"] by (simp add: to_le_bytes_unroll)
  moreover have "encodes [0x2A, 0x04, 0x25]
      (Dma \<lparr>channel_mask = 4, supported_speeds = TypeA, is_bus_master = True,
               transfer_type_preference = Both8And16Bit\<rparr>)"
    using encodes.dma[of 4 TypeA True Both8And16Bit] by (simp add: speed_code_def preference_code_def)
  ultimately show "list_all2 encodes [[0x23, 0x0B, 0x00, 0x18], [0x2A, 0x04, 0x25]]
      [Irq \<lparr>is_consumer = False, trigger = LevelTrigger, polarity = ActiveLow, is_shared = True,
               is_wake_capable = False, irq = 11\<rparr>,
          Dma \<lparr>channel_mask = 4, supported_speeds = TypeA, is_bus_master = True,
               transfer_type_preference = Both8And16Bit\<rparr>]" by simp
qed (simp_all add: buffer_data_def end_tag_def blank_context_def)

text \<open>
  A template that is cut in the middle of its first descriptor is not an error of the parser: the code
  slices past the end of the buffer and panics.
\<close>

theorem truncated_descriptor_panics:
  assumes "bit_field_crate K" "byteorder_crate K"
    and "\<not> bit b0 7" "length body < unat (take_bit 3 b0)"
    and "buffer_data c r = b0 # body" "r \<notin> set (locked c)"
  shows "resource_descriptor_list K (Buffer r) c = Panic"
  using assms
  by (simp add: resource_descriptor_list_def with_lock_def reads_def resource_loop.simps resource_descriptor_def
      byte_at_def bit_field_crate.get_bit_u8 bit_field_crate.get_bits_u8 split_at_def)

theorem truncated_descriptor_panics_witness:
  "resource_descriptor_list std_env (Buffer 0) (blank_context\<lparr>buffers := [[0x23, 0x0B]]\<rparr>) = Panic"
  by (rule truncated_descriptor_panics[OF env_bf.bit_field_crate_axioms env_bo.byteorder_crate_axioms])
    (simp_all add: buffer_data_def blank_context_def)

end
