(* ===== verification/Pci_Correct.thy ===== *)
theory Pci_Correct
  imports Pci_Routing Aml_Safety_Term Aml_Fuel Resource_Correct
begin

section \<open>Interrupt routing is correct\<close>

text \<open>
  The invariant and the fuel for the two operations of \<open>pci_routing.rs\<close>; the rows of a routing
  table as the firmware writes them, and the proof that the table the code builds from them routes every
  pin by the first row for it.
\<close>

subsection \<open>The invariant of the context\<close>

lemma asat_resource_descriptor_list [asat_intros]:
  "stable P \<Longrightarrow> asat P (resource_descriptor_list K v) any any"
  unfolding resource_descriptor_list_def
  by (cases v; simp only: aml_value.case) (rule asat_intros stable_intros | simp)+

lemma asat_package_at:
  "(\<And>c. P c \<Longrightarrow> list_ok vok c vs) \<Longrightarrow> asat P (pure_res (package_at vs i)) vok any"
  by (rule asat_reads) (auto simp: package_at_def list_ok_def any_simp split: if_splits)

lemma asat_route_source:
  assumes "stable P" "\<And>c. P c \<Longrightarrow> list_ok vok c vs"
  shows "asat P (route_source E n path vs) any any"
proof -
  have gsi: "asat P' (act_bind (pure_res (package_at vs 3)) (\<lambda>index.
      act_bind (as_integer E n index) (\<lambda>gsi.
      act_bind (pure_res (gsi_of gsi)) (\<lambda>gsi'. ret (Gsi gsi'))))) any any"
    if "stable P'" "\<And>c. P' c \<Longrightarrow> list_ok vok c vs" for P'
    by (rule asat_package_at asat_intros stable_intros asint_ok_as_integer that | simp)+
  show ?thesis
    unfolding route_source_def
  proof (rule asat_bind[where ?Q1.0 = vok])
    fix source
    show "asat (\<lambda>c. P c \<and> vok c source) (case source of
         Integer w \<Rightarrow>
           if w = 0 then act_bind (pure_res (package_at vs 3)) (\<lambda>index.
             act_bind (as_integer E n index) (\<lambda>gsi.
             act_bind (pure_res (gsi_of gsi)) (\<lambda>gsi'. ret (Gsi gsi'))))
           else fail PrtInvalidSource
       | String name \<Rightarrow>
           act_bind (pure_res (from_str name)) (\<lambda>link.
           act_bind (reads (\<lambda>c. search_for_level (ns c) link path)) (\<lambda>link_object_name.
             ret (LinkObject link_object_name)))
       | _ \<Rightarrow> fail PrtInvalidSource) any any"
      by (cases source; simp only: aml_value.case)
        (rule gsi asat_if asat_intros stable_intros assms | simp add: assms(2))+
  qed (rule asat_package_at stable_intros assms; simp add: assms(2))+
qed

lemma asat_route_entry:
  assumes "stable P" "\<And>c. P c \<Longrightarrow> list_ok vok c vs"
  shows "asat P (route_entry E n path vs) any any"
  unfolding route_entry_def
  by (rule asat_package_at asat_route_source asat_intros stable_intros asint_ok_as_integer assms
      | simp add: assms(2))+

lemma asat_route_entries:
  assumes "stable P" "\<And>c. P c \<Longrightarrow> list_ok vok c vs"
  shows "asat P (route_entries E n path vs entries) any any"
  using assms
proof (induction vs arbitrary: entries P)
  case (Cons v vs)
  have elements: "list_ok vok c us" if "v = Package us" "P c" for c us
    using Cons.prems(2)[OF that(2)] that(1) by (simp add: list_ok_def vok_def)
  show ?case
    by (cases v; simp only: route_entries.simps aml_value.case)
      (rule Cons.IH asat_route_entry asat_intros stable_intros Cons.prems(1)
        | simp add: elements | simp add: Cons.prems(2)[unfolded list_ok_simps])+
qed (simp only: route_entries.simps, rule asat_intros, simp add: any_simp)

lemma asat_from_prt_path [asat_intros]:
  assumes "host_ok E" "stable P" "is_absolute path"
  shows "asat P (from_prt_path E n path) any any"
  unfolding from_prt_path_def
proof (rule asat_bind[where ?Q1.0 = vok])
  show "asat P (invoke E n path args_empty) vok any"
    by (rule asat_intros assms args_empty_ok | simp add: abs_ok_def assms)+
  show "asat (\<lambda>c. P c \<and> vok c prt) (case prt of
         Package inner_values \<Rightarrow> route_entries E n path inner_values []
       | _ \<Rightarrow> fail (IncompatibleValueConversion (type_of prt) PackageType)) any any" for prt
    by (cases prt; simp only: aml_value.case)
      (rule asat_route_entries asat_intros stable_intros assms | simp add: vok_def list_ok_def)+
qed (rule stable_intros assms)+

lemma asat_route [asat_intros]:
  assumes "host_ok E" "stable P"
  shows "asat P (route E n entries dev func p) any any"
proof -
  have one: "asat P' (case resources of [Irq descriptor] \<Rightarrow> ret descriptor
      | _ \<Rightarrow> fail UnexpectedResourceType) any any" for P' resources
    by (simp split: list.split resource.split) (rule asat_intros | intro allI conjI impI)+
  show ?thesis
    unfolding route_def
  proof (rule asat_bind[where ?Q1.0 = any])
    fix entry
    show "asat (\<lambda>c. P c \<and> any c entry) (case pr_route_type entry of
         Gsi gsi \<Rightarrow>
           ret \<lparr>is_consumer = True, trigger = LevelTrigger, polarity = ActiveLow, is_shared = True,
                is_wake_capable = False, irq = gsi\<rparr>
       | LinkObject name \<Rightarrow>
           act_bind (invoke_at E n ''_CRS'' name) (\<lambda>link_crs.
           act_bind (resource_descriptor_list E link_crs) (\<lambda>resources.
             case resources of
               [Irq descriptor] \<Rightarrow> ret descriptor
             | _ \<Rightarrow> fail UnexpectedResourceType))) any any"
      by (cases "pr_route_type entry"; simp only: pci_route_type.case)
        (rule one asat_intros stable_intros assms | simp)+
  qed (rule asat_intros stable_intros assms)+
qed

subsection \<open>Fuel\<close>

lemma amono_route_entry [fuel_intros]:
  assumes "n \<le> n'"
  shows "amono (route_entry E n path vs) (route_entry E n' path vs)"
proof -
  have source: "amono (route_source E n path vs) (route_source E n' path vs)"
    unfolding route_source_def
    by (rule amono_bind, rule fuel_intros) (simp split: aml_value.split, (rule fuel_intros assms | intro allI conjI impI)+)
  show ?thesis unfolding route_entry_def by (rule source fuel_intros assms)+
qed

lemma amono_route_entries [fuel_intros]:
  assumes "n \<le> n'"
  shows "amono (route_entries E n path vs entries) (route_entries E n' path vs entries)"
proof (induction vs arbitrary: entries)
  case (Cons v vs)
  show ?case by (cases v; simp only: route_entries.simps aml_value.case) (rule Cons.IH fuel_intros assms)+
qed (simp, rule fuel_intros)

lemma amono_from_prt_path [fuel_intros]:
  assumes "n \<le> n'"
  shows "amono (from_prt_path E n path) (from_prt_path E n' path)"
  unfolding from_prt_path_def
  by (rule amono_bind, rule fuel_intros, rule assms)
    (simp split: aml_value.split, (rule fuel_intros assms | intro allI conjI impI)+)

lemma amono_route [fuel_intros]:
  assumes "n \<le> n'"
  shows "amono (route E n entries dev func p) (route E n' entries dev func p)"
  unfolding route_def
  by (rule amono_bind, rule fuel_intros assms)
    (simp split: pci_route_type.split, (rule fuel_intros assms | intro allI conjI impI)+)

subsection \<open>The rows of a routing table\<close>

text \<open>
  A row: device, function, pin, and the source of the interrupt, a global interrupt or a link
  device named by one segment.
\<close>

datatype row_source = GsiRow u32 | LinkRow name_seg

datatype prt_row = PrtRow u16 u16 pin row_source

fun pin_number :: "pin \<Rightarrow> u64" where
  "pin_number IntA = 0"
| "pin_number IntB = 1"
| "pin_number IntC = 2"
| "pin_number IntD = 3"

fun source_values :: "row_source \<Rightarrow> aml_value list" where
  "source_values (GsiRow g) = [Integer 0, Integer (ucast g)]"
| "source_values (LinkRow seg) = [String (name_seg_as_str seg), Integer 0]"

text \<open>The package the firmware writes for a row.\<close>

fun row_value :: "prt_row \<Rightarrow> aml_value" where
  "row_value (PrtRow dev func p src) =
     Package ([Integer (push_bit 16 (ucast dev) OR ucast func), Integer (pin_number p)] @ source_values src)"

fun row_matches :: "u16 \<Rightarrow> u16 \<Rightarrow> pin \<Rightarrow> prt_row \<Rightarrow> bool" where
  "row_matches dev func p (PrtRow dev' func' p' _) \<longleftrightarrow>
     dev' = dev \<and> (func' = 0xffff \<or> func' = func) \<and> p' = p"

text \<open>The device a link segment refers to: the nearest level of that name around the \<open>_PRT\<close> object.\<close>

definition link_dir :: "namespace \<Rightarrow> name_seg list \<Rightarrow> name_seg \<Rightarrow> name_seg list option" where
  "link_dir s prt seg =
     map_option (\<lambda>d. d @ [seg]) (find (\<lambda>d. level_at s (d @ [seg]) \<noteq> None) (ancestors prt))"

fun source_ok :: "namespace \<Rightarrow> name_seg list \<Rightarrow> row_source \<Rightarrow> bool" where
  "source_ok s prt (GsiRow g) \<longleftrightarrow> True"
| "source_ok s prt (LinkRow seg) \<longleftrightarrow> valid_seg seg \<and> link_dir s prt seg \<noteq> None"

fun row_ok :: "namespace \<Rightarrow> name_seg list \<Rightarrow> prt_row \<Rightarrow> bool" where
  "row_ok s prt (PrtRow dev func p src) \<longleftrightarrow> source_ok s prt src"

fun source_type :: "namespace \<Rightarrow> name_seg list \<Rightarrow> row_source \<Rightarrow> pci_route_type" where
  "source_type s prt (GsiRow g) = Gsi g"
| "source_type s prt (LinkRow seg) = LinkObject (abs_path (the (link_dir s prt seg)))"

fun row_entry :: "namespace \<Rightarrow> name_seg list \<Rightarrow> prt_row \<Rightarrow> pci_route" where
  "row_entry s prt (PrtRow dev func p src) =
     \<lparr>pr_device = dev, pr_function = func, pr_pin = p, pr_route_type = source_type s prt src\<rparr>"

lemma row_entry_matches: "route_matches dev func p (row_entry s prt row) = row_matches dev func p row"
  by (cases row) (simp add: route_matches_def)

lemma pin_of_number [simp]: "pin_of (pin_number p) = Ok p"
  by (cases p) (simp_all add: pin_of_def)

lemma gsi_of_ucast [simp]: "gsi_of (ucast (g :: u32)) = Ok g"
proof -
  have less: "unat g < 2 ^ 32" using unsigned_less[of g, where 'a = nat] by simp
  then have "unat (ucast g :: u64) = unat g" by (simp add: unsigned_ucast_eq take_bit_nat_eq_self)
  moreover have "ucast (ucast g :: u64) = g" by (rule bit_word_eqI) (simp add: bit_simps)
  ultimately show ?thesis using less by (simp add: gsi_of_def)
qed

lemma row_address:
  assumes "bit_field_crate E"
  shows "bits_u16 E (push_bit 16 (ucast (dev :: u16)) OR ucast (func :: u16)) 16 32 = Ok dev"
    and "bits_u16 E (push_bit 16 (ucast (dev :: u16)) OR ucast (func :: u16)) 0 16 = Ok func"
proof -
  let ?w = "push_bit 16 (ucast dev) OR ucast func :: u64"
  have small: "unat (ucast d :: u64) < 2 ^ 16" "ucast (ucast d :: u64) = d" for d :: u16
  proof -
    show "unat (ucast d :: u64) < 2 ^ 16"
      using unsigned_less[of d, where 'a = nat] by (simp add: unsigned_ucast_eq take_bit_nat_eq_self)
    show "ucast (ucast d :: u64) = d" by (rule bit_word_eqI) (simp add: bit_simps)
  qed
  have "take_bit 16 (drop_bit 16 ?w) = ucast dev" "take_bit 16 ?w = ucast func"
    by (rule bit_word_eqI; auto simp: bit_simps dest: bit_imp_le_length)+
  with small[of dev] small[of func]
  show "bits_u16 E ?w 16 32 = Ok dev" "bits_u16 E ?w 0 16 = Ok func"
    by (simp_all add: bits_u16_def bit_field_crate.get_bits_u64[OF assms])
qed

lemma from_str_seg: "valid_seg seg \<Longrightarrow> from_str (name_seg_as_str seg) = Ok [Segment seg]"
  using from_str_as_string[of "[Segment seg]"] as_string_eq[of "[Segment seg]"] by (simp add: wf_name_def)

lemma row_source_decoded:
  assumes "source_ok (ns c) prt src"
  shows "route_source E (Suc n) (abs_path prt) ([a, b] @ source_values src) c
       = Ok (source_type (ns c) prt src, c)"
  using assms
  by (cases src)
    (auto simp: route_source_def package_at_def act_bind_def reads_def ret_def from_str_seg
      search_for_level_seg link_dir_def)

lemma row_decoded:
  assumes "bit_field_crate E" "row_ok (ns c) prt row" "row_value row = Package vs"
  shows "route_entry E (Suc n) (abs_path prt) vs c = Ok (row_entry (ns c) prt row, c)"
proof (cases row)
  case (PrtRow dev func p src)
  with assms(2,3) show ?thesis
    using row_source_decoded[of c prt src E n]
    by (auto simp: route_entry_def package_at_def act_bind_def reads_def ret_def row_address[OF assms(1)])
qed

lemma rows_decoded:
  assumes "bit_field_crate E" "list_all (row_ok (ns c) prt) rows"
  shows "route_entries E (Suc n) (abs_path prt) (map row_value rows) entries c
       = Ok (entries @ map (row_entry (ns c) prt) rows, c)"
  using assms(2)
proof (induction rows arbitrary: entries)
  case (Cons row rows)
  obtain vs where vs: "row_value row = Package vs" by (cases row) simp
  with Cons show ?case
    by (simp add: act_bind_def row_decoded[OF assms(1) _ vs])
qed (simp add: ret_def)

definition seg_CRS :: name_seg where
  "seg_CRS = NameSeg 0x5F 0x43 0x52 0x53"

text \<open>The interrupt the source of a row stands for.\<close>

inductive routes_to :: "aml_context \<Rightarrow> name_seg list \<Rightarrow> row_source \<Rightarrow> irq_descriptor \<Rightarrow> bool" where
  gsi: "routes_to c prt (GsiRow g)
     \<lparr>is_consumer = True, trigger = LevelTrigger, polarity = ActiveLow, is_shared = True,
      is_wake_capable = False, irq = g\<rparr>"
| link: "link_dir (ns c) prt seg = Some dir \<Longrightarrow>
     get_by_path (ns c) (abs_path (dir @ [seg_CRS])) = Ok (Buffer r) \<Longrightarrow>
     buffer_data c r = template @ end_tag check \<Longrightarrow> encodes template (Irq d) \<Longrightarrow> r \<notin> set (locked c) \<Longrightarrow>
     routes_to c prt (LinkRow seg) d"

inductive_cases routes_to_LinkE: "routes_to c prt (LinkRow seg) d"
inductive_simps routes_to_Gsi [simp]: "routes_to c prt (GsiRow g) d"

lemma invoke_constant:
  assumes "get_by_path (ns c) path = Ok v" "\<nexists>flags code. v = Method flags code"
  shows "invoke E n path a c = Ok (v, c)"
  using assms by (cases v) (simp_all add: invoke_def invoke_method_def act_bind_def reads_def ret_def)

lemma from_str_CRS: "from_str ''_CRS'' = Ok [Segment seg_CRS]"
  by code_simp

lemma route_source_correct:
  assumes "resource_crates E" "routes_to c prt src d" "find (route_matches dev func p) entries = Some entry"
    and "pr_route_type entry = source_type (ns c) prt src"
  shows "route E n entries dev func p c = Ok (d, c)"
proof (cases src)
  case (GsiRow g)
  with assms show ?thesis by (simp add: route_def act_bind_def reads_def ret_def)
next
  case (LinkRow seg)
  with assms(2) obtain dir r template check where
    link: "link_dir (ns c) prt seg = Some dir" "r \<notin> set (locked c)"
    "get_by_path (ns c) (abs_path (dir @ [seg_CRS])) = Ok (Buffer r)"
    "buffer_data c r = template @ end_tag check" "encodes template (Irq d)"
    by (auto elim: routes_to_LinkE)
  have "invoke E n (abs_path (dir @ [seg_CRS])) args_empty c = Ok (Buffer r, c)"
    using link(3) by (rule invoke_constant) simp
  moreover have "resource_descriptor_list E (Buffer r) c = Ok ([Irq d], c)"
    using template_list[OF assms(1), of "[template]" "[Irq d]"] link by simp
  ultimately show ?thesis
    using assms(3,4) LinkRow link(1)
    by (simp add: route_def act_bind_def reads_def ret_def invoke_at_def from_str_CRS)
qed

lemma find_map: "find P (map f xs) = map_option f (find (\<lambda>x. P (f x)) xs)"
  by (induction xs) auto

lemma find_snoc: "find P xs = None \<Longrightarrow> P x \<Longrightarrow> find P (xs @ [x]) = Some x"
  by (induction xs) (auto split: if_splits)

lemma from_prt_path_rows:
  assumes "bit_field_crate E" "get_by_path (ns c) (abs_path prt) = Ok (Package (map row_value rows))"
    and "list_all (row_ok (ns c) prt) rows"
  shows "from_prt_path E (Suc n) (abs_path prt) c = Ok (map (row_entry (ns c) prt) rows, c)"
  using assms by (simp add: from_prt_path_def act_bind_def invoke_constant rows_decoded)

text \<open>
  C25. A \<open>_PRT\<close> object that holds the packages of some rows, each a pin of a device with a
  global interrupt or the name of a link device: the table is built, without changing the context, and
  routes a pin by the first row for its device, its function or all functions, and the pin. The
  interrupt is the global one, level triggered, active low and shared, or the one that the
  resource template in \<open>_CRS\<close> of the nearest link device of that name describes. A pin that
  has no row is the error \<open>PrtNoEntry\<close>.
\<close>

theorem prt_routing_correct:
  assumes "bit_field_crate E" "byteorder_crate E"
    and "get_by_path (ns c) (abs_path prt) = Ok (Package (map row_value rows))"
    and "list_all (row_ok (ns c) prt) rows"
  shows "\<exists>table. from_prt_path E (Suc n) (abs_path prt) c = Ok (table, c)
    \<and> (\<forall>dev func p. find (row_matches dev func p) rows = None \<longrightarrow>
         route E m table dev func p c = Err (PrtNoEntry, c))
    \<and> (\<forall>dev func p dev' func' p' src d. find (row_matches dev func p) rows = Some (PrtRow dev' func' p' src) \<longrightarrow>
         routes_to c prt src d \<longrightarrow> route E m table dev func p c = Ok (d, c))"
proof (intro exI conjI allI impI)
  let ?table = "map (row_entry (ns c) prt) rows"
  have found: "find (route_matches dev func p) ?table
      = map_option (row_entry (ns c) prt) (find (row_matches dev func p) rows)" for dev func p
    by (simp add: find_map row_entry_matches)
  show "from_prt_path E (Suc n) (abs_path prt) c = Ok (?table, c)"
    using assms(1,3,4) by (rule from_prt_path_rows)
  show "route E m ?table dev func p c = Err (PrtNoEntry, c)"
    if "find (row_matches dev func p) rows = None" for dev func p
    using that by (simp add: route_def act_bind_def reads_def found)
  show "route E m ?table dev func p c = Ok (d, c)"
    if "find (row_matches dev func p) rows = Some (PrtRow dev' func' p' src)" "routes_to c prt src d"
    for dev func p dev' func' p' src d
    using route_source_correct[OF resource_crates.intro[OF assms(1,2)] that(2), of dev func p ?table] that(1)
    by (simp add: found)
qed

theorem prt_routing_correct_witness:
  "\<exists>table. from_prt_path std_env 1 (abs_path [seg_A])
      (blank_context\<lparr>ns := ns_with (Package [row_value (PrtRow 2 0xffff IntB (GsiRow 17))])\<rparr>)
    = Ok (table, blank_context\<lparr>ns := ns_with (Package [row_value (PrtRow 2 0xffff IntB (GsiRow 17))])\<rparr>)
    \<and> route std_env 0 table 2 5 IntB
        (blank_context\<lparr>ns := ns_with (Package [row_value (PrtRow 2 0xffff IntB (GsiRow 17))])\<rparr>)
      = Ok (\<lparr>is_consumer = True, trigger = LevelTrigger, polarity = ActiveLow, is_shared = True,
             is_wake_capable = False, irq = 17\<rparr>,
            blank_context\<lparr>ns := ns_with (Package [row_value (PrtRow 2 0xffff IntB (GsiRow 17))])\<rparr>)"
proof -
  let ?row = "PrtRow 2 0xffff IntB (GsiRow 17)"
  let ?c = "blank_context\<lparr>ns := ns_with (Package [row_value ?row])\<rparr>"
  have "get_by_path (ns ?c) (abs_path [seg_A]) = Ok (Package (map row_value [?row]))"
    by (simp del: row_value.simps)
  from prt_routing_correct[OF env_bf.bit_field_crate_axioms env_bo.byteorder_crate_axioms this, of 0 0]
  obtain table where t: "from_prt_path std_env (Suc 0) (abs_path [seg_A]) ?c = Ok (table, ?c)"
    and r: "\<And>dev func p dev' func' p' src d. find (row_matches dev func p) [?row] = Some (PrtRow dev' func' p' src) \<Longrightarrow>
         routes_to ?c [seg_A] src d \<Longrightarrow> route std_env 0 table dev func p ?c = Ok (d, ?c)"
    by (auto simp del: row_value.simps)
  show ?thesis
    by (rule exI[of _ table]) (use t in \<open>auto simp del: row_value.simps intro!: r[of 2 5 IntB]\<close>)
qed

text \<open>
  The source of a row may be a relative path of more than one segment. The search returns such a path as
  it is, without resolving it, and routing the pin then panics: \<open>resolve\<close> asserts that its scope is
  absolute.
\<close>

theorem relative_link_panics:
  assumes "valid_seg s" "valid_seg t" "find (route_matches dev func p) entries = None"
  shows "route_source E n prt [a, b, String (as_string [Segment s, Segment t]), i] c
        = Ok (LinkObject [Segment s, Segment t], c)
    \<and> route E m (entries @ [\<lparr>pr_device = dev, pr_function = func, pr_pin = p,
                              pr_route_type = LinkObject [Segment s, Segment t]\<rparr>]) dev func p c = Panic"
proof -
  have "from_str (as_string [Segment s, Segment t]) = Ok [Segment s, Segment t]"
    by (rule from_str_as_string) (simp add: wf_name_def assms)
  then show ?thesis
    using assms(3)
    by (simp add: find_snoc route_source_def package_at_def act_bind_def reads_def ret_def search_for_level_def
        route_def route_matches_def invoke_at_def from_str_CRS resolve_def)
qed

theorem relative_link_panics_witness:
  "route_source std_env 1 (abs_path [seg_A])
      [Integer 0, Integer 0, String (as_string [Segment seg_A, Segment seg_CRS]), Integer 0] blank_context
     = Ok (LinkObject [Segment seg_A, Segment seg_CRS], blank_context)
   \<and> route std_env 1 ([] @ [\<lparr>pr_device = 0, pr_function = 0, pr_pin = IntA,
        pr_route_type = LinkObject [Segment seg_A, Segment seg_CRS]\<rparr>]) 0 0 IntA blank_context = Panic"
  by (rule relative_link_panics)
    (simp_all add: seg_A_def seg_CRS_def is_lead_name_char_def is_name_char_def)

end
