(* ===== verification/Phys_Mem.thy ===== *)
theory Phys_Mem
  imports Prelude
begin

section \<open>Physical memory and its mappings\<close>

text \<open>
  \<open>rsdp/src/handler.rs\<close>: the regions of physical memory that the handler of the user maps and
  unmaps. The handler is a parameter of the model: the contents of physical memory, how much it
  maps for a request, and what can be read through a mapping while some mappings are live. A read the handler
  does not allow is undefined behaviour in the sources; the model stops there with
  \<open>Panic\<close>. Addresses are natural numbers, \<open>usize\<close> has 64 bits.
\<close>

subsection \<open>Handlers, mappings and computations\<close>

text \<open>\<open>virtual_start\<close> tells the mappings apart; the address itself does not matter.\<close>

record physical_mapping =
  physical_start :: nat
  virtual_start :: nat
  region_length :: nat
  mapped_length :: nat

record vmem =
  live :: "nat list"
  next_virtual :: nat

record acpi_handler =
  phys :: "nat \<Rightarrow> u8"
  mapped_length_for :: "nat \<Rightarrow> nat \<Rightarrow> nat"
  can_read :: "nat list \<Rightarrow> physical_mapping \<Rightarrow> nat \<Rightarrow> bool"

type_synonym ('a, 'e) mact = "vmem \<Rightarrow> ('a \<times> vmem, 'e \<times> vmem) res"

definition mret :: "'a \<Rightarrow> ('a, 'e) mact" where
  "mret x s = Ok (x, s)"

definition mbind :: "('a, 'e) mact \<Rightarrow> ('a \<Rightarrow> ('b, 'e) mact) \<Rightarrow> ('b, 'e) mact" where
  "mbind m f s = and_then (m s) (\<lambda>(x, s'). f x s')"

definition mreads :: "(vmem \<Rightarrow> ('a, 'e) res) \<Rightarrow> ('a, 'e) mact" where
  "mreads f s = and_then (map_err (\<lambda>e. (e, s)) (f s)) (\<lambda>x. Ok (x, s))"

abbreviation mpure :: "('a, 'e) res \<Rightarrow> ('a, 'e) mact" where
  "mpure r \<equiv> mreads (\<lambda>_. r)"

definition mmap_err :: "('e \<Rightarrow> 'f) \<Rightarrow> ('a, 'e) mact \<Rightarrow> ('a, 'f) mact" where
  "mmap_err f m s = map_err (\<lambda>(e, s'). (f e, s')) (m s)"

definition mapping_new :: "nat \<Rightarrow> nat \<Rightarrow> nat \<Rightarrow> nat \<Rightarrow> physical_mapping" where
  "mapping_new start virt region mapped =
     \<lparr>physical_start = start, virtual_start = virt, region_length = region, mapped_length = mapped\<rparr>"

definition map_physical_region :: "acpi_handler \<Rightarrow> nat \<Rightarrow> nat \<Rightarrow> (physical_mapping, 'e) mact" where
  "map_physical_region H address bytes s =
     Ok (mapping_new address (next_virtual s) bytes (mapped_length_for H address bytes),
         s\<lparr>live := next_virtual s # live s, next_virtual := Suc (next_virtual s)\<rparr>)"

definition unmap_state :: "physical_mapping \<Rightarrow> vmem \<Rightarrow> vmem" where
  "unmap_state m s = s\<lparr>live := remove1 (virtual_start m) (live s)\<rparr>"

text \<open>A mapping that goes out of scope when a computation ends, with a result or an error.\<close>

definition dropping :: "physical_mapping \<Rightarrow> ('a, 'e) mact \<Rightarrow> ('a, 'e) mact" where
  "dropping m act s =
     (case act s of
        Ok (x, s') \<Rightarrow> Ok (x, unmap_state m s')
      | Err (e, s') \<Rightarrow> Err (e, unmap_state m s')
      | Panic \<Rightarrow> Panic | Deadlock \<Rightarrow> Deadlock | OutOfFuel \<Rightarrow> OutOfFuel)"

definition with_region :: "acpi_handler \<Rightarrow> nat \<Rightarrow> nat \<Rightarrow> (physical_mapping \<Rightarrow> ('a, 'e) mact) \<Rightarrow> ('a, 'e) mact" where
  "with_region H address bytes f = mbind (map_physical_region H address bytes) (\<lambda>m. dropping m (f m))"

subsection \<open>Reading\<close>

text \<open>What lies behind a pointer: the byte at each offset, when it may be read.\<close>

type_synonym view = "nat \<Rightarrow> u8 option"

definition mapping_view :: "acpi_handler \<Rightarrow> vmem \<Rightarrow> physical_mapping \<Rightarrow> view" where
  "mapping_view H s m = (\<lambda>i. if can_read H (live s) m i then Some (phys H (physical_start m + i)) else None)"

definition bytes_view :: "bytes \<Rightarrow> view" where
  "bytes_view bs = (\<lambda>i. if i < length bs then Some (bs ! i) else None)"

definition view_from :: "view \<Rightarrow> nat \<Rightarrow> view" where
  "view_from v k = (\<lambda>i. v (k + i))"

definition read_view :: "view \<Rightarrow> nat \<Rightarrow> (bytes, 'e) res" where
  "read_view v n = unwrap_option (those (map v [0..<n]))"

lemma those_None: "None \<in> set xs \<Longrightarrow> those xs = None"
  by (induction xs) (auto split: option.split)

lemma read_view_Some:
  assumes "\<And>i. i < n \<Longrightarrow> v i = Some (f i)"
  shows "read_view v n = Ok (map f [0..<n])"
proof -
  have "those (map v xs) = Some (map f xs)" if "\<forall>i \<in> set xs. i < n" for xs
    using that assms by (induction xs) simp_all
  then show ?thesis by (simp add: read_view_def)
qed

text \<open>The fields of a packed structure, by their offset.\<close>

definition u8_at :: "bytes \<Rightarrow> nat \<Rightarrow> u8" where
  "u8_at bs i = (if i < length bs then bs ! i else 0)"

definition u16_at :: "bytes \<Rightarrow> nat \<Rightarrow> u16" where
  "u16_at bs i = word_of_nat (le_value (take 2 (drop i bs)))"

definition u32_at :: "bytes \<Rightarrow> nat \<Rightarrow> u32" where
  "u32_at bs i = word_of_nat (le_value (take 4 (drop i bs)))"

definition u64_at :: "bytes \<Rightarrow> nat \<Rightarrow> u64" where
  "u64_at bs i = word_of_nat (le_value (take 8 (drop i bs)))"

text \<open>The wrapping sum of all bytes.\<close>

definition sum_bytes :: "bytes \<Rightarrow> u8" where
  "sum_bytes bs = fold (\<lambda>byte sum. sum + byte) bs 0"

subsection \<open>Memory as a list of bytes\<close>

text \<open>The bytes at an address, and a view that can read them all.\<close>

definition mem_bytes :: "(nat \<Rightarrow> u8) \<Rightarrow> nat \<Rightarrow> nat \<Rightarrow> bytes" where
  "mem_bytes memory address n = map (\<lambda>i. memory (address + i)) [0..<n]"

definition total_view :: "(nat \<Rightarrow> u8) \<Rightarrow> nat \<Rightarrow> view" where
  "total_view memory address = (\<lambda>i. Some (memory (address + i)))"

lemma read_total [simp]: "read_view (total_view memory address) n = Ok (mem_bytes memory address n)"
  unfolding mem_bytes_def by (rule read_view_Some) (simp add: total_view_def)

lemma view_from_total [simp]: "view_from (total_view memory address) k = total_view memory (address + k)"
  by (simp add: view_from_def total_view_def add.assoc)

lemma read_bytes_view [simp]:
  assumes "n \<le> length bs"
  shows "read_view (bytes_view bs) n = Ok (take n bs)"
proof -
  have "read_view (bytes_view bs) n = Ok (map ((!) bs) [0..<n])"
    using assms by (intro read_view_Some) (simp add: bytes_view_def)
  also have "map ((!) bs) [0..<n] = take n bs" using assms by (intro nth_equalityI) simp_all
  finally show ?thesis .
qed

lemma length_mem_bytes [simp]: "length (mem_bytes memory address n) = n"
  by (simp add: mem_bytes_def)

lemma nth_mem_bytes [simp]: "i < n \<Longrightarrow> mem_bytes memory address n ! i = memory (address + i)"
  by (simp add: mem_bytes_def)

lemma take_mem_bytes [simp]: "take k (mem_bytes memory address n) = mem_bytes memory address (min k n)"
  by (rule nth_equalityI) simp_all

lemma drop_mem_bytes [simp]: "drop k (mem_bytes memory address n) = mem_bytes memory (address + k) (n - k)"
  by (rule nth_equalityI) (simp_all add: add.assoc)

subsection \<open>What handlers promise\<close>

locale handler_contract =
  fixes H :: acpi_handler
  assumes maps_enough: "bytes \<le> mapped_length_for H address bytes"
    and mapped_readable: "virtual_start m \<in> set l \<Longrightarrow> i < mapped_length m \<Longrightarrow> can_read H l m i"
begin

lemma read_live:
  assumes "virtual_start m \<in> set (live s)" "n \<le> mapped_length m"
  shows "read_view (mapping_view H s m) n = Ok (mem_bytes (phys H) (physical_start m) n)"
  unfolding mem_bytes_def using assms by (intro read_view_Some) (auto simp: mapping_view_def intro!: mapped_readable)

end

text \<open>
  A handler on a system that has all of physical memory mapped: every byte can be read at all
  times, and unmapping does nothing.
\<close>

locale direct_map = handler_contract +
  assumes always_readable: "can_read H l m i"
begin

lemma view_direct: "mapping_view H s m = total_view (phys H) (physical_start m)"
  by (simp add: mapping_view_def always_readable total_view_def)

end

text \<open>A handler that allows exactly the reads its contract demands.\<close>

locale strict_handler = handler_contract +
  assumes readable_mapped: "can_read H l m i \<longleftrightarrow> virtual_start m \<in> set l \<and> i < mapped_length m"
begin

lemma read_fault:
  assumes "virtual_start m \<notin> set (live s) \<and> 0 < n \<or> mapped_length m < n"
  shows "read_view (mapping_view H s m) n = Panic"
proof -
  let ?i = "if virtual_start m \<in> set (live s) then mapped_length m else 0"
  have "mapping_view H s m ?i = None" "?i < n"
    using assms by (auto simp: mapping_view_def readable_mapped)
  then have "None \<in> set (map (mapping_view H s m) [0..<n])" by force
  then have "those (map (mapping_view H s m) [0..<n]) = None" by (rule those_None)
  then show ?thesis by (simp add: read_view_def)
qed

end

definition direct_handler :: "(nat \<Rightarrow> u8) \<Rightarrow> acpi_handler" where
  "direct_handler memory =
     \<lparr>phys = memory, mapped_length_for = (\<lambda>address bytes. bytes), can_read = (\<lambda>l m i. True)\<rparr>"

text \<open>A handler that maps exactly what is asked for and allows no other read.\<close>

definition exact_handler :: "(nat \<Rightarrow> u8) \<Rightarrow> acpi_handler" where
  "exact_handler memory =
     \<lparr>phys = memory, mapped_length_for = (\<lambda>address bytes. bytes),
      can_read = (\<lambda>l m i. virtual_start m \<in> set l \<and> i < mapped_length m)\<rparr>"

text \<open>One that maps whole pages of 4096 bytes.\<close>

definition paging_handler :: "(nat \<Rightarrow> u8) \<Rightarrow> acpi_handler" where
  "paging_handler memory =
     \<lparr>phys = memory, mapped_length_for = (\<lambda>address bytes. (address + bytes + 4095) div 4096 * 4096 - address),
      can_read = (\<lambda>l m i. virtual_start m \<in> set l \<and> i < mapped_length m)\<rparr>"

interpretation direct: direct_map "direct_handler memory"
  by unfold_locales (simp_all add: direct_handler_def)

interpretation exact: strict_handler "exact_handler memory"
  by unfold_locales (simp_all add: exact_handler_def)

interpretation paging: strict_handler "paging_handler memory"
proof unfold_locales
  show "bytes \<le> mapped_length_for (paging_handler memory) address bytes" for address bytes
    using div_mult_mod_eq[of "address + bytes + 4095" 4096] mod_less_divisor[of 4096 "address + bytes + 4095"]
    by (simp add: paging_handler_def)
qed (simp_all add: paging_handler_def)

subsection \<open>Bit fields of wider integers\<close>

record acpi_crates = crates +
  get_bit_u16 :: "u16 \<Rightarrow> nat \<Rightarrow> bool"
  get_bits_u16 :: "u16 \<Rightarrow> nat \<Rightarrow> nat \<Rightarrow> u16"
  get_bit_u32 :: "u32 \<Rightarrow> nat \<Rightarrow> bool"
  get_bits_u32 :: "u32 \<Rightarrow> nat \<Rightarrow> nat \<Rightarrow> u32"

locale wide_bit_field_crate = bit_field_crate K for K :: "'z acpi_crates_scheme" +
  assumes get_bit_u16: "i < 16 \<Longrightarrow> get_bit_u16 K h i = bit h i"
    and get_bits_u16: "a < b \<Longrightarrow> b \<le> 16 \<Longrightarrow> get_bits_u16 K h a b = take_bit (b - a) (drop_bit a h)"
    and get_bit_u32: "i < 32 \<Longrightarrow> get_bit_u32 K d i = bit d i"
    and get_bits_u32: "a < b \<Longrightarrow> b \<le> 32 \<Longrightarrow> get_bits_u32 K d a b = take_bit (b - a) (drop_bit a d)"

definition std_acpi_crates :: acpi_crates where
  "std_acpi_crates = crates.extend std_crates
     (acpi_crates.fields (\<lambda>x i. bit x i) (\<lambda>x a b. take_bit (b - a) (drop_bit a x))
        (\<lambda>x i. bit x i) (\<lambda>x a b. take_bit (b - a) (drop_bit a x)))"

interpretation std_wide: wide_bit_field_crate std_acpi_crates
  by unfold_locales
    (auto simp: std_acpi_crates_def crates.defs acpi_crates.defs std_bf.get_bit_u8 std_bf.get_bits_u8
      std_bf.set_bit_u8 std_bf.set_bits_u8 std_bf.get_bit_u64 std_bf.get_bits_u64
      std_bf.get_bits_u64_range std_bf.set_bits_u64 std_bf.set_bits_u64_large)

text \<open>The step a computation takes on the state, for simplification.\<close>

lemmas mact_simps = mbind_def mret_def mreads_def dropping_def with_region_def map_physical_region_def
  mmap_err_def

end
