(* ===== verification/Rsdp.thy ===== *)
theory Rsdp
  imports Phys_Mem
begin

section \<open>The root pointer\<close>

text \<open>
  \<open>rsdp/src/lib.rs\<close>: the structure that points to the table of tables, its validation, and the search
  for it in the memory of a BIOS.
\<close>

datatype rsdp_error = NoValidRsdp | IncorrectSignature | InvalidOemId | InvalidChecksum

record rsdp =
  rsdp_signature :: bytes
  rsdp_checksum :: u8
  rsdp_oem_id :: bytes
  rsdp_revision :: u8
  rsdp_rsdt_address :: u32
  rsdp_length :: u32
  rsdp_xsdt_address :: u64
  rsdp_ext_checksum :: u8
  rsdp_reserved :: bytes

definition rsdp_size :: nat where
  "rsdp_size = 36"

definition rsdp_of :: "bytes \<Rightarrow> rsdp" where
  "rsdp_of bs =
     \<lparr>rsdp_signature = take 8 bs, rsdp_checksum = u8_at bs 8, rsdp_oem_id = take 6 (drop 9 bs),
      rsdp_revision = u8_at bs 15, rsdp_rsdt_address = u32_at bs 16, rsdp_length = u32_at bs 20,
      rsdp_xsdt_address = u64_at bs 24, rsdp_ext_checksum = u8_at bs 32,
      rsdp_reserved = take 3 (drop 33 bs)\<rparr>"

definition read_rsdp :: "view \<Rightarrow> (rsdp, 'e) res" where
  "read_rsdp v = and_then (read_view v rsdp_size) (\<lambda>bs. Ok (rsdp_of bs))"

definition RSDP_SIGNATURE :: bytes where
  "RSDP_SIGNATURE = [0x52, 0x53, 0x44, 0x20, 0x50, 0x54, 0x52, 0x20]"

definition RSDP_V1_LENGTH :: nat where
  "RSDP_V1_LENGTH = 20"

text \<open>\<open>self\<close> is a reference: validation reads the structure, and then as many bytes from it as its length says.\<close>

definition rsdp_validate :: "view \<Rightarrow> (unit, rsdp_error) res" where
  "rsdp_validate self =
     and_then (read_rsdp self) (\<lambda>r.
       if rsdp_signature r \<noteq> RSDP_SIGNATURE then Err IncorrectSignature
       else if \<not> utf8_valid (rsdp_oem_id r) then Err InvalidOemId
       else
         and_then (read_view self (if rsdp_revision r > 0 then unat (rsdp_length r) else RSDP_V1_LENGTH))
           (\<lambda>bytes. if sum_bytes bytes \<noteq> 0 then Err InvalidChecksum else Ok ()))"

definition rsdp_oem_id_str :: "rsdp \<Rightarrow> (string, 'e) res" where
  "rsdp_oem_id_str r = (if utf8_valid (rsdp_oem_id r) then Ok (string_of_bytes (rsdp_oem_id r)) else Panic)"

definition xsdt_address :: "rsdp \<Rightarrow> (u64, 'e) res" where
  "xsdt_address r = (if rsdp_revision r > 0 then Ok (rsdp_xsdt_address r) else Panic)"

subsection \<open>The search\<close>

definition EBDA_START_SEGMENT_PTR :: nat where "EBDA_START_SEGMENT_PTR = 0x40e"
definition EBDA_EARLIEST_START :: nat where "EBDA_EARLIEST_START = 0x80000"
definition EBDA_END :: nat where "EBDA_END = 0x9ffff"
definition RSDP_BIOS_AREA_START :: nat where "RSDP_BIOS_AREA_START = 0xe0000"
definition RSDP_BIOS_AREA_END :: nat where "RSDP_BIOS_AREA_END = 0xfffff"

lemmas area_constants = EBDA_START_SEGMENT_PTR_def EBDA_EARLIEST_START_def EBDA_END_def
  RSDP_BIOS_AREA_START_def RSDP_BIOS_AREA_END_def

text \<open>A range \<open>start..end\<close>.\<close>

type_synonym area = "nat \<times> nat"

definition find_search_areas :: "acpi_handler \<Rightarrow> (area list, 'e) mact" where
  "find_search_areas H =
     with_region H EBDA_START_SEGMENT_PTR 2 (\<lambda>ebda_start_mapping.
     mbind (mreads (\<lambda>s. read_view (mapping_view H s ebda_start_mapping) 2)) (\<lambda>bs.
       let ebda_start = unat (u16_at bs 0) * 16
       in mret
           [(RSDP_BIOS_AREA_START, RSDP_BIOS_AREA_END + 1),
            if EBDA_EARLIEST_START \<le> ebda_start \<and> ebda_start < EBDA_END
            then (ebda_start, ebda_start + 1024)
            else (EBDA_EARLIEST_START, EBDA_END + 1)]))"

text \<open>The addresses of \<open>area.step_by(16)\<close>.\<close>

definition step_by_16 :: "area \<Rightarrow> nat list" where
  "step_by_16 area = map (\<lambda>k. fst area + 16 * k) [0..<(snd area - fst area + 15) div 16]"

text \<open>
  The addresses of one area in turn. The structure is copied before it is validated, so that the
  validation reads from the copy.
\<close>

fun search_addresses :: "view \<Rightarrow> nat \<Rightarrow> nat list \<Rightarrow> (nat option, 'e) res" where
  "search_addresses v start [] = Ok None"
| "search_addresses v start (address # addresses) =
     and_then (read_view (view_from v (address - start)) 8) (\<lambda>signature.
       if signature = RSDP_SIGNATURE then
         and_then (read_view (view_from v (address - start)) rsdp_size) (\<lambda>copy.
           case rsdp_validate (bytes_view copy) of
             Ok _ \<Rightarrow> Ok (Some address)
           | Err _ \<Rightarrow> search_addresses v start addresses
           | Panic \<Rightarrow> Panic | Deadlock \<Rightarrow> Deadlock | OutOfFuel \<Rightarrow> OutOfFuel)
       else search_addresses v start addresses)"

fun search_areas :: "acpi_handler \<Rightarrow> area list \<Rightarrow> (nat option, 'e) mact" where
  "search_areas H [] = mret None"
| "search_areas H (area # areas) =
     mbind (with_region H (fst area) (snd area - fst area) (\<lambda>mapping.
              mreads (\<lambda>s. search_addresses (mapping_view H s mapping) (fst area) (step_by_16 area))))
       (\<lambda>found. case found of Some address \<Rightarrow> mret (Some address) | None \<Rightarrow> search_areas H areas)"

definition search_for_on_bios :: "acpi_handler \<Rightarrow> (physical_mapping, rsdp_error) mact" where
  "search_for_on_bios H =
     mbind (find_search_areas H) (\<lambda>areas.
     mbind (search_areas H areas) (\<lambda>rsdp_address.
       case rsdp_address of
         Some address \<Rightarrow> map_physical_region H address rsdp_size
       | None \<Rightarrow> mpure (Err NoValidRsdp)))"

end
