(* ===== verification/Sdt.thy ===== *)
theory Sdt
  imports Rsdp
begin

section \<open>System description tables\<close>

text \<open>
  \<open>acpi/src/sdt.rs\<close> and the errors of \<open>acpi/src/lib.rs\<close>: the header that all tables share, its
  validation, and fields that only exist from some revision on.
\<close>

datatype signature = Signature u8 u8 u8 u8

definition sig_of :: "string \<Rightarrow> signature" where
  "sig_of s = (let b = (\<lambda>i. word_of_nat (of_char (s ! i))) in Signature (b 0) (b 1) (b 2) (b 3))"

definition SIG_RSDT :: signature where "SIG_RSDT = sig_of ''RSDT''"
definition SIG_XSDT :: signature where "SIG_XSDT = sig_of ''XSDT''"
definition SIG_FADT :: signature where "SIG_FADT = sig_of ''FACP''"
definition SIG_HPET :: signature where "SIG_HPET = sig_of ''HPET''"
definition SIG_MADT :: signature where "SIG_MADT = sig_of ''APIC''"
definition SIG_MCFG :: signature where "SIG_MCFG = sig_of ''MCFG''"
definition SIG_SSDT :: signature where "SIG_SSDT = sig_of ''SSDT''"
definition SIG_BGRT :: signature where "SIG_BGRT = sig_of ''BGRT''"
definition SIG_DSDT :: signature where "SIG_DSDT = sig_of ''DSDT''"

text \<open>All constants of the type, by name.\<close>

definition signature_constants :: "(string \<times> signature) list" where
  "signature_constants = [
     (''RSDT'', sig_of ''RSDT''), (''XSDT'', sig_of ''XSDT''), (''FADT'', sig_of ''FACP''),
     (''HPET'', sig_of ''HPET''), (''MADT'', sig_of ''APIC''), (''MCFG'', sig_of ''MCFG''),
     (''SSDT'', sig_of ''SSDT''), (''BERT'', sig_of ''BERT''), (''BGRT'', sig_of ''BGRT''),
     (''CPEP'', sig_of ''CPEP''), (''DSDT'', sig_of ''DSDT''), (''ECDT'', sig_of ''ECDT''),
     (''EINJ'', sig_of ''EINJ''), (''ERST'', sig_of ''ERST''), (''FACS'', sig_of ''FACS''),
     (''FPDT'', sig_of ''FPDT''), (''GTDT'', sig_of ''GTDT''), (''HEST'', sig_of ''HEST''),
     (''MSCT'', sig_of ''MSCT''), (''MPST'', sig_of ''MPST''), (''NFIT'', sig_of ''NFIT''),
     (''PCCT'', sig_of ''PCCT''), (''PHAT'', sig_of ''PHAT''), (''PMTT'', sig_of ''PMTT''),
     (''PSDT'', sig_of ''PSDT''), (''RASF'', sig_of ''RASF''), (''SBST'', sig_of ''SBST''),
     (''SDEV'', sig_of ''SDEV''), (''SLIT'', sig_of ''SLIT''), (''SRAT'', sig_of ''SRAT''),
     (''AEST'', sig_of ''AEST''), (''BDAT'', sig_of ''BDAT''), (''CDIT'', sig_of ''CDIT''),
     (''CEDT'', sig_of ''CEDT''), (''CRAT'', sig_of ''CRAT''), (''CSRT'', sig_of ''CSRT''),
     (''DBGP'', sig_of ''DBGP''), (''DBG2'', sig_of ''DBG2''), (''DMAR'', sig_of ''DMAR''),
     (''DRTM'', sig_of ''DRTM''), (''ETDT'', sig_of ''ETDT''), (''IBFT'', sig_of ''IBFT''),
     (''IORT'', sig_of ''IORT''), (''IVRS'', sig_of ''IVRS''), (''LPIT'', sig_of ''LPIT''),
     (''MCHI'', sig_of ''MCHI''), (''MPAM'', sig_of ''MPAM''), (''MSDM'', sig_of ''MSDM''),
     (''PRMT'', sig_of ''PRMT''), (''RGRT'', sig_of ''RGRT''), (''SDEI'', sig_of ''SDEI''),
     (''SLIC'', sig_of ''SLIC''), (''SPCR'', sig_of ''SPCR''), (''SPMI'', sig_of ''SPMI''),
     (''STAO'', sig_of ''STAO''), (''SVKL'', sig_of ''SVKL''), (''TCPA'', sig_of ''TCPA''),
     (''TPM2'', sig_of ''TPM2''), (''UEFI'', sig_of ''UEFI''), (''WAET'', sig_of ''WAET''),
     (''WDAT'', sig_of ''WDAT''), (''WDRT'', sig_of ''WDRT''), (''WPBT'', sig_of ''WPBT''),
     (''WSMT'', sig_of ''WSMT''), (''XENV'', sig_of ''XENV'')]"

fun signature_as_str :: "signature \<Rightarrow> (string, 'e) res" where
  "signature_as_str (Signature a b c d) =
     (if utf8_valid [a, b, c, d] then Ok (string_of_bytes [a, b, c, d]) else Panic)"

datatype madt_error =
    UnexpectedEntry
  | InterruptOverrideEntryHasInvalidBus
  | InvalidLocalNmiLine
  | MpsIntiInvalidPolarity
  | MpsIntiInvalidTriggerMode

datatype acpi_error =
    RsdpErr rsdp_error
  | SdtInvalidSignature signature
  | SdtInvalidOemId signature
  | SdtInvalidTableId signature
  | SdtInvalidChecksum signature
  | TableMissing signature
  | InvalidFacsAddress
  | InvalidDsdtAddress
  | InvalidMadt madt_error
  | InvalidGenericAddress
  | AllocError

record sdt_header =
  sdt_signature :: signature
  sdt_length :: u32
  sdt_revision :: u8
  sdt_checksum :: u8
  sdt_oem_id :: bytes
  sdt_oem_table_id :: bytes
  sdt_oem_revision :: u32
  sdt_creator_id :: u32
  sdt_creator_revision :: u32

definition sdt_header_size :: nat where
  "sdt_header_size = 36"

definition sdt_header_of :: "bytes \<Rightarrow> sdt_header" where
  "sdt_header_of bs =
     \<lparr>sdt_signature = Signature (u8_at bs 0) (u8_at bs 1) (u8_at bs 2) (u8_at bs 3),
      sdt_length = u32_at bs 4, sdt_revision = u8_at bs 8, sdt_checksum = u8_at bs 9,
      sdt_oem_id = take 6 (drop 10 bs), sdt_oem_table_id = take 8 (drop 16 bs),
      sdt_oem_revision = u32_at bs 24, sdt_creator_id = u32_at bs 28,
      sdt_creator_revision = u32_at bs 32\<rparr>"

definition read_sdt_header :: "view \<Rightarrow> (sdt_header, 'e) res" where
  "read_sdt_header v = and_then (read_view v sdt_header_size) (\<lambda>bs. Ok (sdt_header_of bs))"

definition sdt_validate :: "view \<Rightarrow> signature \<Rightarrow> (unit, acpi_error) res" where
  "sdt_validate self sig =
     and_then (read_sdt_header self) (\<lambda>h.
       if sdt_signature h \<noteq> sig then Err (SdtInvalidSignature sig)
       else if \<not> utf8_valid (sdt_oem_id h) then Err (SdtInvalidOemId sig)
       else if \<not> utf8_valid (sdt_oem_table_id h) then Err (SdtInvalidTableId sig)
       else
         and_then (read_view self (unat (sdt_length h))) (\<lambda>bytes.
           if sum_bytes bytes > 0 then Err (SdtInvalidChecksum sig) else Ok ()))"

definition sdt_oem_id_str :: "sdt_header \<Rightarrow> (string, 'e) res" where
  "sdt_oem_id_str h = (if utf8_valid (sdt_oem_id h) then Ok (string_of_bytes (sdt_oem_id h)) else Panic)"

definition sdt_oem_table_id_str :: "sdt_header \<Rightarrow> (string, 'e) res" where
  "sdt_oem_table_id_str h =
     (if utf8_valid (sdt_oem_table_id h) then Ok (string_of_bytes (sdt_oem_table_id h)) else Panic)"

subsection \<open>Extended fields\<close>

text \<open>
  \<open>ExtendedField\<close>: a field that may lie beyond the end of the table. Reading it when it is not there is
  undefined behaviour.
\<close>

datatype 'a extended_field = Uninit | Init 'a

definition ext_access :: "u8 \<Rightarrow> 'a extended_field \<Rightarrow> u8 \<Rightarrow> ('a option, 'e) res" where
  "ext_access min_revision field revision =
     (if revision \<ge> min_revision
      then case field of Init x \<Rightarrow> Ok (Some x) | Uninit \<Rightarrow> Panic
      else Ok None)"

end
