(* ===== verification/Fadt.thy ===== *)
theory Fadt
  imports Sdt
begin

section \<open>Generic addresses and the fixed description table\<close>

text \<open>
  \<open>acpi/src/address.rs\<close> and \<open>acpi/src/fadt.rs\<close>. The fields of the packed structures are read at
  their offsets; the fields that exist from revision 2 on may lie beyond the memory that can be read, and
  are \<open>Uninit\<close> then. \<open>u8\<close> multiplication is checked for overflow.
\<close>

subsection \<open>Generic addresses\<close>

record raw_generic_address =
  raw_address_space :: u8
  raw_bit_width :: u8
  raw_bit_offset :: u8
  raw_access_size :: u8
  raw_address :: u64

definition raw_generic_address_of :: "bytes \<Rightarrow> raw_generic_address" where
  "raw_generic_address_of bs =
     \<lparr>raw_address_space = u8_at bs 0, raw_bit_width = u8_at bs 1, raw_bit_offset = u8_at bs 2,
      raw_access_size = u8_at bs 3, raw_address = u64_at bs 4\<rparr>"

datatype address_space =
    SystemMemorySpace | SystemIoSpace | PciConfigSpace | EmbeddedController | SMBusSpace | SystemCmosSpace
  | PciBarTargetSpace | IpmiSpace | GeneralIo | GenericSerialBusSpace | PlatformCommunicationsChannel
  | FunctionalFixedHardware | OemDefinedSpace u8

datatype access_size = UndefinedSize | ByteSize | WordSize | DWordSize | QWordSize

record generic_address =
  ga_address_space :: address_space
  ga_bit_width :: u8
  ga_bit_offset :: u8
  ga_access_size :: access_size
  ga_address :: u64

definition access_size_try_from :: "u8 \<Rightarrow> (access_size, acpi_error) res" where
  "access_size_try_from n =
     (if n = 0 then Ok UndefinedSize
      else if n = 1 then Ok ByteSize
      else if n = 2 then Ok WordSize
      else if n = 3 then Ok DWordSize
      else if n = 4 then Ok QWordSize
      else Err InvalidGenericAddress)"

definition address_space_from :: "u8 \<Rightarrow> (address_space, acpi_error) res" where
  "address_space_from b =
     (if b = 0x00 then Ok SystemMemorySpace
      else if b = 0x01 then Ok SystemIoSpace
      else if b = 0x02 then Ok PciConfigSpace
      else if b = 0x03 then Ok EmbeddedController
      else if b = 0x04 then Ok SMBusSpace
      else if b = 0x05 then Ok SystemCmosSpace
      else if b = 0x06 then Ok PciBarTargetSpace
      else if b = 0x07 then Ok IpmiSpace
      else if b = 0x08 then Ok GeneralIo
      else if b = 0x09 then Ok GenericSerialBusSpace
      else if b = 0x0a then Ok PlatformCommunicationsChannel
      else if b \<le> 0x7e then Err InvalidGenericAddress
      else if b = 0x7f then Ok FunctionalFixedHardware
      else if b \<le> 0xbf then Err InvalidGenericAddress
      else Ok (OemDefinedSpace b))"

definition from_raw :: "raw_generic_address \<Rightarrow> (generic_address, acpi_error) res" where
  "from_raw raw =
     and_then (address_space_from (raw_address_space raw)) (\<lambda>space.
     and_then (access_size_try_from (raw_access_size raw)) (\<lambda>access.
       Ok \<lparr>ga_address_space = space, ga_bit_width = raw_bit_width raw, ga_bit_offset = raw_bit_offset raw,
           ga_access_size = access, ga_address = raw_address raw\<rparr>))"

subsection \<open>The table\<close>

datatype power_profile =
    Unspecified | Desktop | Mobile | Workstation | EnterpriseServer | SohoServer | AppliancePc
  | PerformanceServer | Tablet | ReservedProfile u8

record fadt =
  fadt_header :: sdt_header
  fadt_firmware_ctrl :: u32
  fadt_dsdt :: u32
  fadt_reserved :: u8
  fadt_preferred_pm_profile :: u8
  fadt_sci_interrupt :: u16
  fadt_smi_cmd_port :: u32
  fadt_acpi_enable :: u8
  fadt_acpi_disable :: u8
  fadt_s4bios_req :: u8
  fadt_pstate_control :: u8
  fadt_pm1a_event :: u32
  fadt_pm1b_event :: u32
  fadt_pm1a_control :: u32
  fadt_pm1b_control :: u32
  fadt_pm2_control :: u32
  fadt_pm_timer :: u32
  fadt_gpe0 :: u32
  fadt_gpe1 :: u32
  fadt_pm1_event_length :: u8
  fadt_pm1_control_length :: u8
  fadt_pm2_control_length :: u8
  fadt_pm_timer_length :: u8
  fadt_gpe0_length :: u8
  fadt_gpe1_length :: u8
  fadt_gpe1_base :: u8
  fadt_c_state_control :: u8
  fadt_worst_c2_latency :: u16
  fadt_worst_c3_latency :: u16
  fadt_flush_size :: u16
  fadt_flush_stride :: u16
  fadt_duty_offset :: u8
  fadt_duty_width :: u8
  fadt_day_alarm :: u8
  fadt_month_alarm :: u8
  fadt_century :: u8
  fadt_iapc_boot_arch :: u16
  fadt_reserved2 :: u8
  fadt_flags :: u32
  fadt_reset_reg :: raw_generic_address
  fadt_reset_value :: u8
  fadt_arm_boot_arch :: u16
  fadt_minor_version :: u8
  fadt_x_firmware_ctrl :: "u64 extended_field"
  fadt_x_dsdt :: "u64 extended_field"
  fadt_x_pm1a_event :: "raw_generic_address extended_field"
  fadt_x_pm1b_event :: "raw_generic_address extended_field"
  fadt_x_pm1a_control :: "raw_generic_address extended_field"
  fadt_x_pm1b_control :: "raw_generic_address extended_field"
  fadt_x_pm2_control :: "raw_generic_address extended_field"
  fadt_x_pm_timer :: "raw_generic_address extended_field"
  fadt_x_gpe0 :: "raw_generic_address extended_field"
  fadt_x_gpe1 :: "raw_generic_address extended_field"
  fadt_sleep_control_reg :: "raw_generic_address extended_field"
  fadt_sleep_status_reg :: "raw_generic_address extended_field"
  fadt_hypervisor_vendor_id :: "u64 extended_field"

definition extended :: "nat \<Rightarrow> (bytes \<Rightarrow> 'a) \<Rightarrow> bytes \<Rightarrow> nat \<Rightarrow> 'a extended_field" where
  "extended width get bs i = (if i + width \<le> length bs then Init (get bs) else Uninit)"

definition fadt_of :: "bytes \<Rightarrow> fadt" where
  "fadt_of bs =
     \<lparr>fadt_header = sdt_header_of bs,
      fadt_firmware_ctrl = u32_at bs 36,
      fadt_dsdt = u32_at bs 40,
      fadt_reserved = u8_at bs 44,
      fadt_preferred_pm_profile = u8_at bs 45,
      fadt_sci_interrupt = u16_at bs 46,
      fadt_smi_cmd_port = u32_at bs 48,
      fadt_acpi_enable = u8_at bs 52,
      fadt_acpi_disable = u8_at bs 53,
      fadt_s4bios_req = u8_at bs 54,
      fadt_pstate_control = u8_at bs 55,
      fadt_pm1a_event = u32_at bs 56,
      fadt_pm1b_event = u32_at bs 60,
      fadt_pm1a_control = u32_at bs 64,
      fadt_pm1b_control = u32_at bs 68,
      fadt_pm2_control = u32_at bs 72,
      fadt_pm_timer = u32_at bs 76,
      fadt_gpe0 = u32_at bs 80,
      fadt_gpe1 = u32_at bs 84,
      fadt_pm1_event_length = u8_at bs 88,
      fadt_pm1_control_length = u8_at bs 89,
      fadt_pm2_control_length = u8_at bs 90,
      fadt_pm_timer_length = u8_at bs 91,
      fadt_gpe0_length = u8_at bs 92,
      fadt_gpe1_length = u8_at bs 93,
      fadt_gpe1_base = u8_at bs 94,
      fadt_c_state_control = u8_at bs 95,
      fadt_worst_c2_latency = u16_at bs 96,
      fadt_worst_c3_latency = u16_at bs 98,
      fadt_flush_size = u16_at bs 100,
      fadt_flush_stride = u16_at bs 102,
      fadt_duty_offset = u8_at bs 104,
      fadt_duty_width = u8_at bs 105,
      fadt_day_alarm = u8_at bs 106,
      fadt_month_alarm = u8_at bs 107,
      fadt_century = u8_at bs 108,
      fadt_iapc_boot_arch = u16_at bs 109,
      fadt_reserved2 = u8_at bs 111,
      fadt_flags = u32_at bs 112,
      fadt_reset_reg = raw_generic_address_of (drop 116 bs),
      fadt_reset_value = u8_at bs 128,
      fadt_arm_boot_arch = u16_at bs 129,
      fadt_minor_version = u8_at bs 131,
      fadt_x_firmware_ctrl = extended 8 (\<lambda>bs. u64_at bs 132) bs 132,
      fadt_x_dsdt = extended 8 (\<lambda>bs. u64_at bs 140) bs 140,
      fadt_x_pm1a_event = extended 12 (\<lambda>bs. raw_generic_address_of (drop 148 bs)) bs 148,
      fadt_x_pm1b_event = extended 12 (\<lambda>bs. raw_generic_address_of (drop 160 bs)) bs 160,
      fadt_x_pm1a_control = extended 12 (\<lambda>bs. raw_generic_address_of (drop 172 bs)) bs 172,
      fadt_x_pm1b_control = extended 12 (\<lambda>bs. raw_generic_address_of (drop 184 bs)) bs 184,
      fadt_x_pm2_control = extended 12 (\<lambda>bs. raw_generic_address_of (drop 196 bs)) bs 196,
      fadt_x_pm_timer = extended 12 (\<lambda>bs. raw_generic_address_of (drop 208 bs)) bs 208,
      fadt_x_gpe0 = extended 12 (\<lambda>bs. raw_generic_address_of (drop 220 bs)) bs 220,
      fadt_x_gpe1 = extended 12 (\<lambda>bs. raw_generic_address_of (drop 232 bs)) bs 232,
      fadt_sleep_control_reg = extended 12 (\<lambda>bs. raw_generic_address_of (drop 244 bs)) bs 244,
      fadt_sleep_status_reg = extended 12 (\<lambda>bs. raw_generic_address_of (drop 256 bs)) bs 256,
      fadt_hypervisor_vendor_id = extended 8 (\<lambda>bs. u64_at bs 268) bs 268\<rparr>"

definition fadt_size :: nat where
  "fadt_size = 276"

text \<open>
  As much of the structure as can be read is; the fields that the caller goes on to use have to lie in the bytes it needs.
\<close>

definition read_prefix :: "view \<Rightarrow> nat \<Rightarrow> bytes" where
  "read_prefix v n = map the (takeWhile (\<lambda>b. b \<noteq> None) (map v [0..<n]))"

definition read_fadt :: "(fadt \<Rightarrow> nat) \<Rightarrow> view \<Rightarrow> (fadt, 'e) res" where
  "read_fadt needed v =
     (let f = fadt_of (read_prefix v fadt_size) in and_then (read_view v (needed f)) (\<lambda>_. Ok f))"

definition fadt_revision :: "fadt \<Rightarrow> u8" where
  "fadt_revision f = sdt_revision (fadt_header f)"

definition nonzero :: "u64 option \<Rightarrow> u64 option" where
  "nonzero p = (case p of Some a \<Rightarrow> if a \<noteq> 0 then Some a else None | None \<Rightarrow> None)"

definition option_or :: "'a option \<Rightarrow> 'a option \<Rightarrow> 'a option" where
  "option_or a b = (case a of Some x \<Rightarrow> Some x | None \<Rightarrow> b)"

definition facs_address :: "fadt \<Rightarrow> (nat, acpi_error) res" where
  "facs_address f =
     and_then (ext_access 2 (fadt_x_firmware_ctrl f) (fadt_revision f)) (\<lambda>x.
       ok_or InvalidFacsAddress
         (map_option unat (nonzero (option_or (nonzero x) (Some (ucast (fadt_firmware_ctrl f)))))))"

definition dsdt_address :: "fadt \<Rightarrow> (nat, acpi_error) res" where
  "dsdt_address f =
     and_then (ext_access 2 (fadt_x_dsdt f) (fadt_revision f)) (\<lambda>x.
       ok_or InvalidDsdtAddress
         (map_option unat (nonzero (option_or (nonzero x) (Some (ucast (fadt_dsdt f)))))))"

definition power_profile_of :: "fadt \<Rightarrow> power_profile" where
  "power_profile_of f =
     (let p = fadt_preferred_pm_profile f in
      if p = 0 then Unspecified
      else if p = 1 then Desktop
      else if p = 2 then Mobile
      else if p = 3 then Workstation
      else if p = 4 then EnterpriseServer
      else if p = 5 then SohoServer
      else if p = 6 then AppliancePc
      else if p = 7 then PerformanceServer
      else if p = 8 then Tablet
      else ReservedProfile p)"

subsection \<open>The register blocks\<close>

definition mul_u8 :: "u8 \<Rightarrow> u8 \<Rightarrow> (u8, 'e) res" where
  "mul_u8 a b = (if unat a * unat b < 2 ^ 8 then Ok (a * b) else Panic)"

definition io_block :: "u8 \<Rightarrow> u32 \<Rightarrow> (generic_address, 'e) res" where
  "io_block len address =
     and_then (mul_u8 len 8) (\<lambda>width.
       Ok \<lparr>ga_address_space = SystemIoSpace, ga_bit_width = width, ga_bit_offset = 0,
           ga_access_size = UndefinedSize, ga_address = ucast address\<rparr>)"

text \<open>The extended block when the table has one with an address, the legacy one otherwise.\<close>

definition block_or :: "fadt \<Rightarrow> raw_generic_address extended_field
    \<Rightarrow> (generic_address option, acpi_error) res \<Rightarrow> (generic_address option, acpi_error) res" where
  "block_or f ext legacy =
     and_then (ext_access 2 ext (fadt_revision f)) (\<lambda>x.
       case x of
         Some raw \<Rightarrow>
           if raw_address raw \<noteq> 0 then and_then (from_raw raw) (\<lambda>a. Ok (Some a)) else legacy
       | None \<Rightarrow> legacy)"

definition required_block :: "fadt \<Rightarrow> raw_generic_address extended_field \<Rightarrow> u32 \<Rightarrow> u8
    \<Rightarrow> (generic_address, acpi_error) res" where
  "required_block f ext address len =
     and_then (ext_access 2 ext (fadt_revision f)) (\<lambda>x.
       case x of
         Some raw \<Rightarrow> if raw_address raw \<noteq> 0 then from_raw raw else io_block len address
       | None \<Rightarrow> io_block len address)"

definition optional_block :: "fadt \<Rightarrow> raw_generic_address extended_field \<Rightarrow> u32 \<Rightarrow> u8
    \<Rightarrow> (generic_address option, acpi_error) res" where
  "optional_block f ext address len =
     block_or f ext
       (if address \<noteq> 0 then and_then (io_block len address) (\<lambda>a. Ok (Some a)) else Ok None)"

definition pm1a_event_block :: "fadt \<Rightarrow> (generic_address, acpi_error) res" where
  "pm1a_event_block f = required_block f (fadt_x_pm1a_event f) (fadt_pm1a_event f) (fadt_pm1_event_length f)"

definition pm1b_event_block :: "fadt \<Rightarrow> (generic_address option, acpi_error) res" where
  "pm1b_event_block f = optional_block f (fadt_x_pm1b_event f) (fadt_pm1b_event f) (fadt_pm1_event_length f)"

definition pm1a_control_block :: "fadt \<Rightarrow> (generic_address, acpi_error) res" where
  "pm1a_control_block f =
     required_block f (fadt_x_pm1a_control f) (fadt_pm1a_control f) (fadt_pm1_control_length f)"

definition pm1b_control_block :: "fadt \<Rightarrow> (generic_address option, acpi_error) res" where
  "pm1b_control_block f = optional_block f (fadt_x_pm1b_control f) (fadt_pm1b_control f) (fadt_pm1_control_length f)"

definition pm2_control_block :: "fadt \<Rightarrow> (generic_address option, acpi_error) res" where
  "pm2_control_block f = optional_block f (fadt_x_pm2_control f) (fadt_pm2_control f) (fadt_pm2_control_length f)"

definition pm_timer_block :: "fadt \<Rightarrow> (generic_address option, acpi_error) res" where
  "pm_timer_block f =
     (if fadt_pm_timer_length f \<noteq> 4 then Ok None
      else
        block_or f (fadt_x_pm_timer f)
          (if fadt_pm_timer f \<noteq> 0 then
             Ok (Some \<lparr>ga_address_space = SystemIoSpace, ga_bit_width = 32, ga_bit_offset = 0,
                       ga_access_size = UndefinedSize, ga_address = ucast (fadt_pm_timer f)\<rparr>)
           else Ok None))"

definition gpe0_block :: "fadt \<Rightarrow> (generic_address option, acpi_error) res" where
  "gpe0_block f = optional_block f (fadt_x_gpe0 f) (fadt_gpe0 f) (fadt_gpe0_length f)"

definition gpe1_block :: "fadt \<Rightarrow> (generic_address option, acpi_error) res" where
  "gpe1_block f = optional_block f (fadt_x_gpe1 f) (fadt_gpe1 f) (fadt_gpe1_length f)"

definition reset_register :: "fadt \<Rightarrow> (generic_address, acpi_error) res" where
  "reset_register f = from_raw (fadt_reset_reg f)"

definition sleep_register :: "fadt \<Rightarrow> raw_generic_address extended_field
    \<Rightarrow> (generic_address option, acpi_error) res" where
  "sleep_register f ext =
     and_then (ext_access 2 ext (fadt_revision f)) (\<lambda>x.
       case x of Some raw \<Rightarrow> and_then (from_raw raw) (\<lambda>a. Ok (Some a)) | None \<Rightarrow> Ok None)"

definition sleep_control_register :: "fadt \<Rightarrow> (generic_address option, acpi_error) res" where
  "sleep_control_register f = sleep_register f (fadt_sleep_control_reg f)"

definition sleep_status_register :: "fadt \<Rightarrow> (generic_address option, acpi_error) res" where
  "sleep_status_register f = sleep_register f (fadt_sleep_status_reg f)"

subsection \<open>The flags\<close>

definition supports_equivalent_to_wbinvd :: "'z acpi_crates_scheme \<Rightarrow> u32 \<Rightarrow> bool" where
  "supports_equivalent_to_wbinvd K flags = get_bit_u32 K flags 0"

definition wbinvd_flushes_all_caches :: "'z acpi_crates_scheme \<Rightarrow> u32 \<Rightarrow> bool" where
  "wbinvd_flushes_all_caches K flags = get_bit_u32 K flags 1"

definition all_procs_support_c1_power_state :: "'z acpi_crates_scheme \<Rightarrow> u32 \<Rightarrow> bool" where
  "all_procs_support_c1_power_state K flags = get_bit_u32 K flags 2"

definition c2_configured_for_mp_system :: "'z acpi_crates_scheme \<Rightarrow> u32 \<Rightarrow> bool" where
  "c2_configured_for_mp_system K flags = get_bit_u32 K flags 3"

definition power_button_is_control_method :: "'z acpi_crates_scheme \<Rightarrow> u32 \<Rightarrow> bool" where
  "power_button_is_control_method K flags = get_bit_u32 K flags 4"

definition sleep_button_is_control_method :: "'z acpi_crates_scheme \<Rightarrow> u32 \<Rightarrow> bool" where
  "sleep_button_is_control_method K flags = get_bit_u32 K flags 5"

definition no_rtc_wake_in_fixed_register_space :: "'z acpi_crates_scheme \<Rightarrow> u32 \<Rightarrow> bool" where
  "no_rtc_wake_in_fixed_register_space K flags = get_bit_u32 K flags 6"

definition rtc_wakes_system_from_s4 :: "'z acpi_crates_scheme \<Rightarrow> u32 \<Rightarrow> bool" where
  "rtc_wakes_system_from_s4 K flags = get_bit_u32 K flags 7"

definition pm_timer_is_32_bit :: "'z acpi_crates_scheme \<Rightarrow> u32 \<Rightarrow> bool" where
  "pm_timer_is_32_bit K flags = get_bit_u32 K flags 8"

definition supports_docking :: "'z acpi_crates_scheme \<Rightarrow> u32 \<Rightarrow> bool" where
  "supports_docking K flags = get_bit_u32 K flags 9"

definition supports_system_reset_via_fadt :: "'z acpi_crates_scheme \<Rightarrow> u32 \<Rightarrow> bool" where
  "supports_system_reset_via_fadt K flags = get_bit_u32 K flags 10"

definition case_is_sealed :: "'z acpi_crates_scheme \<Rightarrow> u32 \<Rightarrow> bool" where
  "case_is_sealed K flags = get_bit_u32 K flags 11"

definition system_is_headless :: "'z acpi_crates_scheme \<Rightarrow> u32 \<Rightarrow> bool" where
  "system_is_headless K flags = get_bit_u32 K flags 12"

definition use_instr_after_write_to_slp_typx :: "'z acpi_crates_scheme \<Rightarrow> u32 \<Rightarrow> bool" where
  "use_instr_after_write_to_slp_typx K flags = get_bit_u32 K flags 13"

definition supports_pciexp_wake_in_pm1 :: "'z acpi_crates_scheme \<Rightarrow> u32 \<Rightarrow> bool" where
  "supports_pciexp_wake_in_pm1 K flags = get_bit_u32 K flags 14"

definition use_pm_or_hpet_for_monotonically_decreasing_timers :: "'z acpi_crates_scheme \<Rightarrow> u32 \<Rightarrow> bool" where
  "use_pm_or_hpet_for_monotonically_decreasing_timers K flags = get_bit_u32 K flags 15"

definition rtc_sts_is_valid_after_wakeup_from_s4 :: "'z acpi_crates_scheme \<Rightarrow> u32 \<Rightarrow> bool" where
  "rtc_sts_is_valid_after_wakeup_from_s4 K flags = get_bit_u32 K flags 16"

definition ospm_may_leave_gpe_wake_events_armed_before_s5 :: "'z acpi_crates_scheme \<Rightarrow> u32 \<Rightarrow> bool" where
  "ospm_may_leave_gpe_wake_events_armed_before_s5 K flags = get_bit_u32 K flags 17"

definition lapics_must_use_cluster_model_for_logical_mode :: "'z acpi_crates_scheme \<Rightarrow> u32 \<Rightarrow> bool" where
  "lapics_must_use_cluster_model_for_logical_mode K flags = get_bit_u32 K flags 18"

definition local_xapics_must_use_physical_destination_mode :: "'z acpi_crates_scheme \<Rightarrow> u32 \<Rightarrow> bool" where
  "local_xapics_must_use_physical_destination_mode K flags = get_bit_u32 K flags 19"

definition system_is_hw_reduced_acpi :: "'z acpi_crates_scheme \<Rightarrow> u32 \<Rightarrow> bool" where
  "system_is_hw_reduced_acpi K flags = get_bit_u32 K flags 20"

definition no_benefit_to_s3 :: "'z acpi_crates_scheme \<Rightarrow> u32 \<Rightarrow> bool" where
  "no_benefit_to_s3 K flags = get_bit_u32 K flags 21"

definition legacy_devices_are_accessible :: "'z acpi_crates_scheme \<Rightarrow> u16 \<Rightarrow> bool" where
  "legacy_devices_are_accessible K flags = get_bit_u16 K flags 0"

definition motherboard_implements_8042 :: "'z acpi_crates_scheme \<Rightarrow> u16 \<Rightarrow> bool" where
  "motherboard_implements_8042 K flags = get_bit_u16 K flags 1"

definition dont_probe_vga :: "'z acpi_crates_scheme \<Rightarrow> u16 \<Rightarrow> bool" where
  "dont_probe_vga K flags = get_bit_u16 K flags 2"

definition dont_enable_msi :: "'z acpi_crates_scheme \<Rightarrow> u16 \<Rightarrow> bool" where
  "dont_enable_msi K flags = get_bit_u16 K flags 3"

definition dont_enable_pcie_aspm :: "'z acpi_crates_scheme \<Rightarrow> u16 \<Rightarrow> bool" where
  "dont_enable_pcie_aspm K flags = get_bit_u16 K flags 4"

definition use_time_and_alarm_namespace_for_rtc :: "'z acpi_crates_scheme \<Rightarrow> u16 \<Rightarrow> bool" where
  "use_time_and_alarm_namespace_for_rtc K flags = get_bit_u16 K flags 5"

definition implements_psci :: "'z acpi_crates_scheme \<Rightarrow> u16 \<Rightarrow> bool" where
  "implements_psci K flags = get_bit_u16 K flags 0"

definition use_hvc_as_psci_conduit :: "'z acpi_crates_scheme \<Rightarrow> u16 \<Rightarrow> bool" where
  "use_hvc_as_psci_conduit K flags = get_bit_u16 K flags 1"

end
