(* ===== verification/Acpi_Tables.thy ===== *)
theory Acpi_Tables
  imports Fadt
begin

section \<open>The tables of a system\<close>

text \<open>
  \<open>acpi/src/lib.rs\<close>: the table of tables, found from the root pointer, and the search for a table by
  its signature. A mapping that is returned stays live; every other one is unmapped when it goes out of
  scope.
\<close>

record acpi_tables =
  tables_mapping :: physical_mapping
  tables_revision :: u8

abbreviation header_through :: "acpi_handler \<Rightarrow> physical_mapping \<Rightarrow> (sdt_header, 'e) mact" where
  "header_through H m \<equiv> mreads (\<lambda>s. read_sdt_header (mapping_view H s m))"

abbreviation validate_through :: "acpi_handler \<Rightarrow> physical_mapping \<Rightarrow> signature \<Rightarrow> (unit, acpi_error) mact" where
  "validate_through H m sig \<equiv> mreads (\<lambda>s. sdt_validate (mapping_view H s m) sig)"

text \<open>A mapping that is dropped when what follows fails, and given away otherwise.\<close>

definition keeping :: "physical_mapping \<Rightarrow> ('a, 'e) mact \<Rightarrow> ('a, 'e) mact" where
  "keeping m act s =
     (case act s of
        Ok (x, s') \<Rightarrow> Ok (x, s')
      | Err (e, s') \<Rightarrow> Err (e, unmap_state m s')
      | Panic \<Rightarrow> Panic | Deadlock \<Rightarrow> Deadlock | OutOfFuel \<Rightarrow> OutOfFuel)"

definition root_table :: "acpi_handler \<Rightarrow> nat \<Rightarrow> signature \<Rightarrow> u8 \<Rightarrow> (acpi_tables, acpi_error) mact" where
  "root_table H address sig revision =
     mbind (map_physical_region H address sdt_header_size) (\<lambda>mapping.
       keeping mapping
         (mbind (validate_through H mapping sig) (\<lambda>_.
            mret \<lparr>tables_mapping = mapping, tables_revision = revision\<rparr>)))"

definition from_validated_rsdp :: "acpi_handler \<Rightarrow> physical_mapping \<Rightarrow> (acpi_tables, acpi_error) mact" where
  "from_validated_rsdp H rsdp_mapping =
     dropping rsdp_mapping
       (mbind (mreads (\<lambda>s. read_rsdp (mapping_view H s rsdp_mapping))) (\<lambda>r.
          if rsdp_revision r = 0 then
            root_table H (unat (rsdp_rsdt_address r)) SIG_RSDT (rsdp_revision r)
          else
            mbind (mpure (xsdt_address r)) (\<lambda>address.
              root_table H (unat address) SIG_XSDT (rsdp_revision r))))"

definition from_rsdp :: "acpi_handler \<Rightarrow> nat \<Rightarrow> (acpi_tables, acpi_error) mact" where
  "from_rsdp H address =
     mbind (map_physical_region H address rsdp_size) (\<lambda>rsdp_mapping.
     mbind (keeping rsdp_mapping
              (mreads (\<lambda>s. map_err RsdpErr (rsdp_validate (mapping_view H s rsdp_mapping))))) (\<lambda>_.
       from_validated_rsdp H rsdp_mapping))"

definition search_for_rsdp_bios :: "acpi_handler \<Rightarrow> (acpi_tables, acpi_error) mact" where
  "search_for_rsdp_bios H =
     mbind (mmap_err RsdpErr (search_for_on_bios H)) (\<lambda>rsdp_mapping. from_validated_rsdp H rsdp_mapping)"

subsection \<open>Finding a table\<close>

text \<open>
  When the first mapping covers the table, \<open>read_table\<close> returns a second \<open>PhysicalMapping\<close> of the same
  virtual region; the first one is dropped at the end of the function.
\<close>

definition read_table :: "acpi_handler \<Rightarrow> signature \<Rightarrow> nat \<Rightarrow> (physical_mapping, acpi_error) mact" where
  "read_table H sig address =
     mbind (map_physical_region H address sdt_header_size) (\<lambda>mapping.
     mbind (dropping mapping
             (mbind (validate_through H mapping sig) (\<lambda>_.
              mbind (header_through H mapping) (\<lambda>header.
                mret (if mapped_length mapping \<ge> unat (sdt_length header)
                      then Inl (mapping_new (physical_start mapping) (virtual_start mapping)
                                  (region_length mapping) (mapped_length mapping))
                      else Inr (unat (sdt_length header))))))) (\<lambda>result.
       case result of
         Inl reused \<Rightarrow> mret reused
       | Inr len \<Rightarrow> map_physical_region H address len))"

definition table_entry_size :: "acpi_tables \<Rightarrow> nat" where
  "table_entry_size tables = (if tables_revision tables = 0 then 4 else 8)"

text \<open>The entry at an index, an address of 32 or 64 bits.\<close>

definition table_entry :: "acpi_handler \<Rightarrow> acpi_tables \<Rightarrow> nat \<Rightarrow> (nat, 'e) mact" where
  "table_entry H tables offset =
     mreads (\<lambda>s.
       and_then (read_view (view_from (mapping_view H s (tables_mapping tables))
                              (sdt_header_size + table_entry_size tables * offset))
                   (table_entry_size tables)) (\<lambda>bs.
         Ok (le_value bs)))"

definition num_tables :: "sdt_header \<Rightarrow> nat \<Rightarrow> (nat, 'e) res" where
  "num_tables header entry_size =
     (if unat (sdt_length header) < sdt_header_size then Panic
      else Ok ((unat (sdt_length header) - sdt_header_size) div entry_size))"

fun find_table_loop :: "acpi_handler \<Rightarrow> signature \<Rightarrow> acpi_tables \<Rightarrow> nat list \<Rightarrow> (physical_mapping, acpi_error) mact" where
  "find_table_loop H sig tables [] = mpure (Err (TableMissing sig))"
| "find_table_loop H sig tables (offset # offsets) =
     mbind (table_entry H tables offset) (\<lambda>sdt_header_address s.
       case read_table H sig sdt_header_address s of
         Ok r \<Rightarrow> Ok r
       | Err (_, s') \<Rightarrow> find_table_loop H sig tables offsets s'
       | Panic \<Rightarrow> Panic | Deadlock \<Rightarrow> Deadlock | OutOfFuel \<Rightarrow> OutOfFuel)"

definition find_table :: "acpi_handler \<Rightarrow> signature \<Rightarrow> acpi_tables \<Rightarrow> (physical_mapping, acpi_error) mact" where
  "find_table H sig tables =
     mbind (header_through H (tables_mapping tables)) (\<lambda>header.
     mbind (mpure (num_tables header (table_entry_size tables))) (\<lambda>n.
       find_table_loop H sig tables [0..<n]))"

subsection \<open>The tables with byte code\<close>

record aml_table =
  at_address :: nat
  at_length :: u32

definition aml_table_new :: "nat \<Rightarrow> u32 \<Rightarrow> (aml_table, 'e) res" where
  "aml_table_new address len =
     (if unat len < sdt_header_size then Panic
      else Ok \<lparr>at_address = address + sdt_header_size, at_length = len - word_of_nat sdt_header_size\<rparr>)"

definition dsdt :: "acpi_handler \<Rightarrow> acpi_tables \<Rightarrow> (aml_table, acpi_error) mact" where
  "dsdt H tables =
     mbind (find_table H SIG_FADT tables) (\<lambda>fadt_mapping.
       dropping fadt_mapping
         (mbind (mreads (\<lambda>s. and_then (read_fadt (\<lambda>_. 44) (mapping_view H s fadt_mapping)) dsdt_address)) (\<lambda>address.
          mbind (read_table H SIG_DSDT address) (\<lambda>dsdt_mapping.
            dropping dsdt_mapping
              (mbind (header_through H dsdt_mapping) (\<lambda>header.
                 mpure (aml_table_new address (sdt_length header))))))))"

record ssdt_iterator =
  current_sdt_ptr :: nat
  remaining :: nat

definition ssdts :: "acpi_handler \<Rightarrow> acpi_tables \<Rightarrow> (ssdt_iterator, 'e) mact" where
  "ssdts H tables =
     mbind (header_through H (tables_mapping tables)) (\<lambda>header.
     mbind (mpure (num_tables header 8)) (\<lambda>n.
       mret \<lparr>current_sdt_ptr = sdt_header_size, remaining = n\<rparr>))"

text \<open>
  One call of \<open>next\<close>. The pointer is an offset into the mapping of the table of tables; a
  pointer has eight bytes. The counter is \<open>usize\<close>: it panics when it passes zero, which bounds the loop.
\<close>

fun ssdt_loop :: "nat \<Rightarrow> acpi_handler \<Rightarrow> acpi_tables \<Rightarrow> nat \<Rightarrow> (aml_table \<times> nat, 'e) mact" where
  "ssdt_loop 0 H tables ptr = mpure Panic"
| "ssdt_loop (Suc remaining') H tables ptr =
     mbind (mreads (\<lambda>s. read_view (view_from (mapping_view H s (tables_mapping tables)) ptr) 8)) (\<lambda>bs.
     mbind (with_region H (le_value bs) sdt_header_size (\<lambda>m s.
              case sdt_validate (mapping_view H s m) SIG_SSDT of
                Ok _ \<Rightarrow> mbind (header_through H m) (\<lambda>header.
                    mret (Some \<lparr>at_address = physical_start m, at_length = sdt_length header\<rparr>)) s
              | Err _ \<Rightarrow> mret None s
              | Panic \<Rightarrow> Panic | Deadlock \<Rightarrow> Deadlock | OutOfFuel \<Rightarrow> OutOfFuel)) (\<lambda>found.
       case found of
         Some table \<Rightarrow> mret (table, remaining')
       | None \<Rightarrow> ssdt_loop remaining' H tables ptr))"

definition ssdt_next :: "acpi_handler \<Rightarrow> acpi_tables \<Rightarrow> ssdt_iterator \<Rightarrow> (aml_table option \<times> ssdt_iterator, 'e) mact" where
  "ssdt_next H tables it =
     (if remaining it = 0 then mret (None, it)
      else
        mbind (ssdt_loop (remaining it) H tables (current_sdt_ptr it)) (\<lambda>(table, remaining').
          mret (Some table, it\<lparr>remaining := remaining'\<rparr>)))"

end
