(* ===== verification/Madt.thy ===== *)
theory Madt
  imports Acpi_Tables
begin

section \<open>The interrupt controllers of a system\<close>

text \<open>
  \<open>acpi/src/madt.rs\<close>, \<open>acpi/src/platform/interrupt.rs\<close>, \<open>acpi/src/managed_slice.rs\<close> and the processors of
  \<open>acpi/src/platform/mod.rs\<close>: the entries of the table, the iteration over them, and the model of the
  interrupt controllers made from them. Iteration need not end, as an entry may give its
  length as zero: it is bounded by fuel.
\<close>

subsection \<open>Slices from an allocator\<close>

text \<open>
  The allocator is a parameter: for the sizes requested so far and a new one it gives the size of
  the block, which may be larger than requested, or fails. The layout of the element
  types is not fixed by the sources; their sizes are a part of the parameter. The elements of a new slice are
  uninitialised.
\<close>

datatype slice_elem = IoApicElem | IsoElem | NmiSourceElem | NmiLineElem | ProcessorElem | McfgEntryElem

record allocator =
  allocate :: "nat list \<Rightarrow> nat \<Rightarrow> nat option"
  size_of :: "slice_elem \<Rightarrow> nat"

type_synonym 'a managed_slice = "'a option list"

definition managed_slice_new :: "allocator \<Rightarrow> nat list \<Rightarrow> slice_elem \<Rightarrow> nat
    \<Rightarrow> ('a managed_slice \<times> nat list, acpi_error) res" where
  "managed_slice_new A requests elem len =
     (if size_of A elem * len < 2 ^ 64 then
        case allocate A requests (size_of A elem * len) of
          Some block \<Rightarrow> Ok (replicate (block div size_of A elem) None, requests @ [size_of A elem * len])
        | None \<Rightarrow> Err AllocError
      else Panic)"

definition slice_set :: "'a managed_slice \<Rightarrow> nat \<Rightarrow> 'a \<Rightarrow> ('a managed_slice, 'e) res" where
  "slice_set xs i x = (if i < length xs then Ok (xs[i := Some x]) else Panic)"

text \<open>The size of the layout that a dropped slice hands back to the allocator.\<close>

definition managed_slice_drop :: "allocator \<Rightarrow> slice_elem \<Rightarrow> 'a managed_slice \<Rightarrow> nat" where
  "managed_slice_drop A elem xs = length xs * size_of A elem"

subsection \<open>Entries\<close>

record entry_header =
  entry_type :: u8
  entry_length :: u8

definition entry_header_of :: "bytes \<Rightarrow> entry_header" where
  "entry_header_of bs = \<lparr>entry_type = u8_at bs 0, entry_length = u8_at bs 1\<rparr>"

record local_apic_entry =
  la_header :: entry_header
  la_processor_id :: u8
  la_apic_id :: u8
  la_flags :: u32

definition local_apic_entry_of :: "bytes \<Rightarrow> local_apic_entry" where
  "local_apic_entry_of bs =
     \<lparr>la_header = entry_header_of bs, la_processor_id = u8_at bs 2, la_apic_id = u8_at bs 3,
      la_flags = u32_at bs 4\<rparr>"

record io_apic_entry =
  ioa_header :: entry_header
  ioa_io_apic_id :: u8
  ioa_reserved :: u8
  ioa_io_apic_address :: u32
  ioa_global_system_interrupt_base :: u32

definition io_apic_entry_of :: "bytes \<Rightarrow> io_apic_entry" where
  "io_apic_entry_of bs =
     \<lparr>ioa_header = entry_header_of bs, ioa_io_apic_id = u8_at bs 2, ioa_reserved = u8_at bs 3,
      ioa_io_apic_address = u32_at bs 4, ioa_global_system_interrupt_base = u32_at bs 8\<rparr>"

record interrupt_source_override_entry =
  iso_header :: entry_header
  iso_bus :: u8
  iso_irq :: u8
  iso_global_system_interrupt :: u32
  iso_flags :: u16

definition interrupt_source_override_entry_of :: "bytes \<Rightarrow> interrupt_source_override_entry" where
  "interrupt_source_override_entry_of bs =
     \<lparr>iso_header = entry_header_of bs, iso_bus = u8_at bs 2, iso_irq = u8_at bs 3,
      iso_global_system_interrupt = u32_at bs 4, iso_flags = u16_at bs 8\<rparr>"

record nmi_source_entry =
  nmi_header :: entry_header
  nmi_flags :: u16
  nmi_global_system_interrupt :: u32

definition nmi_source_entry_of :: "bytes \<Rightarrow> nmi_source_entry" where
  "nmi_source_entry_of bs =
     \<lparr>nmi_header = entry_header_of bs, nmi_flags = u16_at bs 2,
      nmi_global_system_interrupt = u32_at bs 4\<rparr>"

record local_apic_nmi_entry =
  lan_header :: entry_header
  lan_processor_id :: u8
  lan_flags :: u16
  lan_nmi_line :: u8

definition local_apic_nmi_entry_of :: "bytes \<Rightarrow> local_apic_nmi_entry" where
  "local_apic_nmi_entry_of bs =
     \<lparr>lan_header = entry_header_of bs, lan_processor_id = u8_at bs 2, lan_flags = u16_at bs 3,
      lan_nmi_line = u8_at bs 5\<rparr>"

record local_apic_address_override_entry =
  lao_header :: entry_header
  lao_reserved :: u16
  lao_local_apic_address :: u64

definition local_apic_address_override_entry_of :: "bytes \<Rightarrow> local_apic_address_override_entry" where
  "local_apic_address_override_entry_of bs =
     \<lparr>lao_header = entry_header_of bs, lao_reserved = u16_at bs 2,
      lao_local_apic_address = u64_at bs 4\<rparr>"

record io_sapic_entry =
  ios_header :: entry_header
  ios_io_apic_id :: u8
  ios_reserved :: u8
  ios_global_system_interrupt_base :: u32
  ios_io_sapic_address :: u64

definition io_sapic_entry_of :: "bytes \<Rightarrow> io_sapic_entry" where
  "io_sapic_entry_of bs =
     \<lparr>ios_header = entry_header_of bs, ios_io_apic_id = u8_at bs 2, ios_reserved = u8_at bs 3,
      ios_global_system_interrupt_base = u32_at bs 4, ios_io_sapic_address = u64_at bs 8\<rparr>"

record local_sapic_entry =
  ls_header :: entry_header
  ls_processor_id :: u8
  ls_local_sapic_id :: u8
  ls_local_sapic_eid :: u8
  ls_reserved :: bytes
  ls_flags :: u32
  ls_processor_uid :: u32
  ls_processor_uid_string :: u8

definition local_sapic_entry_of :: "bytes \<Rightarrow> local_sapic_entry" where
  "local_sapic_entry_of bs =
     \<lparr>ls_header = entry_header_of bs, ls_processor_id = u8_at bs 2,
      ls_local_sapic_id = u8_at bs 3, ls_local_sapic_eid = u8_at bs 4,
      ls_reserved = take 3 (drop 5 bs), ls_flags = u32_at bs 8, ls_processor_uid = u32_at bs 12,
      ls_processor_uid_string = u8_at bs 16\<rparr>"

record platform_interrupt_source_entry =
  pis_header :: entry_header
  pis_flags :: u16
  pis_interrupt_type :: u8
  pis_processor_id :: u8
  pis_processor_eid :: u8
  pis_io_sapic_vector :: u8
  pis_global_system_interrupt :: u32
  pis_source_flags :: u32

definition platform_interrupt_source_entry_of :: "bytes \<Rightarrow> platform_interrupt_source_entry" where
  "platform_interrupt_source_entry_of bs =
     \<lparr>pis_header = entry_header_of bs, pis_flags = u16_at bs 2,
      pis_interrupt_type = u8_at bs 4, pis_processor_id = u8_at bs 5, pis_processor_eid = u8_at bs 6,
      pis_io_sapic_vector = u8_at bs 7, pis_global_system_interrupt = u32_at bs 8,
      pis_source_flags = u32_at bs 12\<rparr>"

record local_x2apic_entry =
  lx_header :: entry_header
  lx_reserved :: u16
  lx_x2apic_id :: u32
  lx_flags :: u32
  lx_processor_uid :: u32

definition local_x2apic_entry_of :: "bytes \<Rightarrow> local_x2apic_entry" where
  "local_x2apic_entry_of bs =
     \<lparr>lx_header = entry_header_of bs, lx_reserved = u16_at bs 2, lx_x2apic_id = u32_at bs 4,
      lx_flags = u32_at bs 8, lx_processor_uid = u32_at bs 12\<rparr>"

record x2apic_nmi_entry =
  xn_header :: entry_header
  xn_flags :: u16
  xn_processor_uid :: u32
  xn_nmi_line :: u8
  xn_reserved :: bytes

definition x2apic_nmi_entry_of :: "bytes \<Rightarrow> x2apic_nmi_entry" where
  "x2apic_nmi_entry_of bs =
     \<lparr>xn_header = entry_header_of bs, xn_flags = u16_at bs 2, xn_processor_uid = u32_at bs 4,
      xn_nmi_line = u8_at bs 8, xn_reserved = take 3 (drop 9 bs)\<rparr>"

record gicc_entry =
  gicc_header :: entry_header
  gicc_reserved1 :: u16
  gicc_cpu_interface_number :: u32
  gicc_processor_uid :: u32
  gicc_flags :: u32
  gicc_parking_protocol_version :: u32
  gicc_performance_interrupt_gsiv :: u32
  gicc_parked_address :: u64
  gicc_gic_registers_address :: u64
  gicc_gic_control_block_address :: u64
  gicc_vgic_maintenance_interrupt :: u32
  gicc_gicr_base_address :: u64
  gicc_mpidr :: u64
  gicc_processor_power_efficiency_class :: u8
  gicc_reserved2 :: bytes

definition gicc_entry_of :: "bytes \<Rightarrow> gicc_entry" where
  "gicc_entry_of bs =
     \<lparr>gicc_header = entry_header_of bs, gicc_reserved1 = u16_at bs 2,
      gicc_cpu_interface_number = u32_at bs 4, gicc_processor_uid = u32_at bs 8,
      gicc_flags = u32_at bs 12, gicc_parking_protocol_version = u32_at bs 16,
      gicc_performance_interrupt_gsiv = u32_at bs 20, gicc_parked_address = u64_at bs 24,
      gicc_gic_registers_address = u64_at bs 32, gicc_gic_control_block_address = u64_at bs 40,
      gicc_vgic_maintenance_interrupt = u32_at bs 48, gicc_gicr_base_address = u64_at bs 52,
      gicc_mpidr = u64_at bs 60, gicc_processor_power_efficiency_class = u8_at bs 68,
      gicc_reserved2 = take 3 (drop 69 bs)\<rparr>"

record gicd_entry =
  gicd_header :: entry_header
  gicd_reserved1 :: u16
  gicd_gic_id :: u32
  gicd_physical_base_address :: u64
  gicd_system_vector_base :: u32
  gicd_gic_version :: u8
  gicd_reserved2 :: bytes

definition gicd_entry_of :: "bytes \<Rightarrow> gicd_entry" where
  "gicd_entry_of bs =
     \<lparr>gicd_header = entry_header_of bs, gicd_reserved1 = u16_at bs 2,
      gicd_gic_id = u32_at bs 4, gicd_physical_base_address = u64_at bs 8,
      gicd_system_vector_base = u32_at bs 16, gicd_gic_version = u8_at bs 20,
      gicd_reserved2 = take 3 (drop 21 bs)\<rparr>"

record gic_msi_frame_entry =
  gmf_header :: entry_header
  gmf_reserved :: u16
  gmf_frame_id :: u32
  gmf_physical_base_address :: u64
  gmf_flags :: u32
  gmf_spi_count :: u16
  gmf_spi_base :: u16

definition gic_msi_frame_entry_of :: "bytes \<Rightarrow> gic_msi_frame_entry" where
  "gic_msi_frame_entry_of bs =
     \<lparr>gmf_header = entry_header_of bs, gmf_reserved = u16_at bs 2, gmf_frame_id = u32_at bs 4,
      gmf_physical_base_address = u64_at bs 8, gmf_flags = u32_at bs 16,
      gmf_spi_count = u16_at bs 20, gmf_spi_base = u16_at bs 22\<rparr>"

record gic_redistributor_entry =
  gr_header :: entry_header
  gr_reserved :: u16
  gr_discovery_range_base_address :: u64
  gr_discovery_range_length :: u32

definition gic_redistributor_entry_of :: "bytes \<Rightarrow> gic_redistributor_entry" where
  "gic_redistributor_entry_of bs =
     \<lparr>gr_header = entry_header_of bs, gr_reserved = u16_at bs 2,
      gr_discovery_range_base_address = u64_at bs 4, gr_discovery_range_length = u32_at bs 12\<rparr>"

record gic_its_entry =
  its_header :: entry_header
  its_reserved1 :: u16
  its_id :: u32
  its_physical_base_address :: u64
  its_reserved2 :: u32

definition gic_its_entry_of :: "bytes \<Rightarrow> gic_its_entry" where
  "gic_its_entry_of bs =
     \<lparr>its_header = entry_header_of bs, its_reserved1 = u16_at bs 2, its_id = u32_at bs 4,
      its_physical_base_address = u64_at bs 8, its_reserved2 = u32_at bs 16\<rparr>"

record multiprocessor_wakeup_entry =
  mw_header :: entry_header
  mw_mailbox_version :: u16
  mw_reserved :: u32
  mw_mailbox_address :: u64

definition multiprocessor_wakeup_entry_of :: "bytes \<Rightarrow> multiprocessor_wakeup_entry" where
  "multiprocessor_wakeup_entry_of bs =
     \<lparr>mw_header = entry_header_of bs, mw_mailbox_version = u16_at bs 2,
      mw_reserved = u32_at bs 4, mw_mailbox_address = u64_at bs 8\<rparr>"

datatype madt_entry =
    LocalApic local_apic_entry
  | IoApicE io_apic_entry
  | InterruptSourceOverrideE interrupt_source_override_entry
  | NmiSourceE nmi_source_entry
  | LocalApicNmi local_apic_nmi_entry
  | LocalApicAddressOverride local_apic_address_override_entry
  | IoSapic io_sapic_entry
  | LocalSapic local_sapic_entry
  | PlatformInterruptSource platform_interrupt_source_entry
  | LocalX2Apic local_x2apic_entry
  | X2ApicNmi x2apic_nmi_entry
  | Gicc gicc_entry
  | Gicd gicd_entry
  | GicMsiFrame gic_msi_frame_entry
  | GicRedistributor gic_redistributor_entry
  | GicInterruptTranslationService gic_its_entry
  | MultiprocessorWakeup multiprocessor_wakeup_entry

text \<open>The known types with the sizes of their structures; the other types are reserved and are skipped.\<close>

definition entry_types :: "(u8 \<times> nat \<times> (bytes \<Rightarrow> madt_entry)) list" where
  "entry_types =
     [(0x0, 8, \<lambda>bs. LocalApic (local_apic_entry_of bs)),
      (0x1, 12, \<lambda>bs. IoApicE (io_apic_entry_of bs)),
      (0x2, 10, \<lambda>bs. InterruptSourceOverrideE (interrupt_source_override_entry_of bs)),
      (0x3, 8, \<lambda>bs. NmiSourceE (nmi_source_entry_of bs)),
      (0x4, 6, \<lambda>bs. LocalApicNmi (local_apic_nmi_entry_of bs)),
      (0x5, 12, \<lambda>bs. LocalApicAddressOverride (local_apic_address_override_entry_of bs)),
      (0x6, 16, \<lambda>bs. IoSapic (io_sapic_entry_of bs)),
      (0x7, 17, \<lambda>bs. LocalSapic (local_sapic_entry_of bs)),
      (0x8, 16, \<lambda>bs. PlatformInterruptSource (platform_interrupt_source_entry_of bs)),
      (0x9, 16, \<lambda>bs. LocalX2Apic (local_x2apic_entry_of bs)),
      (0xa, 12, \<lambda>bs. X2ApicNmi (x2apic_nmi_entry_of bs)),
      (0xb, 72, \<lambda>bs. Gicc (gicc_entry_of bs)),
      (0xc, 24, \<lambda>bs. Gicd (gicd_entry_of bs)),
      (0xd, 24, \<lambda>bs. GicMsiFrame (gic_msi_frame_entry_of bs)),
      (0xe, 16, \<lambda>bs. GicRedistributor (gic_redistributor_entry_of bs)),
      (0xf, 20, \<lambda>bs. GicInterruptTranslationService (gic_its_entry_of bs)),
      (0x10, 16, \<lambda>bs. MultiprocessorWakeup (multiprocessor_wakeup_entry_of bs))]"

text \<open>The entry of a type, read through the pointer to its header.\<close>

definition construct_entry :: "u8 \<Rightarrow> view \<Rightarrow> (madt_entry option, 'e) res" where
  "construct_entry ty v =
     (case map_of entry_types ty of
        Some (bytes, mk) \<Rightarrow> and_then (read_view v bytes) (\<lambda>bs. Ok (Some (mk bs)))
      | None \<Rightarrow> Ok None)"

subsection \<open>Iteration\<close>

record madt =
  madt_header :: sdt_header
  madt_local_apic_address :: u32
  madt_flags :: u32

definition madt_size :: nat where
  "madt_size = 44"

definition madt_of :: "bytes \<Rightarrow> madt" where
  "madt_of bs = \<lparr>madt_header = sdt_header_of bs, madt_local_apic_address = u32_at bs 36, madt_flags = u32_at bs 40\<rparr>"

definition read_madt :: "view \<Rightarrow> (madt, 'e) res" where
  "read_madt self = and_then (read_view self madt_size) (\<lambda>bs. Ok (madt_of bs))"

record madt_entry_iter =
  iter_pointer :: nat
  remaining_length :: nat

definition madt_entries :: "madt \<Rightarrow> (madt_entry_iter, 'e) res" where
  "madt_entries m =
     (if unat (sdt_length (madt_header m)) < madt_size then Panic
      else Ok \<lparr>iter_pointer = madt_size, remaining_length = unat (sdt_length (madt_header m)) - madt_size\<rparr>)"

definition supports_8259 :: "'z acpi_crates_scheme \<Rightarrow> madt \<Rightarrow> bool" where
  "supports_8259 K m = get_bit_u32 K (madt_flags m) 0"

fun madt_next :: "nat \<Rightarrow> view \<Rightarrow> madt_entry_iter \<Rightarrow> ((madt_entry \<times> madt_entry_iter) option, 'e) res" where
  "madt_next 0 self it = OutOfFuel"
| "madt_next (Suc n) self it =
     (if remaining_length it > 0 then
        and_then (read_view (view_from self (iter_pointer it)) 2) (\<lambda>bs.
          let header = entry_header_of bs; len = unat (entry_length header) in
          if remaining_length it < len then Panic
          else
            let it' = \<lparr>iter_pointer = iter_pointer it + len, remaining_length = remaining_length it - len\<rparr> in
            and_then (construct_entry (entry_type header) (view_from self (iter_pointer it))) (\<lambda>entry.
              case entry of Some e \<Rightarrow> Ok (Some (e, it')) | None \<Rightarrow> madt_next n self it'))
      else Ok None)"

text \<open>A loop over the entries, with a state.\<close>

fun for_entries :: "nat \<Rightarrow> view \<Rightarrow> madt_entry_iter \<Rightarrow> (madt_entry \<Rightarrow> 's \<Rightarrow> ('s, 'e) res) \<Rightarrow> 's \<Rightarrow> ('s, 'e) res" where
  "for_entries 0 self it f st = OutOfFuel"
| "for_entries (Suc n) self it f st =
     and_then (madt_next (Suc n) self it) (\<lambda>found.
       case found of
         None \<Rightarrow> Ok st
       | Some (entry, it') \<Rightarrow> and_then (f entry st) (\<lambda>st'. for_entries n self it' f st'))"

subsection \<open>The interrupt model\<close>

record io_apic =
  ioapic_id :: u8
  ioapic_address :: u32
  ioapic_interrupt_base :: u32

datatype local_interrupt_line = Lint0 | Lint1

datatype nmi_processor = AllProcessors | ProcessorUid u32

record nmi_line =
  nl_processor :: nmi_processor
  nl_line :: local_interrupt_line

datatype mps_polarity = PolaritySameAsBus | PolarityActiveHigh | PolarityActiveLow

datatype trigger_mode = TriggerSameAsBus | TriggerEdge | TriggerLevel

record interrupt_source_override =
  isa_source :: u8
  iso_interrupt :: u32
  iso_polarity :: mps_polarity
  iso_trigger_mode :: trigger_mode

record nmi_source =
  nmi_interrupt :: u32
  nmi_polarity :: mps_polarity
  nmi_trigger_mode :: trigger_mode

record apic =
  local_apic_address :: u64
  io_apics :: "io_apic managed_slice"
  local_apic_nmi_lines :: "nmi_line managed_slice"
  interrupt_source_overrides :: "interrupt_source_override managed_slice"
  nmi_sources :: "nmi_source managed_slice"
  also_has_legacy_pics :: bool

datatype interrupt_model = UnknownModel | ApicModel apic

datatype processor_state = Disabled | WaitingForSipi | Running

record processor =
  processor_uid :: u32
  local_apic_id :: u32
  processor_state :: processor_state
  is_ap :: bool

record processor_info =
  boot_processor :: processor
  application_processors :: "processor managed_slice"

definition parse_mps_inti_flags :: "'z acpi_crates_scheme \<Rightarrow> u16 \<Rightarrow> (mps_polarity \<times> trigger_mode, acpi_error) res" where
  "parse_mps_inti_flags K flags =
     and_then (let p = get_bits_u16 K flags 0 2 in
        if p = 0 then Ok PolaritySameAsBus
        else if p = 1 then Ok PolarityActiveHigh
        else if p = 3 then Ok PolarityActiveLow
        else Err (InvalidMadt MpsIntiInvalidPolarity)) (\<lambda>polarity.
     and_then (let t = get_bits_u16 K flags 2 4 in
        if t = 0 then Ok TriggerSameAsBus
        else if t = 1 then Ok TriggerEdge
        else if t = 3 then Ok TriggerLevel
        else Err (InvalidMadt MpsIntiInvalidTriggerMode)) (\<lambda>trigger_mode.
       Ok (polarity, trigger_mode)))"

text \<open>The variables of the second pass: the slices with their counters.\<close>

record apic_state =
  st_address :: u64
  st_io_apics :: "io_apic managed_slice"
  st_io_apic_count :: nat
  st_overrides :: "interrupt_source_override managed_slice"
  st_iso_count :: nat
  st_nmi_sources :: "nmi_source managed_slice"
  st_nmi_source_count :: nat
  st_nmi_lines :: "nmi_line managed_slice"
  st_nmi_line_count :: nat
  st_processors :: "processor managed_slice"
  st_processor_count :: nat
  st_boot :: "processor option"

definition state_of :: "bool \<Rightarrow> bool \<Rightarrow> processor_state" where
  "state_of ap disabled = (if disabled then Disabled else if ap then WaitingForSipi else Running)"

text \<open>A processor with its identifiers and whether it is disabled.\<close>

definition add_processor :: "u32 \<Rightarrow> u32 \<Rightarrow> bool \<Rightarrow> apic_state \<Rightarrow> (apic_state, 'e) res" where
  "add_processor uid apic_id disabled st =
     (let ap = st_boot st \<noteq> None;
          p = \<lparr>processor_uid = uid, local_apic_id = apic_id, processor_state = state_of ap disabled, is_ap = ap\<rparr>
      in if ap then
           and_then (slice_set (st_processors st) (st_processor_count st) p) (\<lambda>ps.
             Ok (st\<lparr>st_processors := ps, st_processor_count := Suc (st_processor_count st)\<rparr>))
         else Ok (st\<lparr>st_boot := Some p\<rparr>))"

definition nmi_line_of :: "u8 \<Rightarrow> (local_interrupt_line, acpi_error) res" where
  "nmi_line_of line =
     (if line = 0 then Ok Lint0 else if line = 1 then Ok Lint1 else Err (InvalidMadt InvalidLocalNmiLine))"

text \<open>
  The value of an assignment \<open>slice[i] = value\<close> is computed first, an error of it leaves the function.
\<close>

definition add_nmi_line :: "nmi_processor \<Rightarrow> u8 \<Rightarrow> apic_state \<Rightarrow> (apic_state, acpi_error) res" where
  "add_nmi_line p line st =
     and_then (nmi_line_of line) (\<lambda>l.
     and_then (slice_set (st_nmi_lines st) (st_nmi_line_count st) \<lparr>nl_processor = p, nl_line = l\<rparr>) (\<lambda>ls.
       Ok (st\<lparr>st_nmi_lines := ls, st_nmi_line_count := Suc (st_nmi_line_count st)\<rparr>)))"

fun apic_entry :: "'z acpi_crates_scheme \<Rightarrow> madt_entry \<Rightarrow> apic_state \<Rightarrow> (apic_state, acpi_error) res" where
  "apic_entry K (LocalApic e) st =
     add_processor (ucast (la_processor_id e)) (ucast (la_apic_id e)) (\<not> get_bit_u32 K (la_flags e) 0) st"
| "apic_entry K (LocalX2Apic e) st =
     add_processor (lx_processor_uid e) (lx_x2apic_id e) (\<not> get_bit_u32 K (lx_flags e) 0) st"
| "apic_entry K (IoApicE e) st =
     and_then (slice_set (st_io_apics st) (st_io_apic_count st)
         \<lparr>ioapic_id = ioa_io_apic_id e, ioapic_address = ioa_io_apic_address e,
          ioapic_interrupt_base = ioa_global_system_interrupt_base e\<rparr>) (\<lambda>xs.
       Ok (st\<lparr>st_io_apics := xs, st_io_apic_count := Suc (st_io_apic_count st)\<rparr>))"
| "apic_entry K (InterruptSourceOverrideE e) st =
     (if iso_bus e \<noteq> 0 then Err (InvalidMadt InterruptOverrideEntryHasInvalidBus)
      else
        and_then (parse_mps_inti_flags K (iso_flags e)) (\<lambda>(polarity, trigger_mode).
        and_then (slice_set (st_overrides st) (st_iso_count st)
            \<lparr>isa_source = iso_irq e, iso_interrupt = iso_global_system_interrupt e,
             iso_polarity = polarity, iso_trigger_mode = trigger_mode\<rparr>) (\<lambda>xs.
          Ok (st\<lparr>st_overrides := xs, st_iso_count := Suc (st_iso_count st)\<rparr>))))"
| "apic_entry K (NmiSourceE e) st =
     and_then (parse_mps_inti_flags K (nmi_flags e)) (\<lambda>(polarity, trigger_mode).
     and_then (slice_set (st_nmi_sources st) (st_nmi_source_count st)
         \<lparr>nmi_interrupt = nmi_global_system_interrupt e, nmi_polarity = polarity,
          nmi_trigger_mode = trigger_mode\<rparr>) (\<lambda>xs.
       Ok (st\<lparr>st_nmi_sources := xs, st_nmi_source_count := Suc (st_nmi_source_count st)\<rparr>)))"
| "apic_entry K (LocalApicNmi e) st =
     add_nmi_line (if lan_processor_id e = 0xff then AllProcessors else ProcessorUid (ucast (lan_processor_id e)))
       (lan_nmi_line e) st"
| "apic_entry K (X2ApicNmi e) st =
     add_nmi_line (if xn_processor_uid e = 0xffffffff then AllProcessors else ProcessorUid (xn_processor_uid e))
       (xn_nmi_line e) st"
| "apic_entry K (LocalApicAddressOverride e) st = Ok (st\<lparr>st_address := lao_local_apic_address e\<rparr>)"
| "apic_entry K _ st = Err (InvalidMadt UnexpectedEntry)"

text \<open>The first pass: I/O APICs, overrides, NMI sources, NMI lines and processors.\<close>

record apic_counts =
  io_apic_count :: nat
  iso_count :: nat
  nmi_source_count :: nat
  local_nmi_line_count :: nat
  processor_count :: nat

fun count_entry :: "madt_entry \<Rightarrow> apic_counts \<Rightarrow> (apic_counts, 'e) res" where
  "count_entry (IoApicE _) n = Ok (n\<lparr>io_apic_count := Suc (io_apic_count n)\<rparr>)"
| "count_entry (InterruptSourceOverrideE _) n = Ok (n\<lparr>iso_count := Suc (iso_count n)\<rparr>)"
| "count_entry (NmiSourceE _) n = Ok (n\<lparr>nmi_source_count := Suc (nmi_source_count n)\<rparr>)"
| "count_entry (LocalApicNmi _) n = Ok (n\<lparr>local_nmi_line_count := Suc (local_nmi_line_count n)\<rparr>)"
| "count_entry (LocalApic _) n = Ok (n\<lparr>processor_count := Suc (processor_count n)\<rparr>)"
| "count_entry _ n = Ok n"

definition zero_counts :: apic_counts where
  "zero_counts = \<lparr>io_apic_count = 0, iso_count = 0, nmi_source_count = 0, local_nmi_line_count = 0,
                  processor_count = 0\<rparr>"

definition apic_slices :: "allocator \<Rightarrow> madt \<Rightarrow> apic_counts \<Rightarrow> (apic_state, acpi_error) res" where
  "apic_slices A m n =
     and_then (managed_slice_new A [] IoApicElem (io_apic_count n)) (\<lambda>(ioas, req1).
     and_then (managed_slice_new A req1 IsoElem (iso_count n)) (\<lambda>(isos, req2).
     and_then (managed_slice_new A req2 NmiSourceElem (nmi_source_count n)) (\<lambda>(nmis, req3).
     and_then (managed_slice_new A req3 NmiLineElem (local_nmi_line_count n)) (\<lambda>(lines, req4).
     and_then (managed_slice_new A req4 ProcessorElem (processor_count n - 1)) (\<lambda>(ps, _).
       Ok \<lparr>st_address = ucast (madt_local_apic_address m),
           st_io_apics = ioas, st_io_apic_count = 0, st_overrides = isos, st_iso_count = 0,
           st_nmi_sources = nmis, st_nmi_source_count = 0, st_nmi_lines = lines, st_nmi_line_count = 0,
           st_processors = ps, st_processor_count = 0, st_boot = None\<rparr>)))))"

definition parse_apic_model :: "nat \<Rightarrow> 'z acpi_crates_scheme \<Rightarrow> allocator \<Rightarrow> view
    \<Rightarrow> (interrupt_model \<times> processor_info option, acpi_error) res" where
  "parse_apic_model n K A self =
     and_then (read_madt self) (\<lambda>m.
     and_then (madt_entries m) (\<lambda>it.
     and_then (for_entries n self it count_entry zero_counts) (\<lambda>counts.
     and_then (apic_slices A m counts) (\<lambda>st0.
     and_then (for_entries n self it (apic_entry K) st0) (\<lambda>st.
     and_then (unwrap_option (st_boot st)) (\<lambda>boot.
       Ok (ApicModel
             \<lparr>local_apic_address = st_address st, io_apics = st_io_apics st,
              local_apic_nmi_lines = st_nmi_lines st, interrupt_source_overrides = st_overrides st,
              nmi_sources = st_nmi_sources st, also_has_legacy_pics = supports_8259 K m\<rparr>,
           Some \<lparr>boot_processor = boot, application_processors = st_processors st\<rparr>)))))))"

text \<open>The kind of controller an entry speaks for; \<open>None\<close> when it speaks for none.\<close>

fun entry_model :: "madt_entry \<Rightarrow> (unit option, 'e) res" where
  "entry_model (LocalApic _) = Ok (Some ())"
| "entry_model (LocalX2Apic _) = Ok (Some ())"
| "entry_model (IoApicE _) = Ok (Some ())"
| "entry_model (InterruptSourceOverrideE _) = Ok (Some ())"
| "entry_model (NmiSourceE _) = Ok (Some ())"
| "entry_model (LocalApicNmi _) = Ok (Some ())"
| "entry_model (X2ApicNmi _) = Ok (Some ())"
| "entry_model (LocalApicAddressOverride _) = Ok (Some ())"
| "entry_model (MultiprocessorWakeup _) = Ok None"
| "entry_model _ = Panic"

fun choose_model :: "nat \<Rightarrow> view \<Rightarrow> madt_entry_iter \<Rightarrow> (unit option, 'e) res" where
  "choose_model 0 self it = OutOfFuel"
| "choose_model (Suc n) self it =
     and_then (madt_next (Suc n) self it) (\<lambda>found.
       case found of
         None \<Rightarrow> Ok None
       | Some (entry, it') \<Rightarrow>
           and_then (entry_model entry) (\<lambda>model.
             case model of Some _ \<Rightarrow> Ok (Some ()) | None \<Rightarrow> choose_model n self it'))"

definition parse_interrupt_model :: "nat \<Rightarrow> 'z acpi_crates_scheme \<Rightarrow> allocator \<Rightarrow> view
    \<Rightarrow> (interrupt_model \<times> processor_info option, acpi_error) res" where
  "parse_interrupt_model n K A self =
     and_then (read_madt self) (\<lambda>m.
     and_then (madt_entries m) (\<lambda>it.
     and_then (choose_model n self it) (\<lambda>model.
       case model of
         Some _ \<Rightarrow> parse_apic_model n K A self
       | None \<Rightarrow> Ok (UnknownModel, None))))"

end
