(* ===== verification/Mcfg.thy ===== *)
theory Mcfg
  imports Madt
begin

section \<open>The regions of PCI configuration space\<close>

text \<open>
  \<open>acpi/src/mcfg.rs\<close>: the regions of physical memory that the configuration space of PCI Express
  devices is mapped to, and the address of the space of one function.
\<close>

record mcfg_entry =
  base_address :: u64
  pci_segment_group :: u16
  bus_number_start :: u8
  bus_number_end :: u8
  mcfg_reserved :: u32

definition mcfg_entry_size :: nat where
  "mcfg_entry_size = 16"

definition mcfg_entry_of :: "bytes \<Rightarrow> mcfg_entry" where
  "mcfg_entry_of bs =
     \<lparr>base_address = u64_at bs 0, pci_segment_group = u16_at bs 8, bus_number_start = u8_at bs 10,
      bus_number_end = u8_at bs 11, mcfg_reserved = u32_at bs 12\<rparr>"

text \<open>The table is its header and eight reserved bytes, followed by the entries.\<close>

definition mcfg_size :: nat where
  "mcfg_size = 44"

definition mcfg_entries :: "view \<Rightarrow> (mcfg_entry list, 'e) res" where
  "mcfg_entries self =
     and_then (read_sdt_header self) (\<lambda>header.
       if unat (sdt_length header) < mcfg_size then Panic
       else
         let num_entries = (unat (sdt_length header) - mcfg_size) div mcfg_entry_size in
         and_then (read_view (view_from self mcfg_size) (num_entries * mcfg_entry_size)) (\<lambda>bs.
           Ok (map (\<lambda>i. mcfg_entry_of (drop (i * mcfg_entry_size) bs)) [0..<num_entries])))"

type_synonym pci_config_regions = "mcfg_entry managed_slice"

text \<open>\<open>copy_from_slice\<close> panics when the two slices have different lengths.\<close>

definition copy_from_slice :: "'a managed_slice \<Rightarrow> 'a list \<Rightarrow> ('a managed_slice, 'e) res" where
  "copy_from_slice dst src = (if length dst = length src then Ok (map Some src) else Panic)"

definition pci_config_regions_new :: "acpi_handler \<Rightarrow> allocator \<Rightarrow> acpi_tables
    \<Rightarrow> (pci_config_regions, acpi_error) mact" where
  "pci_config_regions_new H A tables =
     mbind (find_table H SIG_MCFG tables) (\<lambda>mcfg.
       dropping mcfg
         (mbind (mreads (\<lambda>s. mcfg_entries (mapping_view H s mcfg))) (\<lambda>entries.
          mbind (mpure (managed_slice_new A [] McfgEntryElem (length entries))) (\<lambda>(regions, _).
            mpure (copy_from_slice regions entries)))))"

definition manages :: "u16 \<Rightarrow> u8 \<Rightarrow> mcfg_entry \<Rightarrow> bool" where
  "manages segment_group_no bus region \<longleftrightarrow>
     pci_segment_group region = segment_group_no \<and> bus_number_start region \<le> bus \<and> bus \<le> bus_number_end region"

text \<open>
  The first region for the segment and the bus. The addition is checked for overflow; reading an
  uninitialised region is undefined behaviour.
\<close>

fun find_region :: "u16 \<Rightarrow> u8 \<Rightarrow> pci_config_regions \<Rightarrow> (mcfg_entry option, 'e) res" where
  "find_region segment_group_no bus [] = Ok None"
| "find_region segment_group_no bus (None # regions) = Panic"
| "find_region segment_group_no bus (Some region # regions) =
     (if manages segment_group_no bus region then Ok (Some region)
      else find_region segment_group_no bus regions)"

definition physical_address :: "pci_config_regions \<Rightarrow> u16 \<Rightarrow> u8 \<Rightarrow> u8 \<Rightarrow> u8 \<Rightarrow> (u64 option, 'e) res" where
  "physical_address regions segment_group_no bus dev func =
     and_then (find_region segment_group_no bus regions) (\<lambda>found.
       case found of
         None \<Rightarrow> Ok None
       | Some region \<Rightarrow>
           and_then (add_u64 (base_address region)
               (push_bit 20 (ucast (bus - bus_number_start region)) OR push_bit 15 (ucast dev)
                  OR push_bit 12 (ucast func))) (\<lambda>address.
             Ok (Some address)))"

record pci_config_entry =
  segment_group :: u16
  bus_range :: "u8 \<times> u8"
  entry_physical_address :: nat

text \<open>The iterator goes over the regions; reading an uninitialised one is undefined behaviour here as well.\<close>

record pci_config_iter =
  config_entries :: pci_config_regions
  config_index :: nat

definition pci_config_regions_iter :: "pci_config_regions \<Rightarrow> pci_config_iter" where
  "pci_config_regions_iter regions = \<lparr>config_entries = regions, config_index = 0\<rparr>"

definition config_entry_of :: "mcfg_entry \<Rightarrow> pci_config_entry" where
  "config_entry_of entry =
     \<lparr>segment_group = pci_segment_group entry, bus_range = (bus_number_start entry, bus_number_end entry),
      entry_physical_address = unat (base_address entry)\<rparr>"

definition pci_config_next :: "pci_config_iter \<Rightarrow> (pci_config_entry option \<times> pci_config_iter, 'e) res" where
  "pci_config_next it =
     (if config_index it < length (config_entries it) then
        and_then (unwrap_option (config_entries it ! config_index it)) (\<lambda>entry.
          Ok (Some (config_entry_of entry), it\<lparr>config_index := Suc (config_index it)\<rparr>))
      else Ok (None, it))"

end
