(* ===== verification/Platform.thy ===== *)
theory Platform
  imports Mcfg
begin

section \<open>Timers, the boot graphic and the platform\<close>

text \<open>
  \<open>acpi/src/hpet.rs\<close>, \<open>acpi/src/bgrt.rs\<close> and \<open>acpi/src/platform/mod.rs\<close>: the event timer, the boot
  graphic, and the view of the platform put together from the fixed description table and the table of
  interrupt controllers.
\<close>

subsection \<open>The event timer\<close>

datatype page_protection = NoProtection | Protected4K | Protected64K | OtherProtection

record hpet_table =
  hpet_header :: sdt_header
  hpet_event_timer_block_id :: u32
  hpet_base_address :: raw_generic_address
  hpet_hpet_number :: u8
  hpet_clock_tick_unit :: u16
  hpet_page_protection_and_oem :: u8

definition hpet_table_size :: nat where
  "hpet_table_size = 56"

definition hpet_table_of :: "bytes \<Rightarrow> hpet_table" where
  "hpet_table_of bs =
     \<lparr>hpet_header = sdt_header_of bs, hpet_event_timer_block_id = u32_at bs 36,
      hpet_base_address = raw_generic_address_of (drop 40 bs), hpet_hpet_number = u8_at bs 52,
      hpet_clock_tick_unit = u16_at bs 53, hpet_page_protection_and_oem = u8_at bs 55\<rparr>"

record hpet_info =
  event_timer_block_id :: u32
  hpet_address :: nat
  hpet_number :: u8
  clock_tick_unit :: u16
  page_protection :: page_protection

definition page_protection_of :: "u8 \<Rightarrow> (page_protection, 'e) res" where
  "page_protection_of b =
     (if b = 0 then Ok NoProtection
      else if b = 1 then Ok Protected4K
      else if b = 2 then Ok Protected64K
      else if b \<le> 15 then Ok OtherProtection
      else Panic)"

definition hpet_info_new :: "'z acpi_crates_scheme \<Rightarrow> acpi_handler \<Rightarrow> acpi_tables \<Rightarrow> (hpet_info, acpi_error) mact" where
  "hpet_info_new K H tables =
     mbind (find_table H SIG_HPET tables) (\<lambda>hpet.
       dropping hpet
         (mbind (mreads (\<lambda>s. read_view (mapping_view H s hpet) hpet_table_size)) (\<lambda>bs.
            let t = hpet_table_of bs in
            if raw_address_space (hpet_base_address t) \<noteq> 0 then mpure Panic
            else
              mbind (mpure (page_protection_of (get_bits_u8 K (hpet_page_protection_and_oem t) 0 4))) (\<lambda>p.
                mret \<lparr>event_timer_block_id = hpet_event_timer_block_id t,
                      hpet_address = unat (raw_address (hpet_base_address t)),
                      hpet_number = hpet_hpet_number t, clock_tick_unit = hpet_clock_tick_unit t,
                      page_protection = p\<rparr>))))"

definition hardware_rev :: "'z acpi_crates_scheme \<Rightarrow> hpet_info \<Rightarrow> u8" where
  "hardware_rev K h = ucast (get_bits_u32 K (event_timer_block_id h) 0 8)"

definition num_comparators :: "'z acpi_crates_scheme \<Rightarrow> hpet_info \<Rightarrow> (u8, 'e) res" where
  "num_comparators K h =
     (let n = ucast (get_bits_u32 K (event_timer_block_id h) 8 13) :: u8
      in if unat n + 1 < 2 ^ 8 then Ok (n + 1) else Panic)"

definition main_counter_is_64bits :: "'z acpi_crates_scheme \<Rightarrow> hpet_info \<Rightarrow> bool" where
  "main_counter_is_64bits K h = get_bit_u32 K (event_timer_block_id h) 13"

definition legacy_irq_capable :: "'z acpi_crates_scheme \<Rightarrow> hpet_info \<Rightarrow> bool" where
  "legacy_irq_capable K h = get_bit_u32 K (event_timer_block_id h) 15"

definition pci_vendor_id :: "'z acpi_crates_scheme \<Rightarrow> hpet_info \<Rightarrow> u16" where
  "pci_vendor_id K h = ucast (get_bits_u32 K (event_timer_block_id h) 16 32)"

subsection \<open>The boot graphic\<close>

datatype image_type = Bitmap | ReservedImage

record bgrt =
  bgrt_header :: sdt_header
  bgrt_version :: u16
  bgrt_status :: u8
  bgrt_image_type :: u8
  bgrt_image_address :: u64
  bgrt_image_offset_x :: u32
  bgrt_image_offset_y :: u32

definition bgrt_of :: "bytes \<Rightarrow> bgrt" where
  "bgrt_of bs =
     \<lparr>bgrt_header = sdt_header_of bs, bgrt_version = u16_at bs 36, bgrt_status = u8_at bs 38,
      bgrt_image_type = u8_at bs 39, bgrt_image_address = u64_at bs 40,
      bgrt_image_offset_x = u32_at bs 48, bgrt_image_offset_y = u32_at bs 52\<rparr>"

definition image_type_of :: "bgrt \<Rightarrow> image_type" where
  "image_type_of b = (if bgrt_image_type b = 0 then Bitmap else ReservedImage)"

definition orientation_offset :: "'z acpi_crates_scheme \<Rightarrow> bgrt \<Rightarrow> (u16, 'e) res" where
  "orientation_offset K b =
     (let status = get_bits_u8 K (bgrt_status b) 1 3 in
      if status = 0 then Ok 0
      else if status = 1 then Ok 90
      else if status = 2 then Ok 180
      else if status = 3 then Ok 270
      else Panic)"

definition was_displayed :: "'z acpi_crates_scheme \<Rightarrow> bgrt \<Rightarrow> bool" where
  "was_displayed K b = get_bit_u8 K (bgrt_status b) 0"

definition image_offset :: "bgrt \<Rightarrow> u32 \<times> u32" where
  "image_offset b = (bgrt_image_offset_x b, bgrt_image_offset_y b)"

subsection \<open>The platform\<close>

record pm_timer =
  timer_base :: generic_address
  supports_32bit :: bool

definition pm_timer_new :: "'z acpi_crates_scheme \<Rightarrow> fadt \<Rightarrow> (pm_timer option, acpi_error) res" where
  "pm_timer_new K f =
     and_then (pm_timer_block f) (\<lambda>block.
       case block of
         Some base \<Rightarrow> Ok (Some \<lparr>timer_base = base, supports_32bit = pm_timer_is_32_bit K (fadt_flags f)\<rparr>)
       | None \<Rightarrow> Ok None)"

record platform_info =
  power_profile :: power_profile
  interrupt_model :: interrupt_model
  processor_info :: "processor_info option"
  pm_timer :: "pm_timer option"

text \<open>The table of interrupt controllers, when there is one; any error in finding it counts as none.\<close>

definition platform_interrupts :: "nat \<Rightarrow> 'z acpi_crates_scheme \<Rightarrow> acpi_handler \<Rightarrow> allocator \<Rightarrow> acpi_tables
    \<Rightarrow> (interrupt_model \<times> processor_info option, acpi_error) mact" where
  "platform_interrupts n K H A tables s =
     (case find_table H SIG_MADT tables s of
        Ok (madt, s') \<Rightarrow>
          dropping madt (mreads (\<lambda>s. parse_interrupt_model n K A (mapping_view H s madt))) s'
      | Err (_, s') \<Rightarrow> Ok ((UnknownModel, None), s')
      | Panic \<Rightarrow> Panic | Deadlock \<Rightarrow> Deadlock | OutOfFuel \<Rightarrow> OutOfFuel)"

text \<open>The timer needs the flags of the table only if there is a block of registers for it.\<close>

definition timer_needs :: "fadt \<Rightarrow> nat" where
  "timer_needs f = (case pm_timer_block f of Ok (Some _) \<Rightarrow> 116 | _ \<Rightarrow> 92)"

definition platform_info_new :: "nat \<Rightarrow> 'z acpi_crates_scheme \<Rightarrow> acpi_handler \<Rightarrow> allocator \<Rightarrow> acpi_tables
    \<Rightarrow> (platform_info, acpi_error) mact" where
  "platform_info_new n K H A tables =
     mbind (find_table H SIG_FADT tables) (\<lambda>fadt_mapping.
       dropping fadt_mapping
         (mbind (mreads (\<lambda>s. and_then (read_fadt (\<lambda>_. 46) (mapping_view H s fadt_mapping))
                    (\<lambda>f. Ok (power_profile_of f)))) (\<lambda>profile.
          mbind (platform_interrupts n K H A tables) (\<lambda>(model, processors).
          mbind (mreads (\<lambda>s. and_then (read_fadt timer_needs (mapping_view H s fadt_mapping)) (pm_timer_new K))) (\<lambda>timer.
            mret \<lparr>power_profile = profile, interrupt_model = model,
                  processor_info = processors, pm_timer = timer\<rparr>)))))"

end
