(* ===== verification/Acpi_Correct.thy ===== *)
theory Acpi_Correct
  imports Platform
begin

section \<open>Tables are validated and found\<close>

text \<open>
  What validation accepts, as a predicate on physical memory; the search for the root pointer and
  for tables on a handler that keeps all memory mapped; and what goes wrong with a handler that
  allows no more than its contract demands.
\<close>

subsection \<open>Validation\<close>

definition sdt_at :: "(nat \<Rightarrow> u8) \<Rightarrow> nat \<Rightarrow> sdt_header" where
  "sdt_at memory a = sdt_header_of (mem_bytes memory a 36)"

definition sdt_bytes :: "(nat \<Rightarrow> u8) \<Rightarrow> nat \<Rightarrow> bytes" where
  "sdt_bytes memory a = mem_bytes memory a (unat (sdt_length (sdt_at memory a)))"

definition valid_sdt :: "(nat \<Rightarrow> u8) \<Rightarrow> signature \<Rightarrow> nat \<Rightarrow> bool" where
  "valid_sdt memory sig a \<longleftrightarrow>
     sdt_signature (sdt_at memory a) = sig \<and> utf8_valid (sdt_oem_id (sdt_at memory a))
     \<and> utf8_valid (sdt_oem_table_id (sdt_at memory a)) \<and> sum_bytes (sdt_bytes memory a) = 0"

definition rsdp_at :: "(nat \<Rightarrow> u8) \<Rightarrow> nat \<Rightarrow> rsdp" where
  "rsdp_at memory a = rsdp_of (mem_bytes memory a 36)"

definition rsdp_checked_length :: "rsdp \<Rightarrow> nat" where
  "rsdp_checked_length r = (if rsdp_revision r = 0 then 20 else unat (rsdp_length r))"

definition valid_rsdp :: "(nat \<Rightarrow> u8) \<Rightarrow> nat \<Rightarrow> bool" where
  "valid_rsdp memory a \<longleftrightarrow>
     rsdp_signature (rsdp_at memory a) = RSDP_SIGNATURE \<and> utf8_valid (rsdp_oem_id (rsdp_at memory a))
     \<and> sum_bytes (mem_bytes memory a (rsdp_checked_length (rsdp_at memory a))) = 0"

lemma read_sdt_header_total [simp]: "read_sdt_header (total_view memory a) = Ok (sdt_at memory a)"
  by (simp add: read_sdt_header_def sdt_header_size_def sdt_at_def)

lemma read_rsdp_total [simp]: "read_rsdp (total_view memory a) = Ok (rsdp_at memory a)"
  by (simp add: read_rsdp_def rsdp_size_def rsdp_at_def)

lemma sdt_validate_total:
  "sdt_validate (total_view memory a) sig = Ok u \<longleftrightarrow> valid_sdt memory sig a"
  "\<not> valid_sdt memory sig a \<Longrightarrow> \<exists>e. sdt_validate (total_view memory a) sig = Err e"
  by (auto simp: sdt_validate_def valid_sdt_def sdt_bytes_def word_greater_zero_iff)

lemma rsdp_validate_total:
  "rsdp_validate (total_view memory a) = Ok u \<longleftrightarrow> valid_rsdp memory a"
  "\<not> valid_rsdp memory a \<Longrightarrow> \<exists>e. rsdp_validate (total_view memory a) = Err e"
  by (auto simp: rsdp_validate_def valid_rsdp_def rsdp_checked_length_def RSDP_V1_LENGTH_def word_greater_zero_iff)

lemma sum_bytes_sum_list: "sum_bytes bs = sum_list bs"
proof -
  have "fold (\<lambda>byte sum. sum + byte) bs acc = acc + sum_list bs" for acc :: u8
    by (induction bs arbitrary: acc) (simp_all add: add.assoc)
  then show ?thesis by (simp add: sum_bytes_def)
qed

lemma sum_bytes_update:
  assumes "i < length bs" "b \<noteq> bs ! i"
  shows "sum_bytes (bs[i := b]) \<noteq> sum_bytes bs"
proof -
  have "bs ! i + sum_list (bs[i := b]) = b + sum_list bs" if "i < length bs" for bs :: bytes and i
    using that by (induction bs arbitrary: i) (auto simp: less_Suc_eq_0_disj algebra_simps)
  from this[OF assms(1)] assms(2) show ?thesis by (auto simp: sum_bytes_sum_list)
qed

lemma mem_bytes_update:
  "i < n \<Longrightarrow> mem_bytes (memory(a + i := b)) a n = (mem_bytes memory a n)[i := b]"
  by (rule nth_equalityI) (auto simp: nth_list_update)

text \<open>No two constants are the same signature, and each can be printed.\<close>

lemma signature_constants_distinct:
  "distinct (map snd signature_constants)"
  "list_all (\<lambda>(name, sig). \<exists>s. signature_as_str sig = Ok s) signature_constants"
  by code_simp (simp add: signature_constants_def sig_of_def)

subsection \<open>Finding a table\<close>

text \<open>The addresses in a table of tables at \<open>p\<close> with entries of \<open>k\<close> bytes.\<close>

definition table_addresses :: "(nat \<Rightarrow> u8) \<Rightarrow> nat \<Rightarrow> nat \<Rightarrow> nat list" where
  "table_addresses memory k p =
     map (\<lambda>i. le_value (mem_bytes memory (p + 36 + k * i) k))
       [0..<(unat (sdt_length (sdt_at memory p)) - 36) div k]"

lemma dropping_map [simp]:
  "unmap_state (mapping_new a (next_virtual s) k l)
     (s\<lparr>live := next_virtual s # live s, next_virtual := n\<rparr>) = s\<lparr>next_virtual := n\<rparr>"
  by (simp add: unmap_state_def mapping_new_def)

lemma mapping_new_simps [simp]:
  "physical_start (mapping_new a v k l) = a" "virtual_start (mapping_new a v k l) = v"
  "region_length (mapping_new a v k l) = k" "mapped_length (mapping_new a v k l) = l"
  by (simp_all add: mapping_new_def)

text \<open>New mappings are told apart from the live ones.\<close>

definition vm_ok :: "vmem \<Rightarrow> bool" where
  "vm_ok s \<longleftrightarrow> list_all (\<lambda>v. v < next_virtual s) (live s)"

lemma vm_ok_later: "vm_ok s \<Longrightarrow> next_virtual s \<le> n \<Longrightarrow> vm_ok (s\<lparr>next_virtual := n\<rparr>)"
  by (auto simp: vm_ok_def list_all_iff)

lemma vm_ok_fresh: "vm_ok s \<Longrightarrow> next_virtual s \<notin> set (live s)"
  by (auto simp: vm_ok_def list_all_iff)

text \<open>
  What a search returns: a mapping of the whole table at the address, or the error that there is none. When the
  mapping is dropped, what is live is as before.
\<close>

definition maps_table :: "(nat \<Rightarrow> u8) \<Rightarrow> vmem \<Rightarrow> nat \<Rightarrow> physical_mapping \<Rightarrow> vmem \<Rightarrow> bool" where
  "maps_table memory s a m s' \<longleftrightarrow>
     physical_start m = a \<and> unat (sdt_length (sdt_at memory a)) \<le> mapped_length m \<and> vm_ok s'
     \<and> unmap_state m s' = s\<lparr>next_virtual := next_virtual s'\<rparr>"

fun search_outcome :: "(nat \<Rightarrow> u8) \<Rightarrow> signature \<Rightarrow> vmem \<Rightarrow> nat option
    \<Rightarrow> (physical_mapping \<times> vmem, acpi_error \<times> vmem) res \<Rightarrow> bool" where
  "search_outcome memory sig s None r \<longleftrightarrow>
     (\<exists>s'. r = Err (TableMissing sig, s') \<and> s' = s\<lparr>next_virtual := next_virtual s'\<rparr> \<and> vm_ok s')"
| "search_outcome memory sig s (Some a) r \<longleftrightarrow> (\<exists>m s'. r = Ok (m, s') \<and> maps_table memory s a m s')"

lemma search_outcome_later:
  "search_outcome memory sig (s\<lparr>next_virtual := n\<rparr>) x r \<Longrightarrow> search_outcome memory sig s x r"
  by (cases x) (auto simp: maps_table_def)

context direct_map
begin

lemma read_table_invalid:
  assumes "\<not> valid_sdt (phys H) sig a"
  shows "\<exists>e. read_table H sig a s = Err (e, s\<lparr>next_virtual := Suc (next_virtual s)\<rparr>)"
proof -
  obtain e where "sdt_validate (total_view (phys H) a) sig = Err e" using sdt_validate_total(2) assms by blast
  then show ?thesis by (simp add: read_table_def mact_simps view_direct)
qed

lemma read_table_valid:
  assumes "valid_sdt (phys H) sig a" "vm_ok s"
  shows "\<exists>m s'. read_table H sig a s = Ok (m, s') \<and> maps_table (phys H) s a m s'"
proof -
  have ok: "sdt_validate (total_view (phys H) a) sig = Ok ()" using sdt_validate_total(1) assms(1) by blast
  have "remove1 (next_virtual s) (live s) = live s"
    using vm_ok_fresh[OF assms(2)] by (rule remove1_idem)
  then show ?thesis
    using ok maps_enough[of "unat (sdt_length (sdt_at (phys H) a))" a] assms(2)
    by (auto simp: read_table_def maps_table_def mact_simps view_direct unmap_state_def vm_ok_def list_all_iff)
qed

lemma find_table_loop_direct:
  assumes "vm_ok s"
  shows "search_outcome (phys H) sig s
      (find (valid_sdt (phys H) sig) (map (\<lambda>i. le_value (mem_bytes (phys H)
             (physical_start (tables_mapping t) + (36 + table_entry_size t * i)) (table_entry_size t))) offsets))
      (find_table_loop H sig t offsets s)"
  using assms
proof (induction offsets arbitrary: s)
  case Nil
  then show ?case by (simp add: mact_simps)
next
  case (Cons i offsets)
  let ?a = "le_value (mem_bytes (phys H) (physical_start (tables_mapping t) + (36 + table_entry_size t * i))
             (table_entry_size t))"
  have entry: "table_entry H t i s = (Ok (?a, s) :: (_, acpi_error \<times> _) res)"
    by (simp add: table_entry_def mact_simps view_direct sdt_header_size_def)
  show ?case
  proof (cases "valid_sdt (phys H) sig ?a")
    case True
    from read_table_valid[OF this Cons.prems] show ?thesis
      using True entry by (auto simp: mbind_def)
  next
    case False
    let ?s = "s\<lparr>next_virtual := Suc (next_virtual s)\<rparr>"
    from read_table_invalid[OF False] obtain e where "read_table H sig ?a s = Err (e, ?s)" by blast
    then have "find_table_loop H sig t (i # offsets) s = find_table_loop H sig t offsets ?s"
      using entry by (simp add: mbind_def)
    moreover have "vm_ok ?s" using Cons.prems by (rule vm_ok_later) simp
    ultimately show ?thesis using search_outcome_later[OF Cons.IH[of ?s]] False by simp
  qed
qed

lemma find_table_direct:
  assumes "vm_ok s" "36 \<le> unat (sdt_length (sdt_at (phys H) (physical_start (tables_mapping t))))"
  shows "search_outcome (phys H) sig s
      (find (valid_sdt (phys H) sig)
         (table_addresses (phys H) (table_entry_size t) (physical_start (tables_mapping t))))
      (find_table H sig t s)"
proof -
  let ?n = "(unat (sdt_length (sdt_at (phys H) (physical_start (tables_mapping t)))) - 36) div table_entry_size t"
  have "find_table H sig t s = find_table_loop H sig t [0..<?n] s"
    using assms(2) by (simp add: find_table_def mact_simps view_direct num_tables_def sdt_header_size_def)
  then show ?thesis
    using find_table_loop_direct[OF assms(1), of sig t "[0..<?n]"] by (simp add: table_addresses_def add.assoc)
qed

end

text \<open>The address and the signature of the table of tables.\<close>

definition root_address :: "rsdp \<Rightarrow> nat" where
  "root_address r = (if rsdp_revision r = 0 then unat (rsdp_rsdt_address r) else unat (rsdp_xsdt_address r))"

definition root_signature :: "rsdp \<Rightarrow> signature" where
  "root_signature r = (if rsdp_revision r = 0 then SIG_RSDT else SIG_XSDT)"

context direct_map
begin

lemma root_table_direct:
  assumes "valid_sdt (phys H) sig a"
  shows "root_table H a sig revision s
    = Ok (\<lparr>tables_mapping = mapping_new a (next_virtual s) 36 (mapped_length_for H a 36), tables_revision = revision\<rparr>,
          s\<lparr>live := next_virtual s # live s, next_virtual := Suc (next_virtual s)\<rparr>)"
proof -
  have "sdt_validate (total_view (phys H) a) sig = Ok ()" using sdt_validate_total(1) assms by blast
  then show ?thesis by (simp add: root_table_def keeping_def mact_simps view_direct sdt_header_size_def)
qed

lemma from_rsdp_direct:
  assumes "valid_rsdp (phys H) a" "vm_ok s"
    and "valid_sdt (phys H) (root_signature (rsdp_at (phys H) a)) (root_address (rsdp_at (phys H) a))"
  shows "\<exists>t s'. from_rsdp H a s = Ok (t, s') \<and> vm_ok s'
    \<and> physical_start (tables_mapping t) = root_address (rsdp_at (phys H) a)
    \<and> tables_revision t = rsdp_revision (rsdp_at (phys H) a)
    \<and> live s' = virtual_start (tables_mapping t) # live s"
proof -
  let ?r = "rsdp_at (phys H) a"
  have "rsdp_validate (total_view (phys H) a) = Ok ()" using rsdp_validate_total(1) assms(1) by blast
  then have "from_rsdp H a s
      = from_validated_rsdp H (mapping_new a (next_virtual s) 36 (mapped_length_for H a 36))
          (s\<lparr>live := next_virtual s # live s, next_virtual := Suc (next_virtual s)\<rparr>)"
    by (simp add: from_rsdp_def mact_simps keeping_def view_direct rsdp_size_def)
  also have "\<dots> = Ok (\<lparr>tables_mapping = mapping_new (root_address ?r) (Suc (next_virtual s)) 36
                     (mapped_length_for H (root_address ?r) 36), tables_revision = rsdp_revision ?r\<rparr>,
          s\<lparr>live := Suc (next_virtual s) # live s, next_virtual := Suc (Suc (next_virtual s))\<rparr>)"
    using assms(3)
    by (auto simp: from_validated_rsdp_def mact_simps view_direct xsdt_address_def word_greater_zero_iff
        root_address_def root_signature_def root_table_direct unmap_state_def)
  finally show ?thesis using assms(2) by (auto simp: vm_ok_def list_all_iff)
qed

lemma read_fadt_direct: "read_fadt needed (total_view (phys H) a) = Ok (fadt_of (mem_bytes (phys H) a 276))"
proof -
  have "read_prefix (total_view (phys H) a) n = mem_bytes (phys H) a n" for n
    by (simp add: read_prefix_def total_view_def mem_bytes_def comp_def takeWhile_eq_all_conv[THEN iffD2])
  then show ?thesis by (simp add: read_fadt_def fadt_size_def Let_def)
qed

lemma dsdt_direct:
  assumes "vm_ok s" "36 \<le> unat (sdt_length (sdt_at (phys H) (physical_start (tables_mapping t))))"
    and "find (valid_sdt (phys H) SIG_FADT)
           (table_addresses (phys H) (table_entry_size t) (physical_start (tables_mapping t))) = Some fa"
    and "dsdt_address (fadt_of (mem_bytes (phys H) fa 276)) = Ok d"
    and "valid_sdt (phys H) SIG_DSDT d" "36 \<le> unat (sdt_length (sdt_at (phys H) d))"
  shows "\<exists>s'. dsdt H t s = Ok (\<lparr>at_address = d + 36, at_length = sdt_length (sdt_at (phys H) d) - 36\<rparr>, s')
    \<and> s' = s\<lparr>next_virtual := next_virtual s'\<rparr>"
proof -
  from find_table_direct[OF assms(1,2), of SIG_FADT] assms(3) obtain m s1
    where m: "find_table H SIG_FADT t s = Ok (m, s1)" "maps_table (phys H) s fa m s1" by auto
  from m(2) have "vm_ok s1" by (simp add: maps_table_def)
  from read_table_valid[OF assms(5) this] obtain m2 s2
    where m2: "read_table H SIG_DSDT d s1 = Ok (m2, s2)" "maps_table (phys H) s1 d m2 s2" by blast
  have "unmap_state m (s1\<lparr>next_virtual := n\<rparr>) = (unmap_state m s1)\<lparr>next_virtual := n\<rparr>" for n
    by (simp add: unmap_state_def)
  with m m2 assms(4,6) show ?thesis
    by (simp add: dsdt_def mact_simps view_direct read_fadt_direct maps_table_def aml_table_new_def
        sdt_header_size_def)
qed

end

subsection \<open>The search of a BIOS\<close>

definition ebda_area :: "(nat \<Rightarrow> u8) \<Rightarrow> area" where
  "ebda_area memory =
     (let start = 16 * unat (u16_at (mem_bytes memory 0x40e 2) 0) in
      if 0x80000 \<le> start \<and> start < 0x9ffff then (start, start + 1024) else (0x80000, 0xa0000))"

text \<open>Every sixteenth address of the BIOS area, then of the extended BIOS data area.\<close>

definition bios_addresses :: "(nat \<Rightarrow> u8) \<Rightarrow> nat list" where
  "bios_addresses memory = step_by_16 (0xe0000, 0x100000) @ step_by_16 (ebda_area memory)"

text \<open>A structure whose checksum covers no more than the structure itself.\<close>

definition short_rsdp :: "(nat \<Rightarrow> u8) \<Rightarrow> nat \<Rightarrow> bool" where
  "short_rsdp memory a \<longleftrightarrow>
     rsdp_signature (rsdp_at memory a) \<noteq> RSDP_SIGNATURE \<or> rsdp_checked_length (rsdp_at memory a) \<le> 36"

lemma rsdp_signature_at: "rsdp_signature (rsdp_at memory a) = mem_bytes memory a 8"
  by (simp add: rsdp_at_def rsdp_of_def)

lemma rsdp_validate_copy:
  assumes "rsdp_checked_length (rsdp_at memory a) \<le> 36"
  shows "rsdp_validate (bytes_view (mem_bytes memory a 36)) = rsdp_validate (total_view memory a)"
  using assms
  by (auto simp: rsdp_validate_def read_rsdp_def rsdp_size_def rsdp_checked_length_def RSDP_V1_LENGTH_def
      rsdp_at_def min_def word_greater_zero_iff)

lemma search_addresses_total:
  assumes "list_all (short_rsdp memory) addresses" "list_all (\<lambda>a. start \<le> a) addresses"
  shows "search_addresses (total_view memory start) start addresses = Ok (find (valid_rsdp memory) addresses)"
  using assms
proof (induction addresses)
  case (Cons a addresses)
  show ?case
  proof (cases "mem_bytes memory a 8 = RSDP_SIGNATURE")
    case True
    with Cons.prems have "rsdp_validate (bytes_view (mem_bytes memory a 36)) = rsdp_validate (total_view memory a)"
      by (intro rsdp_validate_copy) (simp add: short_rsdp_def rsdp_signature_at)
    then show ?thesis
      using Cons True rsdp_validate_total[of memory a]
      by (cases "valid_rsdp memory a") (auto simp: rsdp_size_def)
  next
    case False
    with Cons show ?thesis by (simp add: valid_rsdp_def rsdp_signature_at)
  qed
qed simp

lemma step_by_16_ge: "list_all (\<lambda>a. fst area \<le> a) (step_by_16 area)"
  by (simp add: step_by_16_def list_all_iff)

context direct_map
begin

lemma search_areas_direct:
  assumes "list_all (short_rsdp (phys H)) (concat (map step_by_16 areas))"
  shows "\<exists>n. search_areas H areas s
    = Ok (find (valid_rsdp (phys H)) (concat (map step_by_16 areas)), s\<lparr>next_virtual := n\<rparr>)"
  using assms
proof (induction areas arbitrary: s)
  case Nil
  show ?case by (rule exI[of _ "next_virtual s"]) (simp add: mret_def)
next
  case (Cons area areas)
  let ?s = "s\<lparr>next_virtual := Suc (next_virtual s)\<rparr>"
  have find: "find P (xs @ ys) = (case find P xs of Some x \<Rightarrow> Some x | None \<Rightarrow> find P ys)"
    for P :: "nat \<Rightarrow> bool" and xs ys
    by (induction xs) auto
  have "search_areas H (area # areas) s
      = (case find (valid_rsdp (phys H)) (step_by_16 area) of
           Some a \<Rightarrow> Ok (Some a, ?s) | None \<Rightarrow> search_areas H areas ?s)"
    using Cons.prems step_by_16_ge[of area]
    by (simp add: mact_simps view_direct search_addresses_total split: option.split)
  with Cons.IH[of ?s] Cons.prems show ?case by (auto simp: find split: option.split)
qed

lemma search_for_on_bios_direct:
  assumes "list_all (short_rsdp (phys H)) (bios_addresses (phys H))"
  shows "\<exists>n. search_for_on_bios H s =
    (case find (valid_rsdp (phys H)) (bios_addresses (phys H)) of
       Some a \<Rightarrow> map_physical_region H a 36 (s\<lparr>next_virtual := n\<rparr>)
     | None \<Rightarrow> Err (NoValidRsdp, s\<lparr>next_virtual := n\<rparr>))"
proof -
  let ?areas = "[(0xe0000, 0x100000), ebda_area (phys H)]"
  have "find_search_areas H s = (Ok (?areas, s\<lparr>next_virtual := Suc (next_virtual s)\<rparr>) :: (_, rsdp_error \<times> vmem) res)"
    by (simp add: find_search_areas_def mact_simps view_direct area_constants ebda_area_def Let_def mult.commute)
  moreover from assms have "list_all (short_rsdp (phys H)) (concat (map step_by_16 ?areas))"
    by (simp add: bios_addresses_def)
  from search_areas_direct[OF this, of "s\<lparr>next_virtual := Suc (next_virtual s)\<rparr>"]
  obtain n where "search_areas H ?areas (s\<lparr>next_virtual := Suc (next_virtual s)\<rparr>)
      = (Ok (find (valid_rsdp (phys H)) (bios_addresses (phys H)), s\<lparr>next_virtual := n\<rparr>) :: (_, rsdp_error \<times> vmem) res)"
    by (auto simp: bios_addresses_def)
  ultimately show ?thesis
    by (intro exI[of _ n])
      (simp add: search_for_on_bios_def mbind_def mreads_def rsdp_size_def del: search_areas.simps split: option.split)
qed

end

subsection \<open>A small machine\<close>

text \<open>
  Memory with a root pointer at 0, an RSDT with one entry at 36, an FADT at 76 and a DSDT at 120 that defines
  one name, to run the definitions on.
\<close>

definition image :: "bytes \<Rightarrow> nat \<Rightarrow> u8" where
  "image bs = (\<lambda>a. if a < length bs then bs ! a else 0)"

definition rsdp_image :: bytes where
  "rsdp_image = [
     0x52, 0x53, 0x44, 0x20, 0x50, 0x54, 0x52, 0x20, 0xbd, 0, 0, 0, 0, 0, 0, 0, 0x24, 0, 0, 0, 0, 0, 0,
     0, 0, 0, 0, 0, 0, 0, 0, 0, 0, 0, 0, 0]"

definition rsdt_image :: bytes where
  "rsdt_image = [
     0x52, 0x53, 0x44, 0x54, 0x28, 0, 0, 0, 0, 0x4f, 0, 0, 0, 0, 0, 0, 0, 0, 0, 0, 0, 0, 0, 0, 0, 0, 0,
     0, 0, 0, 0, 0, 0, 0, 0, 0, 0x4c, 0, 0, 0]"

definition fadt_image :: bytes where
  "fadt_image = [
     0x46, 0x41, 0x43, 0x50, 0x2c, 0, 0, 0, 0, 0x42, 0, 0, 0, 0, 0, 0, 0, 0, 0, 0, 0, 0, 0, 0, 0, 0, 0,
     0, 0, 0, 0, 0, 0, 0, 0, 0, 0, 0, 0, 0, 0x78, 0, 0, 0]"

definition dsdt_image :: bytes where
  "dsdt_image = [
     0x44, 0x53, 0x44, 0x54, 0x2b, 0, 0, 0, 0x2, 0x2f, 0, 0, 0, 0, 0, 0, 0, 0, 0, 0, 0, 0, 0, 0, 0, 0,
     0, 0, 0, 0, 0, 0, 0, 0, 0, 0, 0x08, 0x41, 0x5f, 0x5f, 0x5f, 0x0a, 0x05]"

definition small_image :: bytes where
  "small_image = rsdp_image @ rsdt_image @ fadt_image @ dsdt_image"

lemma mem_bytes_image: "a + n \<le> length bs \<Longrightarrow> mem_bytes (image bs) a n = take n (drop a bs)"
  by (rule nth_equalityI) (simp_all add: image_def)

lemma length_images:
  "length rsdp_image = 36" "length rsdt_image = 40" "length fadt_image = 44" "length dsdt_image = 43"
  by (simp_all add: rsdp_image_def rsdt_image_def fadt_image_def dsdt_image_def)

lemma small_image_parts:
  "n \<le> 36 \<Longrightarrow> mem_bytes (image small_image) 0 n = take n rsdp_image"
  "n \<le> 40 \<Longrightarrow> mem_bytes (image small_image) 36 n = take n rsdt_image"
  "n \<le> 44 \<Longrightarrow> mem_bytes (image small_image) 76 n = take n fadt_image"
  "n \<le> 43 \<Longrightarrow> mem_bytes (image small_image) 120 n = take n dsdt_image"
  "mem_bytes (image small_image) 72 4 = drop 36 rsdt_image"
  by (simp_all add: mem_bytes_image small_image_def length_images)

definition no_mappings :: vmem where
  "no_mappings = \<lparr>live = [], next_virtual = 0\<rparr>"

definition small_tables :: acpi_tables where
  "small_tables = \<lparr>tables_mapping = mapping_new 36 0 36 36, tables_revision = 0\<rparr>"

definition small_handler :: acpi_handler where
  "small_handler = direct_handler (image small_image)"

lemma phys_small [simp]: "phys small_handler = image small_image"
  by (simp add: small_handler_def direct_handler_def)

lemma no_mappings_ok: "vm_ok no_mappings"
  by (simp add: vm_ok_def no_mappings_def)

lemmas image_simps = sdt_at_def sdt_header_of_def rsdp_at_def rsdp_of_def u8_at_def u16_at_def u32_at_def u64_at_def
  small_image_parts rsdp_image_def rsdt_image_def fadt_image_def dsdt_image_def

lemma small_headers:
  "sdt_at (image small_image) 36 = sdt_header_of (take 36 rsdt_image)"
  "sdt_at (image small_image) 76 = sdt_header_of (take 36 fadt_image)"
  "sdt_at (image small_image) 120 = sdt_header_of (take 36 dsdt_image)"
  by (simp_all add: sdt_at_def small_image_parts)

lemma small_lengths:
  "sdt_length (sdt_at (image small_image) 36) = 40" "sdt_length (sdt_at (image small_image) 76) = 44"
  "sdt_length (sdt_at (image small_image) 120) = 43"
  by (simp_all add: image_simps)

lemma small_rsdp:
  "valid_rsdp (image small_image) 0" "root_address (rsdp_at (image small_image) 0) = 36"
  "rsdp_revision (rsdp_at (image small_image) 0) = 0" "root_signature (rsdp_at (image small_image) 0) = SIG_RSDT"
  by (simp_all add: valid_rsdp_def root_address_def root_signature_def rsdp_checked_length_def
      RSDP_SIGNATURE_def sum_bytes_def image_simps)

lemma small_sdts:
  "valid_sdt (image small_image) SIG_RSDT 36" "valid_sdt (image small_image) SIG_FADT 76"
  "valid_sdt (image small_image) SIG_DSDT 120"
  by (simp_all add: valid_sdt_def sdt_bytes_def small_lengths sum_bytes_def SIG_RSDT_def SIG_FADT_def
      SIG_DSDT_def sig_of_def image_simps)

lemma small_addresses: "table_addresses (image small_image) 4 36 = [76]"
  by (simp add: table_addresses_def small_lengths) (simp add: image_simps)

lemmas small_machine = small_lengths small_rsdp small_sdts small_addresses

lemma small_dsdt_address: "dsdt_address (fadt_of (mem_bytes (image small_image) 76 276)) = Ok 120"
proof -
  have "take 4 (drop 40 (mem_bytes (image small_image) 76 276)) = take 4 (drop 40 (mem_bytes (image small_image) 76 44))"
    "u8_at (mem_bytes (image small_image) 76 276) 8 = u8_at (mem_bytes (image small_image) 76 44) 8"
    by (simp_all add: u8_at_def)
  then have "u8_at (mem_bytes (image small_image) 76 276) 8 = 0" "u32_at (mem_bytes (image small_image) 76 276) 40 = 120"
    by (simp_all only: u32_at_def) (simp_all add: image_simps)
  then show ?thesis
    by (simp add: dsdt_address_def fadt_revision_def fadt_of_def sdt_header_of_def ext_access_def
        nonzero_def option_or_def)
qed

subsection \<open>Properties\<close>

text \<open>
  C7. On a handler that has all memory mapped, \<open>find_table\<close> returns the first of the tables listed in the
  RSDT or XSDT that has the signature and is valid: identifiers that are text, and bytes that add up to
  zero over the length. The mapping starts at the table and covers it. When there is none, the error is
  \<open>TableMissing\<close>. Mappings made on the way are not live any more.
\<close>

theorem find_table_first_valid:
  assumes "direct_map H" "vm_ok s"
    and "36 \<le> unat (sdt_length (sdt_at (phys H) (physical_start (tables_mapping t))))"
  shows "search_outcome (phys H) sig s
      (find (valid_sdt (phys H) sig)
         (table_addresses (phys H) (table_entry_size t) (physical_start (tables_mapping t))))
      (find_table H sig t s)"
  using direct_map.find_table_direct[OF assms] .

theorem find_table_first_valid_witness:
  "\<exists>m s'. find_table small_handler SIG_FADT small_tables no_mappings = Ok (m, s') \<and> physical_start m = 76"
proof -
  have "direct_map small_handler" unfolding small_handler_def by (rule direct.direct_map_axioms)
  from find_table_first_valid[OF this no_mappings_ok, of small_tables SIG_FADT]
  show ?thesis
    by (auto simp: small_tables_def table_entry_size_def small_machine maps_table_def)
qed

lemma dsdt_reached:
  assumes "direct_map H" "vm_ok s" "valid_rsdp (phys H) a"
    and "r = rsdp_at (phys H) a" "valid_sdt (phys H) (root_signature r) (root_address r)"
    and "36 \<le> unat (sdt_length (sdt_at (phys H) (root_address r)))"
    and "find (valid_sdt (phys H) SIG_FADT)
           (table_addresses (phys H) (if rsdp_revision r = 0 then 4 else 8) (root_address r)) = Some fa"
    and "dsdt_address (fadt_of (mem_bytes (phys H) fa 276)) = Ok d"
    and "valid_sdt (phys H) SIG_DSDT d" "36 \<le> unat (sdt_length (sdt_at (phys H) d))"
  shows "\<exists>t s1 table s2. from_rsdp H a s = Ok (t, s1) \<and> dsdt H t s1 = Ok (table, s2)
    \<and> at_address table = d + 36
    \<and> mem_bytes (phys H) (at_address table) (unat (at_length table)) = drop 36 (sdt_bytes (phys H) d)
    \<and> live s2 = virtual_start (tables_mapping t) # live s"
proof -
  from direct_map.from_rsdp_direct[OF assms(1,3,2)] assms(4,5) obtain t s1 where
    t: "from_rsdp H a s = Ok (t, s1)" "vm_ok s1" "physical_start (tables_mapping t) = root_address r"
    "tables_revision t = rsdp_revision r" "live s1 = virtual_start (tables_mapping t) # live s"
    by auto
  obtain s2 where
    d: "dsdt H t s1 = Ok (\<lparr>at_address = d + 36, at_length = sdt_length (sdt_at (phys H) d) - 36\<rparr>, s2)"
    "s2 = s1\<lparr>next_virtual := next_virtual s2\<rparr>"
    using direct_map.dsdt_direct[OF assms(1) t(2), where t = t] assms(6-10) t(3,4) by (auto simp: table_entry_size_def)
  have "unat (sdt_length (sdt_at (phys H) d) - 36) = unat (sdt_length (sdt_at (phys H) d)) - 36"
    using assms(10) by (simp add: unat_sub word_le_nat_alt)
  moreover have "live s2 = live s1" by (subst d(2)) simp
  ultimately show ?thesis using t d(1) by (auto simp: sdt_bytes_def)
qed

text \<open>
  C8. From the root pointer to the byte code, on a handler that has all memory mapped: when the RSDP at an address is valid, the table of tables it points to,
  the first FADT listed there and the DSDT that the FADT points to are valid, then the DSDT is found. What is
  returned is exactly the table without its header, and only the table of tables stays
  mapped.
\<close>

theorem rsdp_to_dsdt:
  assumes "direct_map H" "vm_ok s" "valid_rsdp (phys H) a"
    and "r = rsdp_at (phys H) a" "valid_sdt (phys H) (root_signature r) (root_address r)"
    and "36 \<le> unat (sdt_length (sdt_at (phys H) (root_address r)))"
    and "find (valid_sdt (phys H) SIG_FADT)
           (table_addresses (phys H) (if rsdp_revision r = 0 then 4 else 8) (root_address r)) = Some fa"
    and "dsdt_address (fadt_of (mem_bytes (phys H) fa 276)) = Ok d"
    and "valid_sdt (phys H) SIG_DSDT d" "36 \<le> unat (sdt_length (sdt_at (phys H) d))"
  shows "\<exists>t s1 table s2. from_rsdp H a s = Ok (t, s1) \<and> dsdt H t s1 = Ok (table, s2)
    \<and> at_address table = d + 36
    \<and> mem_bytes (phys H) (at_address table) (unat (at_length table)) = drop 36 (sdt_bytes (phys H) d)
    \<and> live s2 = virtual_start (tables_mapping t) # live s"
  using assms by (rule dsdt_reached)

theorem rsdp_to_dsdt_witness:
  "\<exists>t s1 table s2. from_rsdp small_handler 0 no_mappings = Ok (t, s1) \<and> dsdt small_handler t s1 = Ok (table, s2)
     \<and> at_address table = 156"
proof -
  have "direct_map small_handler" unfolding small_handler_def by (rule direct.direct_map_axioms)
  from rsdp_to_dsdt[OF this no_mappings_ok, of 0 "rsdp_at (image small_image) 0" 76 120]
  show ?thesis by (auto simp: small_machine small_dsdt_address)
qed

text \<open>
  C20. Validation notices when one byte of a valid table changes, anywhere but in the field that
  holds its length.
\<close>

theorem corrupted_byte_rejected:
  assumes "valid_sdt memory sig a" "i < unat (sdt_length (sdt_at memory a))" "i < 4 \<or> 8 \<le> i"
    and "b \<noteq> memory (a + i)"
  shows "\<exists>e. sdt_validate (total_view (memory(a + i := b)) a) sig = Err e"
proof (rule sdt_validate_total(2), rule notI)
  assume valid: "valid_sdt (memory(a + i := b)) sig a"
  have "take 4 (drop 4 (mem_bytes (memory(a + i := b)) a 36)) = take 4 (drop 4 (mem_bytes memory a 36))"
    using assms(3) by (intro nth_equalityI) auto
  then have "sdt_length (sdt_at (memory(a + i := b)) a) = sdt_length (sdt_at memory a)"
    by (simp add: sdt_at_def sdt_header_of_def u32_at_def)
  then have "sdt_bytes (memory(a + i := b)) a = (sdt_bytes memory a)[i := b]"
    using assms(2) by (simp add: sdt_bytes_def mem_bytes_update)
  moreover have "sum_bytes ((sdt_bytes memory a)[i := b]) \<noteq> sum_bytes (sdt_bytes memory a)"
    using assms(2,4) by (intro sum_bytes_update) (simp_all add: sdt_bytes_def)
  ultimately show False using valid assms(1) by (simp add: valid_sdt_def)
qed

theorem corrupted_byte_rejected_witness:
  "\<exists>e. sdt_validate (total_view ((image small_image)(120 + 36 := 0)) 120) SIG_DSDT = Err e"
proof (rule corrupted_byte_rejected)
  have "image small_image (120 + 36) = mem_bytes (image small_image) 120 43 ! 36" by simp
  then show "0 \<noteq> image small_image (120 + 36)" by (simp add: image_simps)
qed (simp_all add: small_machine)

text \<open>
  C19. The search for the RSDP on a BIOS, on a handler that has all memory mapped, looks at every sixteenth address of the BIOS area and then of the
  extended BIOS data area, whose place it reads from the BIOS data area. It returns a mapping of the first valid
  structure, and only this mapping stays live; if there is none, it fails with \<open>NoValidRsdp\<close>. No structure on the
  way may ask for a checksum over more bytes than it has.
\<close>

theorem bios_search_finds_first:
  assumes "direct_map H" "list_all (short_rsdp (phys H)) (bios_addresses (phys H))"
  shows "case find (valid_rsdp (phys H)) (bios_addresses (phys H)) of
      Some a \<Rightarrow> \<exists>m s'. search_for_on_bios H s = Ok (m, s') \<and> physical_start m = a \<and> 36 \<le> mapped_length m
                    \<and> live s' = virtual_start m # live s
    | None \<Rightarrow> \<exists>s'. search_for_on_bios H s = Err (NoValidRsdp, s') \<and> live s' = live s"
proof -
  have enough: "36 \<le> mapped_length_for H a 36" for a
    using handler_contract.maps_enough[OF direct_map.axioms(1)[OF assms(1)]] .
  from direct_map.search_for_on_bios_direct[OF assms, of s] enough show ?thesis
    by (auto simp: map_physical_region_def split: option.split)
qed

text \<open>Memory that has the root pointer at the start of the BIOS area and nothing else.\<close>

definition bios_memory :: "nat \<Rightarrow> u8" where
  "bios_memory = (\<lambda>a. if 0xe0000 \<le> a then image rsdp_image (a - 0xe0000) else 0)"

lemma bios_memory_rsdp: "valid_rsdp bios_memory 0xe0000" "short_rsdp bios_memory 0xe0000"
proof -
  have part: "mem_bytes bios_memory 0xe0000 n = take n rsdp_image" if "n \<le> 36" for n
    using that mem_bytes_image[of 0 n rsdp_image]
    by (simp add: bios_memory_def mem_bytes_def length_images)
  have "rsdp_at bios_memory 0xe0000 = rsdp_of (take 36 rsdp_image)" by (simp add: rsdp_at_def part)
  then show "valid_rsdp bios_memory 0xe0000" "short_rsdp bios_memory 0xe0000"
    by (simp_all add: valid_rsdp_def short_rsdp_def part rsdp_checked_length_def rsdp_of_def
        u8_at_def RSDP_SIGNATURE_def sum_bytes_def) (simp_all add: rsdp_image_def)
qed

lemma bios_memory_rest:
  assumes "a \<noteq> 0xe0000" "a mod 16 = 0"
  shows "short_rsdp bios_memory a"
proof -
  have "bios_memory a \<noteq> 0x52"
  proof (cases "0xe0000 \<le> a")
    case True
    then have "a = 0xe0000 + 16 * ((a - 0xe0000) div 16)" using assms(2) by presburger
    then obtain k where k: "a = 0xe0000 + 16 * k" by blast
    with assms(1) have "0 < k" by (cases k) auto
    then consider "k = 1" | "k = 2" | "36 \<le> 16 * k" by linarith
    then show ?thesis by cases (simp_all add: k bios_memory_def image_def rsdp_image_def)
  qed (simp add: bios_memory_def)
  moreover have "bios_memory a = 0x52" if "mem_bytes bios_memory a 8 = RSDP_SIGNATURE"
    using arg_cong[OF that, of "\<lambda>bs. bs ! 0"] by (simp add: RSDP_SIGNATURE_def)
  ultimately show ?thesis by (auto simp: short_rsdp_def rsdp_signature_at)
qed

lemma bios_memory_short: "list_all (short_rsdp bios_memory) (bios_addresses bios_memory)"
proof -
  have "u16_at (mem_bytes bios_memory 0x40e 2) 0 = 0" by (simp add: u16_at_def mem_bytes_def upt_rec bios_memory_def)
  then have "ebda_area bios_memory = (0x80000, 0xa0000)" by (simp add: ebda_area_def)
  then have "a mod 16 = 0" if "a \<in> set (bios_addresses bios_memory)" for a
    using that by (auto simp: bios_addresses_def step_by_16_def)
  then show ?thesis
    unfolding list_all_iff using bios_memory_rest bios_memory_rsdp(2) by metis
qed

theorem bios_search_finds_first_witness:
  "\<exists>m s'. search_for_on_bios (direct_handler bios_memory) no_mappings = Ok (m, s') \<and> physical_start m = 0xe0000"
proof -
  have phys: "phys (direct_handler bios_memory) = bios_memory" by (simp add: direct_handler_def)
  have "bios_addresses bios_memory
      = 0xe0000 # map (\<lambda>k. 0xe0000 + 16 * k) [1..<8192] @ step_by_16 (ebda_area bios_memory)"
    by (simp add: bios_addresses_def step_by_16_def upt_conv_Cons[of 0 8192] del: upt_Suc)
  then have "find (valid_rsdp bios_memory) (bios_addresses bios_memory) = Some 0xe0000"
    by (simp add: bios_memory_rsdp)
  with bios_search_finds_first[OF direct.direct_map_axioms, of bios_memory no_mappings]
  show ?thesis by (auto simp: phys bios_memory_short)
qed

subsection \<open>Handlers that map no more than they must\<close>

lemma strict_read_total:
  assumes "strict_handler H" "virtual_start m \<in> set (live s)" "n \<le> mapped_length m"
  shows "read_view (mapping_view H s m) n = Ok (mem_bytes (phys H) (physical_start m) n)"
  using handler_contract.read_live[OF strict_handler.axioms(1)] assms by blast

text \<open>
  C36. With a handler that allows only the reads its contract demands, no table can be used. The checksum is computed
  while only the header is mapped: if the table is longer than what was mapped for the header, the validation reads
  past the mapping. If it is not, the first mapping is reused for the result and then unmapped when the function
  returns, so that the result cannot be read at all.
\<close>

theorem strict_handler_loses_table:
  assumes "strict_handler H" "vm_ok s" "valid_sdt (phys H) sig a"
  shows "if unat (sdt_length (sdt_at (phys H) a)) \<le> mapped_length_for H a 36
    then \<exists>m s'. read_table H sig a s = Ok (m, s') \<and> read_view (mapping_view H s' m) (Suc n) = (Panic :: (bytes, 'e) res)
    else read_table H sig a s = Panic"
proof -
  let ?m = "mapping_new a (next_virtual s) 36 (mapped_length_for H a 36)"
  let ?s = "s\<lparr>live := next_virtual s # live s, next_virtual := Suc (next_virtual s)\<rparr>"
  have enough: "36 \<le> mapped_length_for H a 36"
    using handler_contract.maps_enough[OF strict_handler.axioms(1)[OF assms(1)]] .
  then have header: "read_sdt_header (mapping_view H ?s ?m) = (Ok (sdt_at (phys H) a) :: (_, acpi_error) res)"
    by (simp add: strict_read_total[OF assms(1)] read_sdt_header_def sdt_header_size_def sdt_at_def)
  show ?thesis
  proof (cases "unat (sdt_length (sdt_at (phys H) a)) \<le> mapped_length_for H a 36")
    case True
    then have "sdt_validate (mapping_view H ?s ?m) sig = Ok ()"
      using assms(3) header by (simp add: strict_read_total[OF assms(1)] sdt_validate_def valid_sdt_def sdt_bytes_def)
    then have "read_table H sig a s = Ok (?m, s\<lparr>next_virtual := Suc (next_virtual s)\<rparr>)"
      using header True by (simp add: read_table_def mact_simps sdt_header_size_def)
    moreover have "read_view (mapping_view H (s\<lparr>next_virtual := Suc (next_virtual s)\<rparr>) ?m) (Suc n) = (Panic :: (bytes, 'e) res)"
      using vm_ok_fresh[OF assms(2)] by (intro strict_handler.read_fault[OF assms(1)]) simp
    ultimately show ?thesis using True by auto
  next
    case False
    then have "read_view (mapping_view H ?s ?m) (unat (sdt_length (sdt_at (phys H) a))) = (Panic :: (bytes, acpi_error) res)"
      by (intro strict_handler.read_fault[OF assms(1)]) simp
    then have "sdt_validate (mapping_view H ?s ?m) sig = Panic"
      using assms(3) header by (simp add: sdt_validate_def valid_sdt_def)
    then show ?thesis using False by (simp add: read_table_def mact_simps sdt_header_size_def)
  qed
qed

theorem strict_handler_loses_table_witness:
  "read_table (exact_handler (image small_image)) SIG_DSDT 120 no_mappings = Panic"
proof -
  have "phys (exact_handler (image small_image)) = image small_image"
    "mapped_length_for (exact_handler (image small_image)) 120 36 = 36"
    by (simp_all add: exact_handler_def)
  with strict_handler_loses_table[OF exact.strict_handler_axioms no_mappings_ok, of "image small_image" SIG_DSDT 120]
  show ?thesis by (simp add: small_machine)
qed

subsection \<open>The iterator over the secondary tables\<close>

context direct_map
begin

lemma ssdt_loop_stop:
  assumes "a = le_value (mem_bytes (phys H) (physical_start (tables_mapping t) + ptr) 8)"
    and "valid_sdt (phys H) SIG_SSDT a"
  shows "ssdt_loop (Suc n) H t ptr s
    = Ok ((\<lparr>at_address = a, at_length = sdt_length (sdt_at (phys H) a)\<rparr>, n),
          s\<lparr>next_virtual := Suc (next_virtual s)\<rparr>)"
proof -
  have "sdt_validate (total_view (phys H) a) SIG_SSDT = Ok ()" using sdt_validate_total(1) assms(2) by blast
  then show ?thesis by (simp add: mact_simps view_direct assms(1)[symmetric])
qed

lemma ssdt_loop_over:
  assumes "a = le_value (mem_bytes (phys H) (physical_start (tables_mapping t) + ptr) 8)"
    and "\<not> valid_sdt (phys H) SIG_SSDT a"
  shows "ssdt_loop n H t ptr s = Panic"
proof (induction n arbitrary: s)
  case (Suc n)
  obtain e where "sdt_validate (total_view (phys H) a) SIG_SSDT = Err e"
    using sdt_validate_total(2) assms(2) by blast
  then show ?case using Suc.IH by (simp add: mact_simps view_direct assms(1)[symmetric])
qed (simp add: mreads_def)

end

text \<open>
  C39. The iterator over the SSDTs never moves on from the first entry of the table of tables. If that entry is an SSDT,
  each call returns it again, with its header, as often as there are entries; if it is not, the
  first call counts below zero and panics.
\<close>

theorem ssdt_iterator_stays:
  assumes "direct_map H" "0 < remaining it"
    and "a = le_value (mem_bytes (phys H) (physical_start (tables_mapping t) + current_sdt_ptr it) 8)"
  shows "if valid_sdt (phys H) SIG_SSDT a
    then \<exists>s'. ssdt_next H t it s =
           Ok ((Some \<lparr>at_address = a, at_length = sdt_length (sdt_at (phys H) a)\<rparr>, it\<lparr>remaining := remaining it - 1\<rparr>), s')
    else ssdt_next H t it s = Panic"
proof -
  from assms(2) obtain n where n: "remaining it = Suc n" by (cases "remaining it") auto
  then show ?thesis
    by (auto simp: ssdt_next_def mbind_def mret_def direct_map.ssdt_loop_stop[OF assms(1,3)]
        direct_map.ssdt_loop_over[OF assms(1,3)] simp del: ssdt_loop.simps)
qed

theorem ssdt_iterator_stays_witness:
  "ssdt_next (direct_handler (\<lambda>_. 0)) small_tables \<lparr>current_sdt_ptr = 36, remaining = 1\<rparr> no_mappings = Panic"
proof -
  have invalid: "\<not> valid_sdt (\<lambda>_. 0) SIG_SSDT a" for a
    by (simp add: valid_sdt_def sdt_at_def sdt_header_of_def u8_at_def SIG_SSDT_def sig_of_def)
  have "phys (direct_handler (\<lambda>_. 0)) = (\<lambda>_. 0)" by (simp add: direct_handler_def)
  with ssdt_iterator_stays[OF direct.direct_map_axioms _ refl,
      of "\<lparr>current_sdt_ptr = 36, remaining = 1\<rparr>" "\<lambda>_. 0" small_tables no_mappings] invalid
  show ?thesis by simp
qed

end
