(* ===== verification/Madt_Correct.thy ===== *)
theory Madt_Correct
  imports Acpi_Correct
begin

section \<open>The entries of the interrupt controller table\<close>

text \<open>
  The iteration over the entries visits exactly the entries that were written, and the
  interrupt model has exactly what they describe.
\<close>

subsection \<open>Views of given bytes\<close>

definition view_holds :: "view \<Rightarrow> bytes \<Rightarrow> bool" where
  "view_holds v bs \<longleftrightarrow> list_all (\<lambda>i. v i = Some (bs ! i)) [0..<length bs]"

lemma view_holds_read:
  assumes "view_holds v bs" "n \<le> length bs"
  shows "read_view v n = Ok (take n bs)"
proof -
  have "read_view v n = Ok (map ((!) bs) [0..<n])"
    using assms by (intro read_view_Some) (simp add: view_holds_def list_all_iff)
  also have "map ((!) bs) [0..<n] = take n bs" using assms by (intro nth_equalityI) simp_all
  finally show ?thesis .
qed

lemma view_holds_from: "view_holds v (xs @ ys) \<Longrightarrow> view_holds (view_from v (length xs)) ys"
  by (auto simp: view_holds_def list_all_iff view_from_def nth_append)

lemma view_holds_prefix: "view_holds v (xs @ ys) \<Longrightarrow> view_holds v xs"
  by (auto simp: view_holds_def list_all_iff nth_append)

lemma view_from_from: "view_from (view_from v a) b = view_from v (a + b)"
  by (simp add: view_from_def add.assoc)

lemma view_holds_bytes: "view_holds (bytes_view bs) bs"
  by (simp add: view_holds_def list_all_iff bytes_view_def)

subsection \<open>Iteration\<close>

text \<open>
  The bytes of one entry: the type, the length, and the rest. An entry of a known type is at least
  as long as its structure.
\<close>

definition raw_entry :: "bytes \<Rightarrow> madt_entry option" where
  "raw_entry raw = map_option (\<lambda>(n, mk). mk (take n raw)) (map_of entry_types (raw ! 0))"

definition raw_ok :: "bytes \<Rightarrow> bool" where
  "raw_ok raw \<longleftrightarrow>
     2 \<le> length raw \<and> unat (raw ! 1) = length raw
     \<and> (case map_of entry_types (raw ! 0) of Some (n, _) \<Rightarrow> n \<le> length raw | None \<Rightarrow> True)"

text \<open>The entries among them, without the reserved ones.\<close>

definition entries_of :: "bytes list \<Rightarrow> madt_entry list" where
  "entries_of raws = List.map_filter raw_entry raws"

lemma entries_of_simps [simp]:
  "entries_of [] = []"
  "entries_of (raw # raws) = (case raw_entry raw of Some e \<Rightarrow> e # entries_of raws | None \<Rightarrow> entries_of raws)"
  by (simp_all add: entries_of_def List.map_filter_def split: option.split)

fun fold_res :: "('a \<Rightarrow> 's \<Rightarrow> ('s, 'e) res) \<Rightarrow> 'a list \<Rightarrow> 's \<Rightarrow> ('s, 'e) res" where
  "fold_res f [] st = Ok st"
| "fold_res f (x # xs) st = and_then (f x st) (fold_res f xs)"

lemma construct_raw:
  assumes "raw_ok raw" "view_holds v (raw @ rest)"
  shows "construct_entry (raw ! 0) v = Ok (raw_entry raw)"
  using assms(1)
  by (auto simp: construct_entry_def raw_entry_def raw_ok_def view_holds_read[OF view_holds_prefix[OF assms(2)]]
      split: option.splits)

definition iter_at :: "nat \<Rightarrow> bytes list \<Rightarrow> madt_entry_iter" where
  "iter_at p raws = \<lparr>iter_pointer = p, remaining_length = length (concat raws)\<rparr>"

text \<open>One step of the iterator over an entry: it is returned, or skipped.\<close>

lemma madt_next_raw:
  assumes "raw_ok raw" "view_holds (view_from v p) (concat (raw # raws))"
  shows "(madt_next (Suc n) v (iter_at p (raw # raws)) :: (_, 'e) res) =
    (case raw_entry raw of
       Some e \<Rightarrow> Ok (Some (e, iter_at (p + length raw) raws))
     | None \<Rightarrow> madt_next n v (iter_at (p + length raw) raws))"
proof -
  have "take 2 raw = [raw ! 0, raw ! 1]"
    using assms(1) by (intro nth_equalityI) (auto simp: raw_ok_def less_Suc_eq numeral_2_eq_2)
  then have "read_view (view_from v p) 2 = (Ok [raw ! 0, raw ! 1] :: (_, 'e) res)"
    using view_holds_read[OF view_holds_prefix[of _ raw], of "view_from v p" "concat raws" 2] assms
    by (simp add: raw_ok_def)
  moreover have "construct_entry (raw ! 0) (view_from v p) = (Ok (raw_entry raw) :: (_, 'e) res)"
    using construct_raw[OF assms(1), of "view_from v p" "concat raws"] assms(2) by simp
  moreover have "0 < length raw" "unat (raw ! 1) = length raw" using assms(1) by (auto simp: raw_ok_def)
  ultimately show ?thesis
    by (simp add: iter_at_def Let_def entry_header_of_def u8_at_def split: option.split)
qed

lemma madt_next_end: "madt_next (Suc n) v (iter_at p []) = Ok None"
  by (simp add: iter_at_def)

lemma view_holds_next:
  assumes "view_holds (view_from v p) (concat (raw # raws))"
  shows "view_holds (view_from v (p + length raw)) (concat raws)"
  using view_holds_from[of "view_from v p" raw "concat raws"] assms by (simp add: view_from_from)

declare madt_next.simps [simp del]

text \<open>Skipping reserved entries up to the next one that is returned.\<close>

lemma madt_next_raws:
  assumes "list_all raw_ok raws" "view_holds (view_from v p) (concat raws)" "length raws < n"
  shows "case entries_of raws of
      [] \<Rightarrow> madt_next n v (iter_at p raws) = (Ok None :: (_, 'e) res)
    | e # es \<Rightarrow> \<exists>p' raws'. madt_next n v (iter_at p raws) = (Ok (Some (e, iter_at p' raws')) :: (_, 'e) res) \<and> entries_of raws' = es
         \<and> list_all raw_ok raws' \<and> view_holds (view_from v p') (concat raws') \<and> length raws' < length raws"
  using assms
proof (induction raws arbitrary: p n)
  case Nil
  then show ?case by (cases n) (simp_all add: madt_next_end)
next
  case (Cons raw raws)
  from Cons.prems(3) obtain k where n: "n = Suc k" "length raws < k" by (cases n) auto
  note step = madt_next_raw[of raw v p raws k, where 'e = 'e] and rest = view_holds_next[OF Cons.prems(2)]
  show ?case
  proof (cases "raw_entry raw")
    case None
    with Cons.prems(1,2) step n(1) have
      "(madt_next n v (iter_at p (raw # raws)) :: (_, 'e) res) = madt_next k v (iter_at (p + length raw) raws)"
      by simp
    with Cons.IH[OF _ rest n(2)] Cons.prems(1) None show ?thesis
      by (fastforce split: list.splits)
  next
    case (Some e)
    with Cons.prems step rest n(1) show ?thesis by (auto intro!: exI[of _ "p + length raw"] exI[of _ raws])
  qed
qed

lemma for_entries_raws:
  assumes "list_all raw_ok raws" "view_holds (view_from v p) (concat raws)" "length raws < n"
  shows "for_entries n v (iter_at p raws) f st = (fold_res f (entries_of raws) st :: (_, 'e) res)"
  using assms
proof (induction n arbitrary: p raws st)
  case (Suc n)
  show ?case
  proof (cases "entries_of raws")
    case Nil
    with madt_next_raws[OF Suc.prems, where 'e = 'e] show ?thesis by simp
  next
    case (Cons e es)
    with madt_next_raws[OF Suc.prems, where 'e = 'e] obtain p' raws' where
      next': "madt_next (Suc n) v (iter_at p raws) = (Ok (Some (e, iter_at p' raws')) :: (_, 'e) res)" and
      rest: "entries_of raws' = es" "list_all raw_ok raws'" "view_holds (view_from v p') (concat raws')"
      "length raws' < length raws" by auto
    have "for_entries n v (iter_at p' raws') f = fold_res f es"
      using Suc.IH[OF rest(2,3)] rest(1,4) Suc.prems(3) by (intro ext) simp
    with next' Cons show ?thesis by simp
  qed
qed simp

subsection \<open>What the entries describe\<close>

definition polarity_of_flags :: "u16 \<Rightarrow> mps_polarity option" where
  "polarity_of_flags flags =
     map_of [(0, PolaritySameAsBus), (1, PolarityActiveHigh), (3, PolarityActiveLow)] (unat flags mod 4)"

definition trigger_of_flags :: "u16 \<Rightarrow> trigger_mode option" where
  "trigger_of_flags flags =
     map_of [(0, TriggerSameAsBus), (1, TriggerEdge), (3, TriggerLevel)] (unat flags div 4 mod 4)"

fun io_apic_of :: "madt_entry \<Rightarrow> io_apic option" where
  "io_apic_of (IoApicE e) =
     Some \<lparr>ioapic_id = ioa_io_apic_id e, ioapic_address = ioa_io_apic_address e,
           ioapic_interrupt_base = ioa_global_system_interrupt_base e\<rparr>"
| "io_apic_of _ = None"

fun override_of :: "madt_entry \<Rightarrow> interrupt_source_override option" where
  "override_of (InterruptSourceOverrideE e) =
     Some \<lparr>isa_source = iso_irq e, iso_interrupt = iso_global_system_interrupt e,
           iso_polarity = the (polarity_of_flags (iso_flags e)), iso_trigger_mode = the (trigger_of_flags (iso_flags e))\<rparr>"
| "override_of _ = None"

fun nmi_source_of :: "madt_entry \<Rightarrow> nmi_source option" where
  "nmi_source_of (NmiSourceE e) =
     Some \<lparr>nmi_interrupt = nmi_global_system_interrupt e,
           nmi_polarity = the (polarity_of_flags (nmi_flags e)), nmi_trigger_mode = the (trigger_of_flags (nmi_flags e))\<rparr>"
| "nmi_source_of _ = None"

fun line_of :: "madt_entry \<Rightarrow> nmi_line option" where
  "line_of (LocalApicNmi e) =
     Some \<lparr>nl_processor = (if lan_processor_id e = 0xff then AllProcessors else ProcessorUid (ucast (lan_processor_id e))),
           nl_line = (if lan_nmi_line e = 0 then Lint0 else Lint1)\<rparr>"
| "line_of _ = None"

fun address_of :: "madt_entry \<Rightarrow> u64 option" where
  "address_of (LocalApicAddressOverride e) = Some (lao_local_apic_address e)"
| "address_of _ = None"

text \<open>A processor: its identifier, the one of its local APIC, and whether it is disabled.\<close>

fun cpu_of :: "madt_entry \<Rightarrow> (u32 \<times> u32 \<times> bool) option" where
  "cpu_of (LocalApic e) = Some (ucast (la_processor_id e), ucast (la_apic_id e), \<not> bit (la_flags e) 0)"
| "cpu_of _ = None"

fun processor_of :: "bool \<Rightarrow> u32 \<times> u32 \<times> bool \<Rightarrow> processor" where
  "processor_of ap (uid, apic_id, disabled) =
     \<lparr>processor_uid = uid, local_apic_id = apic_id,
      processor_state = (if disabled then Disabled else if ap then WaitingForSipi else Running), is_ap = ap\<rparr>"

text \<open>The entries of an APIC system that the code accepts.\<close>

fun apic_ok :: "madt_entry \<Rightarrow> bool" where
  "apic_ok (LocalApic e) \<longleftrightarrow> True"
| "apic_ok (IoApicE e) \<longleftrightarrow> True"
| "apic_ok (InterruptSourceOverrideE e) \<longleftrightarrow>
     iso_bus e = 0 \<and> polarity_of_flags (iso_flags e) \<noteq> None \<and> trigger_of_flags (iso_flags e) \<noteq> None"
| "apic_ok (NmiSourceE e) \<longleftrightarrow> polarity_of_flags (nmi_flags e) \<noteq> None \<and> trigger_of_flags (nmi_flags e) \<noteq> None"
| "apic_ok (LocalApicNmi e) \<longleftrightarrow> lan_nmi_line e = 0 \<or> lan_nmi_line e = 1"
| "apic_ok (LocalApicAddressOverride e) \<longleftrightarrow> True"
| "apic_ok _ \<longleftrightarrow> False"

lemma word_bits_mod:
  "take_bit 2 (drop_bit k (f :: u16)) = word_of_nat (unat f div 2 ^ k mod 4)"
proof -
  have "unat f mod 65536 = unat f" using unsigned_less[of f, where 'a = nat] by simp
  then have "unat (take_bit 2 (drop_bit k f)) = unat f div 2 ^ k mod 4"
    by (simp add: unsigned_take_bit_eq unsigned_drop_bit_eq) (simp add: take_bit_eq_mod drop_bit_eq_div)
  from arg_cong[OF this, of "word_of_nat :: nat \<Rightarrow> u16"] show ?thesis by simp
qed

lemma parse_mps:
  assumes "wide_bit_field_crate K" "polarity_of_flags f = Some p" "trigger_of_flags f = Some t"
  shows "parse_mps_inti_flags K f = Ok (p, t)"
proof -
  have "take_bit 2 f = word_of_nat (unat f mod 4)" "take_bit 2 (drop_bit 2 f) = word_of_nat (unat f div 4 mod 4)"
    using word_bits_mod[of 0 f] word_bits_mod[of 2 f] by simp_all
  then show ?thesis
    using assms(2,3)
    by (auto simp: parse_mps_inti_flags_def wide_bit_field_crate.get_bits_u16[OF assms(1)] Let_def
        polarity_of_flags_def trigger_of_flags_def split: if_splits)
qed

subsection \<open>The two passes\<close>

definition picked :: "('a \<Rightarrow> 'b option) \<Rightarrow> 'a list \<Rightarrow> 'b list" where
  "picked f xs = List.map_filter f xs"

lemma picked_simps [simp]:
  "picked f [] = []" "picked f (x # xs) = (case f x of Some y \<Rightarrow> y # picked f xs | None \<Rightarrow> picked f xs)"
  "picked f (xs @ ys) = picked f xs @ picked f ys"
  by (simp_all add: picked_def List.map_filter_def split: option.split)

definition filled :: "nat \<Rightarrow> 'a list \<Rightarrow> 'a managed_slice" where
  "filled t xs = map Some xs @ replicate (t - length xs) None"

lemma slice_fill: "length xs < t \<Longrightarrow> slice_set (filled t xs) (length xs) x = Ok (filled t (xs @ [x]))"
proof -
  assume less: "length xs < t"
  then obtain k where k: "t - length xs = Suc k" by (cases "t - length xs") auto
  then have "t - Suc (length xs) = k" by simp
  with k less show ?thesis by (simp add: slice_set_def filled_def list_update_append)
qed

lemma slice_fill_map:
  "length xs < t \<Longrightarrow> slice_set (filled t (map f xs)) (length xs) x = Ok (filled t (map f xs @ [x]))"
  using slice_fill[of "map f xs"] by simp

lemma filled_full [simp]: "filled (length xs) xs = map Some xs"
  by (simp add: filled_def)

text \<open>The state of the second pass after some entries, with slices for the counts \<open>n\<close>.\<close>

definition apic_st :: "madt \<Rightarrow> apic_counts \<Rightarrow> madt_entry list \<Rightarrow> apic_state" where
  "apic_st m n es =
     \<lparr>st_address = (if picked address_of es = [] then ucast (madt_local_apic_address m) else last (picked address_of es)),
      st_io_apics = filled (io_apic_count n) (picked io_apic_of es),
      st_io_apic_count = length (picked io_apic_of es),
      st_overrides = filled (iso_count n) (picked override_of es), st_iso_count = length (picked override_of es),
      st_nmi_sources = filled (nmi_source_count n) (picked nmi_source_of es),
      st_nmi_source_count = length (picked nmi_source_of es),
      st_nmi_lines = filled (local_nmi_line_count n) (picked line_of es),
      st_nmi_line_count = length (picked line_of es),
      st_processors = filled (processor_count n - 1) (map (processor_of True) (tl (picked cpu_of es))),
      st_processor_count = length (tl (picked cpu_of es)),
      st_boot = (case picked cpu_of es of [] \<Rightarrow> None | c # _ \<Rightarrow> Some (processor_of False c))\<rparr>"

definition counts_of :: "madt_entry list \<Rightarrow> apic_counts" where
  "counts_of es =
     \<lparr>io_apic_count = length (picked io_apic_of es), iso_count = length (picked override_of es),
      nmi_source_count = length (picked nmi_source_of es), local_nmi_line_count = length (picked line_of es),
      processor_count = length (picked cpu_of es)\<rparr>"

lemma count_pass:
  assumes "list_all apic_ok es"
  shows "fold_res count_entry es (counts_of done) = (Ok (counts_of (done @ es)) :: (_, 'e) res)"
  using assms
proof (induction es arbitrary: "done")
  case (Cons e es)
  have "count_entry e (counts_of done) = (Ok (counts_of (done @ [e])) :: (_, 'e) res)"
    using Cons.prems by (cases e) (simp_all add: counts_of_def)
  with Cons show ?case by simp
qed simp

lemma apic_entry_step:
  assumes "wide_bit_field_crate K" "apic_ok e"
  shows "apic_entry K e (apic_st m (counts_of (before @ e # after)) before)
       = Ok (apic_st m (counts_of (before @ e # after)) (before @ [e]))"
  using assms(2)
  by (cases e)
    (auto simp: apic_st_def counts_of_def slice_fill slice_fill_map add_processor_def add_nmi_line_def nmi_line_of_def state_of_def
      parse_mps[OF assms(1)] wide_bit_field_crate.get_bit_u32[OF assms(1)] Let_def split: list.split)

lemma apic_pass:
  assumes "wide_bit_field_crate K" "list_all apic_ok after"
  shows "fold_res (apic_entry K) after (apic_st m (counts_of (before @ after)) before)
       = Ok (apic_st m (counts_of (before @ after)) (before @ after))"
  using assms(2)
proof (induction after arbitrary: before)
  case (Cons e after)
  with apic_entry_step[OF assms(1), of e m before after] Cons.IH[of "before @ [e]"] show ?case by simp
qed simp

text \<open>
  What the library relies on of an allocator: a block is never smaller than requested. A slice then
  has room for the elements asked for, and the layout it hands back when it is dropped fits its block. An
  exact allocator never fails and gives blocks of exactly the requested size.
\<close>

locale slice_allocator =
  fixes A :: allocator
  assumes layout: "0 < size_of A elem" "size_of A elem < 2 ^ 16"
    and enough: "allocate A requests bytes = Some block \<Longrightarrow> bytes \<le> block"
begin

lemma slice_room:
  assumes "managed_slice_new A requests elem len = Ok (xs, requests')"
  shows "len \<le> length xs"
  using assms enough[of requests "size_of A elem * len"] div_le_mono[of "size_of A elem * len" _ "size_of A elem"]
    layout(1)[of elem]
  by (auto simp: managed_slice_new_def split: if_splits option.splits)

lemma dropped_slice_fits:
  assumes "managed_slice_new A requests elem len = Ok (xs, requests')"
  shows "\<exists>block. allocate A requests (size_of A elem * len) = Some block
    \<and> size_of A elem * len \<le> managed_slice_drop A elem xs \<and> managed_slice_drop A elem xs \<le> block"
proof -
  from assms obtain block where block: "allocate A requests (size_of A elem * len) = Some block"
    "length xs = block div size_of A elem"
    by (auto simp: managed_slice_new_def split: if_splits option.splits)
  have "size_of A elem * len \<le> managed_slice_drop A elem xs"
    using slice_room[OF assms] by (simp add: managed_slice_drop_def mult.commute)
  with block show ?thesis by (simp add: managed_slice_drop_def)
qed

end

locale exact_allocator = slice_allocator +
  assumes exact: "allocate A requests bytes = Some bytes"
begin

lemma exact_slice:
  assumes "len < 2 ^ 32"
  shows "managed_slice_new A requests elem len = Ok (replicate len None, requests @ [size_of A elem * len])"
proof -
  have "size_of A elem * len < 2 ^ 16 * 2 ^ 32"
    using assms layout by (intro mult_strict_mono) simp_all
  with layout(1)[of elem] show ?thesis by (simp add: managed_slice_new_def exact)
qed

end

lemma picked_length: "length (picked f xs) \<le> length xs"
  by (induction xs) (auto split: option.split)

lemma apic_slices_exact:
  assumes "exact_allocator A" "length es < 2 ^ 32"
  shows "apic_slices A m (counts_of es) = Ok (apic_st m (counts_of es) [])"
proof -
  note less = le_less_trans[OF picked_length assms(2)]
  have "length (picked cpu_of es) - 1 < 2 ^ 32" using less[of cpu_of] by simp
  with less show ?thesis
    by (simp add: apic_slices_def exact_allocator.exact_slice[OF assms(1)] counts_of_def apic_st_def filled_def
        less[of io_apic_of, simplified] less[of override_of, simplified] less[of nmi_source_of, simplified]
        less[of line_of, simplified])
qed

lemma entries_of_length: "length (entries_of raws) \<le> length raws"
  by (induction raws) (auto split: option.split)

subsection \<open>The interrupt model\<close>

text \<open>The model that entries of an APIC system describe.\<close>

definition described_apic :: "madt \<Rightarrow> madt_entry list \<Rightarrow> apic" where
  "described_apic m es =
     \<lparr>local_apic_address =
        (if picked address_of es = [] then ucast (madt_local_apic_address m) else last (picked address_of es)),
      io_apics = map Some (picked io_apic_of es), local_apic_nmi_lines = map Some (picked line_of es),
      interrupt_source_overrides = map Some (picked override_of es),
      nmi_sources = map Some (picked nmi_source_of es), also_has_legacy_pics = bit (madt_flags m) 0\<rparr>"

definition described_processors :: "madt_entry list \<Rightarrow> processor_info" where
  "described_processors es =
     \<lparr>boot_processor = processor_of False (hd (picked cpu_of es)),
      application_processors = map (Some \<circ> processor_of True) (tl (picked cpu_of es))\<rparr>"

text \<open>A table: its header and fields, and the bytes of its entries.\<close>

definition madt_holds :: "view \<Rightarrow> madt \<Rightarrow> bytes list \<Rightarrow> bool" where
  "madt_holds v m raws \<longleftrightarrow>
     read_madt v = (Ok m :: (_, acpi_error) res) \<and> unat (sdt_length (madt_header m)) = 44 + length (concat raws)
     \<and> list_all raw_ok raws \<and> view_holds (view_from v 44) (concat raws)"

lemma madt_holds_entries:
  assumes "madt_holds v m raws"
  shows "madt_entries m = Ok (iter_at 44 raws)" "length raws < 2 ^ 32"
proof -
  have len: "unat (sdt_length (madt_header m)) = 44 + length (concat raws)"
    using assms by (simp add: madt_holds_def)
  then show "madt_entries m = Ok (iter_at 44 raws)" by (simp add: madt_entries_def madt_size_def iter_at_def)
  have "list_all (\<lambda>raw. 0 < length raw) raws"
    using assms by (auto simp: madt_holds_def raw_ok_def list_all_iff)
  then have "length raws \<le> length (concat raws)" by (induction raws) (auto simp: Suc_le_eq add_less_le_mono
        simp flip: length_greater_0_conv)
  then show "length raws < 2 ^ 32" using len unsigned_less[of "sdt_length (madt_header m)", where 'a = nat] by simp
qed

lemma apic_model:
  assumes "wide_bit_field_crate K" "exact_allocator A" "madt_holds v m raws" "length raws < n"
    and "list_all apic_ok (entries_of raws)" "picked cpu_of (entries_of raws) \<noteq> []"
  shows "parse_apic_model n K A v
    = Ok (ApicModel (described_apic m (entries_of raws)), Some (described_processors (entries_of raws)))"
proof -
  let ?es = "entries_of raws"
  note ent = madt_holds_entries[OF assms(3)]
  have loop: "for_entries n v (iter_at 44 raws) f st = (fold_res f ?es st :: (_, acpi_error) res)" for f :: "madt_entry \<Rightarrow> 's \<Rightarrow> _" and st
    using assms(3,4) by (intro for_entries_raws) (simp_all add: madt_holds_def)
  have zero: "zero_counts = counts_of []" by (simp add: zero_counts_def counts_of_def)
  have count: "fold_res count_entry ?es zero_counts = (Ok (counts_of ?es) :: (_, acpi_error) res)"
    using count_pass[OF assms(5), of "[]"] by (simp add: zero)
  have slices: "apic_slices A m (counts_of ?es) = Ok (apic_st m (counts_of ?es) [])"
    using entries_of_length[of raws] ent(2) by (intro apic_slices_exact[OF assms(2)]) simp
  have pass: "fold_res (apic_entry K) ?es (apic_st m (counts_of ?es) []) = Ok (apic_st m (counts_of ?es) ?es)"
    using apic_pass[OF assms(1,5), of m "[]"] by simp
  obtain c cs where cpus: "picked cpu_of ?es = c # cs" using assms(6) by (cases "picked cpu_of ?es") auto
  then have "filled (length cs) (map (processor_of True) cs) = map Some (map (processor_of True) cs)"
    using filled_full[of "map (processor_of True) cs"] by simp
  with cpus show ?thesis
    using assms(3)
    by (simp add: parse_apic_model_def madt_holds_def ent(1) loop count slices pass)
      (simp add: apic_st_def counts_of_def described_apic_def described_processors_def supports_8259_def
        wide_bit_field_crate.get_bit_u32[OF assms(1)])
qed

lemma choose_apic:
  assumes "list_all raw_ok raws" "view_holds (view_from v p) (concat raws)" "length raws < n"
    and "entries_of raws = e # es" "entry_model e = (Ok (Some ()) :: (_, 'e) res)"
  shows "choose_model n v (iter_at p raws) = (Ok (Some ()) :: (_, 'e) res)"
proof -
  obtain k where n: "n = Suc k" using assms(3) by (cases n) auto
  from madt_next_raws[OF assms(1-3), where 'e = 'e] assms(4) obtain it where
    "madt_next n v (iter_at p raws) = (Ok (Some (e, it)) :: (_, 'e) res)" by auto
  with assms(5) show ?thesis by (simp add: n)
qed

lemma interrupt_model_apic:
  assumes "madt_holds v m raws" "length raws < n" "entries_of raws = e # es"
    and "entry_model e = (Ok (Some ()) :: (_, acpi_error) res)"
  shows "parse_interrupt_model n K A v = parse_apic_model n K A v"
  using choose_apic[of raws v 44 n e es, where 'e = acpi_error] assms
  by (simp add: parse_interrupt_model_def madt_holds_entries[OF assms(1)] madt_holds_def)

lemma apic_ok_model: "apic_ok e \<Longrightarrow> entry_model e = Ok (Some ())"
  by (cases e) simp_all

lemma interrupt_model_described:
  assumes "wide_bit_field_crate K" "exact_allocator A" "madt_holds v m raws" "length raws < n"
    and "es = List.map_filter raw_entry raws" "list_all apic_ok es" "List.map_filter cpu_of es \<noteq> []"
  shows "parse_interrupt_model n K A v = Ok (ApicModel (described_apic m es), Some (described_processors es))"
proof -
  have es: "es = entries_of raws" using assms(5) by (simp add: entries_of_def)
  obtain e es' where e: "entries_of raws = e # es'"
    using assms(7) es by (cases "entries_of raws") (simp_all add: List.map_filter_def)
  moreover have "entry_model e = (Ok (Some ()) :: (_, acpi_error) res)"
    using assms(6) es e by (simp add: apic_ok_model)
  ultimately have "parse_interrupt_model n K A v = parse_apic_model n K A v"
    by (rule interrupt_model_apic[OF assms(3,4)])
  with apic_model[OF assms(1-4)] assms(6,7) show ?thesis by (simp add: es picked_def)
qed

subsection \<open>Properties\<close>

text \<open>A table with a processor and an I/O APIC.\<close>

definition two_entries :: "bytes list" where
  "two_entries = [[0, 8, 1, 2, 1, 0, 0, 0], [1, 12, 3, 0, 0, 0, 0xC0, 0xFE, 0, 0, 0, 0]]"

definition madt_head :: bytes where
  "madt_head = [0x41, 0x50, 0x49, 0x43, 64, 0, 0, 0, 5] @ replicate 27 0 @ [0, 0, 0xE0, 0xFE, 1, 0, 0, 0]"

definition madt_view :: view where
  "madt_view = bytes_view (madt_head @ concat two_entries)"

lemma two_entries_ok: "list_all raw_ok two_entries"
  by (simp add: two_entries_def raw_ok_def entry_types_def)

lemma madt_view_holds: "view_holds (view_from madt_view 44) (concat two_entries)"
  using view_holds_from[of madt_view madt_head "concat two_entries"] view_holds_bytes
  by (simp add: madt_view_def madt_head_def)

lemma madt_view_reads: "madt_holds madt_view (madt_of madt_head) two_entries"
proof -
  have "read_madt madt_view = (Ok (madt_of madt_head) :: (_, acpi_error) res)"
    by (simp add: read_madt_def madt_size_def madt_view_def madt_head_def)
  moreover have "sdt_length (madt_header (madt_of madt_head)) = 64"
    by (simp add: madt_of_def sdt_header_of_def u32_at_def madt_head_def)
  ultimately show ?thesis
    using two_entries_ok madt_view_holds by (simp add: madt_holds_def two_entries_def)
qed

text \<open>
  C18. A loop over the entries of the table visits every entry of a known type exactly once, in order,
  skips the reserved ones, and ends, whatever its body does with them: the bytes of well-formed entries are taken apart
  exactly as they were put together.
\<close>

theorem madt_iteration_complete:
  assumes "list_all raw_ok raws" "view_holds (view_from v p) (concat raws)" "length raws < n"
  shows "for_entries n v \<lparr>iter_pointer = p, remaining_length = length (concat raws)\<rparr> f st
    = fold_res f (List.map_filter raw_entry raws) st"
  using for_entries_raws[OF assms] by (simp add: iter_at_def entries_of_def)

theorem madt_iteration_complete_witness:
  "for_entries 3 madt_view \<lparr>iter_pointer = 44, remaining_length = 20\<rparr> count_entry zero_counts
     = (Ok (zero_counts\<lparr>io_apic_count := 1, processor_count := 1\<rparr>) :: (_, acpi_error) res)"
proof -
  have len: "length (concat two_entries) = 20" "length two_entries < 3" by (simp_all add: two_entries_def)
  have "fold_res count_entry (List.map_filter raw_entry two_entries) zero_counts
      = (Ok (zero_counts\<lparr>io_apic_count := 1, processor_count := 1\<rparr>) :: (_, acpi_error) res)"
    by (simp add: two_entries_def List.map_filter_def raw_entry_def entry_types_def zero_counts_def)
  with madt_iteration_complete[OF two_entries_ok madt_view_holds len(2),
      of "count_entry :: _ \<Rightarrow> _ \<Rightarrow> (_, acpi_error) res" zero_counts]
  show ?thesis unfolding len(1) by simp
qed

text \<open>
  C9. For a table of entries of an APIC system that are valid and name a processor, the interrupt model holds
  exactly what the entries describe, in their order: the I/O APICs, the source overrides and NMI sources with the
  polarity and trigger mode of their flags, the NMI lines, and the address of the local APIC with its last
  override. The first processor is the boot processor, the others are application processors. It takes no more
  rounds than there are entries. The allocator always succeeds and returns blocks of exactly the size asked for.
\<close>

theorem apic_model_correct:
  assumes "wide_bit_field_crate K" "exact_allocator A" "madt_holds v m raws" "length raws < n"
    and "es = List.map_filter raw_entry raws" "list_all apic_ok es" "List.map_filter cpu_of es \<noteq> []"
  shows "parse_interrupt_model n K A v = Ok (ApicModel (described_apic m es), Some (described_processors es))"
  using assms by (rule interrupt_model_described)

definition plain_allocator :: allocator where
  "plain_allocator = \<lparr>allocate = (\<lambda>requests bytes. Some bytes), size_of = (\<lambda>elem. 16)\<rparr>"

interpretation plain: exact_allocator plain_allocator
  by unfold_locales (simp_all add: plain_allocator_def)

theorem apic_model_correct_witness:
  "\<exists>apic ps. parse_interrupt_model 3 std_acpi_crates plain_allocator madt_view = Ok (ApicModel apic, Some ps)
     \<and> io_apics apic = [Some \<lparr>ioapic_id = 3, ioapic_address = 0xFEC00000, ioapic_interrupt_base = 0\<rparr>]
     \<and> boot_processor ps = \<lparr>processor_uid = 1, local_apic_id = 2, processor_state = Running, is_ap = False\<rparr>"
proof -
  have "List.map_filter raw_entry two_entries =
      [LocalApic (local_apic_entry_of [0, 8, 1, 2, 1, 0, 0, 0]),
       IoApicE (io_apic_entry_of [1, 12, 3, 0, 0, 0, 0xC0, 0xFE, 0, 0, 0, 0])]" (is "_ = ?es")
    by (simp add: two_entries_def List.map_filter_def raw_entry_def entry_types_def)
  moreover have "length two_entries < 3" by (simp add: two_entries_def)
  ultimately have "parse_interrupt_model 3 std_acpi_crates plain_allocator madt_view
      = Ok (ApicModel (described_apic (madt_of madt_head) ?es), Some (described_processors ?es))"
    using apic_model_correct[OF std_wide.wide_bit_field_crate_axioms plain.exact_allocator_axioms madt_view_reads]
    by (simp add: List.map_filter_def)
  then show ?thesis
    by (simp add: described_apic_def described_processors_def local_apic_entry_of_def io_apic_entry_of_def
        u8_at_def u32_at_def)
qed

lemma zero_entry_next:
  assumes "read_view (view_from v (iter_pointer it)) 2 = (Ok [ty, 0] :: (bytes, 'e) res)"
    and "construct_entry ty (view_from v (iter_pointer it)) = (Ok entry :: (_, 'e) res)" "0 < remaining_length it"
  shows "madt_next n v it = (OutOfFuel :: (_, 'e) res) \<or> (\<exists>e. madt_next n v it = (Ok (Some (e, it)) :: (_, 'e) res))"
proof (induction n)
  case (Suc n)
  then show ?case
    using assms by (cases it; cases entry) (auto simp: madt_next.simps Let_def entry_header_of_def u8_at_def)
qed (simp add: madt_next.simps)

lemma zero_entry_loops:
  assumes "read_view (view_from v (iter_pointer it)) 2 = (Ok [ty, 0] :: (bytes, 'e) res)"
    and "construct_entry ty (view_from v (iter_pointer it)) = (Ok entry :: (_, 'e) res)" "0 < remaining_length it"
  shows "for_entries n v it count_entry st = (OutOfFuel :: (_, 'e) res)"
proof (induction n arbitrary: st)
  case (Suc n)
  have count: "\<exists>st'. count_entry e st = (Ok st' :: (_, 'e) res)" for e by (cases e) simp_all
  from zero_entry_next[OF assms, of "Suc n"] show ?case
  proof
    assume "\<exists>e. madt_next (Suc n) v it = (Ok (Some (e, it)) :: (_, 'e) res)"
    then obtain e where "madt_next (Suc n) v it = (Ok (Some (e, it)) :: (_, 'e) res)" ..
    moreover obtain st' where "count_entry e st = (Ok st' :: (_, 'e) res)" using count by blast
    ultimately show ?case using Suc.IH by simp
  qed simp
qed simp

text \<open>
  C37. An entry whose length is given as zero is visited again and again: no bound on the number of
  rounds is enough for the pass that counts the entries, so that parsing the table never returns.
\<close>

theorem zero_length_entry_diverges:
  assumes "read_madt v = (Ok m :: (_, acpi_error) res)" "madt_entries m = (Ok it :: (_, acpi_error) res)"
    and "remaining_length it > 0"
    and "read_view (view_from v (iter_pointer it)) 2 = (Ok [ty, 0] :: (bytes, acpi_error) res)"
    and "construct_entry ty (view_from v (iter_pointer it)) = (Ok entry :: (_, acpi_error) res)"
  shows "parse_apic_model n K A v = OutOfFuel"
  using zero_entry_loops[OF assms(4,5,3)] assms(1,2) by (simp add: parse_apic_model_def)

text \<open>
  C38. A system whose processors are all described by x2APIC entries: the first pass does not count these, so that the
  slice for the application processors is empty, and the second one panics on the second processor. The allocator always succeeds and returns blocks of exactly the size asked
  for.
\<close>

theorem x2apic_processors_panic:
  assumes "exact_allocator A" "madt_holds v m raws" "length raws < n"
    and "List.map_filter raw_entry raws = map LocalX2Apic (a # b # cs)"
  shows "parse_interrupt_model n K A v = Panic"
proof -
  have es: "entries_of raws = map LocalX2Apic (a # b # cs)" using assms(4) by (simp add: entries_of_def)
  have model: "parse_interrupt_model n K A v = parse_apic_model n K A v"
    by (rule interrupt_model_apic[OF assms(2,3), of "LocalX2Apic a" "map LocalX2Apic (b # cs)"]) (simp_all add: es)
  have "fold_res count_entry (map LocalX2Apic xs) st = (Ok st :: (_, acpi_error) res)" for xs st
    by (induction xs) simp_all
  then have count: "fold_res count_entry (entries_of raws) zero_counts = (Ok zero_counts :: (_, acpi_error) res)"
    by (simp only: es)
  have loop: "for_entries n v (iter_at 44 raws) f st = (fold_res f (entries_of raws) st :: (_, acpi_error) res)"
    for f :: "madt_entry \<Rightarrow> 's \<Rightarrow> _" and st
    using assms(2,3) by (intro for_entries_raws) (simp_all add: madt_holds_def)
  have slices: "apic_slices A m zero_counts = Ok (apic_st m zero_counts [])"
    using apic_slices_exact[OF assms(1), of "[]" m] by (simp add: counts_of_def zero_counts_def)
  have "fold_res (apic_entry K) (entries_of raws) (apic_st m zero_counts []) = Panic"
    by (simp add: es apic_st_def zero_counts_def add_processor_def slice_set_def filled_def Let_def)
  with assms(2) show ?thesis
    by (simp add: model parse_apic_model_def madt_holds_entries[OF assms(2)] madt_holds_def loop count slices)
qed

text \<open>A table of two x2APIC processors, and one whose first entry has no length.\<close>

definition x2apic_entries :: "bytes list" where
  "x2apic_entries = [[9, 16, 0, 0, 1, 0, 0, 0, 1, 0, 0, 0, 1, 0, 0, 0], [9, 16, 0, 0, 2, 0, 0, 0, 1, 0, 0, 0, 2, 0, 0, 0]]"

definition x2apic_head :: bytes where
  "x2apic_head = [0x41, 0x50, 0x49, 0x43, 76, 0, 0, 0, 5] @ replicate 27 0 @ [0, 0, 0xE0, 0xFE, 1, 0, 0, 0]"

theorem x2apic_processors_panic_witness:
  "parse_interrupt_model 3 std_acpi_crates plain_allocator (bytes_view (x2apic_head @ concat x2apic_entries)) = Panic"
proof (rule x2apic_processors_panic[OF plain.exact_allocator_axioms])
  let ?v = "bytes_view (x2apic_head @ concat x2apic_entries)"
  have "read_madt ?v = (Ok (madt_of x2apic_head) :: (_, acpi_error) res)"
    by (simp add: read_madt_def madt_size_def x2apic_head_def)
  moreover have "sdt_length (madt_header (madt_of x2apic_head)) = 76"
    by (simp add: madt_of_def sdt_header_of_def u32_at_def x2apic_head_def)
  moreover have "view_holds (view_from ?v 44) (concat x2apic_entries)"
    using view_holds_from[of ?v x2apic_head "concat x2apic_entries"] view_holds_bytes by (simp add: x2apic_head_def)
  moreover have "list_all raw_ok x2apic_entries" by (simp add: x2apic_entries_def raw_ok_def entry_types_def)
  ultimately show "madt_holds ?v (madt_of x2apic_head) x2apic_entries"
    by (simp add: madt_holds_def) (simp add: x2apic_entries_def)
  show "length x2apic_entries < 3" by (simp add: x2apic_entries_def)
  show "List.map_filter raw_entry x2apic_entries =
      map LocalX2Apic (local_x2apic_entry_of (x2apic_entries ! 0) # local_x2apic_entry_of (x2apic_entries ! 1) # [])"
    by (simp add: x2apic_entries_def List.map_filter_def raw_entry_def entry_types_def)
qed

theorem zero_length_entry_diverges_witness:
  "parse_apic_model 1000 std_acpi_crates plain_allocator (bytes_view (madt_head @ replicate 20 0)) = OutOfFuel"
proof (rule zero_length_entry_diverges)
  let ?v = "bytes_view (madt_head @ replicate 20 0)"
  show "read_madt ?v = (Ok (madt_of madt_head) :: (_, acpi_error) res)"
    by (simp add: read_madt_def madt_size_def madt_head_def)
  have "sdt_length (madt_header (madt_of madt_head)) = 64"
    by (simp add: madt_of_def sdt_header_of_def u32_at_def madt_head_def)
  then show "madt_entries (madt_of madt_head)
      = (Ok \<lparr>iter_pointer = 44, remaining_length = 20\<rparr> :: (_, acpi_error) res)"
    by (simp add: madt_entries_def madt_size_def)
  have holds: "view_holds (view_from ?v 44) (replicate 20 0)"
    using view_holds_from[of ?v madt_head] view_holds_bytes by (simp add: madt_head_def)
  then show "read_view (view_from ?v (iter_pointer \<lparr>iter_pointer = 44, remaining_length = 20\<rparr>)) 2
      = (Ok [0, 0] :: (bytes, acpi_error) res)"
    by (simp add: view_holds_read numeral_2_eq_2)
  show "construct_entry 0 (view_from ?v (iter_pointer \<lparr>iter_pointer = 44, remaining_length = 20\<rparr>))
      = (Ok (Some (LocalApic (local_apic_entry_of (replicate 8 0)))) :: (_, acpi_error) res)"
    using holds by (simp add: construct_entry_def entry_types_def view_holds_read)
qed simp

end
