(* ===== verification/Platform_Correct.thy ===== *)
theory Platform_Correct
  imports Madt_Correct
begin

section \<open>The platform and its devices\<close>

text \<open>
  The register blocks of the fixed description table, the addresses of PCI configuration space, and the view of the
  platform that puts the parts together.
\<close>

subsection \<open>Register blocks\<close>

text \<open>
  The format of a generic address: a byte each for the address space, the width, the offset and the access size, and
  eight bytes of address. The numbers of the spaces from \<open>0xC0\<close> on are the vendor's.
\<close>

fun space_id :: "address_space \<Rightarrow> u8" where
  "space_id SystemMemorySpace = 0x00"
| "space_id SystemIoSpace = 0x01"
| "space_id PciConfigSpace = 0x02"
| "space_id EmbeddedController = 0x03"
| "space_id SMBusSpace = 0x04"
| "space_id SystemCmosSpace = 0x05"
| "space_id PciBarTargetSpace = 0x06"
| "space_id IpmiSpace = 0x07"
| "space_id GeneralIo = 0x08"
| "space_id GenericSerialBusSpace = 0x09"
| "space_id PlatformCommunicationsChannel = 0x0A"
| "space_id FunctionalFixedHardware = 0x7F"
| "space_id (OemDefinedSpace b) = b"

fun size_id :: "access_size \<Rightarrow> u8" where
  "size_id UndefinedSize = 0"
| "size_id ByteSize = 1"
| "size_id WordSize = 2"
| "size_id DWordSize = 3"
| "size_id QWordSize = 4"

definition space_ok :: "address_space \<Rightarrow> bool" where
  "space_ok sp = (case sp of OemDefinedSpace b \<Rightarrow> 0xC0 \<le> unat b | _ \<Rightarrow> True)"

definition encodes_address :: "generic_address \<Rightarrow> bytes \<Rightarrow> bool" where
  "encodes_address g bs \<longleftrightarrow> space_ok (ga_address_space g)
     \<and> bs = [space_id (ga_address_space g), ga_bit_width g, ga_bit_offset g, size_id (ga_access_size g)]
             @ to_le_bytes 8 (unat (ga_address g))"

lemma address_space_from_iff: "address_space_from b = Ok sp \<longleftrightarrow> space_ok sp \<and> space_id sp = b"
  by (cases sp) (auto simp: address_space_from_def space_ok_def word_le_nat_alt)

lemma access_size_try_from_iff: "access_size_try_from b = Ok a \<longleftrightarrow> size_id a = b"
  by (cases a) (auto simp: access_size_try_from_def)

lemma address_errors:
  "(\<exists>sp. address_space_from b = Ok sp) \<or> address_space_from b = Err InvalidGenericAddress"
  "(\<exists>a. access_size_try_from b = Ok a) \<or> access_size_try_from b = Err InvalidGenericAddress"
  by (auto simp: address_space_from_def access_size_try_from_def)

lemma raw_address_bytes:
  assumes "length bs = 12"
  shows "to_le_bytes 8 (unat (u64_at bs 4)) = drop 4 bs"
proof -
  have bs: "length (drop 4 bs) = 8" using assms by simp
  then have "le_value (drop 4 bs) < 2 ^ 64" using le_value_bound[of "drop 4 bs"] by simp
  then have "unat (u64_at bs 4) = le_value (drop 4 bs)" using bs by (simp add: u64_at_def unat_of_nat)
  then show ?thesis using to_le_bytes_le_value[of "drop 4 bs"] bs by simp
qed

text \<open>A generic address is decoded if and only if the bytes are the encoding of one.\<close>

lemma from_raw_iff:
  assumes "length bs = 12"
  shows "from_raw (raw_generic_address_of bs) = Ok g \<longleftrightarrow> encodes_address g bs"
proof -
  obtain b0 b1 b2 b3 as where bs: "bs = [b0, b1, b2, b3] @ as" "length as = 8"
    using assms by (intro that[of "bs ! 0" "bs ! 1" "bs ! 2" "bs ! 3" "drop 4 bs"])
      (auto simp: numeral_eq_Suc Cons_nth_drop_Suc)
  define w where "w = u64_at bs 4"
  have raw: "raw_generic_address_of bs = \<lparr>raw_address_space = b0, raw_bit_width = b1, raw_bit_offset = b2,
      raw_access_size = b3, raw_address = w\<rparr>"
    by (simp add: raw_generic_address_of_def u8_at_def bs(1) w_def)
  have "as = to_le_bytes 8 (unat a) \<longleftrightarrow> a = w" for a :: u64
  proof
    assume "as = to_le_bytes 8 (unat a)"
    moreover have "unat a < 2 ^ LENGTH(64)" by (rule unsigned_less)
    ultimately have "le_value as = unat a" using le_value_to_le_bytes[of 8 "unat a"] by simp
    then show "a = w" by (simp add: w_def u64_at_def bs)
  qed (use raw_address_bytes[OF assms] in \<open>simp add: w_def bs(1)\<close>)
  then show ?thesis
    unfolding raw
    by (cases g) (auto simp: from_raw_def and_then_eq_Ok encodes_address_def address_space_from_iff access_size_try_from_iff
        bs(1))
qed

lemma from_raw_total: "(\<exists>g. from_raw r = Ok g) \<or> from_raw r = Err InvalidGenericAddress"
  using address_errors(1)[of "raw_address_space r"] address_errors(2)[of "raw_access_size r"]
  by (auto simp: from_raw_def)

text \<open>
  The eight register blocks, and where the fixed description table has the legacy address, the length and the extended address of
  each. Two of them every platform has.
\<close>

datatype reg_block = Pm1aEvent | Pm1bEvent | Pm1aControl | Pm1bControl | Pm2Control | PmTimer | Gpe0 | Gpe1

fun legacy_at :: "reg_block \<Rightarrow> nat" where
  "legacy_at Pm1aEvent = 56"
| "legacy_at Pm1bEvent = 60"
| "legacy_at Pm1aControl = 64"
| "legacy_at Pm1bControl = 68"
| "legacy_at Pm2Control = 72"
| "legacy_at PmTimer = 76"
| "legacy_at Gpe0 = 80"
| "legacy_at Gpe1 = 84"

fun length_at :: "reg_block \<Rightarrow> nat" where
  "length_at Pm1aEvent = 88"
| "length_at Pm1bEvent = 88"
| "length_at Pm1aControl = 89"
| "length_at Pm1bControl = 89"
| "length_at Pm2Control = 90"
| "length_at PmTimer = 91"
| "length_at Gpe0 = 92"
| "length_at Gpe1 = 93"

fun extended_at :: "reg_block \<Rightarrow> nat" where
  "extended_at Pm1aEvent = 148"
| "extended_at Pm1bEvent = 160"
| "extended_at Pm1aControl = 172"
| "extended_at Pm1bControl = 184"
| "extended_at Pm2Control = 196"
| "extended_at PmTimer = 208"
| "extended_at Gpe0 = 220"
| "extended_at Gpe1 = 232"

definition required :: "reg_block \<Rightarrow> bool" where
  "required b \<longleftrightarrow> b = Pm1aEvent \<or> b = Pm1aControl"

text \<open>What the accessor of a block returns, a required block as one that is there.\<close>

fun fadt_block :: "reg_block \<Rightarrow> fadt \<Rightarrow> (generic_address option, acpi_error) res" where
  "fadt_block Pm1aEvent f = and_then (pm1a_event_block f) (\<lambda>g. Ok (Some g))"
| "fadt_block Pm1bEvent f = pm1b_event_block f"
| "fadt_block Pm1aControl f = and_then (pm1a_control_block f) (\<lambda>g. Ok (Some g))"
| "fadt_block Pm1bControl f = pm1b_control_block f"
| "fadt_block Pm2Control f = pm2_control_block f"
| "fadt_block PmTimer f = pm_timer_block f"
| "fadt_block Gpe0 f = gpe0_block f"
| "fadt_block Gpe1 f = gpe1_block f"

definition legacy_block :: "u8 \<Rightarrow> bytes \<Rightarrow> generic_address" where
  "legacy_block len address = \<lparr>ga_address_space = SystemIoSpace, ga_bit_width = word_of_nat (8 * unat len), ga_bit_offset = 0,
     ga_access_size = UndefinedSize, ga_address = word_of_nat (le_value address)\<rparr>"

lemma le_value_zero: "le_value bs = 0 \<longleftrightarrow> bs = replicate (length bs) 0"
  by (induction bs) (auto simp: unat_eq_zero)

lemma le_value_word_zero:
  "length bs = 4 \<Longrightarrow> (word_of_nat (le_value bs) :: u32) = 0 \<longleftrightarrow> bs = replicate 4 0"
  "length bs = 8 \<Longrightarrow> (word_of_nat (le_value bs) :: u64) = 0 \<longleftrightarrow> bs = replicate 8 0"
  using le_value_bound[of bs] le_value_zero[of bs] by (simp_all add: word_unat_eq_iff unat_of_nat)

text \<open>Every accessor is the choice between the extended address and the legacy one, at the offsets of the block.\<close>

lemma fadt_block_eq:
  assumes "94 \<le> length bs"
  shows "fadt_block b (fadt_of bs) =
    (if b = PmTimer \<and> bs ! length_at b \<noteq> 4 then Ok None
     else block_or (fadt_of bs) (extended 12 (\<lambda>bs. raw_generic_address_of (drop (extended_at b) bs)) bs (extended_at b))
       (if u32_at bs (legacy_at b) = 0 \<and> \<not> required b then Ok None
        else and_then (io_block (bs ! length_at b) (u32_at bs (legacy_at b))) (\<lambda>g. Ok (Some g))))"
  using assms
  by (cases b) (auto simp: required_def fadt_of_def u8_at_def pm1a_event_block_def pm1b_event_block_def
      pm1a_control_block_def pm1b_control_block_def pm2_control_block_def pm_timer_block_def gpe0_block_def gpe1_block_def
      required_block_def optional_block_def block_or_def ext_access_def io_block_def mul_u8_def
      split: extended_field.splits)

text \<open>
  C23. The register blocks of the fixed description table, all eight of them, from the bytes of the table: from revision 2 on the
  extended address is taken when it is not zero, and the result is a generic address exactly if its twelve bytes are
  the encoding of that address, with a space, width, offset, access size and address of their own; twelve bytes that encode
  no generic address are refused. Otherwise the block is the legacy one in the I/O space, with the width in bits computed from its
  length in bytes; a legacy address of zero means that there is no block, except for the two that are required. A length of 32
  bytes or more, which the table can hold, makes the multiplication overflow. A timer whose length is not four is none.
\<close>

theorem register_blocks_correct:
  assumes "94 \<le> length bs" "2 \<le> bs ! 8 \<longrightarrow> 244 \<le> length bs"
    and "ext = take 12 (drop (extended_at b) bs)" "legacy = take 4 (drop (legacy_at b) bs)" "len = bs ! length_at b"
  shows "if b = PmTimer \<and> len \<noteq> 4 then fadt_block b (fadt_of bs) = Ok None
    else if 2 \<le> bs ! 8 \<and> drop 4 ext \<noteq> replicate 8 0 then
      (\<forall>g. fadt_block b (fadt_of bs) = Ok (Some g) \<longleftrightarrow> encodes_address g ext)
      \<and> ((\<forall>g. \<not> encodes_address g ext) \<longrightarrow> fadt_block b (fadt_of bs) = Err InvalidGenericAddress)
    else if legacy = replicate 4 0 \<and> \<not> required b then fadt_block b (fadt_of bs) = Ok None
    else if unat len < 32 then fadt_block b (fadt_of bs) = Ok (Some (legacy_block len legacy))
    else fadt_block b (fadt_of bs) = Panic"
proof -
  let ?raw = "raw_generic_address_of ext"
  have rev: "fadt_revision (fadt_of bs) = bs ! 8"
    using assms(1) by (simp add: fadt_revision_def fadt_of_def sdt_header_of_def u8_at_def)
  have at: "extended_at b + 12 \<le> 244" "legacy_at b + 4 \<le> 94" by (cases b; simp)+
  have legacy: "length legacy = 4" using assms(1) at(2) by (simp add: assms(4))
  have raw: "raw_generic_address_of (drop (extended_at b) bs) = ?raw" "length ext = 12" if "2 \<le> bs ! 8"
    using that assms(2) at(1)
    by (auto simp: assms(3) raw_generic_address_of_def u8_at_def u64_at_def drop_take)
  have addr: "raw_address ?raw \<noteq> 0 \<longleftrightarrow> drop 4 ext \<noteq> replicate 8 0" if "2 \<le> bs ! 8"
    using le_value_word_zero(2)[of "drop 4 ext"] raw(2)[OF that] by (simp add: raw_generic_address_of_def u64_at_def)
  have ext: "block_or (fadt_of bs) (extended 12 (\<lambda>bs. raw_generic_address_of (drop (extended_at b) bs)) bs (extended_at b)) l
      = (if 2 \<le> bs ! 8 \<and> drop 4 ext \<noteq> replicate 8 0 then and_then (from_raw ?raw) (\<lambda>g. Ok (Some g)) else l)" for l
    using assms(2) at(1) raw(1) addr by (auto simp: block_or_def rev ext_access_def extended_def)
  have io: "and_then (io_block len (u32_at bs (legacy_at b))) (\<lambda>g. Ok (Some g)) =
      (if unat len < 32 then Ok (Some (legacy_block len legacy)) else (Panic :: (_, acpi_error) res))"
    using le_value_bound[of legacy] legacy
    by (auto simp: io_block_def mul_u8_def legacy_block_def u32_at_def assms(4) word_unat_eq_iff unat_of_nat unat_word_ariths
        unsigned_ucast_eq take_bit_nat_eq_self)
  note eq = fadt_block_eq[OF assms(1), of b, folded assms(5), unfolded ext io]
  show ?thesis
    using eq le_value_word_zero(1)[OF legacy] from_raw_iff[OF raw(2)] from_raw_total[of ?raw]
    by (auto simp: and_then_eq_Ok u32_at_def assms(4))
qed

definition gpe_bytes :: bytes where
  "gpe_bytes = replicate 8 0 @ [2] @ replicate 211 0 @ [0, 32, 0, 3, 0x20, 0, 0, 0, 0, 0, 0, 0] @ replicate 12 0"

theorem register_blocks_correct_witness:
  "gpe0_block (fadt_of gpe_bytes) = Ok (Some \<lparr>ga_address_space = SystemMemorySpace, ga_bit_width = 32, ga_bit_offset = 0,
      ga_access_size = DWordSize, ga_address = 0x20\<rparr>)
   \<and> gpe1_block (fadt_of gpe_bytes) = Ok None"
proof -
  let ?g = "\<lparr>ga_address_space = SystemMemorySpace, ga_bit_width = 32, ga_bit_offset = 0,
      ga_access_size = DWordSize, ga_address = 0x20\<rparr>"
  have bs: "length gpe_bytes = 244" "gpe_bytes ! 8 = 2" "take 12 (drop 220 gpe_bytes) = [0, 32, 0, 3, 0x20, 0, 0, 0, 0, 0, 0, 0]"
    "take 12 (drop 232 gpe_bytes) = replicate 12 0" "take 4 (drop 84 gpe_bytes) = replicate 4 0"
    by (simp_all add: gpe_bytes_def nth_append)
  have "encodes_address ?g [0, 32, 0, 3, 0x20, 0, 0, 0, 0, 0, 0, 0]"
    by (simp add: encodes_address_def space_ok_def to_le_bytes_def upt_rec)
  moreover have "[0x20, 0, 0, 0, 0, 0, 0, 0] \<noteq> replicate 8 (0 :: u8)" by (simp add: Cons_replicate_eq)
  ultimately have "fadt_block Gpe0 (fadt_of gpe_bytes) = Ok (Some ?g)"
    using register_blocks_correct[of gpe_bytes _ Gpe0, OF _ _ refl refl refl] bs by simp
  moreover have "fadt_block Gpe1 (fadt_of gpe_bytes) = Ok None"
    using register_blocks_correct[of gpe_bytes _ Gpe1, OF _ _ refl refl refl] bs by (simp add: required_def)
  ultimately show ?thesis by simp
qed

subsection \<open>PCI configuration space\<close>

lemma find_region_found:
  "find_region seg bus (map Some rs) = Ok (find (manages seg bus) rs)"
  by (induction rs) simp_all

lemma bit_less: "(d :: nat) < 2 ^ k \<Longrightarrow> bit d i \<Longrightarrow> i < k"
proof (rule ccontr)
  assume d: "d < 2 ^ k" "bit d i" "\<not> i < k"
  then have "d < 2 ^ i" using power_increasing[of k i "2 :: nat"] by linarith
  with d(2) show False by (simp add: bit_iff_odd)
qed

lemma or_disjoint: "(d :: nat) < 2 ^ k \<Longrightarrow> push_bit k x OR d = 2 ^ k * x + d"
proof -
  assume d: "d < 2 ^ k"
  have "push_bit k x AND d = 0"
    by (rule bit_eqI) (auto simp: bit_simps dest: bit_less[OF d])
  from disjunctive_add_eq_or[OF this] show ?thesis by (simp add: push_bit_eq_mult mult.commute)
qed

lemma function_offset:
  assumes "unat dev < 32" "unat func < 8"
  shows "unat (push_bit 20 (ucast (b :: u8)) OR push_bit 15 (ucast (dev :: u8)) OR push_bit 12 (ucast (func :: u8)) :: u64)
    = unat b * 2 ^ 20 + unat dev * 2 ^ 15 + unat func * 2 ^ 12"
proof -
  have part: "unat (push_bit k (ucast x) :: u64) = push_bit k (unat x)" if "k \<le> 20" for k and x :: u8
  proof -
    have "unat x * 2 ^ k < 256 * 2 ^ k" using unat_u8_lt[of x] by simp
    also have "(256 :: nat) * 2 ^ k \<le> 256 * 2 ^ 20" using that by (intro mult_left_mono power_increasing) simp_all
    finally have less: "unat x * 2 ^ k < 2 ^ 64" by simp
    have "take_bit 64 (unat x) = unat x"
      by (rule take_bit_nat_eq_self) (rule less_trans[OF unat_u8_lt], simp)
    then have "unat (ucast x :: u64) = unat x" by (simp add: unsigned_ucast_eq)
    with less show ?thesis
      by (simp add: unsigned_push_bit_eq) (simp add: push_bit_eq_mult take_bit_nat_eq_self)
  qed
  let ?low = "push_bit 15 (unat dev) OR push_bit 12 (unat func)"
  have f: "push_bit 12 (unat func) < 2 ^ 15" using assms(2) by (simp add: push_bit_eq_mult)
  have low: "?low = 2 ^ 15 * unat dev + 2 ^ 12 * unat func"
    using or_disjoint[OF f] by (simp add: push_bit_eq_mult)
  then have "?low < 2 ^ 20" using assms by simp
  from or_disjoint[OF this, of "unat b"] low show ?thesis
    by (simp add: unsigned_or_eq part or.assoc mult.commute)
qed

text \<open>
  C21. The configuration space of a PCI Express function: for the first region that manages the segment and the
  bus, the address is the base of the region plus one mebibyte for each bus before it, 32 kibibytes for each device and 4
  kibibytes for each function, and the 4096 bytes there lie within the part of the region that
  belongs to the bus. When no region manages the bus there is no address.
\<close>

theorem config_address_correct:
  assumes "unat dev < 32" "unat func < 8"
    and "list_all (\<lambda>r. unat (base_address r) + 256 * 2 ^ 20 \<le> 2 ^ 64) rs"
  shows "case find (manages seg bus) rs of
      None \<Rightarrow> physical_address (map Some rs) seg bus dev func = (Ok None :: (_, 'e) res)
    | Some r \<Rightarrow> \<exists>a. physical_address (map Some rs) seg bus dev func = (Ok (Some a) :: (_, 'e) res)
        \<and> unat a = unat (base_address r) + (unat bus - unat (bus_number_start r)) * 2 ^ 20
                     + unat dev * 2 ^ 15 + unat func * 2 ^ 12
        \<and> unat a + 4096 \<le> unat (base_address r) + (unat (bus - bus_number_start r) + 1) * 2 ^ 20"
proof (cases "find (manages seg bus) rs")
  case None
  then show ?thesis by (simp add: physical_address_def find_region_found)
next
  case (Some r)
  then have r: "r \<in> set rs" "manages seg bus r" by (auto simp: find_Some_iff in_set_conv_nth)
  let ?b = "bus - bus_number_start r"
  let ?off = "push_bit 20 (ucast ?b) OR push_bit 15 (ucast dev) OR push_bit 12 (ucast func) :: u64"
  have b: "unat ?b = unat bus - unat (bus_number_start r)"
    using r(2) by (simp add: manages_def unat_sub)
  note off = function_offset[OF assms(1,2), of ?b]
  have "unat (base_address r) + 256 * 2 ^ 20 \<le> 2 ^ 64" using assms(3) r(1) by (auto simp: list_all_iff)
  moreover have "unat ?b * 2 ^ 20 + unat dev * 2 ^ 15 + unat func * 2 ^ 12 + 4096 \<le> (unat ?b + 1) * 2 ^ 20"
    using assms(1,2) by simp
  moreover have "(unat ?b + 1) * 2 ^ 20 \<le> 256 * 2 ^ 20" using unat_u8_lt[of ?b] by (intro mult_right_mono, linarith) simp
  ultimately have sum: "unat (base_address r) + unat ?off < 2 ^ 64" unfolding off by linarith
  then have "add_u64 (base_address r) ?off = (Ok (base_address r + ?off) :: (_, 'e) res)"
    by (simp add: add_u64_Ok)
  moreover have "unat (base_address r + ?off) = unat (base_address r) + unat ?off"
    using sum by (simp add: unat_add_lem[THEN iffD1])
  ultimately show ?thesis
    using Some off b assms(1,2) by (simp add: physical_address_def find_region_found)
qed

theorem config_address_correct_witness:
  "\<exists>a. physical_address [Some \<lparr>base_address = 0xE0000000, pci_segment_group = 0, bus_number_start = 0,
            bus_number_end = 255, mcfg_reserved = 0\<rparr>] 0 3 1 2 = (Ok (Some a) :: (_, unit) res)
     \<and> unat a = 0xE0000000 + 3 * 2 ^ 20 + 2 ^ 15 + 2 * 2 ^ 12"
  using config_address_correct[of 1 2 "[\<lparr>base_address = 0xE0000000, pci_segment_group = 0, bus_number_start = 0,
            bus_number_end = 255, mcfg_reserved = 0\<rparr>]" 0 3, where 'e = unit]
  by (auto simp: manages_def)

subsection \<open>The platform\<close>

text \<open>The tables listed at \<open>t\<close>, and the first valid one with a signature.\<close>

definition listed_table :: "acpi_handler \<Rightarrow> acpi_tables \<Rightarrow> signature \<Rightarrow> nat option" where
  "listed_table H t sig =
     find (valid_sdt (phys H) sig)
       (table_addresses (phys H) (table_entry_size t) (physical_start (tables_mapping t)))"

context direct_map
begin

lemma listed_found:
  assumes "vm_ok s" "36 \<le> unat (sdt_length (sdt_at (phys H) (physical_start (tables_mapping t))))"
    and "listed_table H t sig = Some a"
  obtains m s' where "find_table H sig t s = Ok (m, s')" "maps_table (phys H) s a m s'"
  using find_table_direct[OF assms(1,2), of sig] assms(3) by (auto simp: listed_table_def)

lemma interrupts_direct:
  assumes "vm_ok s" "36 \<le> unat (sdt_length (sdt_at (phys H) (physical_start (tables_mapping t))))"
    and "case listed_table H t SIG_MADT of
           Some a \<Rightarrow> parse_interrupt_model n K A (total_view (phys H) a) = Ok r
         | None \<Rightarrow> r = (UnknownModel, None)"
  shows "\<exists>v. platform_interrupts n K H A t s = Ok (r, s\<lparr>next_virtual := v\<rparr>)"
proof (cases "listed_table H t SIG_MADT")
  case None
  with find_table_direct[OF assms(1,2), of SIG_MADT] obtain v where
    "find_table H SIG_MADT t s = Err (TableMissing SIG_MADT, s\<lparr>next_virtual := v\<rparr>)"
    by (auto simp: listed_table_def)
  with None assms(3) show ?thesis by (auto simp: platform_interrupts_def)
next
  case (Some a)
  then obtain m s' where "find_table H SIG_MADT t s = Ok (m, s')" "maps_table (phys H) s a m s'"
    using listed_found[OF assms(1,2)] by blast
  with Some assms(3) show ?thesis
    by (auto simp: platform_interrupts_def mact_simps view_direct maps_table_def)
qed

lemma platform_direct:
  assumes "vm_ok s" "36 \<le> unat (sdt_length (sdt_at (phys H) (physical_start (tables_mapping t))))"
    and "listed_table H t SIG_FADT = Some fa" "f = fadt_of (mem_bytes (phys H) fa 276)"
    and "case listed_table H t SIG_MADT of
           Some a \<Rightarrow> parse_interrupt_model n K A (total_view (phys H) a) = Ok r
         | None \<Rightarrow> r = (UnknownModel, None)"
    and "pm_timer_new K f = Ok timer"
  shows "\<exists>v. platform_info_new n K H A t s
    = Ok (\<lparr>power_profile = power_profile_of f, interrupt_model = fst r, processor_info = snd r, pm_timer = timer\<rparr>,
          s\<lparr>next_virtual := v\<rparr>)"
proof -
  obtain m s1 where m: "find_table H SIG_FADT t s = Ok (m, s1)" "maps_table (phys H) s fa m s1"
    using listed_found[OF assms(1,2,3)] by blast
  then have "vm_ok s1" by (simp add: maps_table_def)
  from interrupts_direct[OF this assms(2,5)] obtain v where
    v: "platform_interrupts n K H A t s1 = Ok (r, s1\<lparr>next_virtual := v\<rparr>)" by blast
  have "unmap_state m (s1\<lparr>next_virtual := v\<rparr>) = (unmap_state m s1)\<lparr>next_virtual := v\<rparr>"
    by (simp add: unmap_state_def)
  with m v assms(4,6) show ?thesis
    by (auto simp: platform_info_new_def mact_simps view_direct read_fadt_direct maps_table_def prod.case_eq_if)
qed

end

subsection \<open>The regions and the event timer, from the tables\<close>

text \<open>The entries of the configuration table at \<open>a\<close>: as many whole ones as its length allows.\<close>

definition mcfg_at :: "(nat \<Rightarrow> u8) \<Rightarrow> nat \<Rightarrow> mcfg_entry list" where
  "mcfg_at memory a =
     map (\<lambda>i. mcfg_entry_of (mem_bytes memory (a + 44 + i * 16) 16))
       [0..<(unat (sdt_length (sdt_at memory a)) - 44) div 16]"

lemma mcfg_entry_of_take: "mcfg_entry_of (take 16 bs) = mcfg_entry_of bs"
  by (simp add: mcfg_entry_of_def u64_at_def u32_at_def u16_at_def u8_at_def take_drop min_def)

lemma mcfg_entry_of_mem: "16 \<le> k \<Longrightarrow> mcfg_entry_of (mem_bytes memory p k) = mcfg_entry_of (mem_bytes memory p 16)"
  using mcfg_entry_of_take[of "mem_bytes memory p k"] by (simp add: min_def)

lemma mcfg_entries_total:
  assumes "44 \<le> unat (sdt_length (sdt_at memory a))"
  shows "mcfg_entries (total_view memory a) = Ok (mcfg_at memory a)"
proof -
  let ?n = "(unat (sdt_length (sdt_at memory a)) - 44) div 16"
  have "mcfg_entry_of (mem_bytes memory p (?n * 16 - i * 16)) = mcfg_entry_of (mem_bytes memory p 16)"
    if "i < ?n" for i p
    using that by (intro mcfg_entry_of_mem) (simp add: diff_mult_distrib[symmetric])
  with assms show ?thesis
    by (simp add: mcfg_entries_def mcfg_size_def mcfg_entry_size_def mcfg_at_def Let_def)
qed

lemma mcfg_at_length: "length (mcfg_at memory a) < 2 ^ 32"
proof -
  have "(unat (sdt_length (sdt_at memory a)) - 44) div 16 \<le> unat (sdt_length (sdt_at memory a))" by linarith
  also have "\<dots> < 2 ^ 32" using unsigned_less[of "sdt_length (sdt_at memory a)", where 'a = nat] by simp
  finally show ?thesis by (simp add: mcfg_at_def)
qed

text \<open>Calling \<open>next\<close> until it returns nothing.\<close>

fun config_list :: "nat \<Rightarrow> pci_config_iter \<Rightarrow> (pci_config_entry list, 'e) res" where
  "config_list 0 it = OutOfFuel"
| "config_list (Suc n) it =
     and_then (pci_config_next it) (\<lambda>(entry, it').
       case entry of
         None \<Rightarrow> Ok []
       | Some e \<Rightarrow> and_then (config_list n it') (\<lambda>es. Ok (e # es)))"

lemma config_list_from:
  assumes "length rs < i + n" "i \<le> length rs"
  shows "config_list n \<lparr>config_entries = map Some rs, config_index = i\<rparr>
    = (Ok (map config_entry_of (drop i rs)) :: (_, 'e) res)"
  using assms
proof (induction n arbitrary: i)
  case (Suc n)
  show ?case
  proof (cases "i < length rs")
    case True
    with Suc.IH[of "Suc i"] Suc.prems have
      "config_list n \<lparr>config_entries = map Some rs, config_index = Suc i\<rparr>
        = (Ok (map config_entry_of (drop (Suc i) rs)) :: (_, 'e) res)"
      by simp
    with True show ?thesis by (simp add: pci_config_next_def Cons_nth_drop_Suc[symmetric])
  qed (use Suc.prems in \<open>simp add: pci_config_next_def\<close>)
qed simp

context direct_map
begin

lemma config_regions_direct:
  assumes "vm_ok s" "36 \<le> unat (sdt_length (sdt_at (phys H) (physical_start (tables_mapping t))))"
    and "listed_table H t SIG_MCFG = Some a" "44 \<le> unat (sdt_length (sdt_at (phys H) a))" "exact_allocator A"
  shows "\<exists>v. pci_config_regions_new H A t s = Ok (map Some (mcfg_at (phys H) a), s\<lparr>next_virtual := v\<rparr>)"
proof -
  obtain m s' where m: "find_table H SIG_MCFG t s = Ok (m, s')" "maps_table (phys H) s a m s'"
    using listed_found[OF assms(1,2,3)] by blast
  then show ?thesis
    by (simp add: pci_config_regions_new_def mact_simps view_direct maps_table_def mcfg_entries_total[OF assms(4)]
        copy_from_slice_def exact_allocator.exact_slice[OF assms(5) mcfg_at_length]) blast
qed

end

text \<open>
  C22. The regions of configuration space, from the table to the user, on a handler that keeps all memory mapped: the
  regions are the entries of the first valid MCFG, rounded down to whole entries, in their order. The
  iterator returns each of them once and then ends, and no mapping made on the way stays live. The allocator always succeeds and returns blocks of exactly the size
  asked for.
\<close>

theorem config_regions_correct:
  assumes "direct_map H" "vm_ok s" "exact_allocator A"
    and "36 \<le> unat (sdt_length (sdt_at (phys H) (physical_start (tables_mapping t))))"
    and "listed_table H t SIG_MCFG = Some a" "44 \<le> unat (sdt_length (sdt_at (phys H) a))"
    and "length (mcfg_at (phys H) a) < n"
  shows "\<exists>regions s'. pci_config_regions_new H A t s = Ok (regions, s') \<and> live s' = live s
    \<and> regions = map Some (mcfg_at (phys H) a)
    \<and> config_list n (pci_config_regions_iter regions) = (Ok (map config_entry_of (mcfg_at (phys H) a)) :: (_, 'e) res)"
proof -
  from direct_map.config_regions_direct[OF assms(1,2,4-6,3)] obtain v where
    "pci_config_regions_new H A t s = Ok (map Some (mcfg_at (phys H) a), s\<lparr>next_virtual := v\<rparr>)" by blast
  then show ?thesis
    using config_list_from[of "mcfg_at (phys H) a" 0 n, where 'e = 'e] assms(7)
    by (simp add: pci_config_regions_iter_def)
qed

text \<open>A machine with a table of tables at 0 and an MCFG with one region at 40.\<close>

definition mcfg_rsdt :: bytes where
  "mcfg_rsdt = [
     82, 83, 68, 84, 40, 0, 0, 0, 0, 115, 0, 0, 0, 0, 0, 0, 0, 0, 0, 0, 0, 0, 0, 0, 0, 0, 0, 0, 0, 0, 0,
     0, 0, 0, 0, 0, 40, 0, 0, 0]"

definition mcfg_bytes :: bytes where
  "mcfg_bytes = [
     77, 67, 70, 71, 60, 0, 0, 0, 1, 199, 0, 0, 0, 0, 0, 0, 0, 0, 0, 0, 0, 0, 0, 0, 0, 0, 0, 0, 0, 0, 0,
     0, 0, 0, 0, 0, 0, 0, 0, 0, 0, 0, 0, 0, 0, 0, 0, 224, 0, 0, 0, 0, 0, 0, 0, 255, 0, 0, 0, 0]"

definition mcfg_tables :: acpi_tables where
  "mcfg_tables = \<lparr>tables_mapping = mapping_new 0 0 36 36, tables_revision = 0\<rparr>"

definition mcfg_memory :: "nat \<Rightarrow> u8" where
  "mcfg_memory = image (mcfg_rsdt @ mcfg_bytes)"

lemma mcfg_parts:
  "n \<le> 40 \<Longrightarrow> mem_bytes mcfg_memory 0 n = take n mcfg_rsdt"
  "n \<le> 60 \<Longrightarrow> mem_bytes mcfg_memory 40 n = take n mcfg_bytes"
  "mem_bytes mcfg_memory 36 4 = drop 36 mcfg_rsdt" "mem_bytes mcfg_memory 84 16 = drop 44 mcfg_bytes"
proof -
  have "length mcfg_rsdt = 40" "length mcfg_bytes = 60" by (simp_all add: mcfg_rsdt_def mcfg_bytes_def)
  then show "n \<le> 40 \<Longrightarrow> mem_bytes mcfg_memory 0 n = take n mcfg_rsdt"
    "n \<le> 60 \<Longrightarrow> mem_bytes mcfg_memory 40 n = take n mcfg_bytes"
    "mem_bytes mcfg_memory 36 4 = drop 36 mcfg_rsdt" "mem_bytes mcfg_memory 84 16 = drop 44 mcfg_bytes"
    by (simp_all add: mcfg_memory_def mem_bytes_image)
qed

lemmas mcfg_simps = sdt_at_def sdt_header_of_def u8_at_def u32_at_def mcfg_parts mcfg_rsdt_def mcfg_bytes_def

lemma mcfg_machine:
  "sdt_length (sdt_at mcfg_memory 0) = 40" "sdt_length (sdt_at mcfg_memory 40) = 60"
  "table_addresses mcfg_memory 4 0 = [40]" "valid_sdt mcfg_memory SIG_MCFG 40"
  "mcfg_at mcfg_memory 40 = [\<lparr>base_address = 0xE0000000, pci_segment_group = 0, bus_number_start = 0,
     bus_number_end = 255, mcfg_reserved = 0\<rparr>]"
proof -
  show len: "sdt_length (sdt_at mcfg_memory 0) = 40" "sdt_length (sdt_at mcfg_memory 40) = 60"
    by (simp_all add: mcfg_simps)
  show "table_addresses mcfg_memory 4 0 = [40]"
    by (simp add: table_addresses_def len) (simp add: mcfg_simps)
  show "valid_sdt mcfg_memory SIG_MCFG 40"
    by (simp add: valid_sdt_def sdt_bytes_def len sum_bytes_def SIG_MCFG_def sig_of_def mcfg_simps)
  show "mcfg_at mcfg_memory 40 = [\<lparr>base_address = 0xE0000000, pci_segment_group = 0, bus_number_start = 0,
     bus_number_end = 255, mcfg_reserved = 0\<rparr>]"
    by (simp add: mcfg_at_def len) (simp add: mcfg_simps mcfg_entry_of_def u64_at_def u16_at_def)
qed

theorem config_regions_correct_witness:
  "\<exists>regions s'. pci_config_regions_new (direct_handler mcfg_memory) plain_allocator mcfg_tables no_mappings = Ok (regions, s')
     \<and> config_list 2 (pci_config_regions_iter regions)
       = (Ok [\<lparr>segment_group = 0, bus_range = (0, 255), entry_physical_address = 0xE0000000\<rparr>] :: (_, unit) res)"
proof -
  let ?H = "direct_handler mcfg_memory"
  have phys: "phys ?H = mcfg_memory" by (simp add: direct_handler_def)
  have "listed_table ?H mcfg_tables SIG_MCFG = Some 40"
    by (simp add: listed_table_def phys mcfg_tables_def table_entry_size_def mcfg_machine)
  with config_regions_correct[OF direct.direct_map_axioms no_mappings_ok plain.exact_allocator_axioms _ this, of 2, where 'e = unit]
  have "\<exists>regions s'. pci_config_regions_new ?H plain_allocator mcfg_tables no_mappings = Ok (regions, s')
      \<and> config_list 2 (pci_config_regions_iter regions) = (Ok (map config_entry_of (mcfg_at mcfg_memory 40)) :: (_, unit) res)"
    by (simp only: phys) (fastforce simp: mcfg_machine mcfg_tables_def)
  then show ?thesis by (simp add: mcfg_machine config_entry_of_def)
qed

lemma page_protection_unat:
  "page_protection_of x = (if unat x = 0 then Ok NoProtection else if unat x = 1 then Ok Protected4K
      else if unat x = 2 then Ok Protected64K else if unat x \<le> 15 then Ok OtherProtection else Panic)"
  by (simp add: page_protection_of_def word_unat_eq_iff word_le_nat_alt)

lemma page_protection_low:
  "page_protection_of (take_bit 4 b) = Ok ([NoProtection, Protected4K, Protected64K, OtherProtection] ! min 3 (unat b mod 16))"
proof -
  have low: "unat (take_bit 4 b) = unat b mod 16"
    by (simp only: unsigned_take_bit_eq) (simp add: take_bit_eq_mod)
  have "unat b mod 16 < 16" by simp
  then consider "unat b mod 16 = 0" | "unat b mod 16 = 1" | "unat b mod 16 = 2" | "3 \<le> unat b mod 16" "unat b mod 16 \<le> 15"
    by linarith
  then show ?thesis by cases (simp_all add: page_protection_unat low min_def)
qed

text \<open>
  The event timer, on a handler that keeps all memory mapped: the information about the first valid HPET is what the
  table says, with the page protection in the low four bits of its last byte. It
  never panics when the timer is in memory, and always when it is not.
\<close>

theorem hpet_info_correct:
  assumes "direct_map H" "vm_ok s" "wide_bit_field_crate K"
    and "36 \<le> unat (sdt_length (sdt_at (phys H) (physical_start (tables_mapping t))))"
    and "listed_table H t SIG_HPET = Some a" "h = hpet_table_of (mem_bytes (phys H) a 56)"
  shows "if raw_address_space (hpet_base_address h) = 0
    then \<exists>info s'. hpet_info_new K H t s = Ok (info, s') \<and> live s' = live s
      \<and> event_timer_block_id info = hpet_event_timer_block_id h
      \<and> hpet_address info = unat (raw_address (hpet_base_address h))
      \<and> hpet_number info = hpet_hpet_number h \<and> clock_tick_unit info = hpet_clock_tick_unit h
      \<and> page_protection info = [NoProtection, Protected4K, Protected64K, OtherProtection]
          ! min 3 (unat (hpet_page_protection_and_oem h) mod 16)
    else hpet_info_new K H t s = Panic"
proof -
  from direct_map.listed_found[OF assms(1,2,4,5)] obtain m s'
    where m: "find_table H SIG_HPET t s = Ok (m, s')" "maps_table (phys H) s a m s'" by blast
  have bits: "get_bits_u8 K x 0 4 = take_bit 4 x" for x
    using bit_field_crate.get_bits_u8[OF wide_bit_field_crate.axioms(1)[OF assms(3)], of 0 4 x] by simp
  from m show ?thesis
    using assms(6)
    by (auto simp: hpet_info_new_def mact_simps direct_map.view_direct[OF assms(1)] maps_table_def hpet_table_size_def
        Let_def bits page_protection_low)
qed

text \<open>
  C10. The view of the platform on a handler that keeps all memory mapped: the power profile and the timer of the
  first valid FADT, and the interrupt controllers and processors that the entries of the first
  valid MADT describe, or an unknown model without processors when there is no valid one. No mapping made on the way stays
  live. The allocator always succeeds and returns blocks of exactly the size asked for.
\<close>

theorem platform_info_correct:
  assumes "direct_map H" "vm_ok s" "wide_bit_field_crate K" "exact_allocator A"
    and "36 \<le> unat (sdt_length (sdt_at (phys H) (physical_start (tables_mapping t))))"
    and "listed_table H t SIG_FADT = Some fa" "f = fadt_of (mem_bytes (phys H) fa 276)" "pm_timer_new K f = Ok timer"
    and "listed_table H t SIG_MADT = Some ma \<longrightarrow>
           madt_holds (total_view (phys H) ma) m raws \<and> length raws < n \<and> es = List.map_filter raw_entry raws
           \<and> list_all apic_ok es \<and> List.map_filter cpu_of es \<noteq> []"
    and "listed_table H t SIG_MADT = None \<or> listed_table H t SIG_MADT = Some ma"
  shows "\<exists>info s'. platform_info_new n K H A t s = Ok (info, s') \<and> live s' = live s
    \<and> power_profile info = power_profile_of f \<and> pm_timer info = timer
    \<and> (interrupt_model info, processor_info info) =
        (if listed_table H t SIG_MADT = None then (UnknownModel, None)
         else (ApicModel (described_apic m es), Some (described_processors es)))"
proof -
  let ?r = "if listed_table H t SIG_MADT = None then (UnknownModel, None)
         else (ApicModel (described_apic m es), Some (described_processors es))"
  have "case listed_table H t SIG_MADT of
           Some a \<Rightarrow> parse_interrupt_model n K A (total_view (phys H) a) = Ok ?r
         | None \<Rightarrow> ?r = (UnknownModel, None)"
    using assms(10) interrupt_model_described[OF assms(3,4), of "total_view (phys H) ma" m raws n es] assms(9)
    by (auto split: option.split)
  from direct_map.platform_direct[OF assms(1,2,5,6,7) this assms(8)] show ?thesis by fastforce
qed

text \<open>
  A machine with a table of tables at 0, an MADT with a processor and an I/O APIC at 44, and an FADT at 108.
\<close>

definition apic_rsdt :: bytes where
  "apic_rsdt = [0x52, 0x53, 0x44, 0x54, 44, 0, 0, 0, 0, 255,
     0, 0, 0, 0, 0, 0, 0, 0, 0, 0, 0, 0, 0, 0, 0, 0, 0, 0, 0, 0, 0, 0, 0, 0, 0, 0,
     44, 0, 0, 0, 108, 0, 0, 0]"

definition apic_head :: bytes where
  "apic_head = [0x41, 0x50, 0x49, 0x43, 64, 0, 0, 0, 5, 229,
     0, 0, 0, 0, 0, 0, 0, 0, 0, 0, 0, 0, 0, 0, 0, 0, 0, 0, 0, 0, 0, 0, 0, 0, 0, 0,
     0, 0, 0xE0, 0xFE, 1, 0, 0, 0]"

definition apic_image :: bytes where
  "apic_image = apic_rsdt @ (apic_head @ concat two_entries) @ fadt_image @ replicate 232 0"

definition apic_tables :: acpi_tables where
  "apic_tables = \<lparr>tables_mapping = mapping_new 0 0 36 36, tables_revision = 0\<rparr>"

lemma length_apic_parts:
  "length apic_rsdt = 44" "length apic_head = 44" "length (concat two_entries) = 20"
  by (simp_all add: apic_rsdt_def apic_head_def two_entries_def)

lemma apic_image_parts:
  "n \<le> 44 \<Longrightarrow> mem_bytes (image apic_image) 0 n = take n apic_rsdt"
  "n \<le> 64 \<Longrightarrow> mem_bytes (image apic_image) 44 n = take n (apic_head @ concat two_entries)"
  "n \<le> 276 \<Longrightarrow> mem_bytes (image apic_image) 108 n = take n (fadt_image @ replicate 232 0)"
  "mem_bytes (image apic_image) 36 4 = take 4 (drop 36 apic_rsdt)"
  "mem_bytes (image apic_image) 40 4 = drop 40 apic_rsdt"
  "mem_bytes (image apic_image) 88 20 = concat two_entries"
  by (simp_all add: mem_bytes_image apic_image_def length_apic_parts length_images)

lemmas apic_simps = sdt_at_def sdt_header_of_def u8_at_def u32_at_def apic_image_parts apic_rsdt_def
  apic_head_def two_entries_def fadt_image_def

lemma apic_lengths:
  "sdt_length (sdt_at (image apic_image) 0) = 44" "sdt_length (sdt_at (image apic_image) 44) = 64"
  "sdt_length (sdt_at (image apic_image) 108) = 44"
  by (simp_all add: apic_simps)

lemma apic_sdts:
  "valid_sdt (image apic_image) SIG_MADT 44" "\<not> valid_sdt (image apic_image) SIG_FADT 44"
  "valid_sdt (image apic_image) SIG_FADT 108"
  by (simp_all add: valid_sdt_def sdt_bytes_def apic_lengths sum_bytes_def SIG_MADT_def SIG_FADT_def sig_of_def apic_simps)

lemma apic_addresses: "table_addresses (image apic_image) 4 0 = [44, 108]"
  by (simp add: table_addresses_def apic_lengths) (simp add: apic_simps upt_rec)

lemma apic_timer: "pm_timer_new K (fadt_of (mem_bytes (image apic_image) 108 276)) = Ok None"
proof -
  have "fadt_pm_timer_length (fadt_of (mem_bytes (image apic_image) 108 276)) = 0"
    by (simp add: fadt_of_def u8_at_def nth_append apic_image_parts length_images)
  then show ?thesis by (simp add: pm_timer_new_def pm_timer_block_def)
qed

lemma apic_madt: "madt_holds (total_view (image apic_image) 44) (madt_of apic_head) two_entries"
proof -
  have "read_madt (total_view (image apic_image) 44) = (Ok (madt_of apic_head) :: (_, acpi_error) res)"
    by (simp add: read_madt_def madt_size_def apic_image_parts) (simp add: apic_head_def)
  moreover have "sdt_length (madt_header (madt_of apic_head)) = 64"
    by (simp add: madt_of_def sdt_header_of_def u32_at_def apic_head_def)
  moreover have "view_holds (total_view (image apic_image) 88) (concat two_entries)"
    unfolding apic_image_parts(6)[symmetric] by (simp add: view_holds_def list_all_iff total_view_def)
  ultimately show ?thesis
    using two_entries_ok by (simp add: madt_holds_def two_entries_def)
qed

theorem platform_info_correct_witness:
  "\<exists>info s'. platform_info_new 3 std_acpi_crates (direct_handler (image apic_image)) plain_allocator apic_tables no_mappings
       = Ok (info, s') \<and> live s' = [] \<and> pm_timer info = None
     \<and> map_option boot_processor (processor_info info)
       = Some \<lparr>processor_uid = 1, local_apic_id = 2, processor_state = Running, is_ap = False\<rparr>"
proof -
  let ?H = "direct_handler (image apic_image)"
  have es: "List.map_filter raw_entry two_entries =
      [LocalApic (local_apic_entry_of [0, 8, 1, 2, 1, 0, 0, 0]),
       IoApicE (io_apic_entry_of [1, 12, 3, 0, 0, 0, 0xC0, 0xFE, 0, 0, 0, 0])]"
    by (simp add: two_entries_def List.map_filter_def raw_entry_def entry_types_def)
  have phys: "phys ?H = image apic_image" by (simp add: direct_handler_def)
  have tables: "listed_table ?H apic_tables SIG_FADT = Some 108" "listed_table ?H apic_tables SIG_MADT = Some 44"
    by (simp_all add: listed_table_def apic_tables_def table_entry_size_def phys apic_addresses apic_sdts)
  have "list_all apic_ok (List.map_filter raw_entry two_entries)"
    "List.map_filter cpu_of (List.map_filter raw_entry two_entries) \<noteq> []" "length two_entries < 3"
    unfolding es
    by (simp_all add: List.map_filter_def local_apic_entry_of_def io_apic_entry_of_def u8_at_def two_entries_def)
  then have "\<exists>info s'. platform_info_new 3 std_acpi_crates ?H plain_allocator apic_tables no_mappings = Ok (info, s')
      \<and> live s' = live no_mappings
      \<and> power_profile info = power_profile_of (fadt_of (mem_bytes (image apic_image) 108 276)) \<and> pm_timer info = None
      \<and> (interrupt_model info, processor_info info) =
        (if listed_table ?H apic_tables SIG_MADT = None then (UnknownModel, None)
         else (ApicModel (described_apic (madt_of apic_head) (List.map_filter raw_entry two_entries)),
               Some (described_processors (List.map_filter raw_entry two_entries))))"
    by (intro platform_info_correct[OF direct.direct_map_axioms no_mappings_ok std_wide.wide_bit_field_crate_axioms
          plain.exact_allocator_axioms _ tables(1), where ma = 44 and raws = two_entries])
      (simp_all add: phys tables apic_timer apic_madt, simp add: apic_tables_def apic_lengths)
  then obtain info s' where "platform_info_new 3 std_acpi_crates ?H plain_allocator apic_tables no_mappings = Ok (info, s')"
    "live s' = live no_mappings" "pm_timer info = None"
    "processor_info info = Some (described_processors (List.map_filter raw_entry two_entries))"
    by (auto simp: tables)
  then show ?thesis
    unfolding es
    by (simp add: no_mappings_def described_processors_def local_apic_entry_of_def u8_at_def u32_at_def List.map_filter_def)
qed

end
