(* ===== verification/Spec2Isabelle.thy ===== *)
theory Spec2Isabelle
  imports Program_Equiv Program_Calls Unit_Tests Acpi_Dumper Pci_Correct Platform_Correct
begin

text \<open>
  \<^bold>\<open>A verification development for acpi-rs.\<close>

  The repository holds three crates that an operating system kernel uses to learn about its
  machine from the firmware. The crate \<open>rsdp\<close> finds the root pointer in physical memory, \<open>acpi\<close> finds, validates and decodes the
  tables it leads to, and \<open>aml\<close> loads the byte code of the tables DSDT and SSDT into a namespace and interprets
  its methods. The development models the three crates and proves what makes each part correct, down to the composition: from the
  root pointer over the tables to the names the interpreter knows (\<open>firmware_to_namespace\<close> below).

  \<^bold>\<open>Conventions.\<close> A function that can fail returns a value of \<open>res\<close> (theory \<open>Prelude\<close>): \<open>Ok\<close>, \<open>Err\<close> with the error of the
  sources, \<open>Panic\<close> (a panic, an arithmetic overflow, or undefined behaviour of an unsafe read), \<open>Deadlock\<close> (a spin lock
  taken twice) or \<open>OutOfFuel\<close>. Integers keep their width as words; arithmetic that the sources leave unchecked is checked, as
  in a build with overflow checks; \<open>usize\<close> has 64 bits. The crates \<open>bit_field\<close>, \<open>byteorder\<close> and \<open>bitvec\<close>, the \<open>Handler\<close> of the
  interpreter, the \<open>AcpiHandler\<close> and the allocator are code of others: parameters of the definitions that use
  them (\<open>crates\<close>, \<open>aml_env\<close>, \<open>acpi_crates\<close>, \<open>acpi_handler\<close>, \<open>allocator\<close>), and what is known of
  them stands in locales (\<open>bit_field_crate\<close>, \<open>byteorder_crate\<close>, \<open>bitvec_crate\<close>, \<open>resource_crates\<close>,
  \<open>wide_bit_field_crate\<close>, \<open>handler_contract\<close>, \<open>direct_map\<close>, \<open>strict_handler\<close>, \<open>slice_allocator\<close>, \<open>exact_allocator\<close>,
  \<open>asl_compiler\<close>), each interpreted on concrete functions. A \<open>Handler\<close> answers from what happened before, and may panic at any call.

  \<^bold>\<open>The interpreter\<close> (\<open>src/aml/src\<close>).
  \<^item> \<open>Aml_Types\<close>: the data of \<open>value.rs\<close>, \<open>namespace.rs\<close>, \<open>name_object.rs\<close> and the errors of \<open>lib.rs\<close>.
  \<^item> \<open>Aml_Name\<close>: names of \<open>namespace.rs\<close> and segments of \<open>name_object.rs\<close>, with their string form and resolution.
  \<^item> \<open>Namespace\<close>: the namespace of \<open>namespace.rs\<close>: a tree of levels with handles, and the map from handles to
    objects. Invariant and operations in \<open>Namespace_Props\<close>, \<open>Namespace_Inv\<close>, \<open>Namespace_Search\<close>.
  \<^item> \<open>Aml_Context\<close>, \<open>Aml_Value\<close>: \<open>AmlContext\<close> of \<open>lib.rs\<close> as the record \<open>aml_context\<close>, passed from call to call; buffers, which the sources share, live in
    a store inside it, with the locks that are held and the log of what the handler was asked to do. Values, their
    conversions, fields and regions (\<open>value.rs\<close>, \<open>lib.rs\<close>).
  \<^item> \<open>Aml_Opcode\<close>, \<open>Aml_Parser\<close>: the constants of \<open>opcode.rs\<close>, the combinators of \<open>parser.rs\<close>, package lengths, opcodes, names, locals and arguments.
  \<^item> \<open>Aml_Expression\<close>, \<open>Aml_Statement\<close>, \<open>Aml_Term\<close>: the parsers of \<open>expression.rs\<close>, \<open>statement.rs\<close> and \<open>term_object.rs\<close>, which
    also execute what they parse. They call each other through the record \<open>rec_parsers\<close>, which \<open>Aml_Interp\<close> ties together by
    recursion on fuel; it also has \<open>parse_table\<close>, \<open>invoke\<close> and \<open>initialize_objects\<close> of \<open>lib.rs\<close>.
  \<^item> \<open>Resource\<close>, \<open>Pci_Routing\<close>: \<open>resource.rs\<close> and \<open>pci_routing.rs\<close>.
  \<^item> \<open>Unit_Tests\<close>: the unit tests of the crate with the helpers of \<open>test_utils.rs\<close>, run on the model. \<open>Aml_Tester\<close>:
    \<open>aml_tester/src/main.rs\<close>, which compiles the sources of a directory and loads every table. \<open>Acpi_Dumper\<close>:
    \<open>acpi-dumper/src/main.rs\<close>, which copies the tables of the running system.

  \<^bold>\<open>The tables\<close> (\<open>src/rsdp/src\<close> and \<open>src/acpi/src\<close>).
  \<^item> \<open>Phys_Mem\<close>: \<open>rsdp/src/handler.rs\<close>. Physical memory is a function; the state \<open>vmem\<close> has the mappings that are live. A mapping that
    goes out of scope is unmapped (\<open>dropping\<close>); a read that the handler does not allow is a panic.
  \<^item> \<open>Rsdp\<close>: \<open>rsdp/src/lib.rs\<close>. \<open>Sdt\<close>: \<open>sdt.rs\<close>. \<open>Fadt\<close>: \<open>address.rs\<close> and \<open>fadt.rs\<close>. \<open>Acpi_Tables\<close>: \<open>lib.rs\<close>.
  \<^item> \<open>Madt\<close>: \<open>madt.rs\<close>, \<open>managed_slice.rs\<close>, \<open>platform/interrupt.rs\<close> and the processors of \<open>platform/mod.rs\<close>.
    \<open>Mcfg\<close>: \<open>mcfg.rs\<close>. \<open>Platform\<close>: \<open>hpet.rs\<close>, \<open>bgrt.rs\<close> and the rest of \<open>platform/mod.rs\<close>.

  \<^bold>\<open>What the theorems show.\<close>
  \<^item> Safety of the interpreter: \<open>Aml_Logic\<close> has a program logic for the parsers and actions, \<open>Aml_Safety\<close> and the
    theories after it prove that every opcode keeps the invariant \<open>ctx_ok\<close>; below, whole sessions of calls are shown to keep it
    (\<open>session_keeps_invariant\<close>, \<open>invoke_result_valid\<close>).
  \<^item> Fuel: \<open>Aml_Fuel\<close> proves that more fuel never changes an outcome, which \<open>Program_Equiv\<close> builds on. A \<open>While\<close> loop of the byte code, recursive methods and the entries of a MADT
    may go on forever, so no amount is enough for all inputs; the theorems that give a result say how much is enough for theirs.
  \<^item> Correctness of the interpreter: the byte code of expressions (\<open>Expression_Correct\<close>) and of structured programs, for which
    \<open>Program_Correct\<close> has a big-step semantics that the interpreter agrees with whenever it gives an outcome, and
    \<open>Program_Equiv\<close> shows that it runs out of every fuel when it gives none. Expressions and programs may call methods and read
    named objects; what they rely on is the locale \<open>callees\<close>, and \<open>Program_Calls\<close> establishes it for libraries of
    methods that meet their specifications, to any depth of calls; recursive methods are not among them, as the code does not support them, which
    \<open>recursive_call_fails\<close> shows. Calls of single methods and the loading of definitions (\<open>Method_Correct\<close>); names, package lengths and constants (\<open>Parser_Correct\<close>), values, fields and stores (\<open>Value_Correct\<close>), resource
    templates and interrupt routing (\<open>Resource_Correct\<close>, \<open>Pci_Correct\<close>), and the namespace (below).
  \<^item> Correctness of the tables: what validation accepts, the search for root pointer and tables, the way to the
    DSDT (\<open>Acpi_Correct\<close>); iteration over the MADT and the interrupt model (\<open>Madt_Correct\<close>); register blocks, configuration
    space, the event timer and the view of the platform (\<open>Platform_Correct\<close>).
  \<^item> Where the code goes wrong, a theorem says how: a name collision overwrites, a method that calls itself fails and leaves its scope
    set, a preserving write clears its neighbours, a wide buffer field that starts inside a byte is read at the wrong place, a relative link panics, a strict handler loses the table it has just read, the
    iterator over SSDTs does not move, a zero length diverges, x2APIC processors panic.

  \<^bold>\<open>Not modelled.\<close> The fuzz target, which calls \<open>AmlContext::new\<close> with an argument too many and does not
  compile; the command lines, the logger and the printed messages of the tools. The text of log and debug messages, and the \<open>Debug\<close> and \<open>Display\<close> output of types; the indentation
  that the messages keep in the context is modelled. Alignment of pointers, and memory that runs out in the global
  allocator.
\<close>

section \<open>Sessions with the interpreter\<close>

text \<open>
  The calls a user of the library makes on an interpreter: loading a table, invoking a method
  with values that refer to nothing inside the interpreter, initialising the objects, and building
  the interrupt routing table of a bus and routing a pin by it. Every call may fail, after which the user goes on with the context the call has left.
\<close>

datatype api_call = LoadTable bytes | Invoke aml_name "aml_value list" | InitObjects
  | RoutePin aml_name u16 u16 pin

definition plain_args :: "aml_value list \<Rightarrow> bool" where
  "plain_args vs \<longleftrightarrow> length vs \<le> 7 \<and> list_all (value_ok 0 {}) vs"

fun legal_call :: "api_call \<Rightarrow> bool" where
  "legal_call (Invoke path vs) \<longleftrightarrow> is_absolute path \<and> plain_args vs"
| "legal_call (RoutePin path dev func p) \<longleftrightarrow> is_absolute path"
| "legal_call _ \<longleftrightarrow> True"

fun run_call :: "aml_env \<Rightarrow> nat \<Rightarrow> api_call \<Rightarrow> unit act" where
  "run_call E n (LoadTable stream) = parse_table E n stream"
| "run_call E n (Invoke path vs) =
     act_bind (pure_res (args_from_list vs)) (\<lambda>a. act_bind (invoke E n path a) (\<lambda>_. ret ()))"
| "run_call E n InitObjects = initialize_objects E n"
| "run_call E n (RoutePin path dev func p) =
     act_bind (from_prt_path E n path) (\<lambda>table. act_bind (route E n table dev func p) (\<lambda>_. ret ()))"

definition api_exec :: "aml_env \<Rightarrow> nat \<Rightarrow> api_call \<Rightarrow> unit act" where
  "api_exec E n call c = (if legal_call call then run_call E n call c else Panic)"

lemma plain_args_ok:
  assumes "plain_args vs"
  shows "\<exists>a. args_from_list vs = Ok a \<and> length a = 7 \<and> (\<forall>c. list_ok (opt_ok vok) c a)"
proof -
  have "vok c v" if "v \<in> set vs" for c v
    using assms that value_ok_mono[of 0 "{}" v] by (auto simp: plain_args_def list_all_iff vok_def)
  with assms show ?thesis
    by (auto simp: plain_args_def args_from_list_def Let_def list_ok_def opt_ok_def)
qed

lemma asat_run_call:
  assumes "host_ok E" "legal_call call"
  shows "asat (\<lambda>_. True) (run_call E n call) any any"
proof (cases call)
  case (LoadTable s)
  then show ?thesis using assms(1) by (simp add: asat_parse_table stable_def)
next
  case (Invoke path vs)
  with assms(2) obtain a where a: "args_from_list vs = Ok a" "length a = 7" "\<And>c. list_ok (opt_ok vok) c a"
    using plain_args_ok by auto
  have "asat (\<lambda>_. True) (invoke E n path a) vok any"
    by (rule asat_invoke) (use assms Invoke a in \<open>simp_all add: stable_def abs_ok_def\<close>)
  then have "asat (\<lambda>_. True) (act_bind (invoke E n path a) (\<lambda>_. ret ())) any any"
    by (rule asat_bind) (rule asat_intros stable_intros | simp)+
  moreover have "act_bind (pure_res (Ok a)) f = f a" for f :: "args \<Rightarrow> unit act"
    by (rule ext) (simp add: act_bind_def reads_def)
  ultimately show ?thesis by (simp add: Invoke a(1))
next
  case InitObjects
  then show ?thesis using asat_initialize_objects[OF assms(1)] by simp
next
  case (RoutePin path dev func p)
  with assms(2) have "is_absolute path" by simp
  then show ?thesis
    unfolding RoutePin run_call.simps
    by - (rule asat_from_prt_path asat_route asat_intros stable_intros assms(1) | assumption | simp add: any_simp)+
qed

lemma act_post_post_state: "act_post c Q QE r \<Longrightarrow> post_state (\<lambda>c'. ctx_ok c' \<and> ctx_step c c') r"
  by (cases "(c, Q, QE, r)" rule: act_post.cases) (auto simp: post_state_def)

lemma stateful_ops_api:
  assumes "host_ok E"
  shows "stateful_ops (api_exec E n) ctx_ok ctx_step"
proof
  fix s call
  assume "ctx_ok s"
  then show "post_state (\<lambda>s'. ctx_ok s' \<and> ctx_step s s') (api_exec E n call s)"
    using act_post_post_state[OF asatD[OF asat_run_call[OF assms, of call n]], of s]
    by (cases "legal_call call") (simp_all add: api_exec_def)
qed (auto intro: ctx_step_trans)

text \<open>
  C1. Whatever sequence of calls the user makes on a new interpreter, with whatever tables,
  going on after errors: the invariant of the context holds at every point. Every name
  refers to an object that exists, every value refers to buffers and regions that exist, the
  scope is absolute, a running method has its eight locals and seven arguments. From any point of
  the session to a later one no object or buffer is lost, the handler's log only grows, no lock stays
  held and the indentation never falls. The native methods of the host are assumed to keep
  the invariant.
\<close>

theorem session_keeps_invariant:
  assumes "host_ok E" "aml_context_new K d = Ok ((), c0)"
    "stateful_ops.reach (api_exec E n) c0 c" "stateful_ops.reach (api_exec E n) c c'"
  shows "ctx_ok c \<and> ctx_ok c' \<and> ctx_step c c' \<and> locked c' = []"
proof -
  have "ctx_ok c0 \<and> locked c0 = []"
    using assms(2) ctx_ok_new[of K d] by (auto simp: aml_context_new_eq)
  moreover note stateful_ops.reach_keeps[OF stateful_ops_api[OF assms(1)]]
  ultimately show ?thesis using assms(3,4) by (metis ctx_step_def)
qed

theorem session_keeps_invariant_witness:
  "ctx_ok (snd (case aml_context_new std_crates NoVerbosity of Ok p \<Rightarrow> p | _ \<Rightarrow> ((), blank_context)))"
proof -
  obtain c0 where c0: "aml_context_new std_crates NoVerbosity = Ok ((), c0)" by (simp add: aml_context_new_eq)
  note reach = stateful_ops.reach.intros[OF stateful_ops_api[OF std_env_host_ok, of 1]]
  have "api_exec std_env 1 (LoadTable []) c0 = Err (UnexpectedEndOfStream, c0)"
    by (simp add: api_exec_def parse_table_def fail_def)
  with reach(3)[OF reach(1)] have r: "stateful_ops.reach (api_exec std_env 1) c0 c0" .
  from session_keeps_invariant[OF std_env_host_ok c0 r r] show ?thesis by (simp add: c0)
qed

text \<open>
  C11. Invoking a method from a valid context with valid arguments: if it returns, its result refers
  only to buffers and regions that exist afterwards, and on every outcome the context keeps
  the invariant.
\<close>

theorem invoke_result_valid:
  assumes "host_ok E" "ctx_ok c" "is_absolute path" "length a = 7" "\<forall>v. Some v \<in> set a \<longrightarrow> vok c v"
  shows "(\<forall>v c'. invoke E n path a c = Ok (v, c') \<longrightarrow> vok c' v \<and> ctx_ok c' \<and> ctx_step c c')
       \<and> (\<forall>e c'. invoke E n path a c = Err (e, c') \<longrightarrow> ctx_ok c' \<and> ctx_step c c')"
proof -
  have "asat (\<lambda>c'. ctx_le c c') (invoke E n path a) vok any"
  proof (rule asat_invoke[OF assms(1)])
    show "list_ok (opt_ok vok) c' a" if "ctx_le c c'" for c'
      using assms(5) vok_mono[OF that] by (auto simp: list_ok_def opt_ok_def)
  qed (use assms in \<open>auto simp: stable_def abs_ok_def intro: ctx_le_trans\<close>)
  from asatD[OF this assms(2)] show ?thesis by auto
qed

theorem invoke_result_valid_witness:
  "invoke std_env 3 (abs_path [seg_A]) args_empty (blank_context\<lparr>ns := ns_with (Integer 5)\<rparr>)
       = Ok (Integer 5, blank_context\<lparr>ns := ns_with (Integer 5)\<rparr>)
   \<and> ctx_ok (blank_context\<lparr>ns := ns_with (Integer 5)\<rparr>)"
proof -
  let ?c = "blank_context\<lparr>ns := ns_with (Integer 5)\<rparr>"
  have "invoke std_env 3 (abs_path [seg_A]) args_empty ?c = Ok (Integer 5, ?c)"
    by (simp add: invoke_def invoke_method_def act_bind_def reads_def ret_def)
  moreover have "ctx_ok ?c"
    by (simp add: ctx_ok_def blank_context_def ns_with_wf root_name_def) (simp add: ns_with_def)
  moreover have "is_absolute (abs_path [seg_A])" "length args_empty = 7"
    "\<forall>v. Some v \<in> set args_empty \<longrightarrow> vok ?c v" by (simp_all add: args_empty_def)
  note invoke_result_valid[OF std_env_host_ok \<open>ctx_ok ?c\<close> this, of 3]
  ultimately show ?thesis by blast
qed

section \<open>The namespace\<close>

text \<open>
  C13. Whatever sequence of operations runs on the namespace, starting from an empty one and
  going on after errors, every name refers to an object that exists, every object's handle
  lies below the counter of handles, the maps of all levels are ordered, and no object that
  once existed is lost.
\<close>

theorem namespace_always_wf:
  assumes "ns_ops.reach namespace_new s" "ns_ops.reach s t"
  shows "ns_wf t \<and> ns_grows s t"
proof -
  have "ns_wf s" using ns_ops.reach_keeps[OF assms(1)] by simp
  then show ?thesis using ns_ops.reach_keeps[OF assms(2)] by simp
qed

theorem namespace_always_wf_witness: "ns_wf ns_A"
proof -
  have "ns_exec (AddValue [Root, Segment seg_A] (Integer 5)) namespace_new = Ok ((), ns_A)"
    by (simp add: add_A_to_empty forget_def)
  then have "ns_ops.reach namespace_new ns_A" by (blast intro: ns_ops.reach.intros)
  with namespace_always_wf[OF ns_ops.reach_start this] show ?thesis by simp
qed

text \<open>
  C14. Adding an object that succeeds: the name was free, the handle is new, exactly this name
  and this object are added, and looking the name up gives the object.
\<close>

theorem add_value_correct:
  assumes "ns_wf n" "add_value n (abs_path (dir @ [seg])) v = Ok (h, n')"
  shows "handle_at n dir seg = None \<and> object_at n h = None
       \<and> handle_at n' = (\<lambda>d s. if d = dir \<and> s = seg then Some h else handle_at n d s)
       \<and> object_at n' = (object_at n)(h \<mapsto> v)
       \<and> get_by_path n' (abs_path (dir @ [seg])) = Ok v"
  using add_value_success[OF assms] by blast

theorem add_value_correct_witness:
  "get_by_path ns_A (abs_path ([] @ [seg_A])) = Ok (Integer 5)"
  using add_value_correct[OF ns_wf_new, of "[]" seg_A "Integer 5" 0 ns_A] add_A_to_empty
  by (simp add: abs_path_def)

text \<open>
  C35. Adding an object under a name that is in use reports the collision, but only after it has
  put the new object in the place of the old one: looking the name up afterwards gives the
  rejected value.
\<close>

theorem name_collision_overwrites:
  assumes "ns_wf n" "next_handle n \<noteq> - 1" "handle_at n dir seg = Some h"
  shows "\<exists>n'. add_value n (abs_path (dir @ [seg])) v = Err (NameCollision (abs_path (dir @ [seg])), n')
            \<and> get_by_path n' (abs_path (dir @ [seg])) = Ok v"
proof -
  let ?n1 = "n\<lparr>next_handle := next_handle n + 1, object_map := btree_insert (next_handle n) v (object_map n)\<rparr>"
  from assms(3) obtain level where level: "level_at n dir = Some level" "map_of (level_values level) seg = Some h"
    by (auto simp: handle_at_def split: option.split_asm)
  let ?n2 = "write_level ?n1 dir (with_values level (btree_insert seg (next_handle n) (level_values level)))"
  have add: "add_value n (abs_path (dir @ [seg])) v = Err (NameCollision (abs_path (dir @ [seg])), ?n2)"
    using add_value_abs[OF assms(2) refl, of dir seg v] level assms(3) by (simp add: Let_def)
  have at: "level_at ?n1 dir = Some level" using level(1) by simp
  have "handle_at ?n2 dir seg = Some (next_handle n)" by (simp add: handle_at_write_values[OF at])
  moreover have "level_at ?n2 dir \<noteq> None"
    using level_at_write_values[OF at, of _ dir] at by (metis option.distinct(1))
  ultimately have "get_handle ?n2 (abs_path (dir @ [seg])) = Ok (next_handle n)"
    by (auto simp: handle_at_get_handle split: option.splits)
  then show ?thesis using add by (auto simp: get_by_path_def ns_get_def)
qed

theorem name_collision_overwrites_witness:
  "\<exists>n'. add_value ns_A (abs_path ([] @ [seg_A])) (Integer 6) = Err (NameCollision (abs_path ([] @ [seg_A])), n')
      \<and> get_by_path n' (abs_path ([] @ [seg_A])) = Ok (Integer 6)"
  by (rule name_collision_overwrites[OF ns_A_wf, of "[]" seg_A 0]) (simp_all add: ns_A_def handle_at_def)

text \<open>
  C15. Searching for a name of one segment follows the search rules of the specification: the name
  is looked up in the scope, then in each enclosing scope up to the root, and the
  nearest hit is returned with its full path; without a hit the search ends with the error for
  a value that does not exist. A missing level on the way is no error.
\<close>

theorem search_finds_nearest:
  "search n [Segment s] (abs_path dir) =
     (case find (\<lambda>d. handle_at n d s \<noteq> None) (ancestors dir) of
        Some d \<Rightarrow> Ok (abs_path (d @ [s]), the (handle_at n d s))
      | None \<Rightarrow> Err (ValueDoesNotExist [Segment s]))
   \<and> set (ancestors dir) = {d. prefix d dir} \<and> sorted_wrt (\<lambda>d d'. length d' < length d) (ancestors dir)"
proof -
  have "sorted_wrt (\<lambda>d d'. length d' < length d) (ancestors dir)"
  proof (induction dir)
    case (Cons s ss)
    then show ?case by (auto simp: sorted_wrt_append sorted_wrt_map)
  qed simp
  then show ?thesis using search_seg ancestors_iff by auto
qed

text \<open>
  C16. A traversal whose visitor always goes on visits every level of the namespace exactly once,
  with its path, the root first.
\<close>

theorem traverse_visits_once:
  assumes "ns_wf n"
  shows "\<exists>visited. traverse n collect [] = Ok ((), visited) \<and> distinct (map fst visited)
     \<and> set visited = {(abs_path dir, l) | dir l. level_at n dir = Some l}
     \<and> hd visited = (root_name, root_level n)"
proof -
  let ?cs = "children (root_level n)"
  let ?t = "([], root_level n) # tree_list ?cs []"
  have ok: "btree_ok ?cs" "\<forall>(_, c) \<in> set ?cs. level_ok c"
    using assms by (auto simp: ns_wf_def level_ok_iff[of "root_level n"])
  have set: "(d, l) \<in> set ?t \<longleftrightarrow> level_at n d = Some l" for d l
    using tree_list_set[OF ok, of d l "[]"] by (cases d) (auto split: option.splits)
  have "([], l) \<notin> set (tree_list ?cs [])" for l
    using tree_list_set[OF ok, of "[]" l "[]"] by simp
  then have dist: "distinct (map fst ?t)" using tree_list_distinct[OF ok, of "[]"] by auto
  have "map fst (map (map_prod abs_path id) ?t) = map abs_path (map fst ?t)" by simp
  with dist have "distinct (map fst (map (map_prod abs_path id) ?t))"
    by (simp only: distinct_map) (auto simp: inj_on_def)
  moreover have "set (map (map_prod abs_path id) ?t) = {(abs_path dir, l) | dir l. level_at n dir = Some l}"
  proof -
    have "set ?t = {(d, l). level_at n d = Some l}" using set by auto
    moreover have "map_prod abs_path id ` {(d, l). level_at n d = Some l}
        = {(abs_path dir, l) | dir l. level_at n dir = Some l}" by force
    ultimately show ?thesis by (simp only: set_map)
  qed
  ultimately show ?thesis
    by (intro exI[of _ "map (map_prod abs_path id) ?t"]) (simp add: traverse_collect root_name_abs)
qed

theorem traverse_visits_once_witness:
  "\<exists>visited. traverse ns_A collect [] = Ok ((), visited) \<and> distinct (map fst visited)
     \<and> hd visited = (root_name, root_level ns_A)"
  using traverse_visits_once[OF ns_A_wf] by blast

text \<open>
  C26. Names and their strings: every name that has a string form is read back from it, and every
  string that is accepted gives a name that has one.
\<close>

theorem name_string_form_roundtrip:
  "(wf_name n \<longrightarrow> from_str (as_string n) = Ok n) \<and> (from_str s = Ok m \<longrightarrow> wf_name m \<and> from_str (as_string m) = Ok m)"
  using from_str_as_string from_str_wf by blast

theorem name_string_form_roundtrip_witness:
  "from_str (as_string [Root, Segment seg_A]) = Ok [Root, Segment seg_A]"
  using name_string_form_roundtrip[of "[Root, Segment seg_A]" "[]" "[]"]
  by (simp add: wf_name_def seg_A_def is_lead_name_char_def is_name_char_def)

text \<open>
  C17. Resolving a relative path against a scope is the walk through the tree of names that the
  path describes, in which a prefix character leaves the current level; a path that leaves the
  root is an error. An absolute path is returned as it is, prefix characters included,
  although the documentation promises a normalised name; looking up such a path panics.
\<close>

theorem resolve_is_walk:
  assumes "Root \<notin> set p"
  shows "resolve p (abs_path dir) =
      (case path_walk dir p of
         Some dir' \<Rightarrow> Ok (abs_path dir')
       | None \<Rightarrow> Err (InvalidNormalizedName (abs_path dir @ p)))
    \<and> resolve (Root # p) (abs_path dir) = Ok (Root # p)
    \<and> get_handle n (Root # Prefix # Segment s # []) = Panic"
  using resolve_relative[OF assms]
  by (simp add: resolve_def get_handle_def get_level_for_path_def split_path_def root_name_def)

theorem resolve_is_walk_witness:
  "resolve [Prefix, Segment seg_A] (abs_path [seg_A]) = Ok (abs_path [seg_A])"
  using resolve_is_walk[of "[Prefix, Segment seg_A]" "[seg_A]"] by simp

section \<open>From the firmware to the namespace\<close>

lemma new_names_free:
  "handle_at (predefined_ns K) [] s = None \<longleftrightarrow>
     s \<notin> {seg_of 0x4F 0x53 0x5F, seg_of 0x4F 0x53 0x49, seg_of 0x52 0x45 0x56}"
  by (auto simp: handle_at_def predefined_ns_def)

lemma new_interpreter_loads:
  assumes "distinct (map fst defs)" "defs \<noteq> []" "length defs < n" "length defs < 2 ^ 31"
    and "length (encode_names defs) < 2 ^ 32"
    and "list_all (\<lambda>(s, w). valid_seg s \<and> s \<notin> {seg_of 0x4F 0x53 0x5F, seg_of 0x4F 0x53 0x49, seg_of 0x52 0x45 0x56}) defs"
    and "host_ok E"
  shows "\<exists>c'. parse_table E n (encode_names defs) (new_context K NoVerbosity) = Ok ((), c') \<and> ctx_ok c'
    \<and> (\<forall>s w. (s, w) \<in> set defs \<longrightarrow> get_by_path (ns c') (abs_path [s]) = Ok (Integer w))"
proof -
  let ?c = "new_context K NoVerbosity"
  have "ns_wf (ns ?c)" using ctx_ok_new[of K NoVerbosity] by (simp add: ctx_ok_def)
  moreover have "list_all (\<lambda>(s, w). valid_seg s \<and> handle_at (ns ?c) [] s = None) defs"
    using assms(6) by (simp add: new_names_free)
  moreover have "unat (next_handle (ns ?c)) + length defs < 2 ^ 32" using assms(4) by (simp add: predefined_ns_def)
  ultimately obtain n' where n': "parse_table E n (encode_names defs) ?c = Ok ((), ?c\<lparr>ns := n'\<rparr>)"
    "names_added [] defs (ns ?c) n'"
    using names_table_loads[of ?c "[]" defs n E] assms by (auto simp: root_name_abs)
  have "ctx_ok (?c\<lparr>ns := n'\<rparr>)"
    using act_post_post_state[OF asatD[OF asat_run_call[OF assms(7), of "LoadTable (encode_names defs)" n]
          ctx_ok_new[of K NoVerbosity]]] n'(1) by simp
  with n' names_added_get[OF n'(2)] show ?thesis by auto
qed

text \<open>
  C6. From the firmware to the namespace, on a handler that has all memory mapped: a machine whose root pointer leads to a valid DSDT of name definitions, each an integer constant under a name of one segment, and a new
  interpreter. The table is found, its bytes are loaded without an error, and every name the firmware defines
  can then be looked up with its value. The interpreter keeps its invariant, and of physical memory
  only the table of tables stays mapped.
\<close>

theorem firmware_to_namespace:
  assumes "direct_map H" "vm_ok s" "valid_rsdp (phys H) a"
    and "r = rsdp_at (phys H) a" "valid_sdt (phys H) (root_signature r) (root_address r)"
    and "36 \<le> unat (sdt_length (sdt_at (phys H) (root_address r)))"
    and "find (valid_sdt (phys H) SIG_FADT)
           (table_addresses (phys H) (if rsdp_revision r = 0 then 4 else 8) (root_address r)) = Some fa"
    and "dsdt_address (fadt_of (mem_bytes (phys H) fa 276)) = Ok d"
    and "valid_sdt (phys H) SIG_DSDT d" "36 \<le> unat (sdt_length (sdt_at (phys H) d))"
    and "drop 36 (sdt_bytes (phys H) d) = encode_names defs"
    and "distinct (map fst defs)" "defs \<noteq> []" "length defs < n" "length defs < 2 ^ 31"
    and "list_all (\<lambda>(s, w). valid_seg s \<and> s \<notin> {seg_of 0x4F 0x53 0x5F, seg_of 0x4F 0x53 0x49, seg_of 0x52 0x45 0x56}) defs"
    and "host_ok E"
  shows "\<exists>t s1 table s2 c c'. from_rsdp H a s = Ok (t, s1) \<and> dsdt H t s1 = Ok (table, s2)
    \<and> live s2 = virtual_start (tables_mapping t) # live s
    \<and> aml_context_new K NoVerbosity = Ok ((), c)
    \<and> parse_table E n (mem_bytes (phys H) (at_address table) (unat (at_length table))) c = Ok ((), c') \<and> ctx_ok c'
    \<and> (\<forall>s w. (s, w) \<in> set defs \<longrightarrow> get_by_path (ns c') (abs_path [s]) = Ok (Integer w))"
proof -
  from dsdt_reached[OF assms(1-10)] obtain t s1 table s2 where
    t: "from_rsdp H a s = Ok (t, s1)" "dsdt H t s1 = Ok (table, s2)"
    "mem_bytes (phys H) (at_address table) (unat (at_length table)) = drop 36 (sdt_bytes (phys H) d)"
    "live s2 = virtual_start (tables_mapping t) # live s" by blast
  have "length (encode_names defs) \<le> unat (sdt_length (sdt_at (phys H) d))"
    by (simp add: assms(11)[symmetric] sdt_bytes_def)
  also have "\<dots> < 2 ^ 32" using unsigned_less[of "sdt_length (sdt_at (phys H) d)", where 'a = nat] by simp
  finally show ?thesis
    using new_interpreter_loads[OF assms(12-15) _ assms(16,17), of K] t assms(11) aml_context_new_eq[of K NoVerbosity] by auto
qed

theorem firmware_to_namespace_witness:
  "\<exists>t s1 table s2 c c'. from_rsdp small_handler 0 no_mappings = Ok (t, s1) \<and> dsdt small_handler t s1 = Ok (table, s2)
     \<and> aml_context_new std_env NoVerbosity = Ok ((), c)
     \<and> parse_table std_env 2 (mem_bytes (phys small_handler) (at_address table) (unat (at_length table))) c = Ok ((), c')
     \<and> get_by_path (ns c') (abs_path [seg_A]) = Ok (Integer 5)"
proof -
  have H: "direct_map small_handler" unfolding small_handler_def by (rule direct.direct_map_axioms)
  have code: "drop 36 (sdt_bytes (image small_image) 120) = encode_names [(seg_A, 5)]"
    by (simp add: sdt_bytes_def small_lengths small_image_parts)
      (simp add: dsdt_image_def encode_names_def encode_name_def seg_A_def encode_integer_def Let_def to_le_bytes_def)
  have seg: "valid_seg seg_A" "seg_A \<notin> {seg_of 0x4F 0x53 0x5F, seg_of 0x4F 0x53 0x49, seg_of 0x52 0x45 0x56}"
    by (simp_all add: seg_A_def is_lead_name_char_def is_name_char_def)
  from firmware_to_namespace[OF H no_mappings_ok, of 0 "rsdp_at (image small_image) 0" 76 120 "[(seg_A, 5)]" 2 std_env std_env]
  show ?thesis using code seg std_env_host_ok by (auto simp: small_machine small_dsdt_address)
qed

end
